(* ===== verification/Prelude.thy ===== *)
theory Prelude
  imports Main "HOL-Library.AList" "HOL-Library.Char_ord" "HOL-Library.List_Lexorder"
begin

text \<open>
  Shared vocabulary of the development: bytes and strings, Go maps, the Go string
  functions the components call, and the interface locales that several components
  provide. A Go string and a \<open>[]byte\<close> are both a list of \<open>char\<close> (one char is one byte).
  A Go map is an association list with distinct keys whose list order stands for the
  order in which \<open>range\<close> happens to visit it: theorems hold for every order.
  A \<open>time.Time\<close> is the number of nanoseconds since the zero time
  (1 January of year 1, UTC), a \<open>time.Duration\<close> a number of nanoseconds.
\<close>

named_theorems go_map \<open>lookup equations of Go maps\<close>
named_theorems str_simps \<open>evaluation of string helpers\<close>

section \<open>Types\<close>

type_synonym bytes = string
type_synonym time = int
type_synonym duration = int
type_synonym ('k, 'v) gomap = "('k \<times> 'v) list"

abbreviation second :: duration where "second \<equiv> 1000000000"
abbreviation minute :: duration where "minute \<equiv> 60000000000"
abbreviation hour :: duration where "hour \<equiv> 3600000000000"

section \<open>Go maps\<close>

definition map_wf :: "('k, 'v) gomap \<Rightarrow> bool" where
  "map_wf m \<longleftrightarrow> distinct (map fst m)"

definition get :: "('k, 'v) gomap \<Rightarrow> 'k \<Rightarrow> 'v option" where
  "get m k = map_of m k"

definition put :: "'k \<Rightarrow> 'v \<Rightarrow> ('k, 'v) gomap \<Rightarrow> ('k, 'v) gomap" where
  "put k v m = AList.update k v m"

definition del :: "'k \<Rightarrow> ('k, 'v) gomap \<Rightarrow> ('k, 'v) gomap" where
  "del k m = AList.delete k m"

text \<open>Deleting, while ranging over the map, every entry that satisfies a condition.\<close>

definition drop_if :: "('k \<Rightarrow> 'v \<Rightarrow> bool) \<Rightarrow> ('k, 'v) gomap \<Rightarrow> ('k, 'v) gomap" where
  "drop_if P m = filter (\<lambda>(k, v). \<not> P k v) m"

lemma get_Nil [simp, go_map]: "get [] k = None"
  by (simp add: get_def)

lemma get_Cons [simp]: "get ((a, v) # m) k = (if k = a then Some v else get m k)"
  by (simp add: get_def)

lemma get_put [simp, go_map]: "get (put k v m) j = (if j = k then Some v else get m j)"
  by (auto simp: get_def put_def update_conv')

lemma get_del [simp, go_map]: "get (del k m) j = (if j = k then None else get m j)"
  by (auto simp: get_def del_def delete_conv')

lemma wf_Nil [simp]: "map_wf []"
  by (simp add: map_wf_def)

lemma wf_put [simp, intro]: "map_wf m \<Longrightarrow> map_wf (put k v m)"
  by (simp add: map_wf_def put_def distinct_update)

lemma wf_del [simp, intro]: "map_wf m \<Longrightarrow> map_wf (del k m)"
  by (simp add: map_wf_def del_def distinct_delete)

lemma wf_drop_if [simp, intro]: "map_wf m \<Longrightarrow> map_wf (drop_if P m)"
  by (simp add: map_wf_def drop_if_def distinct_map_filter)

lemma get_in_set: "map_wf m \<Longrightarrow> get m k = Some v \<longleftrightarrow> (k, v) \<in> set m"
  by (simp add: map_wf_def get_def)

lemma get_Some_in_set: "get m k = Some v \<Longrightarrow> (k, v) \<in> set m"
  by (simp add: get_def map_of_SomeD)

lemma get_drop_if [go_map]:
  "map_wf m \<Longrightarrow>
   get (drop_if P m) k = (case get m k of None \<Rightarrow> None | Some v \<Rightarrow> if P k v then None else Some v)"
proof (induction m)
  case (Cons e m)
  obtain a w where e: "e = (a, w)" by force
  have "a \<notin> fst ` set m" using Cons.prems e by (simp add: map_wf_def)
  then have "get (drop_if P m) a = None" "get m a = None"
    by (auto simp: get_def drop_if_def map_of_eq_None_iff)
  moreover have "map_wf m" using Cons.prems by (simp add: map_wf_def)
  ultimately show ?case
    using Cons.IH e by (auto simp: drop_if_def split: option.splits)
qed (simp add: drop_if_def)

lemma get_key_mem: "get m k \<noteq> None \<longleftrightarrow> k \<in> fst ` set m"
  by (simp add: get_def map_of_eq_None_iff)

lemma map_wf_length_del:
  "map_wf m \<Longrightarrow> get m k = Some v \<Longrightarrow> length (del k m) = length m - 1"
proof (induction m)
  case (Cons e m)
  obtain a w where e: "e = (a, w)" by force
  show ?case
  proof (cases "a = k")
    case True
    with Cons.prems e have "k \<notin> fst ` set m" by (simp add: map_wf_def)
    then have "AList.delete k m = m" by (simp add: delete_id)
    with True e show ?thesis by (simp add: del_def)
  next
    case False
    with Cons.prems e have "map_wf m" "get m k = Some w \<or> get m k = Some v"
      by (auto simp: map_wf_def)
    with Cons.prems e False have "length (del k m) = length m - 1" "m \<noteq> []"
      using Cons.IH by (auto simp: map_wf_def)
    with False e show ?thesis by (simp add: del_def)
  qed
qed simp

lemma length_put:
  "length (put k v m) = (if get m k = None then Suc (length m) else length m)"
  by (induction m) (auto simp: put_def get_def)

lemma distinct_picked:
  assumes "\<And>e. q e = [] \<or> q e = [fst e]"
  shows "set (concat (map q m)) \<subseteq> fst ` set m"
    and "map_wf m \<Longrightarrow> distinct (concat (map q m))"
proof -
  show sub: "set (concat (map q m)) \<subseteq> fst ` set m" for m
  proof (induction m)
    case (Cons e m)
    then show ?case using assms [of e] by auto
  qed simp
  show "map_wf m \<Longrightarrow> distinct (concat (map q m))"
  proof (induction m)
    case (Cons e m)
    then have "fst e \<notin> set (concat (map q m))" using sub [of m] by (auto simp: map_wf_def)
    with Cons show ?case using assms [of e] by (auto simp: map_wf_def)
  qed simp
qed

section \<open>Go string functions\<close>

definition has_prefix :: "string \<Rightarrow> string \<Rightarrow> bool" where
  "has_prefix p s \<longleftrightarrow> take (length p) s = p"

definition has_suffix :: "string \<Rightarrow> string \<Rightarrow> bool" where
  "has_suffix p s \<longleftrightarrow> has_prefix (rev p) (rev s)"

fun index_of :: "string \<Rightarrow> string \<Rightarrow> nat option" where
  "index_of sub [] = (if sub = [] then Some 0 else None)"
| "index_of sub (c # cs) =
     (if has_prefix sub (c # cs) then Some 0 else map_option Suc (index_of sub cs))"

definition str_contains :: "string \<Rightarrow> string \<Rightarrow> bool" where
  "str_contains s sub \<longleftrightarrow> index_of sub s \<noteq> None"

fun split_on :: "char \<Rightarrow> string \<Rightarrow> string list" where
  "split_on c [] = [[]]"
| "split_on c (x # xs) =
     (if x = c then [] # split_on c xs
      else (case split_on c xs of [] \<Rightarrow> [[x]] | p # ps \<Rightarrow> (x # p) # ps))"

fun join :: "string \<Rightarrow> string list \<Rightarrow> string" where
  "join sep [] = []"
| "join sep [x] = x"
| "join sep (x # y # ys) = x @ sep @ join sep (y # ys)"

text \<open>
  \<open>strings.TrimSpace\<close> removes every code point with the Unicode White\_Space property;
  these are their UTF-8 encodings.
\<close>

definition space_codes :: "string list" where
  "space_codes =
     [[CHR 0x20], [CHR 0x09], [CHR 0x0A], [CHR 0x0B], [CHR 0x0C], [CHR 0x0D],
      [CHR 0xC2, CHR 0x85], [CHR 0xC2, CHR 0xA0], [CHR 0xE1, CHR 0x9A, CHR 0x80],
      [CHR 0xE2, CHR 0x80, CHR 0x80], [CHR 0xE2, CHR 0x80, CHR 0x81],
      [CHR 0xE2, CHR 0x80, CHR 0x82], [CHR 0xE2, CHR 0x80, CHR 0x83],
      [CHR 0xE2, CHR 0x80, CHR 0x84], [CHR 0xE2, CHR 0x80, CHR 0x85],
      [CHR 0xE2, CHR 0x80, CHR 0x86], [CHR 0xE2, CHR 0x80, CHR 0x87],
      [CHR 0xE2, CHR 0x80, CHR 0x88], [CHR 0xE2, CHR 0x80, CHR 0x89],
      [CHR 0xE2, CHR 0x80, CHR 0x8A], [CHR 0xE2, CHR 0x80, CHR 0xA8],
      [CHR 0xE2, CHR 0x80, CHR 0xA9], [CHR 0xE2, CHR 0x80, CHR 0xAF],
      [CHR 0xE2, CHR 0x81, CHR 0x9F], [CHR 0xE3, CHR 0x80, CHR 0x80]]"

function strip :: "string list \<Rightarrow> string \<Rightarrow> string" where
  "strip ps s =
     (case find (\<lambda>p. p \<noteq> [] \<and> has_prefix p s) ps of
        None \<Rightarrow> s
      | Some p \<Rightarrow> strip ps (drop (length p) s))"
  by pat_completeness auto
termination
proof (relation "measure (\<lambda>(ps, s). length s)")
  fix ps s p
  assume "find (\<lambda>p. p \<noteq> [] \<and> has_prefix p s) ps = Some p"
  then have "p \<noteq> []" "take (length p) s = p"
    by (auto simp: find_Some_iff has_prefix_def)
  then have "0 < length p" "s \<noteq> []" by auto
  then have "length s - length p < length s" by (cases s) auto
  then show "((ps, drop (length p) s), ps, s) \<in> measure (\<lambda>(ps, s). length s)"
    by simp
qed simp

declare strip.simps [simp del]

definition trim_space :: "string \<Rightarrow> string" where
  "trim_space s = rev (strip (map rev space_codes) (rev (strip space_codes s)))"

text \<open>
  \<open>strings.ToLower\<close> and \<open>strings.EqualFold\<close> on ASCII text; bytes outside ASCII are left
  as they are.
\<close>

definition lower_char :: "char \<Rightarrow> char" where
  "lower_char c = (let n = (of_char c :: nat) in if 65 \<le> n \<and> n \<le> 90 then char_of (n + 32) else c)"

definition to_lower :: "string \<Rightarrow> string" where
  "to_lower s = map lower_char s"

definition equal_fold :: "string \<Rightarrow> string \<Rightarrow> bool" where
  "equal_fold a b \<longleftrightarrow> to_lower a = to_lower b"

lemma has_prefix_append [simp, str_simps]: "has_prefix p (p @ s)"
  by (simp add: has_prefix_def)

lemma has_prefix_Nil [simp]: "has_prefix [] s"
  by (simp add: has_prefix_def)

lemma has_prefix_Cons [simp]:
  "has_prefix (a # p) (b # s) \<longleftrightarrow> a = b \<and> has_prefix p s"
  by (auto simp: has_prefix_def)

lemma has_prefix_Cons_Nil [simp]: "\<not> has_prefix (a # p) []"
  by (simp add: has_prefix_def)

lemma has_prefixE:
  assumes "has_prefix p s"
  obtains t where "s = p @ t"
  using assms by (metis has_prefix_def append_take_drop_id)

lemma has_prefix_iff: "has_prefix p s \<longleftrightarrow> (\<exists>t. s = p @ t)"
  by (auto elim: has_prefixE)

lemma has_suffix_iff: "has_suffix p s \<longleftrightarrow> (\<exists>t. s = t @ p)"
  unfolding has_suffix_def has_prefix_iff
  by (metis rev_append rev_rev_ident)

lemma index_of_Some_iff: "(\<exists>i. index_of sub s = Some i) \<longleftrightarrow> (\<exists>a b. s = a @ sub @ b)"
proof (induction s)
  case Nil
  then show ?case by simp
next
  case (Cons c cs)
  show ?case
  proof
    assume "\<exists>i. index_of sub (c # cs) = Some i"
    then consider "has_prefix sub (c # cs)" | "\<exists>i. index_of sub cs = Some i"
      by (auto split: if_splits)
    then show "\<exists>a b. c # cs = a @ sub @ b"
    proof cases
      case 1
      then show ?thesis by (metis has_prefixE append_Nil)
    next
      case 2
      with Cons.IH show ?thesis by (metis append_Cons)
    qed
  next
    assume "\<exists>a b. c # cs = a @ sub @ b"
    then obtain a b where ab: "c # cs = a @ sub @ b" by blast
    show "\<exists>i. index_of sub (c # cs) = Some i"
    proof (cases a)
      case Nil
      with ab have "has_prefix sub (c # cs)" by (simp add: has_prefix_iff)
      then show ?thesis by simp
    next
      case (Cons x a')
      with ab have "\<exists>a b. cs = a @ sub @ b" by auto
      with \<open>(\<exists>i. index_of sub cs = Some i) = (\<exists>a b. cs = a @ sub @ b)\<close>
      show ?thesis by auto
    qed
  qed
qed

lemma str_contains_iff: "str_contains s sub \<longleftrightarrow> (\<exists>a b. s = a @ sub @ b)"
  using index_of_Some_iff [of sub s] by (auto simp: str_contains_def)

section \<open>Steps that may fail\<close>

text \<open>A Go loop that handles its items in order and returns at the first error.\<close>

fun run_steps :: "('c \<Rightarrow> 'a \<Rightarrow> 'e + 'a) \<Rightarrow> 'c list \<Rightarrow> 'a \<Rightarrow> 'e + 'a" where
  "run_steps f [] a = Inr a"
| "run_steps f (c # cs) a =
     (case f c a of Inl e \<Rightarrow> Inl e | Inr b \<Rightarrow> run_steps f cs b)"

lemma run_steps_append:
  "run_steps f (cs @ ds) a =
     (case run_steps f cs a of Inl e \<Rightarrow> Inl e | Inr b \<Rightarrow> run_steps f ds b)"
  by (induction cs arbitrary: a) (auto split: sum.splits)

lemma run_steps_each:
  "run_steps f cs a = Inr b \<Longrightarrow> c \<in> set cs \<Longrightarrow> \<exists>s t. f c s = Inr t"
  by (induction cs arbitrary: a) (fastforce split: sum.splits)+

section \<open>Interfaces\<close>

text \<open>
  A contract of operations that can only take authority away: every step leads to a
  state below the one it starts from. Whatever list of steps a client runs, the result
  stays below the start and below every intermediate result.
\<close>

locale attenuator =
  fixes le :: "'a \<Rightarrow> 'a \<Rightarrow> bool"
    and step :: "'c \<Rightarrow> 'a \<Rightarrow> 'e + 'a"
  assumes le_refl: "le a a"
    and le_trans: "le x y \<Longrightarrow> le y z \<Longrightarrow> le x z"
    and step_le: "step c a = Inr b \<Longrightarrow> le b a"
begin

lemma run_le: "run_steps step cs a = Inr b \<Longrightarrow> le b a"
  by (induction cs arbitrary: a)
     (auto intro: le_refl le_trans step_le split: sum.splits)

lemma run_append_le:
  assumes "run_steps step (cs @ ds) a = Inr b"
  obtains m where "run_steps step cs a = Inr m" and "le b m" and "le m a"
proof -
  from assms obtain m where m: "run_steps step cs a = Inr m" "run_steps step ds m = Inr b"
    by (auto simp: run_steps_append split: sum.splits)
  then show ?thesis using that run_le by blast
qed

end

text \<open>
  A store whose entries expire: a sweep at time \<open>now\<close> removes exactly the entries that
  are expired at \<open>now\<close>, and what is expired stays expired.
\<close>

locale expiring_store =
  fixes inv :: "'s \<Rightarrow> bool"
    and look :: "'s \<Rightarrow> 'k \<Rightarrow> 'v option"
    and expired :: "time \<Rightarrow> 'v \<Rightarrow> bool"
    and sweep :: "time \<Rightarrow> 's \<Rightarrow> 's"
  assumes look_sweep: "inv s \<Longrightarrow>
        look (sweep now s) k =
          (case look s k of None \<Rightarrow> None | Some v \<Rightarrow> if expired now v then None else Some v)"
    and inv_sweep: "inv s \<Longrightarrow> inv (sweep now s)"
    and expired_mono: "expired t v \<Longrightarrow> t \<le> t' \<Longrightarrow> expired t' v"
begin

lemma sweep_keeps_live:
  "inv s \<Longrightarrow> look s k = Some v \<Longrightarrow> \<not> expired now v \<Longrightarrow> look (sweep now s) k = Some v"
  by (simp add: look_sweep)

lemma sweep_only_live:
  "inv s \<Longrightarrow> look (sweep now s) k = Some v \<longleftrightarrow> look s k = Some v \<and> \<not> expired now v"
  by (auto simp: look_sweep split: option.splits if_splits)

lemma sweep_absorb:
  "inv s \<Longrightarrow> t \<le> t' \<Longrightarrow> look (sweep t' (sweep t s)) k = look (sweep t' s) k"
  by (auto simp: look_sweep inv_sweep split: option.splits dest: expired_mono)

lemma sweeps_keep_live:
  assumes "inv s" "look s k = Some v" "\<forall>t \<in> set ts. \<not> expired t v"
  shows "look (fold sweep ts s) k = Some v"
  using assms by (induction ts arbitrary: s) (auto simp: look_sweep inv_sweep)

lemma sweeps_only_old:
  "inv s \<Longrightarrow> look (fold sweep ts s) k = Some v \<Longrightarrow> look s k = Some v"
proof (induction ts arbitrary: s)
  case (Cons t ts)
  then have "look (sweep t s) k = Some v" by (simp add: inv_sweep)
  with Cons.prems(1) show ?case by (simp add: sweep_only_live)
qed simp

end

end
