(* ===== verification/GoTime.thy ===== *)
theory GoTime
  imports Prelude "HOL-Library.Monad_Syntax"
begin

text \<open>
  The parts of Go's \<open>time\<close> and \<open>strconv\<close> packages that the broker's tokens depend on:
  \<open>Format\<close> and \<open>Parse\<close> with \<open>time.RFC3339\<close>, \<open>strconv.Itoa\<close>, \<open>Atoi\<close>, \<open>FormatBool\<close> and
  \<open>ParseBool\<close>, and \<open>time.ParseDuration\<close>. The locale \<open>text_codec\<close> is the contract the minter and the reducer
  share: what a printed value parses to, and that its text has no character that the
  caveat syntax uses. It is interpreted at the end on times, integers and booleans.
\<close>

section \<open>The proleptic Gregorian calendar\<close>

definition leap_year :: "int \<Rightarrow> bool" where
  "leap_year y \<longleftrightarrow> y mod 4 = 0 \<and> (y mod 100 \<noteq> 0 \<or> y mod 400 = 0)"

definition days_in :: "int \<Rightarrow> int \<Rightarrow> int" where
  "days_in m y =
     (if m = 2 then (if leap_year y then 29 else 28)
      else if m = 4 \<or> m = 6 \<or> m = 9 \<or> m = 11 then 30 else 31)"

text \<open>
  A day number counts from 1 January of year 1. Inside a 400 year cycle that starts on
  1 March the leap day is the last day of its year, so the cycle splits into centuries,
  four year groups and years by division, the last of each being cut off by \<open>min\<close>.
\<close>

definition civil_of_days :: "int \<Rightarrow> int \<times> int \<times> int" where
  "civil_of_days days =
     (let z = days + 306;
          n400 = z div 146097; r400 = z mod 146097;
          n100 = min (r400 div 36524) 3; r100 = r400 - n100 * 36524;
          n4 = min (r100 div 1461) 24; r4 = r100 - n4 * 1461;
          n1 = min (r4 div 365) 3; yday = r4 - n1 * 365;
          mp = (5 * yday + 2) div 153;
          d = yday - (153 * mp + 2) div 5 + 1;
          m = (if mp < 10 then mp + 3 else mp - 9);
          y = n400 * 400 + n100 * 100 + n4 * 4 + n1 + (if m \<le> 2 then 1 else 0)
      in (y, m, d))"

definition days_of_civil :: "int \<Rightarrow> int \<Rightarrow> int \<Rightarrow> int" where
  "days_of_civil y m d =
     (let y' = (if m \<le> 2 then y - 1 else y);
          n400 = y' div 400; yoe = y' mod 400;
          mp = (if m \<le> 2 then m + 9 else m - 3);
          yday = (153 * mp + 2) div 5 + d - 1
      in n400 * 146097 + yoe * 365 + yoe div 4 - yoe div 100 + yday - 306)"

section \<open>Numbers as text\<close>

definition digit :: "int \<Rightarrow> char" where
  "digit n = char_of (nat (48 + n))"

definition digit_val :: "char \<Rightarrow> int option" where
  "digit_val c =
     (let n = (of_char c :: nat) in if 48 \<le> n \<and> n \<le> 57 then Some (int n - 48) else None)"

fun digits_of :: "nat \<Rightarrow> string" where
  "digits_of n = (if n < 10 then [digit (int n)] else digits_of (n div 10) @ [digit (int (n mod 10))])"

declare digits_of.simps [simp del]

definition itoa :: "int \<Rightarrow> string" where
  "itoa n = (if n < 0 then CHR ''-'' # digits_of (nat (- n)) else digits_of (nat n))"

fun parse_digits :: "int \<Rightarrow> string \<Rightarrow> int option" where
  "parse_digits acc [] = Some acc"
| "parse_digits acc (c # cs) =
     (case digit_val c of None \<Rightarrow> None | Some d \<Rightarrow> parse_digits (10 * acc + d) cs)"

text \<open>\<open>strconv.Atoi\<close>: an optional sign, at least one decimal digit, a 64 bit result.\<close>

definition atoi :: "string \<Rightarrow> int option" where
  "atoi s =
     (let (neg, ds) =
        (case s of
           c # cs \<Rightarrow> if c = CHR ''-'' then (True, cs) else if c = CHR ''+'' then (False, cs) else (False, s)
         | [] \<Rightarrow> (False, []))
      in if ds = [] then None
         else (case parse_digits 0 ds of
                 None \<Rightarrow> None
               | Some n \<Rightarrow>
                   let v = (if neg then - n else n)
                   in if - (2 ^ 63) \<le> v \<and> v < 2 ^ 63 then Some v else None))"

definition format_bool :: "bool \<Rightarrow> string" where
  "format_bool b = (if b then ''true'' else ''false'')"

definition parse_bool :: "string \<Rightarrow> bool option" where
  "parse_bool s =
     (if s \<in> set [''1'', ''t'', ''T'', ''TRUE'', ''true'', ''True''] then Some True
      else if s \<in> set [''0'', ''f'', ''F'', ''FALSE'', ''false'', ''False''] then Some False
      else None)"

section \<open>RFC 3339\<close>

definition pad2 :: "int \<Rightarrow> string" where
  "pad2 n = [digit (n div 10 mod 10), digit (n mod 10)]"

definition pad_year :: "int \<Rightarrow> string" where
  "pad_year y =
     (let ds = digits_of (nat \<bar>y\<bar>)
      in (if y < 0 then ''-'' else '''') @ replicate (4 - length ds) (CHR ''0'') @ ds)"

text \<open>\<open>t.Format(time.RFC3339)\<close> in a zone \<open>tz\<close> minutes east of UTC.\<close>

definition format_rfc3339 :: "int \<Rightarrow> time \<Rightarrow> string" where
  "format_rfc3339 tz t =
     (let l = t div 1000000000 + tz * 60;
          (y, m, d) = civil_of_days (l div 86400);
          sod = l mod 86400
      in pad_year y @ ''-'' @ pad2 m @ ''-'' @ pad2 d @ ''T'' @
         pad2 (sod div 3600) @ '':'' @ pad2 (sod mod 3600 div 60) @ '':'' @ pad2 (sod mod 60) @
         (if tz = 0 then ''Z''
          else (if tz < 0 then ''-'' else ''+'') @ pad2 (\<bar>tz\<bar> div 60) @ '':'' @ pad2 (\<bar>tz\<bar> mod 60)))"

definition skip :: "char \<Rightarrow> string \<Rightarrow> string option" where
  "skip c s = (case s of x # xs \<Rightarrow> if x = c then Some xs else None | [] \<Rightarrow> None)"

text \<open>\<open>getnum\<close> of the \<open>time\<close> package: two digits, or one if \<open>fixed\<close> is false.\<close>

definition getnum :: "bool \<Rightarrow> string \<Rightarrow> (int \<times> string) option" where
  "getnum fixed s =
     (case s of
        [] \<Rightarrow> None
      | a # s1 \<Rightarrow>
          (case digit_val a of
             None \<Rightarrow> None
           | Some x \<Rightarrow>
               (case s1 of
                  [] \<Rightarrow> if fixed then None else Some (x, s1)
                | b # s2 \<Rightarrow>
                    (case digit_val b of
                       None \<Rightarrow> if fixed then None else Some (x, s1)
                     | Some y \<Rightarrow> Some (10 * x + y, s2)))))"

definition get_year :: "string \<Rightarrow> (int \<times> string) option" where
  "get_year s = (if length s < 4 then None
     else map_option (\<lambda>y. (y, drop 4 s)) (parse_digits 0 (take 4 s)))"

text \<open>A fraction of a second is accepted after the seconds although the layout has none.\<close>

definition get_fraction :: "string \<Rightarrow> int \<times> string" where
  "get_fraction s =
     (case s of
        p # c # _ \<Rightarrow>
          if (p = CHR ''.'' \<or> p = CHR '','') \<and> digit_val c \<noteq> None
          then let ds = takeWhile (\<lambda>x. digit_val x \<noteq> None) (tl s);
                   used = take 9 ds;
                   n = the (parse_digits 0 used)
               in (n * 10 ^ (9 - length used), drop (length ds) (tl s))
          else (0, s)
      | _ \<Rightarrow> (0, s))"

text \<open>The zone: \<open>Z\<close>, or a sign and \<open>hh:mm\<close>; the result is in seconds east of UTC.\<close>

definition get_zone :: "string \<Rightarrow> (int \<times> string) option" where
  "get_zone s =
     (case s of
        [] \<Rightarrow> None
      | c # cs \<Rightarrow>
          if c = CHR ''Z'' then Some (0, cs)
          else if length s < 6 \<or> s ! 3 \<noteq> CHR '':'' then None
          else do {
            (hr, _) \<leftarrow> getnum True (take 2 cs);
            (mm, _) \<leftarrow> getnum True (take 2 (drop 3 cs));
            if hr > 24 \<or> mm > 60 then None
            else if c = CHR ''+'' then Some ((hr * 60 + mm) * 60, drop 5 cs)
            else if c = CHR ''-'' then Some (- ((hr * 60 + mm) * 60), drop 5 cs)
            else None
          })"

definition parse_rfc3339 :: "string \<Rightarrow> time option" where
  "parse_rfc3339 s0 = do {
     (y, s) \<leftarrow> get_year s0;
     s \<leftarrow> skip (CHR ''-'') s;
     (m, s) \<leftarrow> getnum True s;
     s \<leftarrow> skip (CHR ''-'') s;
     (d, s) \<leftarrow> getnum True s;
     s \<leftarrow> skip (CHR ''T'') s;
     (h, s) \<leftarrow> getnum False s;
     s \<leftarrow> skip (CHR '':'') s;
     (mi, s) \<leftarrow> getnum True s;
     s \<leftarrow> skip (CHR '':'') s;
     (sec, s) \<leftarrow> getnum True s;
     let (ns, s) = get_fraction s;
     (off, s) \<leftarrow> get_zone s;
     if m < 1 \<or> 12 < m \<or> 24 \<le> h \<or> 60 \<le> mi \<or> 60 \<le> sec then None
     else if s \<noteq> [] then None
     else if d < 1 \<or> days_in m y < d then None
     else Some ((days_of_civil y m d * 86400 + h * 3600 + mi * 60 + sec - off) * 1000000000 + ns)
   }"

section \<open>Round trips\<close>

lemma cycle_split:
  assumes r: "0 \<le> r400" "r400 < (146097::int)"
  defines "n100 \<equiv> min (r400 div 36524) 3"
  defines "r100 \<equiv> r400 - n100 * 36524"
  defines "n4 \<equiv> min (r100 div 1461) 24"
  defines "r4 \<equiv> r100 - n4 * 1461"
  defines "n1 \<equiv> min (r4 div 365) 3"
  defines "yday \<equiv> r4 - n1 * 365"
  shows "0 \<le> n100 \<and> n100 \<le> 3 \<and> 0 \<le> n4 \<and> n4 \<le> 24 \<and> 0 \<le> n1 \<and> n1 \<le> 3 \<and> 0 \<le> yday \<and>
         (yday \<le> 364 \<or> (yday = 365 \<and> n1 = 3 \<and> (n4 \<noteq> 24 \<or> n100 = 3)))"
proof -
  have a: "0 \<le> n100" "n100 \<le> 3" "0 \<le> r100" "r100 \<le> 36524" "r100 = 36524 \<longrightarrow> n100 = 3"
    using r unfolding n100_def r100_def by (auto simp: min_def)
  have b: "0 \<le> n4" "n4 \<le> 24" "0 \<le> r4" "r4 \<le> 1460" "r4 = 1460 \<longrightarrow> n4 \<noteq> 24 \<or> n100 = 3"
    using a unfolding n4_def r4_def by (auto simp: min_def)
  have c: "0 \<le> n1" "n1 \<le> 3" "0 \<le> yday" "yday \<le> 365" "yday = 365 \<longrightarrow> n1 = 3 \<and> r4 = 1460"
    using b unfolding n1_def yday_def by (auto simp: min_def)
  from a b c show ?thesis by auto
qed

text \<open>The month and day of a day of the March based year.\<close>

lemma month_day:
  assumes "0 \<le> yday" "yday \<le> (365::int)"
  defines "mp \<equiv> (5 * yday + 2) div 153"
  defines "m \<equiv> (if mp < 10 then mp + 3 else mp - 9)"
  defines "d \<equiv> yday - (153 * mp + 2) div 5 + 1"
  shows "0 \<le> mp" "mp \<le> 11" "1 \<le> m" "m \<le> 12" "m \<le> 2 \<longleftrightarrow> 10 \<le> mp" "1 \<le> d"
    "d \<le> (if m = 2 then 29 else if m = 4 \<or> m = 6 \<or> m = 9 \<or> m = 11 then 30 else 31)"
    "m = 2 \<Longrightarrow> d = 29 \<Longrightarrow> yday = 365"
proof -
  have mp: "0 \<le> mp" "mp \<le> 11" using assms(1,2) unfolding mp_def by auto
  then have cases: "mp = 0 \<or> mp = 1 \<or> mp = 2 \<or> mp = 3 \<or> mp = 4 \<or> mp = 5 \<or> mp = 6 \<or>
    mp = 7 \<or> mp = 8 \<or> mp = 9 \<or> mp = 10 \<or> mp = 11" by presburger
  have lo: "153 * mp \<le> 5 * yday + 2" "5 * yday + 2 \<le> 153 * mp + 152" unfolding mp_def by auto
  show "0 \<le> mp" "mp \<le> 11" by (fact mp)+
  show "1 \<le> m" "m \<le> 12" "m \<le> 2 \<longleftrightarrow> 10 \<le> mp" using mp unfolding m_def by auto
  show "1 \<le> d"
    using cases lo unfolding d_def by auto
  show "d \<le> (if m = 2 then 29 else if m = 4 \<or> m = 6 \<or> m = 9 \<or> m = 11 then 30 else 31)"
    using cases lo assms(2) unfolding d_def m_def by auto
  show "yday = 365" if "m = 2" "d = 29"
    using cases lo that assms(2) unfolding d_def m_def by auto
qed

lemma year_of_cycle:
  assumes "0 \<le> a" "a \<le> 3" "0 \<le> b" "b \<le> 24" "0 \<le> c" "c \<le> (3::int)"
  shows "0 \<le> a * 100 + b * 4 + c" "a * 100 + b * 4 + c < 400"
    "(a * 100 + b * 4 + c) div 4 = a * 25 + b" "(a * 100 + b * 4 + c) div 100 = a"
proof -
  have "a * 100 + b * 4 + c = c + (a * 25 + b) * 4" by simp
  then show "(a * 100 + b * 4 + c) div 4 = a * 25 + b" using assms by simp
  have "a * 100 + b * 4 + c = (b * 4 + c) + a * 100" by simp
  then show "(a * 100 + b * 4 + c) div 100 = a" using assms by simp
qed (use assms in linarith)+

lemma leap_of_cycle:
  assumes "(b::int) \<noteq> 24 \<or> a = 3" "0 \<le> b" "b \<le> 24"
  shows "leap_year (n * 400 + a * 100 + b * 4 + 3 + 1)"
proof -
  have 4: "n * 400 + a * 100 + b * 4 + 3 + 1 = (n * 100 + a * 25 + b + 1) * 4" by simp
  show ?thesis
  proof (cases "b = 24")
    case True
    with assms(1) have "n * 400 + a * 100 + b * 4 + 3 + 1 = (n + 1) * 400" by simp
    then show ?thesis by (simp add: leap_year_def)
  next
    case False
    have "n * 400 + a * 100 + b * 4 + 3 + 1 = (b * 4 + 4) + (n * 4 + a) * 100" by simp
    then have "(n * 400 + a * 100 + b * 4 + 3 + 1) mod 100 = (b * 4 + 4) mod 100"
      by (metis mod_mult_self1)
    also have "\<dots> = b * 4 + 4" using False assms(2,3) by simp
    finally have "(n * 400 + a * 100 + b * 4 + 3 + 1) mod 100 \<noteq> 0" using assms(2) by simp
    moreover have "(n * 400 + a * 100 + b * 4 + 3 + 1) mod 4 = 0" unfolding 4 by simp
    ultimately show ?thesis unfolding leap_year_def by blast
  qed
qed

lemma civil_of_days_valid:
  assumes "civil_of_days n = (y, m, d)"
  shows "1 \<le> m \<and> m \<le> 12 \<and> 1 \<le> d \<and> d \<le> days_in m y \<and> days_of_civil y m d = n"
proof -
  define z where "z = n + 306"
  define n400 where "n400 = z div 146097"
  define r400 where "r400 = z mod 146097"
  define n100 where "n100 = min (r400 div 36524) 3"
  define r100 where "r100 = r400 - n100 * 36524"
  define n4 where "n4 = min (r100 div 1461) 24"
  define r4 where "r4 = r100 - n4 * 1461"
  define n1 where "n1 = min (r4 div 365) 3"
  define yday where "yday = r4 - n1 * 365"
  define mp where "mp = (5 * yday + 2) div 153"
  note defs = z_def n400_def r400_def n100_def r100_def n4_def r4_def n1_def yday_def mp_def
  have r: "0 \<le> r400" "r400 < 146097" by (auto simp: r400_def)
  have s: "0 \<le> n100" "n100 \<le> 3" "0 \<le> n4" "n4 \<le> 24" "0 \<le> n1" "n1 \<le> 3" "0 \<le> yday" "yday \<le> 365"
    "yday = 365 \<longrightarrow> n1 = 3 \<and> (n4 \<noteq> 24 \<or> n100 = 3)"
    using cycle_split [OF r, folded n100_def, folded r100_def, folded n4_def, folded r4_def,
        folded n1_def, folded yday_def] by auto
  define mm where "mm = (if mp < 10 then mp + 3 else mp - 9)"
  have c: "civil_of_days n = (n400 * 400 + n100 * 100 + n4 * 4 + n1 + (if mm \<le> 2 then 1 else 0), mm,
      yday - (153 * mp + 2) div 5 + 1)"
    unfolding civil_of_days_def Let_def defs mm_def by (rule refl)
  from c [unfolded assms] have eq: "m = mm" "d = yday - (153 * mp + 2) div 5 + 1"
    "y = n400 * 400 + n100 * 100 + n4 * 4 + n1 + (if mm \<le> 2 then 1 else 0)" by (simp_all only: prod.inject)
  have m: "m = (if mp < 10 then mp + 3 else mp - 9)"
    and d: "d = yday - (153 * mp + 2) div 5 + 1"
    and y: "y = n400 * 400 + n100 * 100 + n4 * 4 + n1 + (if m \<le> 2 then 1 else 0)"
    unfolding eq(1) mm_def by (fact refl, fact eq(2), fact eq(3) [unfolded mm_def])
  note md = month_day [OF s(7,8), folded mp_def, folded m, folded d]
  define yoe where "yoe = n100 * 100 + n4 * 4 + n1"
  have yoe: "0 \<le> yoe" "yoe < 400" "yoe div 4 = n100 * 25 + n4" "yoe div 100 = n100"
    using year_of_cycle [OF s(1-6)] by (simp_all add: yoe_def)
  have y': "(if m \<le> 2 then y - 1 else y) = n400 * 400 + yoe" using y by (auto simp: yoe_def)
  have leap: "m = 2 \<Longrightarrow> d = 29 \<Longrightarrow> leap_year y"
  proof -
    assume "m = 2" "d = 29"
    then have e: "yday = 365" using md(8) by simp
    with s have q: "n1 = 3" "n4 \<noteq> 24 \<or> n100 = 3" by auto
    show "leap_year y" using leap_of_cycle [OF q(2) s(3,4), of n400] y q(1) \<open>m = 2\<close> by simp
  qed
  have dm: "d \<le> days_in m y"
    using md(7) leap unfolding days_in_def by (cases "m = 2"; cases "d = 29") auto
  have mp': "(if m \<le> 2 then m + 9 else m - 3) = mp" using m md(1,2) by auto
  have e400: "(n400 * 400 + yoe) div 400 = n400" "(n400 * 400 + yoe) mod 400 = yoe"
    using yoe(1,2) by auto
  have "days_of_civil y m d = n400 * 146097 + yoe * 365 + yoe div 4 - yoe div 100 + yday - 306"
    unfolding days_of_civil_def Let_def y' mp' e400 d by simp
  also have "\<dots> = n400 * 146097 + r400 - 306"
    unfolding yoe(3,4) yday_def r4_def r100_def by (simp add: yoe_def algebra_simps yday_def r4_def r100_def)
  also have "\<dots> = n" unfolding n400_def r400_def z_def by (simp add: algebra_simps)
  finally show ?thesis using md(3,4,6) dm by simp
qed

text \<open>Digits.\<close>

lemma digit_val_digit [simp]: "0 \<le> n \<Longrightarrow> n < 10 \<Longrightarrow> digit_val (digit n) = Some n"
  by (simp add: digit_val_def digit_def Let_def nat_le_iff le_nat_iff)

lemma digit_val_chars [simp]:
  "digit_val (CHR ''-'') = None" "digit_val (CHR '':'') = None" "digit_val (CHR ''T'') = None"
  "digit_val (CHR ''Z'') = None" "digit_val (CHR ''+'') = None"
  by code_simp+

lemma digit_neq_chars:
  assumes "0 \<le> n" "n < 10"
  shows "digit n \<noteq> CHR ''-''" "digit n \<noteq> CHR ''+''" "digit n \<noteq> CHR '' ''" "digit n \<noteq> CHR ''.''"
  using assms digit_val_digit [of n]
  by (auto simp: digit_val_def Let_def split: if_splits)

lemma parse_digits_append:
  "parse_digits acc (s @ t) = (case parse_digits acc s of None \<Rightarrow> None | Some n \<Rightarrow> parse_digits n t)"
  by (induction acc s rule: parse_digits.induct) (auto split: option.splits)

lemma digits_of_nonempty [simp]: "digits_of n \<noteq> []"
  by (subst digits_of.simps) simp

lemma parse_digits_of: "parse_digits 0 (digits_of n) = Some (int n)"
proof (induction n rule: digits_of.induct)
  case (1 n)
  show ?case
  proof (cases "n < 10")
    case True
    then show ?thesis by (subst digits_of.simps) simp
  next
    case False
    have "10 * (int n div 10) + int (n mod 10) = int n"
      by (simp add: zmod_int)
    with False 1 show ?thesis
      by (subst digits_of.simps) (simp add: parse_digits_append zdiv_int)
  qed
qed

lemma hd_digits_of: "\<exists>d ds. digits_of n = digit d # ds \<and> 0 \<le> d \<and> d < 10"
proof (induction n rule: digits_of.induct)
  case (1 n)
  show ?case
  proof (cases "n < 10")
    case True
    then show ?thesis by (subst digits_of.simps) auto
  next
    case False
    with 1 show ?thesis by (subst digits_of.simps) auto
  qed
qed

lemma atoi_itoa:
  assumes "- (2 ^ 63) \<le> n" "n < 2 ^ 63"
  shows "atoi (itoa n) = Some n"
proof (cases "n < 0")
  case True
  then show ?thesis using assms
    by (simp add: atoi_def itoa_def parse_digits_of)
next
  case False
  obtain d ds where d: "digits_of (nat n) = digit d # ds" "0 \<le> d" "d < 10"
    using hd_digits_of by blast
  then have "parse_digits 0 (digit d # ds) = Some n"
    using parse_digits_of [of "nat n"] False by simp
  with d False assms show ?thesis
    by (simp add: atoi_def itoa_def digit_neq_chars)
qed

lemma parse_format_bool: "parse_bool (format_bool b) = Some b"
  by (simp add: parse_bool_def format_bool_def)

lemma getnum_pad2 [simp]:
  assumes "0 \<le> n" "n < 100"
  shows "getnum fixed (pad2 n @ s) = Some (n, s)"
proof -
  have "n div 10 mod 10 = n div 10" using assms by simp
  moreover have "10 * (n div 10) + n mod 10 = n" by simp
  ultimately show ?thesis using assms by (simp add: getnum_def pad2_def)
qed

lemma skip_Cons [simp]: "skip c (c # s) = Some s"
  by (simp add: skip_def)

lemma length_digits_of: "n < 10 ^ k \<Longrightarrow> 0 < k \<Longrightarrow> length (digits_of n) \<le> k"
proof (induction k arbitrary: n)
  case (Suc k)
  show ?case
  proof (cases "n < 10")
    case True
    then show ?thesis by (subst digits_of.simps) simp
  next
    case False
    with Suc.prems have "n div 10 < 10 ^ k" "0 < k" by (auto intro!: gr0I)
    with Suc.IH False show ?thesis by (subst digits_of.simps) simp
  qed
qed simp

lemma parse_zeros: "parse_digits 0 (replicate k (CHR ''0'') @ s) = parse_digits 0 s"
proof (induction k)
  case (Suc k)
  have "digit_val (CHR ''0'') = Some 0" by code_simp
  with Suc show ?case by simp
qed simp

lemma get_year_pad_year [simp]:
  assumes "0 \<le> y" "y < 10000"
  shows "get_year (pad_year y @ s) = Some (y, s)"
proof -
  have "length (digits_of (nat y)) \<le> 4"
    using assms by (intro length_digits_of) auto
  then have "length (pad_year y) = 4" using assms by (simp add: pad_year_def Let_def)
  moreover have "parse_digits 0 (pad_year y) = Some y"
    using assms by (simp add: pad_year_def Let_def parse_zeros parse_digits_of)
  ultimately show ?thesis by (simp add: get_year_def)
qed

lemma get_zone_format [simp]:
  assumes "\<bar>tz\<bar> < 1440"
  shows "get_zone (if tz = 0 then ''Z'' else (if tz < 0 then ''-'' else ''+'') @
           pad2 (\<bar>tz\<bar> div 60) @ '':'' @ pad2 (\<bar>tz\<bar> mod 60)) = Some (tz * 60, [])"
proof (cases "tz = 0")
  case False
  have h: "0 \<le> \<bar>tz\<bar> div 60" "\<bar>tz\<bar> div 60 < 24" "0 \<le> \<bar>tz\<bar> mod 60" "\<bar>tz\<bar> mod 60 < 60"
    using assms by auto
  have p: "\<And>n. length (pad2 n) = 2" by (simp add: pad2_def)
  have g: "\<And>n. 0 \<le> n \<Longrightarrow> n < 100 \<Longrightarrow> getnum True (pad2 n) = Some (n, [])"
    using getnum_pad2 [where s = "[]"] by simp
  have e: "(\<bar>tz\<bar> div 60 * 60 + \<bar>tz\<bar> mod 60) * 60 = \<bar>tz\<bar> * 60" by simp
  have n3: "\<And>a b s. (pad2 a @ b # s) ! 2 = b" by (simp add: pad2_def)
  show ?thesis using False h
    by (auto simp: get_zone_def p g e n3 abs_if)
qed (simp add: get_zone_def)

lemma get_fraction_zone [simp]:
  "get_fraction (if tz = 0 then ''Z'' else (if tz < (0::int) then ''-'' else ''+'') @ s) =
     (0, if tz = 0 then ''Z'' else (if tz < 0 then ''-'' else ''+'') @ s)"
  by (cases s) (auto simp: get_fraction_def)

definition formattable :: "int \<Rightarrow> time \<Rightarrow> bool" where
  "formattable tz t \<longleftrightarrow>
     \<bar>tz\<bar> < 1440 \<and>
     (let y = fst (civil_of_days ((t div 1000000000 + tz * 60) div 86400)) in 0 \<le> y \<and> y < 10000)"

definition whole_seconds :: "time \<Rightarrow> time" where
  "whole_seconds t = t div 1000000000 * 1000000000"

lemma parse_fields:
  assumes "0 \<le> y" "y < 10000" "1 \<le> m" "m \<le> 12" "1 \<le> d" "d \<le> days_in m y"
    and "0 \<le> h" "h < 24" "0 \<le> mi" "mi < 60" "0 \<le> sec" "sec < 60"
    and z: "get_fraction z = (0, z)" "get_zone z = Some (off, [])"
  shows "parse_rfc3339 (pad_year y @ CHR ''-'' # pad2 m @ CHR ''-'' # pad2 d @ CHR ''T'' #
      pad2 h @ CHR '':'' # pad2 mi @ CHR '':'' # pad2 sec @ z) =
    Some ((days_of_civil y m d * 86400 + h * 3600 + mi * 60 + sec - off) * 1000000000)"
proof -
  have "d < 100" using assms(6) by (auto simp: days_in_def split: if_splits)
  with assms show ?thesis by (simp add: parse_rfc3339_def Let_def)
qed

lemma parse_format_rfc3339:
  assumes "formattable tz t"
  shows "parse_rfc3339 (format_rfc3339 tz t) = Some (whole_seconds t)"
proof -
  define l where "l = t div 1000000000 + tz * 60"
  define sod where "sod = l mod 86400"
  obtain y m d where c: "civil_of_days (l div 86400) = (y, m, d)"
    by (cases "civil_of_days (l div 86400)")
  note v = civil_of_days_valid [OF c]
  have y: "0 \<le> y" "y < 10000" and tz: "\<bar>tz\<bar> < 1440"
    using assms c by (auto simp: formattable_def l_def Let_def)
  have sod: "0 \<le> sod" "sod < 86400" by (auto simp: sod_def)
  have h: "0 \<le> sod div 3600" "sod div 3600 < 24"
    "0 \<le> sod mod 3600 div 60" "sod mod 3600 div 60 < 60" "0 \<le> sod mod 60" "sod mod 60 < 60"
    using sod by auto
  have "sod mod 3600 mod 60 = sod mod 60" by (simp add: mod_mod_cancel)
  moreover have "sod div 3600 * 3600 + sod mod 3600 = sod"
    "sod mod 3600 div 60 * 60 + sod mod 3600 mod 60 = sod mod 3600"
    by (rule div_mult_mod_eq)+
  ultimately have "sod div 3600 * 3600 + sod mod 3600 div 60 * 60 + sod mod 60 = sod"
    by linarith
  then have t: "l div 86400 * 86400 + sod div 3600 * 3600 + sod mod 3600 div 60 * 60 + sod mod 60 = l"
    using div_mult_mod_eq [of l 86400] unfolding sod_def [symmetric] by linarith
  have lt: "l - tz * 60 = t div 1000000000" by (simp add: l_def)
  define z where "z = (if tz = 0 then ''Z'' else (if tz < 0 then ''-'' else ''+'') @
           pad2 (\<bar>tz\<bar> div 60) @ '':'' @ pad2 (\<bar>tz\<bar> mod 60))"
  have "get_zone z = Some (tz * 60, [])" "get_fraction z = (0, z)"
    unfolding z_def by (rule get_zone_format [OF tz], rule get_fraction_zone)
  note fields = parse_fields [OF y _ _ _ _ h this(2,1), of m d]
  have "format_rfc3339 tz t = pad_year y @ CHR ''-'' # pad2 m @ CHR ''-'' # pad2 d @ CHR ''T'' #
      pad2 (sod div 3600) @ CHR '':'' # pad2 (sod mod 3600 div 60) @ CHR '':'' #
      pad2 (sod mod 60) @ z"
    unfolding format_rfc3339_def Let_def l_def [symmetric] sod_def [symmetric] c prod.case z_def
    by simp
  moreover have "days_of_civil y m d * 86400 + sod div 3600 * 3600 + sod mod 3600 div 60 * 60 +
      sod mod 60 - tz * 60 = t div 1000000000"
    using conjunct2 [OF conjunct2 [OF conjunct2 [OF conjunct2 [OF v]]]] t lt by linarith
  moreover have "parse_rfc3339 (format_rfc3339 tz t) = Some ((days_of_civil y m d * 86400 +
      sod div 3600 * 3600 + sod mod 3600 div 60 * 60 + sod mod 60 - tz * 60) * 1000000000)"
    unfolding calculation(1) by (rule fields) (use v in auto)
  ultimately show ?thesis by (simp only: whole_seconds_def)
qed

text \<open>The formatted text needs no trimming and contains no space.\<close>

definition plain_char :: "char \<Rightarrow> bool" where
  "plain_char c \<longleftrightarrow> (let n = (of_char c :: nat) in
     33 \<le> n \<and> n \<le> 126 \<and> c \<notin> {CHR '','', CHR ''['', CHR '']''})"

definition plain :: "string \<Rightarrow> bool" where
  "plain s \<longleftrightarrow> s \<noteq> [] \<and> list_all plain_char s"

lemma plain_append: "plain a \<Longrightarrow> list_all plain_char b \<Longrightarrow> plain (a @ b)"
  by (simp add: plain_def)

lemma plain_char_chars [simp]:
  "plain_char (CHR ''-'')" "plain_char (CHR ''+'')" "plain_char (CHR '':'')" "plain_char (CHR ''T'')"
  "plain_char (CHR ''Z'')" "plain_char (CHR ''0'')"
  by (simp_all add: plain_char_def)

lemma plain_digit [simp]: "0 \<le> d \<Longrightarrow> d < 10 \<Longrightarrow> plain_char (digit d)"
proof -
  assume "0 \<le> d" "d < 10"
  then have n: "48 \<le> (of_char (digit d) :: nat)" "(of_char (digit d) :: nat) < 58"
    by (simp_all add: digit_def)
  then have "digit d \<notin> {CHR '','', CHR ''['', CHR '']''}" by auto
  with n show ?thesis by (simp add: plain_char_def)
qed

lemma plain_pad2 [simp]: "list_all plain_char (pad2 n)"
  by (simp add: pad2_def)

lemma plain_digits_of [simp]: "list_all plain_char (digits_of n)"
  by (induction n rule: digits_of.induct) (subst digits_of.simps, auto)

lemma plain_itoa: "plain (itoa n)"
  by (simp add: plain_def itoa_def)

lemma plain_format_bool: "plain (format_bool b)"
  by (simp add: plain_def format_bool_def plain_char_def)

lemma plain_format_rfc3339: "plain (format_rfc3339 tz t)"
proof -
  have "pad_year y \<noteq> []" for y by (simp add: pad_year_def Let_def)
  moreover have "list_all plain_char (replicate n (CHR ''0''))" for n
    by (induction n) simp_all
  then have "list_all plain_char (pad_year y)" for y
    by (simp add: pad_year_def Let_def)
  moreover obtain y m d where "civil_of_days ((t div 1000000000 + tz * 60) div 86400) = (y, m, d)"
    by (cases "civil_of_days ((t div 1000000000 + tz * 60) div 86400)") auto
  ultimately show ?thesis
    by (simp add: plain_def format_rfc3339_def Let_def)
qed

section \<open>The contract of printed values\<close>

locale text_codec =
  fixes fmt :: "'a \<Rightarrow> string"
    and parse :: "string \<Rightarrow> 'a option"
    and ok :: "'a \<Rightarrow> bool"
    and norm :: "'a \<Rightarrow> 'a"
  assumes parse_fmt: "ok x \<Longrightarrow> parse (fmt x) = Some (norm x)"
    and fmt_plain: "ok x \<Longrightarrow> plain (fmt x)"
begin

lemma fmt_determines: "ok x \<Longrightarrow> ok y \<Longrightarrow> fmt x = fmt y \<Longrightarrow> norm x = norm y"
  by (metis option.inject parse_fmt)

end

definition int64 :: "int \<Rightarrow> bool" where
  "int64 n \<longleftrightarrow> - (2 ^ 63) \<le> n \<and> n < 2 ^ 63"

interpretation rfc3339: text_codec "format_rfc3339 tz" parse_rfc3339 "formattable tz" whole_seconds
  for tz
  by unfold_locales (simp_all add: parse_format_rfc3339 plain_format_rfc3339)

interpretation decimal: text_codec itoa atoi int64 "\<lambda>n. n"
  by unfold_locales (simp_all add: atoi_itoa int64_def plain_itoa)

interpretation boolean: text_codec format_bool parse_bool "\<lambda>_. True" "\<lambda>b. b"
  by unfold_locales (simp_all add: parse_format_bool plain_format_bool)

section \<open>Durations\<close>

text \<open>
  \<open>time.ParseDuration\<close>: an optional sign and a sequence of decimal numbers with units. The
  fraction is computed exactly where Go uses a 64 bit float.
\<close>

fun leading_int :: "int \<Rightarrow> string \<Rightarrow> (int \<times> string) option" where
  "leading_int x [] = Some (x, [])"
| "leading_int x (c # s) =
     (case digit_val c of
        None \<Rightarrow> Some (x, c # s)
      | Some d \<Rightarrow>
          if x > 2 ^ 63 div 10 then None
          else let x' = x * 10 + d in if x' > 2 ^ 63 then None else leading_int x' s)"

fun leading_fraction :: "int \<Rightarrow> int \<Rightarrow> bool \<Rightarrow> string \<Rightarrow> int \<times> int \<times> string" where
  "leading_fraction x scale overflow [] = (x, scale, [])"
| "leading_fraction x scale overflow (c # s) =
     (case digit_val c of
        None \<Rightarrow> (x, scale, c # s)
      | Some d \<Rightarrow>
          if overflow \<or> x > (2 ^ 63 - 1) div 10 then leading_fraction x scale True s
          else leading_fraction (x * 10 + d) (scale * 10) False s)"

definition unit_of :: "string \<Rightarrow> int option" where
  "unit_of u = map_of
     [(''ns'', 1), (''us'', 1000), ([CHR 0xC2, CHR 0xB5, CHR ''s''], 1000),
      ([CHR 0xCE, CHR 0xBC, CHR ''s''], 1000), (''ms'', 1000000), (''s'', 1000000000),
      (''m'', 60000000000), (''h'', 3600000000000)] u"

definition number_char :: "char \<Rightarrow> bool" where
  "number_char c \<longleftrightarrow> c = CHR ''.'' \<or> digit_val c \<noteq> None"

text \<open>One number with its unit: the value in nanoseconds and the rest of the text.\<close>

definition duration_part :: "string \<Rightarrow> (int \<times> string) option" where
  "duration_part s =
     (if s = [] \<or> \<not> number_char (hd s) then None
      else do {
        (v, s1) \<leftarrow> leading_int 0 s;
        let pre = (length s1 \<noteq> length s);
        let has_dot = (s1 \<noteq> [] \<and> hd s1 = CHR ''.'');
        let (f, scale, s2) = (if has_dot then leading_fraction 0 1 False (tl s1) else (0, 1, s1));
        let post = (has_dot \<and> length s2 \<noteq> length (tl s1));
        if \<not> pre \<and> \<not> post then None
        else let u = takeWhile (\<lambda>c. \<not> number_char c) s2; s3 = dropWhile (\<lambda>c. \<not> number_char c) s2 in
        if u = [] then None
        else do {
          unit \<leftarrow> unit_of u;
          if v > 2 ^ 63 div unit then None
          else let v = v * unit + f * unit div scale in
            if v > 2 ^ 63 then None else Some (v, s3)
        }
      })"

function duration_parts :: "int \<Rightarrow> string \<Rightarrow> int option" where
  "duration_parts d s =
     (if s = [] then Some d
      else case duration_part s of
        None \<Rightarrow> None
      | Some (v, s') \<Rightarrow>
          if length s' < length s then (if d + v > 2 ^ 63 then None else duration_parts (d + v) s')
          else None)"
  by pat_completeness auto
termination by (relation "measure (\<lambda>(d, s). length s)") auto

declare duration_parts.simps [simp del]

definition parse_duration :: "string \<Rightarrow> duration option" where
  "parse_duration s0 =
     (let neg = (s0 \<noteq> [] \<and> hd s0 = CHR ''-'');
          s = (if s0 \<noteq> [] \<and> (hd s0 = CHR ''-'' \<or> hd s0 = CHR ''+'') then tl s0 else s0)
      in if s = ''0'' then Some 0
         else if s = [] then None
         else (case duration_parts 0 s of
                 None \<Rightarrow> None
               | Some d \<Rightarrow> if neg then Some (- d)
                           else if d > 2 ^ 63 - 1 then None else Some d))"

lemma length_leading_int: "leading_int x s = Some (v, s') \<Longrightarrow> length s' \<le> length s"
  by (induction x s rule: leading_int.induct)
     (auto simp: Let_def split: option.splits if_splits intro: le_SucI)

lemma length_leading_fraction: "leading_fraction x sc b s = (f, sc', s') \<Longrightarrow> length s' \<le> length s"
  by (induction x sc b s rule: leading_fraction.induct)
     (auto split: option.splits if_splits intro: le_SucI)

text \<open>A part always consumes its unit, so the length test of \<open>duration_parts\<close> never fails.\<close>

lemma duration_part_shorter:
  assumes "duration_part s = Some (v, s')"
  shows "length s' < length s"
proof -
  have drop: "length (dropWhile P xs) < length xs" if "takeWhile P xs \<noteq> []" for P and xs :: string
    using that by (cases xs) (auto simp: le_imp_less_Suc length_dropWhile_le split: if_splits)
  from assms obtain w s1 where s1: "leading_int 0 s = Some (w, s1)"
    by (auto simp: duration_part_def split: if_splits bind_splits)
  define has_dot where "has_dot \<longleftrightarrow> s1 \<noteq> [] \<and> hd s1 = CHR ''.''"
  obtain f scale s2 where s2: "(if has_dot then leading_fraction 0 1 False (tl s1) else (0, 1, s1)) =
      (f, scale, s2)" by (metis prod_cases3)
  have "length s2 \<le> length s1"
    using s2 length_leading_fraction [of 0 1 False "tl s1"] by (auto split: if_splits)
  moreover have "takeWhile (\<lambda>c. \<not> number_char c) s2 \<noteq> [] \<and> s' = dropWhile (\<lambda>c. \<not> number_char c) s2"
    using assms s1 s2 unfolding duration_part_def has_dot_def
    by (auto simp: Let_def split: if_splits bind_splits)
  ultimately show ?thesis using drop [of "\<lambda>c. \<not> number_char c" s2] length_leading_int [OF s1] by force
qed

text \<open>\<open>Duration.String\<close>: the digits after the point without trailing zeros, then the units.\<close>

definition fraction_text :: "int \<Rightarrow> nat \<Rightarrow> string" where
  "fraction_text v prec =
     (let ds = map (\<lambda>i. digit (v div 10 ^ i mod 10)) (rev [0..<prec]);
          ds = rev (dropWhile (\<lambda>c. c = CHR ''0'') (rev ds))
      in if ds = [] then [] else CHR ''.'' # ds)"

definition format_duration :: "duration \<Rightarrow> string" where
  "format_duration d =
     (let u = \<bar>d\<bar>;
          body =
            (if u = 0 then ''0s''
             else if u < 1000 then itoa u @ ''ns''
             else if u < 1000000 then itoa (u div 1000) @ fraction_text u 3 @ [CHR 0xC2, CHR 0xB5, CHR ''s'']
             else if u < 1000000000 then itoa (u div 1000000) @ fraction_text u 6 @ ''ms''
             else let s = u div 1000000000; m = s div 60; h = m div 60 in
               (if h > 0 then itoa h @ ''h'' else []) @
               (if m > 0 then itoa (m mod 60) @ ''m'' else []) @
               itoa (s mod 60) @ fraction_text u 9 @ ''s'')
      in (if d < 0 then CHR ''-'' # body else body))"

section \<open>Unix times\<close>

text \<open>\<open>time.Unix\<close>, \<open>Time.Unix\<close> and \<open>Time.UnixMilli\<close>: both conversions round down.\<close>

definition unix_epoch :: time where
  "unix_epoch = 62135596800 * 1000000000"

definition unix_seconds :: "time \<Rightarrow> int" where
  "unix_seconds t = (t - unix_epoch) div second"

definition unix_millis :: "time \<Rightarrow> int" where
  "unix_millis t = (t - unix_epoch) div 1000000"

definition from_unix :: "int \<Rightarrow> time" where
  "from_unix s = unix_epoch + s * second"

definition from_unix_millis :: "int \<Rightarrow> time" where
  "from_unix_millis ms = unix_epoch + ms * 1000000"

lemma unix_seconds_from_unix [simp]: "unix_seconds (from_unix s) = s"
  by (simp add: unix_seconds_def from_unix_def)

lemma from_unix_seconds_le: "from_unix (unix_seconds t) \<le> t"
  by (simp add: unix_seconds_def from_unix_def)

end
