(* ===== verification/Encoding.thy ===== *)
theory Encoding
  imports Prelude
begin

text \<open>
  The text encodings of Go's standard library that tokens and proofs use:
  \<open>hex.EncodeToString\<close> and \<open>base64.RawURLEncoding\<close> (no padding; the decoder skips line
  breaks, as Go's does), with the round trip of the latter.
\<close>

section \<open>Hexadecimal\<close>

definition hex_digit :: "nat \<Rightarrow> char" where
  "hex_digit n = (if n < 10 then char_of (48 + n) else char_of (87 + n))"

definition hex_encode :: "bytes \<Rightarrow> string" where
  "hex_encode bs =
     concat (map (\<lambda>c. let n = (of_char c :: nat) in [hex_digit (n div 16), hex_digit (n mod 16)]) bs)"

section \<open>Base64\<close>

definition b64_alphabet :: string where
  "b64_alphabet = ''ABCDEFGHIJKLMNOPQRSTUVWXYZabcdefghijklmnopqrstuvwxyz0123456789-_''"

definition b64_char :: "nat \<Rightarrow> char" where
  "b64_char n = b64_alphabet ! n"

definition b64_val :: "char \<Rightarrow> nat option" where
  "b64_val c = map_of (zip b64_alphabet [0..<64]) c"

fun b64_sextets :: "nat list \<Rightarrow> nat list" where
  "b64_sextets [] = []"
| "b64_sextets [a] = [a div 4, a mod 4 * 16]"
| "b64_sextets [a, b] = [a div 4, a mod 4 * 16 + b div 16, b mod 16 * 4]"
| "b64_sextets (a # b # c # r) =
     a div 4 # (a mod 4 * 16 + b div 16) # (b mod 16 * 4 + c div 64) # c mod 64 # b64_sextets r"

definition b64_encode :: "bytes \<Rightarrow> string" where
  "b64_encode bs = map b64_char (b64_sextets (map of_char bs))"

fun b64_octets :: "nat list \<Rightarrow> nat list option" where
  "b64_octets [] = Some []"
| "b64_octets [x] = None"
| "b64_octets [x, y] = Some [x * 4 + y div 16]"
| "b64_octets [x, y, z] = Some [x * 4 + y div 16, y mod 16 * 16 + z div 4]"
| "b64_octets (x # y # z # w # r) =
     (case b64_octets r of
        None \<Rightarrow> None
      | Some bs \<Rightarrow> Some ((x * 4 + y div 16) # (y mod 16 * 16 + z div 4) # (z mod 4 * 64 + w) # bs))"

definition b64_decode :: "string \<Rightarrow> bytes option" where
  "b64_decode s0 =
     (let vs = map b64_val (filter (\<lambda>c. c \<noteq> CHR 0x0A \<and> c \<noteq> CHR 0x0D) s0)
      in if None \<in> set vs then None else map_option (map char_of) (b64_octets (map the vs)))"

lemma b64_val_char: "n < 64 \<Longrightarrow> b64_val (b64_char n) = Some n"
proof -
  have "distinct b64_alphabet" "length b64_alphabet = 64" by (simp_all add: b64_alphabet_def)
  moreover assume "n < 64"
  ultimately show ?thesis
    using map_of_zip_nth [of b64_alphabet "[0..<64]" n]
    by (simp add: b64_val_def b64_char_def del: upt_rec_numeral)
qed

lemma b64_char_no_break: "n < 64 \<Longrightarrow> b64_char n \<noteq> CHR 0x0A \<and> b64_char n \<noteq> CHR 0x0D"
proof -
  have "CHR 0x0A \<notin> set b64_alphabet" "CHR 0x0D \<notin> set b64_alphabet"
    by (simp_all add: b64_alphabet_def)
  moreover assume "n < 64"
  then have "b64_char n \<in> set b64_alphabet"
    unfolding b64_char_def by (intro nth_mem) (simp add: b64_alphabet_def)
  ultimately show ?thesis by metis
qed

lemma b64_sextets_lt: "\<forall>x \<in> set ns. x < 256 \<Longrightarrow> \<forall>x \<in> set (b64_sextets ns). x < 64"
proof (induction ns rule: b64_sextets.induct)
  case (2 a)
  then show ?case by simp
next
  case (3 a b)
  have "a mod 4 < 4" "b div 16 < 16" "b mod 16 < 16" using 3 by auto
  then have "a mod 4 * 16 + b div 16 < 64" "b mod 16 * 4 < 64" by linarith+
  then show ?case using 3 by auto
next
  case (4 a b c r)
  have "a mod 4 < 4" "b div 16 < 16" "b mod 16 < 16" "c div 64 < 4" using 4 by auto
  then have "a mod 4 * 16 + b div 16 < 64" "b mod 16 * 4 + c div 64 < 64" by linarith+
  then show ?case using 4 by auto
qed simp

lemma b64_octets_sextets: "\<forall>x \<in> set ns. x < 256 \<Longrightarrow> b64_octets (b64_sextets ns) = Some ns"
proof (induction ns rule: b64_sextets.induct)
  case (2 a)
  then show ?case by (simp add: div_mult_mod_eq)
next
  case (3 a b)
  have "b div 16 < 16" using 3 by auto
  then have "(a mod 4 * 16 + b div 16) div 16 = a mod 4" "(a mod 4 * 16 + b div 16) mod 16 = b div 16"
    by simp_all
  then show ?case by (simp add: div_mult_mod_eq)
next
  case (4 a b c r)
  have "b div 16 < 16" "c div 64 < 4" using 4 by auto
  then have "(a mod 4 * 16 + b div 16) div 16 = a mod 4" "(a mod 4 * 16 + b div 16) mod 16 = b div 16"
    "(b mod 16 * 4 + c div 64) div 4 = b mod 16" "(b mod 16 * 4 + c div 64) mod 4 = c div 64"
    by simp_all
  then show ?case using 4 by (simp add: div_mult_mod_eq)
qed simp

lemma b64_round_trip: "b64_decode (b64_encode bs) = Some bs"
proof -
  define ns where "ns = map (of_char :: char \<Rightarrow> nat) bs"
  have lt: "\<forall>x \<in> set ns. x < 256" by (auto simp: ns_def)
  then have s: "\<forall>x \<in> set (b64_sextets ns). x < 64" by (rule b64_sextets_lt)
  then have "filter (\<lambda>c. c \<noteq> CHR 0x0A \<and> c \<noteq> CHR 0x0D) (map b64_char (b64_sextets ns)) =
      map b64_char (b64_sextets ns)"
    using b64_char_no_break by (intro filter_True) auto
  moreover have vals: "map b64_val (map b64_char (b64_sextets ns)) = map Some (b64_sextets ns)"
    using s b64_val_char by simp
  moreover have "map the (map Some xs) = xs" "None \<notin> set (map Some xs)" for xs :: "nat list"
    by (auto simp: comp_def)
  moreover have "map char_of ns = bs" by (simp add: ns_def comp_def)
  ultimately show ?thesis
    using b64_octets_sextets [OF lt]
    unfolding b64_decode_def b64_encode_def ns_def [symmetric] Let_def by (simp only: vals if_False) simp
qed

section \<open>Padded base64\<close>

text \<open>
  \<open>base64.StdEncoding\<close>: \<open>+\<close> and \<open>/\<close> in place of \<open>-\<close> and \<open>_\<close>, and padding with \<open>=\<close> to a
  multiple of four characters.
\<close>

definition to_std :: "char \<Rightarrow> char" where
  "to_std c = (if c = CHR ''-'' then CHR ''+'' else if c = CHR ''_'' then CHR ''/'' else c)"

definition from_std :: "char \<Rightarrow> char" where
  "from_std c = (if c = CHR ''+'' then CHR ''-'' else if c = CHR ''/'' then CHR ''_'' else c)"

definition b64_std_encode :: "bytes \<Rightarrow> string" where
  "b64_std_encode bs = map to_std (b64_encode bs) @ replicate ((3 - length bs mod 3) mod 3) (CHR ''='')"

definition b64_std_decode :: "string \<Rightarrow> bytes option" where
  "b64_std_decode s0 =
     (let s = filter (\<lambda>c. c \<noteq> CHR 0x0A \<and> c \<noteq> CHR 0x0D) s0;
          body = takeWhile (\<lambda>c. c \<noteq> CHR ''='') s;
          pad = dropWhile (\<lambda>c. c \<noteq> CHR ''='') s
      in if length s mod 4 = 0 \<and> pad \<in> set [[], ''='', ''==''] \<and>
            CHR ''-'' \<notin> set body \<and> CHR ''_'' \<notin> set body
         then b64_decode (map from_std body) else None)"

lemma length_b64_sextets:
  "(length (b64_sextets ns) + (3 - length ns mod 3) mod 3) mod 4 = 0"
proof (induction ns rule: b64_sextets.induct)
  case (4 a b c r)
  have "length (a # b # c # r) = length r + 3" by simp
  then have "length (a # b # c # r) mod 3 = length r mod 3" by (simp only: mod_add_self2)
  then have "(length (b64_sextets (a # b # c # r)) + (3 - length (a # b # c # r) mod 3) mod 3) mod 4 =
      (4 + (length (b64_sextets r) + (3 - length r mod 3) mod 3)) mod 4" by simp
  also have "\<dots> = 0" using 4 by (metis mod_add_self1)
  finally show ?case .
qed simp_all

lemma b64_encode_chars: "c \<in> set (b64_encode bs) \<Longrightarrow> c \<in> set b64_alphabet"
proof -
  have "\<forall>x \<in> set (b64_sextets (map of_char bs)). x < 64" by (intro b64_sextets_lt) auto
  moreover have "length b64_alphabet = 64" by (simp add: b64_alphabet_def)
  ultimately show "c \<in> set (b64_encode bs) \<Longrightarrow> c \<in> set b64_alphabet"
    by (auto simp: b64_encode_def b64_char_def)
qed

lemma std_alphabet:
  "c \<in> set b64_alphabet \<Longrightarrow>
   from_std (to_std c) = c \<and> to_std c \<notin> {CHR ''='', CHR ''-'', CHR ''_'', CHR 0x0A, CHR 0x0D}"
proof -
  have "\<forall>c \<in> set b64_alphabet. from_std (to_std c) = c \<and>
      to_std c \<notin> {CHR ''='', CHR ''-'', CHR ''_'', CHR 0x0A, CHR 0x0D}"
    by (simp add: b64_alphabet_def from_std_def to_std_def)
  then show "c \<in> set b64_alphabet \<Longrightarrow>
   from_std (to_std c) = c \<and> to_std c \<notin> {CHR ''='', CHR ''-'', CHR ''_'', CHR 0x0A, CHR 0x0D}" by blast
qed

lemma b64_std_round_trip [simp]: "b64_std_decode (b64_std_encode bs) = Some bs"
proof -
  let ?e = "map to_std (b64_encode bs)" and ?k = "(3 - length bs mod 3) mod 3"
  have e: "c \<in> set (b64_encode bs) \<Longrightarrow> from_std (to_std c) = c \<and>
      to_std c \<notin> {CHR ''='', CHR ''-'', CHR ''_'', CHR 0x0A, CHR 0x0D}" for c
    using std_alphabet b64_encode_chars by blast
  have f: "filter (\<lambda>c. c \<noteq> CHR 0x0A \<and> c \<noteq> CHR 0x0D) (b64_std_encode bs) = b64_std_encode bs"
    using e by (intro filter_True) (auto simp: b64_std_encode_def)
  have t: "takeWhile (\<lambda>c. c \<noteq> CHR ''='') (b64_std_encode bs) = ?e"
    "dropWhile (\<lambda>c. c \<noteq> CHR ''='') (b64_std_encode bs) = replicate ?k (CHR ''='')"
    using e unfolding b64_std_encode_def
    by (subst takeWhile_append2 dropWhile_append2; fastforce simp: takeWhile_eq_Nil_iff dropWhile_eq_self_iff)+
  have "k < 3 \<Longrightarrow> replicate k (CHR ''='') \<in> set [[], ''='', ''==''] " for k :: nat
    by (auto simp: less_Suc_eq numeral_eq_Suc)
  then have p: "replicate ?k (CHR ''='') \<in> set [[], ''='', ''==''] " by simp
  have l: "length (b64_std_encode bs) mod 4 = 0"
    using length_b64_sextets [of "map of_char bs"] by (simp add: b64_std_encode_def b64_encode_def)
  have "map from_std ?e = b64_encode bs" using e by (simp add: map_idI comp_def)
  moreover have "CHR ''-'' \<notin> set ?e" "CHR ''_'' \<notin> set ?e" using e by force+
  ultimately show ?thesis
    using l p by (simp only: b64_std_decode_def Let_def f t b64_round_trip simp_thms if_True not_False_eq_True)
qed

section \<open>JSON strings\<close>

text \<open>
  \<open>json.Marshal\<close> of a string: quotes, backslashes, control characters and the HTML
  characters are escaped; other bytes are copied (text that is not valid UTF-8, which Go
  would replace, is outside the model).
\<close>

definition json_char :: "char \<Rightarrow> string" where
  "json_char c =
     (let n = (of_char c :: nat) in
      if c = CHR 0x22 then [CHR 0x5C, CHR 0x22]
      else if c = CHR 0x5C then [CHR 0x5C, CHR 0x5C]
      else if n = 8 then CHR 0x5C # ''b''
      else if n = 12 then CHR 0x5C # ''f''
      else if n = 10 then CHR 0x5C # ''n''
      else if n = 13 then CHR 0x5C # ''r''
      else if n = 9 then CHR 0x5C # ''t''
      else if n < 32 \<or> c \<in> {CHR ''<'', CHR ''>'', CHR ''&''}
      then CHR 0x5C # ''u00'' @ [hex_digit (n div 16), hex_digit (n mod 16)]
      else [c])"

definition json_string :: "string \<Rightarrow> string" where
  "json_string s = [CHR 0x22] @ concat (map json_char s) @ [CHR 0x22]"

text \<open>A struct whose fields are strings, in declaration order.\<close>

definition json_object :: "(string \<times> string) list \<Rightarrow> string" where
  "json_object fs =
     ''{'' @ join '','' (map (\<lambda>(k, v). json_string k @ '':'' @ json_string v) fs) @ ''}''"

end
