(* ===== verification/Macaroon.thy ===== *)
theory Macaroon
  imports GoTime
begin

text \<open>
  Component \<open>internal/macaroon/types.go\<close>: the macaroon data type, its HMAC chain and its
  binary format. \<open>hmac key data\<close> stands for \<open>hmacSHA256\<close>; it is an argument of every
  definition that computes a signature, so every theorem holds for any such function.
  Errors of the package are values of \<open>mac_error\<close>.
\<close>

section \<open>Data\<close>

datatype malformed_caveat =
    EmptyCaveat
  | EmptyKeyOrValue string
  | NoOperator string
  | WrongOperator string string
  | InvalidTime string
  | InvalidBool string
  | InvalidInt string

datatype mac_error =
    ErrInvalidSignature
  | ErrMalformedToken
  | ErrTokenTooLarge
  | ErrUnknownCaveat string
  | ErrMalformedCaveat malformed_caveat
  | ErrEmptyDimension
  | ErrExpired
  | ErrUnknownRootTask string
  | ErrRandomSource

record macaroon =
  m_location :: string
  m_id :: bytes
  m_caveats :: "bytes list"
  m_signature :: bytes

record effective_envelope =
  ee_targets :: "string list"
  ee_roles :: "string list"
  ee_services :: "string list"
  ee_remotes :: "string list"
  ee_methods :: "string list"
  ee_can_delegate :: bool
  ee_delegation_depth :: int
  ee_expires_at :: time

record token_metadata =
  md_agent :: string
  md_initiated_by :: string

record reducer_output =
  ro_envelope :: effective_envelope
  ro_metadata :: token_metadata

definition max_token_size :: nat where
  "max_token_size = 8192"

definition token_size_warn :: nat where
  "token_size_warn = 4096"

definition format_version :: char where
  "format_version = CHR 0x02"

section \<open>The HMAC chain\<close>

definition new_macaroon ::
    "(bytes \<Rightarrow> bytes \<Rightarrow> bytes) \<Rightarrow> string \<Rightarrow> bytes \<Rightarrow> bytes \<Rightarrow> macaroon" where
  "new_macaroon hmac location ident key =
     \<lparr>m_location = location, m_id = ident, m_caveats = [], m_signature = hmac key ident\<rparr>"

definition add_caveat ::
    "(bytes \<Rightarrow> bytes \<Rightarrow> bytes) \<Rightarrow> bytes \<Rightarrow> macaroon \<Rightarrow> macaroon" where
  "add_caveat hmac c m =
     m\<lparr>m_caveats := m_caveats m @ [c], m_signature := hmac (m_signature m) c\<rparr>"

definition clone :: "macaroon \<Rightarrow> macaroon" where
  "clone m =
     \<lparr>m_location = m_location m, m_id = m_id m, m_caveats = map id (m_caveats m),
      m_signature = m_signature m\<rparr>"

definition hmac_chain ::
    "(bytes \<Rightarrow> bytes \<Rightarrow> bytes) \<Rightarrow> bytes \<Rightarrow> bytes \<Rightarrow> bytes list \<Rightarrow> bytes" where
  "hmac_chain hmac key ident cs = foldl hmac (hmac key ident) cs"

definition mac_verify ::
    "(bytes \<Rightarrow> bytes \<Rightarrow> bytes) \<Rightarrow> bytes \<Rightarrow> macaroon \<Rightarrow> mac_error + string list" where
  "mac_verify hmac key m =
     (if hmac_chain hmac key (m_id m) (m_caveats m) \<noteq> m_signature m
      then Inl ErrInvalidSignature
      else Inr (m_caveats m))"

section \<open>The binary format\<close>

definition put_u32 :: "nat \<Rightarrow> bytes" where
  "put_u32 n = [char_of (n div 16777216), char_of (n div 65536), char_of (n div 256), char_of n]"

definition get_u32 :: "bytes \<Rightarrow> nat \<Rightarrow> nat" where
  "get_u32 data off =
     of_char (data ! off) * 16777216 + of_char (data ! (off + 1)) * 65536 +
     of_char (data ! (off + 2)) * 256 + of_char (data ! (off + 3))"

definition marshal_size :: "macaroon \<Rightarrow> nat" where
  "marshal_size m =
     1 + (4 + length (m_id m)) + (4 + length (m_location m)) + 4 +
     sum_list (map (\<lambda>c. 4 + length c) (m_caveats m)) + 32"

definition put_field :: "bytes \<Rightarrow> bytes" where
  "put_field x = put_u32 (length x) @ x"

definition marshal_binary :: "macaroon \<Rightarrow> mac_error + bytes" where
  "marshal_binary m =
     (if marshal_size m > max_token_size then Inl ErrTokenTooLarge
      else Inr (format_version # put_field (m_id m) @ put_field (m_location m) @
                put_u32 (length (m_caveats m)) @ concat (map put_field (m_caveats m)) @
                m_signature m))"

text \<open>A length prefixed field at an offset, with the bounds checks of the source.\<close>

definition read_field :: "bytes \<Rightarrow> nat \<Rightarrow> mac_error + (bytes \<times> nat)" where
  "read_field data off =
     (if off + 4 > length data then Inl ErrMalformedToken
      else let n = get_u32 data off; off = off + 4
           in if off + n > length data then Inl ErrMalformedToken
              else Inr (take n (drop off data), off + n))"

fun read_caveats :: "bytes \<Rightarrow> nat \<Rightarrow> nat \<Rightarrow> mac_error + (bytes list \<times> nat)" where
  "read_caveats data 0 off = Inr ([], off)"
| "read_caveats data (Suc k) off =
     (case read_field data off of
        Inl e \<Rightarrow> Inl e
      | Inr (c, off) \<Rightarrow>
          (case read_caveats data k off of
             Inl e \<Rightarrow> Inl e
           | Inr (cs, off) \<Rightarrow> Inr (c # cs, off)))"

definition unmarshal_binary :: "bytes \<Rightarrow> mac_error + macaroon" where
  "unmarshal_binary data =
     (if length data > max_token_size then Inl ErrTokenTooLarge
      else if length data < 1 then Inl ErrMalformedToken
      else if data ! 0 \<noteq> format_version then Inl ErrMalformedToken
      else case read_field data 1 of
        Inl e \<Rightarrow> Inl e
      | Inr (ident, off) \<Rightarrow>
      (case read_field data off of
        Inl e \<Rightarrow> Inl e
      | Inr (location, off) \<Rightarrow>
        if off + 4 > length data then Inl ErrMalformedToken
        else let n = get_u32 data off; off = off + 4 in
        if n > (length data - off) div 4 then Inl ErrMalformedToken
        else (case read_caveats data n off of
          Inl e \<Rightarrow> Inl e
        | Inr (cs, off) \<Rightarrow>
          if off + 32 > length data then Inl ErrMalformedToken
          else if off + 32 \<noteq> length data then Inl ErrMalformedToken
          else Inr \<lparr>m_location = location, m_id = ident, m_caveats = cs,
                    m_signature = take 32 (drop off data)\<rparr>)))"

section \<open>The chain: completeness and binding\<close>

lemma hmac_chain_snoc: "hmac_chain hmac key ident (cs @ [c]) = hmac (hmac_chain hmac key ident cs) c"
  by (simp add: hmac_chain_def)

definition add_caveats :: "(bytes \<Rightarrow> bytes \<Rightarrow> bytes) \<Rightarrow> bytes list \<Rightarrow> macaroon \<Rightarrow> macaroon" where
  "add_caveats hmac cs m = fold (add_caveat hmac) cs m"

lemma add_caveats_caveats [simp]: "m_caveats (add_caveats hmac cs m) = m_caveats m @ cs"
  by (induction cs arbitrary: m) (simp_all add: add_caveats_def add_caveat_def)

lemma add_caveats_id [simp]: "m_id (add_caveats hmac cs m) = m_id m"
  by (induction cs arbitrary: m) (simp_all add: add_caveats_def add_caveat_def)

lemma add_caveats_location [simp]: "m_location (add_caveats hmac cs m) = m_location m"
  by (induction cs arbitrary: m) (simp_all add: add_caveats_def add_caveat_def)

lemma add_caveats_signature: "m_signature (add_caveats hmac cs m) = foldl hmac (m_signature m) cs"
  by (induction cs arbitrary: m) (simp_all add: add_caveats_def add_caveat_def)

lemma verify_add_caveats:
  assumes "mac_verify hmac key m = Inr old"
  shows "mac_verify hmac key (add_caveats hmac cs m) = Inr (old @ cs)"
  using assms
  by (auto simp: mac_verify_def add_caveats_signature hmac_chain_def split: if_splits)

lemma verify_new: "mac_verify hmac key (new_macaroon hmac loc ident key) = Inr []"
  by (simp add: mac_verify_def new_macaroon_def hmac_chain_def)

text \<open>
  The HMAC computations of one chain. Two chains under one root key can only end in the
  same signature without being the same chain if two of these computations collide, or
  one of them yields the root key itself.
\<close>

fun chain_calls ::
    "(bytes \<Rightarrow> bytes \<Rightarrow> bytes) \<Rightarrow> bytes \<Rightarrow> bytes \<Rightarrow> bytes list \<Rightarrow> (bytes \<times> bytes) list" where
  "chain_calls hmac key x [] = [(key, x)]"
| "chain_calls hmac key x (c # cs) = (key, x) # chain_calls hmac (hmac key x) c cs"

lemma chain_calls_snoc:
  "chain_calls hmac key x (cs @ [c]) = chain_calls hmac key x cs @ [(hmac_chain hmac key x cs, c)]"
  by (induction cs arbitrary: key x) (simp_all add: hmac_chain_def)

lemma chain_is_call:
  "\<exists>k y. hmac_chain hmac key x cs = hmac k y \<and> (k, y) \<in> set (chain_calls hmac key x cs)"
  by (cases cs rule: rev_cases) (auto simp: hmac_chain_snoc chain_calls_snoc, simp add: hmac_chain_def)

lemma chain_first_call: "(key, x) \<in> set (chain_calls hmac key x cs)"
  by (cases cs) auto

lemma inj_calls:
  "inj_on (\<lambda>(k, y). hmac k y) S \<Longrightarrow> (k, y) \<in> S \<Longrightarrow> (k', y') \<in> S \<Longrightarrow>
   hmac k y = hmac k' y' \<Longrightarrow> k = k' \<and> y = y'"
  by (drule inj_onD [where x = "(k, y)" and y = "(k', y')"]) auto

lemma chain_binding:
  assumes "hmac_chain hmac key x cs = hmac_chain hmac key x' cs'"
    and "inj_on (\<lambda>(k, y). hmac k y) S"
    and "set (chain_calls hmac key x cs) \<subseteq> S" "set (chain_calls hmac key x' cs') \<subseteq> S"
    and "\<forall>(k, y) \<in> S. hmac k y \<noteq> key"
  shows "x = x' \<and> cs = cs'"
  using assms(1,3,4)
proof (induction cs arbitrary: cs' rule: rev_induct)
  case Nil
  show ?case
  proof (cases cs' rule: rev_cases)
    case n: Nil
    with Nil.prems inj_calls [OF assms(2), of key x key x'] show ?thesis
      by (simp add: hmac_chain_def)
  next
    case n: (snoc ds d)
    then have "hmac key x = hmac (hmac_chain hmac key x' ds) d"
      using Nil.prems(1) by (simp add: hmac_chain_snoc) (simp add: hmac_chain_def)
    with Nil.prems n inj_calls [OF assms(2), of key x "hmac_chain hmac key x' ds" d]
    have "hmac_chain hmac key x' ds = key" by (simp add: chain_calls_snoc)
    with chain_is_call [of hmac key x' ds] Nil.prems(3) assms(5) n show ?thesis
      by (force simp: chain_calls_snoc)
  qed
next
  case (snoc c cs)
  show ?case
  proof (cases cs' rule: rev_cases)
    case n: Nil
    then have "hmac key x' = hmac (hmac_chain hmac key x cs) c"
      using snoc.prems(1) by (simp add: hmac_chain_snoc) (simp add: hmac_chain_def)
    with snoc.prems n inj_calls [OF assms(2), of key x' "hmac_chain hmac key x cs" c]
    have "hmac_chain hmac key x cs = key" by (simp add: chain_calls_snoc)
    with chain_is_call [of hmac key x cs] snoc.prems(2) assms(5) show ?thesis
      by (force simp: chain_calls_snoc)
  next
    case n: (snoc ds d)
    then have "hmac (hmac_chain hmac key x cs) c = hmac (hmac_chain hmac key x' ds) d"
      using snoc.prems(1) by (simp add: hmac_chain_snoc)
    with snoc.prems n
      inj_calls [OF assms(2), of "hmac_chain hmac key x cs" c "hmac_chain hmac key x' ds" d]
    have "hmac_chain hmac key x cs = hmac_chain hmac key x' ds \<and> c = d"
      by (simp add: chain_calls_snoc)
    with snoc.IH [of ds] snoc.prems n show ?thesis by (simp add: chain_calls_snoc)
  qed
qed

section \<open>The binary format: round trip and canonicity\<close>

lemma of_char_lt: "(of_char c :: nat) < 256"
  by (cases c) (simp add: of_char_def)

lemma length_put_u32 [simp]: "length (put_u32 n) = 4"
  by (simp add: put_u32_def)

lemma get_put_u32:
  assumes "n < 4294967296"
  shows "get_u32 (pre @ put_u32 n @ post) (length pre) = n"
proof -
  have "n div 256 div 256 = n div 65536" "n div 65536 div 256 = n div 16777216"
    by (simp_all flip: div_mult2_eq)
  then have "n div 256 = n div 65536 * 256 + n div 256 mod 256"
    "n div 65536 = n div 16777216 * 256 + n div 65536 mod 256"
    by (metis div_mult_mod_eq)+
  moreover have "n = n div 256 * 256 + n mod 256" by simp
  ultimately have "n div 16777216 * 16777216 + n div 65536 mod 256 * 65536 +
        n div 256 mod 256 * 256 + n mod 256 = n" by linarith
  moreover have "n div 16777216 mod 256 = n div 16777216" using assms by simp
  ultimately show ?thesis by (simp add: get_u32_def put_u32_def nth_append)
qed

lemma get_u32_lt: "get_u32 data off < 4294967296"
  using of_char_lt [of "data ! off"] of_char_lt [of "data ! (off + 1)"]
    of_char_lt [of "data ! (off + 2)"] of_char_lt [of "data ! (off + 3)"]
  unfolding get_u32_def by linarith

lemma put_get_u32:
  assumes "off + 4 \<le> length data"
  shows "put_u32 (get_u32 data off) = take 4 (drop off data)"
proof -
  define a b c d :: nat where "a = of_char (data ! off)" and "b = of_char (data ! (off + 1))"
    and "c = of_char (data ! (off + 2))" and "d = of_char (data ! (off + 3))"
  have lt: "a < 256" "b < 256" "c < 256" "d < 256" by (simp_all add: a_def b_def c_def d_def)
  define n where "n = a * 16777216 + b * 65536 + c * 256 + d"
  have "n = (a * 65536 + b * 256 + c) * 256 + d" by (simp add: n_def)
  with lt have n1: "n div 256 = a * 65536 + b * 256 + c" "n mod 256 = d"
    by (metis add.commute div_mult_self3 div_less plus_nat.add_0 zero_neq_numeral,
        metis add.commute mod_less mod_mult_self1)
  have "n = (a * 256 + b) * 65536 + (c * 256 + d)" by (simp add: n_def)
  with lt have n2: "n div 65536 = a * 256 + b" by simp
  have "n = a * 16777216 + (b * 65536 + c * 256 + d)" by (simp add: n_def)
  with lt have n3: "n div 16777216 = a" by simp
  have m: "(a * 65536 + b * 256 + c) mod 256 = c" "(a * 256 + b) mod 256 = b"
  proof -
    have "a * 65536 + b * 256 + c = c + (a * 256 + b) * 256" by simp
    then show "(a * 65536 + b * 256 + c) mod 256 = c" using lt by (metis mod_less mod_mult_self1)
  qed (use lt in simp)
  have char: "\<And>x y. x mod 256 = of_char (y::char) \<Longrightarrow> char_of (x::nat) = y"
    by (metis char_of_mod_256 char_of_char)
  have "char_of (n div 16777216) = data ! off" "char_of (n div 65536) = data ! (off + 1)"
    "char_of (n div 256) = data ! (off + 2)" "char_of n = data ! (off + 3)"
    using m n1(2) lt unfolding n1(1) n2 n3 by (simp_all add: char a_def b_def c_def d_def)
  moreover have "take 4 (drop off data) =
      [data ! off, data ! (off + 1), data ! (off + 2), data ! (off + 3)]"
    using assms by (intro nth_equalityI) (auto simp: nth_Cons' numeral_eq_Suc less_Suc_eq)
  ultimately show ?thesis
    unfolding put_u32_def get_u32_def
    by (simp add: n_def a_def b_def c_def d_def)
qed

definition piece_at :: "bytes \<Rightarrow> nat \<Rightarrow> bytes \<Rightarrow> bool" where
  "piece_at data off x \<longleftrightarrow> has_prefix x (drop off data)"

lemma piece_at_append:
  "piece_at data off (x @ y) \<longleftrightarrow> piece_at data off x \<and> piece_at data (off + length x) y"
proof -
  have "drop (off + length x) data = drop (length x) (drop off data)" by (simp add: add.commute)
  moreover have "has_prefix (x @ y) s \<longleftrightarrow> has_prefix x s \<and> has_prefix y (drop (length x) s)" for s
    by (auto simp: has_prefix_iff)
  ultimately show ?thesis unfolding piece_at_def by metis
qed

lemma piece_at_length: "piece_at data off x \<Longrightarrow> x \<noteq> [] \<Longrightarrow> off + length x \<le> length data"
proof -
  assume "piece_at data off x" "x \<noteq> []"
  then obtain y where "drop off data = x @ y" by (auto simp: piece_at_def has_prefix_iff)
  then have "length data - off = length x + length y" "0 < length x"
    using \<open>x \<noteq> []\<close> by (auto dest: arg_cong [where f = length])
  then show ?thesis by linarith
qed

lemma piece_at_Nil [simp]: "piece_at data off []"
  by (simp add: piece_at_def)

lemma piece_at_u32:
  assumes "off + 4 \<le> length data" "n < 4294967296"
  shows "piece_at data off (put_u32 n) \<longleftrightarrow> get_u32 data off = n"
proof
  assume "piece_at data off (put_u32 n)"
  then obtain y where "drop off data = put_u32 n @ y" by (auto simp: piece_at_def has_prefix_iff)
  then have "data = take off data @ put_u32 n @ y" by (metis append_take_drop_id)
  moreover have "length (take off data) = off" using assms(1) by simp
  ultimately show "get_u32 data off = n"
    using get_put_u32 [OF assms(2), of "take off data" y] by metis
next
  assume "get_u32 data off = n"
  then show "piece_at data off (put_u32 n)"
    using put_get_u32 [OF assms(1)] assms(1) by (auto simp: piece_at_def has_prefix_def)
qed

lemma length_put_field [simp]: "length (put_field x) = 4 + length x"
  by (simp add: put_field_def)

lemma read_field_iff:
  "read_field data off = Inr (x, off') \<longleftrightarrow>
   off' = off + 4 + length x \<and> length x < 4294967296 \<and> piece_at data off (put_field x)"
  (is "?L \<longleftrightarrow> ?R")
proof
  assume ?L
  then have b: "off + 4 \<le> length data" "off + 4 + get_u32 data off \<le> length data"
    and x: "x = take (get_u32 data off) (drop (off + 4) data)" "off' = off + 4 + get_u32 data off"
    by (auto simp: read_field_def Let_def split: if_splits)
  then have len: "length x = get_u32 data off" by simp
  have "piece_at data off (put_u32 (length x))"
    using b(1) get_u32_lt by (subst piece_at_u32) (auto simp: len)
  moreover have "piece_at data (off + 4) x" using x(1) len by (simp add: piece_at_def has_prefix_def)
  ultimately show ?R using x(2) len get_u32_lt [of data off]
    by (simp add: put_field_def piece_at_append)
next
  assume r: ?R
  then have p: "piece_at data off (put_u32 (length x))" "piece_at data (off + 4) x"
    by (simp_all add: put_field_def piece_at_append)
  have b: "off + 4 \<le> length data"
    using piece_at_length [OF p(1)] by (simp add: put_u32_def)
  then have g: "get_u32 data off = length x" using p(1) r by (simp add: piece_at_u32)
  have "off + 4 + length x \<le> length data"
    using piece_at_length [OF p(2)] b by (cases "x = []") auto
  with b g p(2) r show ?L by (simp add: read_field_def Let_def piece_at_def has_prefix_def)
qed

lemma read_caveats_iff:
  "read_caveats data k off = Inr (cs, off') \<longleftrightarrow>
   length cs = k \<and> off' = off + length (concat (map put_field cs)) \<and>
   (\<forall>c \<in> set cs. length c < 4294967296) \<and> piece_at data off (concat (map put_field cs))"
proof (induction k arbitrary: off cs off')
  case 0
  then show ?case by auto
next
  case (Suc k)
  have "read_caveats data (Suc k) off = Inr (cs, off') \<longleftrightarrow>
     (\<exists>c ds o1. cs = c # ds \<and> read_field data off = Inr (c, o1) \<and>
        read_caveats data k o1 = Inr (ds, off'))"
    by (auto split: sum.splits prod.splits)
  also have "\<dots> \<longleftrightarrow> (\<exists>c ds o1. cs = c # ds \<and> read_field data off = Inr (c, o1) \<and>
        length ds = k \<and> off' = o1 + length (concat (map put_field ds)) \<and>
        (\<forall>c \<in> set ds. length c < 4294967296) \<and> piece_at data o1 (concat (map put_field ds)))"
    by (simp only: Suc.IH)
  also have "\<dots> \<longleftrightarrow> length cs = Suc k \<and> off' = off + length (concat (map put_field cs)) \<and>
        (\<forall>c \<in> set cs. length c < 4294967296) \<and> piece_at data off (concat (map put_field cs))"
    by (cases cs) (auto simp: read_field_iff piece_at_append add.assoc)
  finally show ?case .
qed

lemma concat_put_length:
  "length (concat (map put_field cs)) = sum_list (map (\<lambda>c. 4 + length c) cs)"
  by (induction cs) auto

lemma concat_put_ge: "4 * length cs \<le> length (concat (map put_field cs))"
  by (induction cs) auto

lemma marshal_Inr_iff:
  "marshal_binary m = Inr data \<longleftrightarrow>
   marshal_size m \<le> max_token_size \<and>
   data = format_version # put_field (m_id m) @ put_field (m_location m) @
          put_u32 (length (m_caveats m)) @ concat (map put_field (m_caveats m)) @ m_signature m"
  by (auto simp: marshal_binary_def)

lemma piece_at_skip:
  "piece_at (x @ y) (length x + k) z \<longleftrightarrow> piece_at y k z"
  by (simp add: piece_at_def)

lemma unmarshal_marshal:
  assumes m: "marshal_binary m = Inr data" and sig: "length (m_signature m) = 32"
  shows "unmarshal_binary data = Inr m"
proof -
  let ?cs = "m_caveats m"
  let ?body = "concat (map put_field ?cs)"
  define o1 where "o1 = 1 + 4 + length (m_id m)"
  define o2 where "o2 = o1 + 4 + length (m_location m)"
  define o3 where "o3 = o2 + 4"
  define o4 where "o4 = o3 + length ?body"
  from m have size: "marshal_size m \<le> 8192" and data: "data = [format_version] @ put_field (m_id m) @
      put_field (m_location m) @ put_u32 (length ?cs) @ ?body @ m_signature m"
    by (auto simp: marshal_Inr_iff max_token_size_def)
  have len: "length data = o4 + 32" "length data = marshal_size m"
    by (simp_all add: data marshal_size_def sig o1_def o2_def o3_def o4_def concat_put_length)
  have all: "piece_at data 0 ([format_version] @ put_field (m_id m) @
      put_field (m_location m) @ put_u32 (length ?cs) @ ?body @ m_signature m)"
    unfolding data [symmetric] by (simp add: piece_at_def has_prefix_iff)
  have p: "piece_at data 1 (put_field (m_id m))" "piece_at data o1 (put_field (m_location m))"
      "piece_at data o2 (put_u32 (length ?cs))" "piece_at data o3 ?body"
      "piece_at data o4 (m_signature m)"
    using all unfolding o4_def o3_def o2_def o1_def piece_at_append
    by (simp_all add: add.assoc)
  have "4 + length c \<le> length ?body" if "c \<in> set ?cs" for c
    using that member_le_sum_list [of "4 + length c" "map (\<lambda>c. 4 + length c) ?cs"]
    unfolding concat_put_length by simp
  then have bound: "length (m_id m) < 4294967296" "length (m_location m) < 4294967296"
    "length ?cs < 4294967296" "\<forall>c \<in> set ?cs. length c < 4294967296"
    using size concat_put_ge [of ?cs] len
    unfolding o1_def o2_def o3_def o4_def by force+
  have f: "read_field data 1 = Inr (m_id m, o1)" "read_field data o1 = Inr (m_location m, o2)"
    using p bound by (simp_all add: read_field_iff o1_def o2_def)
  have c: "read_caveats data (length ?cs) o3 = Inr (?cs, o4)"
    using p bound by (simp add: read_caveats_iff o4_def)
  have n: "get_u32 data o2 = length ?cs"
    using p(3) bound(3) len(1) by (simp add: piece_at_u32 o4_def o3_def)
  have s: "take 32 (drop o4 data) = m_signature m"
    using p(5) sig by (simp add: piece_at_def has_prefix_def)
  have "length ?cs \<le> (length data - o3) div 4"
    using concat_put_ge [of ?cs] len(1) by (simp add: o4_def)
  moreover have "data ! 0 = format_version" by (simp add: data)
  moreover have "1 \<le> length data" "length data \<le> 8192" using len size by simp_all
  moreover have "o2 + 4 \<le> length data" using len(1) by (simp add: o4_def o3_def)
  ultimately show ?thesis
    using f c n s len(1) sig unfolding unmarshal_binary_def max_token_size_def o3_def
    by (simp add: Let_def not_less)
qed

lemma marshal_unmarshal:
  assumes "unmarshal_binary data = Inr m"
  shows "marshal_binary m = Inr data \<and> length (m_signature m) = 32"
proof -
  from assms obtain o1 o2 o4 where
    size: "length data \<le> 8192" "1 \<le> length data" "data ! 0 = format_version"
    and f: "read_field data 1 = Inr (m_id m, o1)" "read_field data o1 = Inr (m_location m, o2)"
    and o2: "o2 + 4 \<le> length data"
    and c: "read_caveats data (get_u32 data o2) (o2 + 4) = Inr (m_caveats m, o4)"
    and o4: "o4 + 32 = length data"
    and sig: "m_signature m = take 32 (drop o4 data)"
    by (auto simp: unmarshal_binary_def Let_def max_token_size_def not_less
        split: if_splits sum.splits)
  have p0: "piece_at data 0 [format_version]"
    using size by (cases data) (auto simp: piece_at_def)
  from f have p: "o1 = 1 + length (put_field (m_id m))" "piece_at data 1 (put_field (m_id m))"
    "o2 = o1 + length (put_field (m_location m))" "piece_at data o1 (put_field (m_location m))"
    by (simp_all add: read_field_iff)
  from c have q: "length (m_caveats m) = get_u32 data o2"
    "o4 = o2 + 4 + length (concat (map put_field (m_caveats m)))"
    "piece_at data (o2 + 4) (concat (map put_field (m_caveats m)))"
    by (simp_all add: read_caveats_iff)
  have p2: "piece_at data o2 (put_u32 (length (m_caveats m)))"
    using o2 q(1) get_u32_lt by (simp add: piece_at_u32)
  have ls: "length (m_signature m) = 32" using sig o4 by simp
  have p4: "piece_at data o4 (m_signature m)"
    using sig ls by (simp add: piece_at_def has_prefix_def)
  let ?out = "[format_version] @ put_field (m_id m) @ put_field (m_location m) @
      put_u32 (length (m_caveats m)) @ concat (map put_field (m_caveats m)) @ m_signature m"
  have "piece_at data 0 ?out"
    unfolding piece_at_append using p0 p p2 q p4 by (simp add: add.assoc)
  moreover have len: "length ?out = length data"
    using p q o4 ls by simp
  ultimately have "data = ?out" by (auto simp: piece_at_def has_prefix_iff)
  moreover have "marshal_size m = length data"
    using len ls by (simp add: marshal_size_def concat_put_length)
  ultimately show ?thesis using ls size(1) by (simp add: marshal_Inr_iff max_token_size_def)
qed

section \<open>Properties\<close>

text \<open>
  Claim C26. The binary token format is a bijection: \<open>UnmarshalBinary\<close> accepts a byte string
  with result \<open>m\<close> exactly when \<open>m\<close> has a 32 byte signature and \<open>MarshalBinary\<close> of \<open>m\<close>
  produces that very byte string. So parsing inverts serialising, no two byte strings
  parse to the same token, and every length, bound and trailing byte check is complete.
\<close>

theorem unmarshal_iff_marshal:
  "unmarshal_binary data = Inr m \<longleftrightarrow>
   marshal_binary m = Inr data \<and> length (m_signature m) = 32"
  using unmarshal_marshal marshal_unmarshal by blast

text \<open>
  A macaroon that \<open>New\<close> creates and any sequence of \<open>AddFirstPartyCaveat\<close>
  extends verifies under its root key, and \<open>Verify\<close> returns the added caveats in order.
\<close>

theorem verify_minted_chain:
  "mac_verify hmac key (fold (add_caveat hmac) cs (new_macaroon hmac loc ident key)) = Inr cs"
  using verify_add_caveats [OF verify_new, of hmac key cs loc ident] by (simp add: add_caveats_def)

text \<open>
  The chain binds identifier and caveats: if two macaroons carry the same
  signature and both verify under the same root key, they have the same identifier and
  the same caveats in the same order, unless two of the HMAC calls made to verify them
  collide or one of those calls returns the root key. In particular a caveat cannot be
  removed, changed or reordered under a signature that was issued.
\<close>

theorem verify_binds_caveats:
  assumes "mac_verify hmac key m = Inr cs" and "mac_verify hmac key m' = Inr cs'"
    and "m_signature m = m_signature m'"
    and "inj_on (\<lambda>(k, x). hmac k x)
           (set (chain_calls hmac key (m_id m) cs) \<union> set (chain_calls hmac key (m_id m') cs'))"
    and "\<forall>(k, x) \<in> set (chain_calls hmac key (m_id m) cs) \<union>
           set (chain_calls hmac key (m_id m') cs'). hmac k x \<noteq> key"
  shows "m_id m = m_id m' \<and> cs = cs'"
proof -
  have "cs = m_caveats m" "cs' = m_caveats m'"
    "hmac_chain hmac key (m_id m) cs = hmac_chain hmac key (m_id m') cs'"
    using assms(1-3) by (auto simp: mac_verify_def split: if_splits)
  then show ?thesis using chain_binding [OF _ assms(4) _ _ assms(5)] by simp
qed

theorem verify_binds_caveats_witness:
  "let hmac = (\<lambda>k x. CHR ''h'' # k @ x);
       m = fold (add_caveat hmac) [''a'', ''b''] (new_macaroon hmac ''here'' ''id'' ''key'');
       m' = m\<lparr>m_location := ''there''\<rparr>
   in m \<noteq> m' \<and> m_id m = m_id m' \<and> [''a'', ''b''] = [''a'', ''b'']"
proof -
  let ?h = "\<lambda>k x. CHR ''h'' # k @ x"
  let ?m = "fold (add_caveat ?h) [''a'', ''b''] (new_macaroon ?h ''here'' ''id'' ''key'')"
  have "m_id ?m = m_id (?m\<lparr>m_location := ''there''\<rparr>) \<and> [''a'', ''b''] = [''a'', ''b'']"
    by (rule verify_binds_caveats
         [where hmac = ?h and key = "''key''" and m = ?m and m' = "?m\<lparr>m_location := ''there''\<rparr>"])
       (simp_all add: mac_verify_def new_macaroon_def add_caveat_def hmac_chain_def)
  moreover have "?m \<noteq> ?m\<lparr>m_location := ''there''\<rparr>"
    by (simp add: new_macaroon_def add_caveat_def)
  ultimately show ?thesis unfolding Let_def by blast
qed

end
