(* ===== verification/Reducer.thy ===== *)
theory Reducer
  imports Macaroon
begin

text \<open>
  Component \<open>internal/macaroon/reducer.go\<close>: parsing caveats and reducing the caveats of a
  verified macaroon to the effective envelope. The loop of \<open>Reduce\<close> is \<open>run_steps\<close> over
  \<open>reduce_caveat\<close>, which is an \<open>attenuator\<close>: no caveat gives back what an earlier caveat
  of the same dimension took away.
\<close>

section \<open>Parsing\<close>

definition known_caveat_keys :: "string list" where
  "known_caveat_keys =
     [''target'', ''role'', ''service'', ''remote'', ''method'', ''can_delegate'',
      ''delegation_depth'', ''expires_before'', ''agent'', ''initiated_by'']"

definition set_keys :: "string list" where
  "set_keys = [''target'', ''role'', ''service'', ''remote'', ''method'']"

text \<open>
  One attempt of \<open>parseCaveat\<close>: cut the text at the first occurrence of an operator that
  is not at its start. \<open>None\<close> means that the next operator is tried.
\<close>

definition cut_at ::
    "string \<Rightarrow> string \<Rightarrow> string \<Rightarrow> (mac_error + (string \<times> string \<times> string)) option" where
  "cut_at infx op raw =
     (case index_of infx raw of
        None \<Rightarrow> None
      | Some idx \<Rightarrow>
          if 0 < idx
          then let key = trim_space (take idx raw);
                   val = trim_space (drop (idx + length infx) raw)
               in if key = [] \<or> val = []
                  then Some (Inl (ErrMalformedCaveat (EmptyKeyOrValue raw)))
                  else Some (Inr (key, op, val))
          else None)"

definition parse_caveat :: "string \<Rightarrow> mac_error + (string \<times> string \<times> string)" where
  "parse_caveat raw0 =
     (let raw = trim_space raw0 in
      if raw = [] then Inl (ErrMalformedCaveat EmptyCaveat)
      else case cut_at '' IN '' ''IN'' raw of
        Some r \<Rightarrow> r
      | None \<Rightarrow>
      (case cut_at '' <= '' ''<='' raw of
        Some r \<Rightarrow> r
      | None \<Rightarrow>
      (case cut_at '' = '' ''='' raw of
        Some r \<Rightarrow> r
      | None \<Rightarrow> Inl (ErrMalformedCaveat (NoOperator raw)))))"

definition trim_prefix :: "char \<Rightarrow> string \<Rightarrow> string" where
  "trim_prefix c s = (case s of x # xs \<Rightarrow> if x = c then xs else s | [] \<Rightarrow> [])"

definition trim_suffix :: "char \<Rightarrow> string \<Rightarrow> string" where
  "trim_suffix c s = rev (trim_prefix c (rev s))"

definition parse_csv :: "string \<Rightarrow> string list" where
  "parse_csv s0 =
     (let s = trim_suffix (CHR '']'') (trim_prefix (CHR ''['') (trim_space s0))
      in if s = [] then []
         else filter (\<lambda>p. p \<noteq> []) (map trim_space (split_on (CHR '','') s)))"

fun intersect_loop :: "string set \<Rightarrow> string list \<Rightarrow> string list" where
  "intersect_loop S [] = []"
| "intersect_loop S (v # vs) =
     (if v \<in> S then v # intersect_loop (S - {v}) vs else intersect_loop S vs)"

definition intersect_sets :: "string list \<Rightarrow> string list \<Rightarrow> string list" where
  "intersect_sets a b = sort (intersect_loop (set a) b)"

section \<open>Reduction\<close>

record set_dim =
  sd_values :: "string list"
  sd_constrained :: bool

record reduce_state =
  rs_sets :: "string \<Rightarrow> set_dim"
  rs_can_delegate :: bool
  rs_depth :: int
  rs_depth_constrained :: bool
  rs_expires_at :: time
  rs_expires_constrained :: bool
  rs_agent :: string
  rs_initiated_by :: string

definition reduce_init :: reduce_state where
  "reduce_init =
     \<lparr>rs_sets = (\<lambda>_. \<lparr>sd_values = [], sd_constrained = False\<rparr>),
      rs_can_delegate = True, rs_depth = -1, rs_depth_constrained = False,
      rs_expires_at = 0, rs_expires_constrained = False,
      rs_agent = [], rs_initiated_by = []\<rparr>"

text \<open>The body of the loop of \<open>Reduce\<close>, with the cases of its \<open>switch\<close> in order.\<close>

definition reduce_caveat :: "string \<Rightarrow> reduce_state \<Rightarrow> mac_error + reduce_state" where
  "reduce_caveat raw st =
     (case parse_caveat raw of
        Inl e \<Rightarrow> Inl e
      | Inr (key, op, val) \<Rightarrow>
          if key \<notin> set known_caveat_keys then Inl (ErrUnknownCaveat key)
          else if key \<in> set set_keys then
            (if op \<noteq> ''IN'' then Inl (ErrMalformedCaveat (WrongOperator key op))
             else let new = parse_csv val; dim = rs_sets st key in
               Inr (st\<lparr>rs_sets := (rs_sets st)(key :=
                 (if \<not> sd_constrained dim then \<lparr>sd_values = new, sd_constrained = True\<rparr>
                  else dim\<lparr>sd_values := intersect_sets (sd_values dim) new\<rparr>))\<rparr>))
          else if key = ''expires_before'' then
            (if op \<noteq> ''='' then Inl (ErrMalformedCaveat (WrongOperator key op))
             else case parse_rfc3339 val of
               None \<Rightarrow> Inl (ErrMalformedCaveat (InvalidTime val))
             | Some t \<Rightarrow>
                 if \<not> rs_expires_constrained st \<or> t < rs_expires_at st
                 then Inr (st\<lparr>rs_expires_at := t, rs_expires_constrained := True\<rparr>)
                 else Inr st)
          else if key = ''can_delegate'' then
            (if op \<noteq> ''='' then Inl (ErrMalformedCaveat (WrongOperator key op))
             else case parse_bool val of
               None \<Rightarrow> Inl (ErrMalformedCaveat (InvalidBool val))
             | Some b \<Rightarrow> if \<not> b then Inr (st\<lparr>rs_can_delegate := False\<rparr>) else Inr st)
          else if key = ''delegation_depth'' then
            (if op \<noteq> ''<='' then Inl (ErrMalformedCaveat (WrongOperator key op))
             else case atoi val of
               None \<Rightarrow> Inl (ErrMalformedCaveat (InvalidInt val))
             | Some d \<Rightarrow>
                 if \<not> rs_depth_constrained st \<or> d < rs_depth st
                 then Inr (st\<lparr>rs_depth := d, rs_depth_constrained := True\<rparr>)
                 else Inr st)
          else if key = ''agent'' then
            (if op \<noteq> ''='' then Inl (ErrMalformedCaveat (WrongOperator key op))
             else Inr (if rs_agent st = [] then st\<lparr>rs_agent := val\<rparr> else st))
          else
            (if op \<noteq> ''='' then Inl (ErrMalformedCaveat (WrongOperator key op))
             else Inr (if rs_initiated_by st = [] then st\<lparr>rs_initiated_by := val\<rparr> else st)))"

definition dim_values :: "reduce_state \<Rightarrow> string \<Rightarrow> string list" where
  "dim_values st key = (if sd_constrained (rs_sets st key) then sd_values (rs_sets st key) else [])"

definition reduce_output :: "reduce_state \<Rightarrow> reducer_output" where
  "reduce_output st =
     \<lparr>ro_envelope =
        \<lparr>ee_targets = dim_values st ''target'', ee_roles = dim_values st ''role'',
         ee_services = dim_values st ''service'', ee_remotes = dim_values st ''remote'',
         ee_methods = dim_values st ''method'',
         ee_can_delegate = rs_can_delegate st, ee_delegation_depth = rs_depth st,
         ee_expires_at = (if rs_expires_constrained st then rs_expires_at st else 0)\<rparr>,
      ro_metadata = \<lparr>md_agent = rs_agent st, md_initiated_by = rs_initiated_by st\<rparr>\<rparr>"

definition reduce_caveats :: "string list \<Rightarrow> mac_error + reducer_output" where
  "reduce_caveats caveats =
     (case run_steps reduce_caveat caveats reduce_init of
        Inl e \<Rightarrow> Inl e
      | Inr st \<Rightarrow> Inr (reduce_output st))"

section \<open>Sets\<close>

lemma set_intersect_loop: "set (intersect_loop S vs) = S \<inter> set vs"
  by (induction S vs rule: intersect_loop.induct) auto

lemma distinct_intersect_loop: "distinct (intersect_loop S vs)"
  by (induction S vs rule: intersect_loop.induct) (auto simp: set_intersect_loop)

lemma set_intersect_sets [simp]: "set (intersect_sets a b) = set a \<inter> set b"
  by (simp add: intersect_sets_def set_intersect_loop)

lemma sorted_intersect_sets: "sorted (intersect_sets a b)" "distinct (intersect_sets a b)"
  by (simp_all add: intersect_sets_def distinct_intersect_loop)

lemma intersect_sets_eq: "intersect_sets a b = sorted_list_of_set (set a \<inter> set b)"
  by (rule sorted_distinct_set_unique)
     (simp_all add: sorted_intersect_sets)

section \<open>What a caveat says\<close>

text \<open>
  The meaning of one caveat, independent of the loop state. \<open>read_caveat\<close> is the parsing
  and checking half of the loop body and \<open>apply_claim\<close> its state change, so that
  \<open>reduce_caveat\<close> is their composition.
\<close>

datatype caveat_claim =
    WithinSet string "string list"
  | ExpiresBefore time
  | CanDelegate bool
  | DepthAtMost int
  | ByAgent string
  | InitiatedBy string

definition read_caveat :: "string \<Rightarrow> mac_error + caveat_claim" where
  "read_caveat raw =
     (case parse_caveat raw of
        Inl e \<Rightarrow> Inl e
      | Inr (key, op, val) \<Rightarrow>
          if key \<notin> set known_caveat_keys then Inl (ErrUnknownCaveat key)
          else if op \<noteq> (if key \<in> set set_keys then ''IN''
                         else if key = ''delegation_depth'' then ''<='' else ''='')
          then Inl (ErrMalformedCaveat (WrongOperator key op))
          else if key \<in> set set_keys then Inr (WithinSet key (parse_csv val))
          else if key = ''expires_before'' then
            (case parse_rfc3339 val of
               None \<Rightarrow> Inl (ErrMalformedCaveat (InvalidTime val)) | Some t \<Rightarrow> Inr (ExpiresBefore t))
          else if key = ''can_delegate'' then
            (case parse_bool val of
               None \<Rightarrow> Inl (ErrMalformedCaveat (InvalidBool val)) | Some b \<Rightarrow> Inr (CanDelegate b))
          else if key = ''delegation_depth'' then
            (case atoi val of
               None \<Rightarrow> Inl (ErrMalformedCaveat (InvalidInt val)) | Some d \<Rightarrow> Inr (DepthAtMost d))
          else if key = ''agent'' then Inr (ByAgent val)
          else Inr (InitiatedBy val))"

primrec apply_claim :: "caveat_claim \<Rightarrow> reduce_state \<Rightarrow> reduce_state" where
  "apply_claim (WithinSet key new) st =
     st\<lparr>rs_sets := (rs_sets st)(key :=
       (if sd_constrained (rs_sets st key)
        then (rs_sets st key)\<lparr>sd_values := intersect_sets (sd_values (rs_sets st key)) new\<rparr>
        else \<lparr>sd_values = new, sd_constrained = True\<rparr>))\<rparr>"
| "apply_claim (ExpiresBefore t) st =
     (if \<not> rs_expires_constrained st \<or> t < rs_expires_at st
      then st\<lparr>rs_expires_at := t, rs_expires_constrained := True\<rparr> else st)"
| "apply_claim (CanDelegate b) st = (if b then st else st\<lparr>rs_can_delegate := False\<rparr>)"
| "apply_claim (DepthAtMost d) st =
     (if \<not> rs_depth_constrained st \<or> d < rs_depth st
      then st\<lparr>rs_depth := d, rs_depth_constrained := True\<rparr> else st)"
| "apply_claim (ByAgent a) st = (if rs_agent st = [] then st\<lparr>rs_agent := a\<rparr> else st)"
| "apply_claim (InitiatedBy a) st =
     (if rs_initiated_by st = [] then st\<lparr>rs_initiated_by := a\<rparr> else st)"

lemma reduce_caveat_split:
  "reduce_caveat raw st =
     (case read_caveat raw of Inl e \<Rightarrow> Inl e | Inr c \<Rightarrow> Inr (apply_claim c st))"
  unfolding reduce_caveat_def read_caveat_def
  by (cases "parse_caveat raw")
     (auto simp: Let_def known_caveat_keys_def set_keys_def split: option.splits)

lemma run_reduce:
  "run_steps reduce_caveat cs st = Inr st' \<longleftrightarrow>
   (\<exists>claims. map read_caveat cs = map Inr claims \<and> st' = fold apply_claim claims st)"
proof (induction cs arbitrary: st)
  case (Cons c cs)
  show ?case
  proof (cases "read_caveat c")
    case (Inr a)
    have "(\<exists>claims. read_caveat c # map read_caveat cs = map Inr claims \<and>
             st' = fold apply_claim claims st) \<longleftrightarrow>
          (\<exists>claims. map read_caveat cs = map Inr claims \<and>
             st' = fold apply_claim claims (apply_claim a st))"
    proof
      assume "\<exists>claims. read_caveat c # map read_caveat cs = map Inr claims \<and>
             st' = fold apply_claim claims st"
      then obtain b claims where "read_caveat c = Inr b" "map read_caveat cs = map Inr claims"
        "st' = fold apply_claim (b # claims) st" by (auto simp: Cons_eq_map_conv)
      then show "\<exists>claims. map read_caveat cs = map Inr claims \<and>
             st' = fold apply_claim claims (apply_claim a st)" using Inr by auto
    next
      assume "\<exists>claims. map read_caveat cs = map Inr claims \<and>
             st' = fold apply_claim claims (apply_claim a st)"
      then obtain claims where "map read_caveat cs = map Inr claims"
        "st' = fold apply_claim (a # claims) st" by auto
      then show "\<exists>claims. read_caveat c # map read_caveat cs = map Inr claims \<and>
             st' = fold apply_claim claims st" using Inr by (intro exI [of _ "a # claims"]) simp
    qed
    then show ?thesis using Inr Cons.IH by (simp add: reduce_caveat_split)
  qed (simp add: reduce_caveat_split Cons_eq_map_conv)
qed auto

section \<open>Attenuation\<close>

definition narrower :: "reduce_state \<Rightarrow> reduce_state \<Rightarrow> bool" where
  "narrower b a \<longleftrightarrow>
     (\<forall>k. sd_constrained (rs_sets a k) \<longrightarrow>
          sd_constrained (rs_sets b k) \<and> set (sd_values (rs_sets b k)) \<subseteq> set (sd_values (rs_sets a k))) \<and>
     (rs_can_delegate b \<longrightarrow> rs_can_delegate a) \<and>
     (rs_depth_constrained a \<longrightarrow> rs_depth_constrained b \<and> rs_depth b \<le> rs_depth a) \<and>
     (rs_expires_constrained a \<longrightarrow> rs_expires_constrained b \<and> rs_expires_at b \<le> rs_expires_at a) \<and>
     (rs_agent a \<noteq> [] \<longrightarrow> rs_agent b = rs_agent a) \<and>
     (rs_initiated_by a \<noteq> [] \<longrightarrow> rs_initiated_by b = rs_initiated_by a)"

lemma narrower_refl: "narrower a a"
  by (simp add: narrower_def)

lemma narrower_trans: "narrower a b \<Longrightarrow> narrower b c \<Longrightarrow> narrower a c"
  unfolding narrower_def
  by (elim conjE, intro conjI allI impI; (metis order_trans | metis subset_trans | simp))

lemma apply_claim_narrower: "narrower (apply_claim c st) st"
  by (cases c) (auto simp: narrower_def)

interpretation reduction: attenuator narrower reduce_caveat
proof unfold_locales
  show "\<And>c a b. reduce_caveat c a = Inr b \<Longrightarrow> narrower b a"
    by (auto simp: reduce_caveat_split apply_claim_narrower split: sum.splits)
qed (auto intro: narrower_refl narrower_trans)

section \<open>The envelope a list of claims stands for\<close>

text \<open>
  A declarative reading of a whole list of claims: intersection of all lists of a
  dimension, minimum of all depths and expiries, conjunction of all delegation flags,
  first value of each metadata key.
\<close>

definition dim_lists :: "string \<Rightarrow> caveat_claim list \<Rightarrow> string list list" where
  "dim_lists key claims =
     concat (map (\<lambda>c. case c of WithinSet k vs \<Rightarrow> if k = key then [vs] else [] | _ \<Rightarrow> []) claims)"

definition depths :: "caveat_claim list \<Rightarrow> int list" where
  "depths claims = concat (map (\<lambda>c. case c of DepthAtMost d \<Rightarrow> [d] | _ \<Rightarrow> []) claims)"

definition expiries :: "caveat_claim list \<Rightarrow> time list" where
  "expiries claims = concat (map (\<lambda>c. case c of ExpiresBefore t \<Rightarrow> [t] | _ \<Rightarrow> []) claims)"

definition agents :: "caveat_claim list \<Rightarrow> string list" where
  "agents claims = concat (map (\<lambda>c. case c of ByAgent a \<Rightarrow> [a] | _ \<Rightarrow> []) claims)"

definition initiators :: "caveat_claim list \<Rightarrow> string list" where
  "initiators claims = concat (map (\<lambda>c. case c of InitiatedBy a \<Rightarrow> [a] | _ \<Rightarrow> []) claims)"

definition allowed :: "string list list \<Rightarrow> string list" where
  "allowed ls =
     (case ls of [] \<Rightarrow> [] | [l] \<Rightarrow> l | _ \<Rightarrow> sorted_list_of_set (\<Inter> (set ` set ls)))"

definition first_of :: "string list \<Rightarrow> string" where
  "first_of xs = (case xs of [] \<Rightarrow> [] | x # _ \<Rightarrow> x)"

definition least :: "int \<Rightarrow> int list \<Rightarrow> int" where
  "least none xs = (if xs = [] then none else Min (set xs))"

definition meaning :: "caveat_claim list \<Rightarrow> reducer_output" where
  "meaning claims =
     \<lparr>ro_envelope =
        \<lparr>ee_targets = allowed (dim_lists ''target'' claims),
         ee_roles = allowed (dim_lists ''role'' claims),
         ee_services = allowed (dim_lists ''service'' claims),
         ee_remotes = allowed (dim_lists ''remote'' claims),
         ee_methods = allowed (dim_lists ''method'' claims),
         ee_can_delegate = (CanDelegate False \<notin> set claims),
         ee_delegation_depth = least (-1) (depths claims),
         ee_expires_at = least 0 (expiries claims)\<rparr>,
      ro_metadata = \<lparr>md_agent = first_of (agents claims),
                     md_initiated_by = first_of (initiators claims)\<rparr>\<rparr>"

lemma snoc_claims [simp]:
  "dim_lists key (cs @ [c]) = dim_lists key cs @ dim_lists key [c]"
  "depths (cs @ [c]) = depths cs @ depths [c]"
  "expiries (cs @ [c]) = expiries cs @ expiries [c]"
  "agents (cs @ [c]) = agents cs @ agents [c]"
  "initiators (cs @ [c]) = initiators cs @ initiators [c]"
  by (simp_all add: dim_lists_def depths_def expiries_def agents_def initiators_def)

lemma one_claim [simp]:
  "dim_lists key [c] = (case c of WithinSet k vs \<Rightarrow> if k = key then [vs] else [] | _ \<Rightarrow> [])"
  "depths [c] = (case c of DepthAtMost d \<Rightarrow> [d] | _ \<Rightarrow> [])"
  "expiries [c] = (case c of ExpiresBefore t \<Rightarrow> [t] | _ \<Rightarrow> [])"
  "agents [c] = (case c of ByAgent a \<Rightarrow> [a] | _ \<Rightarrow> [])"
  "initiators [c] = (case c of InitiatedBy a \<Rightarrow> [a] | _ \<Rightarrow> [])"
  by (simp_all add: dim_lists_def depths_def expiries_def agents_def initiators_def)

lemma no_claims [simp]:
  "dim_lists key [] = []" "depths [] = []" "expiries [] = []" "agents [] = []" "initiators [] = []"
  by (simp_all add: dim_lists_def depths_def expiries_def agents_def initiators_def)

lemma set_allowed: "ls \<noteq> [] \<Longrightarrow> set (allowed ls) = \<Inter> (set ` set ls)"
  by (cases ls rule: remdups_adj.cases) (auto simp: allowed_def intro: finite_subset)

lemma allowed_snoc: "ls \<noteq> [] \<Longrightarrow> allowed (ls @ [l]) = intersect_sets (allowed ls) l"
proof -
  assume ne: "ls \<noteq> []"
  then have "allowed (ls @ [l]) = sorted_list_of_set (\<Inter> (set ` set (ls @ [l])))"
    by (cases ls) (auto simp: allowed_def split: list.splits)
  then show ?thesis
    using set_allowed [OF ne] by (simp add: intersect_sets_eq inf_commute)
qed

lemma fold_sets:
  "rs_sets (fold apply_claim cs reduce_init) key =
     \<lparr>sd_values = allowed (dim_lists key cs), sd_constrained = (dim_lists key cs \<noteq> [])\<rparr>"
proof (induction cs rule: rev_induct)
  case (snoc c cs)
  then show ?case
    by (cases c) (auto simp: allowed_snoc, simp_all add: allowed_def)
qed (simp add: reduce_init_def allowed_def)

lemma least_snoc:
  "least none (xs @ [x]) = (if xs = [] \<or> x < least none xs then x else least none xs)"
proof (cases "xs = []")
  case False
  then have "Min (set (xs @ [x])) = min x (Min (set xs))" by simp
  with False show ?thesis unfolding least_def by (cases "x < Min (set xs)") (simp_all only: min_def, auto)
qed (simp add: least_def)

lemma least_Nil [simp]: "least none [] = none"
  by (simp add: least_def)

lemma fold_depth:
  "rs_depth (fold apply_claim cs reduce_init) = least (-1) (depths cs) \<and>
   rs_depth_constrained (fold apply_claim cs reduce_init) = (depths cs \<noteq> [])"
proof (induction cs rule: rev_induct)
  case (snoc c cs)
  then show ?case by (cases c) (auto simp: least_snoc)
qed (simp add: reduce_init_def)

lemma fold_expiry:
  "rs_expires_at (fold apply_claim cs reduce_init) = least 0 (expiries cs) \<and>
   rs_expires_constrained (fold apply_claim cs reduce_init) = (expiries cs \<noteq> [])"
proof (induction cs rule: rev_induct)
  case (snoc c cs)
  then show ?case by (cases c) (auto simp: least_snoc)
qed (simp add: reduce_init_def)

lemma fold_can_delegate:
  "rs_can_delegate (fold apply_claim cs reduce_init) = (CanDelegate False \<notin> set cs)"
proof (induction cs rule: rev_induct)
  case (snoc c cs)
  then show ?case by (cases c) auto
qed (simp add: reduce_init_def)

lemma first_of_snoc: "[] \<notin> set xs \<Longrightarrow> first_of (xs @ [x]) = (if first_of xs = [] then x else first_of xs)"
  by (cases xs) (auto simp: first_of_def)

lemma first_of_Nil [simp]: "first_of [] = []"
  by (simp add: first_of_def)

lemma fold_agent:
  "[] \<notin> set (agents cs) \<Longrightarrow> rs_agent (fold apply_claim cs reduce_init) = first_of (agents cs)"
proof (induction cs rule: rev_induct)
  case (snoc c cs)
  then show ?case by (cases c) (auto simp: first_of_snoc)
qed (simp add: reduce_init_def)

lemma fold_initiator:
  "[] \<notin> set (initiators cs) \<Longrightarrow>
   rs_initiated_by (fold apply_claim cs reduce_init) = first_of (initiators cs)"
proof (induction cs rule: rev_induct)
  case (snoc c cs)
  then show ?case by (cases c) (auto simp: first_of_snoc)
qed (simp add: reduce_init_def)

lemma set_agents: "a \<in> set (agents cs) \<longleftrightarrow> ByAgent a \<in> set cs"
  by (force simp: agents_def split: caveat_claim.splits)

lemma set_initiators: "a \<in> set (initiators cs) \<longleftrightarrow> InitiatedBy a \<in> set cs"
  by (force simp: initiators_def split: caveat_claim.splits)

lemma cut_at_nonempty: "cut_at infx op raw = Some (Inr (k, o', v)) \<Longrightarrow> k \<noteq> [] \<and> v \<noteq> []"
  by (simp add: cut_at_def Let_def split: option.splits if_splits)

lemma parse_caveat_nonempty: "parse_caveat raw = Inr (k, op, v) \<Longrightarrow> k \<noteq> [] \<and> v \<noteq> []"
  unfolding parse_caveat_def Let_def
  by (split if_splits; simp split: option.splits; blast dest: cut_at_nonempty)

lemma read_metadata_nonempty:
  "read_caveat raw \<noteq> Inr (ByAgent [])" "read_caveat raw \<noteq> Inr (InitiatedBy [])"
  unfolding read_caveat_def
  by (cases "parse_caveat raw"; fastforce dest: parse_caveat_nonempty split: if_splits option.splits)+

lemma reduce_output_meaning:
  assumes "map read_caveat cs = map Inr claims"
  shows "reduce_output (fold apply_claim claims reduce_init) = meaning claims"
proof -
  have "Inr ` set claims = read_caveat ` set cs"
    using arg_cong [OF assms, of set] by simp
  then have "\<exists>raw. read_caveat raw = Inr c" if "c \<in> set claims" for c
    using that by (metis (no_types) image_iff)
  then have "ByAgent [] \<notin> set claims" "InitiatedBy [] \<notin> set claims"
    using read_metadata_nonempty by blast+
  then show ?thesis
    by (simp add: reduce_output_def meaning_def dim_values_def fold_sets fold_depth fold_expiry
        fold_can_delegate fold_agent fold_initiator set_agents set_initiators)
       (simp add: allowed_def)
qed

lemma reduce_Inr_iff:
  "reduce_caveats cs = Inr out \<longleftrightarrow>
   (\<exists>claims. map read_caveat cs = map Inr claims \<and> out = meaning claims)"
proof -
  have "reduce_caveats cs = Inr out \<longleftrightarrow>
      (\<exists>st. run_steps reduce_caveat cs reduce_init = Inr st \<and> out = reduce_output st)"
    by (auto simp: reduce_caveats_def split: sum.splits)
  then show ?thesis using reduce_output_meaning [of cs] unfolding run_reduce by metis
qed

lemma run_reduce_Inl:
  "run_steps reduce_caveat cs st = Inl e \<longleftrightarrow>
   (\<exists>r. find isl (map read_caveat cs) = Some r \<and> r = Inl e)"
proof (induction cs arbitrary: st)
  case (Cons c cs)
  then show ?case by (cases "read_caveat c") (simp_all add: reduce_caveat_split)
qed simp

section \<open>Properties\<close>

text \<open>
  Claim C23. \<open>Reduce\<close> computes exactly the meet of its caveats and fails closed: it returns
  the error of the first caveat that does not parse, has an unknown key, the wrong
  operator or a bad value; otherwise every set dimension is the intersection of all lists
  given for it, depth and expiry are the minimum of all values, delegation is allowed
  iff no caveat forbids it, and the metadata is the first value given.
\<close>

theorem reduce_is_meet:
  "reduce_caveats cs =
     (case find isl (map read_caveat cs) of
        Some r \<Rightarrow> Inl (projl r)
      | None \<Rightarrow> Inr (meaning (map (\<lambda>c. projr (read_caveat c)) cs)))"
proof (cases "find isl (map read_caveat cs)")
  case None
  then have "\<not> isl (read_caveat c)" if "c \<in> set cs" for c
    using that by (simp add: find_None_iff)
  then have "map read_caveat cs = map Inr (map (\<lambda>c. projr (read_caveat c)) cs)"
    by (auto simp: isl_def)
  then have "reduce_caveats cs = Inr (meaning (map (\<lambda>c. projr (read_caveat c)) cs))"
    unfolding reduce_Inr_iff by blast
  then show ?thesis using None by simp
next
  case (Some r)
  then obtain e where "r = Inl e" by (auto simp: find_Some_iff isl_def)
  then show ?thesis
    using Some run_reduce_Inl [of cs reduce_init e] by (simp add: reduce_caveats_def)
qed

text \<open>
  \<open>out'\<close> grants at most what \<open>out\<close> grants on every dimension that \<open>claims\<close> constrain.
\<close>

definition grants_at_most ::
    "caveat_claim list \<Rightarrow> reducer_output \<Rightarrow> reducer_output \<Rightarrow> bool" where
  "grants_at_most claims out' out =
     (let e' = ro_envelope out'; e = ro_envelope out;
          m' = ro_metadata out'; m = ro_metadata out;
          sub = (\<lambda>key a b. dim_lists key claims = [] \<or> set a \<subseteq> set b)
      in sub ''target'' (ee_targets e') (ee_targets e) \<and>
         sub ''role'' (ee_roles e') (ee_roles e) \<and>
         sub ''service'' (ee_services e') (ee_services e) \<and>
         sub ''remote'' (ee_remotes e') (ee_remotes e) \<and>
         sub ''method'' (ee_methods e') (ee_methods e) \<and>
         (ee_can_delegate e \<or> \<not> ee_can_delegate e') \<and>
         (depths claims = [] \<or> ee_delegation_depth e' \<le> ee_delegation_depth e) \<and>
         (expiries claims = [] \<or> ee_expires_at e' \<le> ee_expires_at e) \<and>
         (md_agent m = [] \<or> md_agent m' = md_agent m) \<and>
         (md_initiated_by m = [] \<or> md_initiated_by m' = md_initiated_by m))"

lemma narrower_grants:
  assumes "narrower st' (fold apply_claim claims reduce_init)"
  shows "grants_at_most claims (reduce_output st')
           (reduce_output (fold apply_claim claims reduce_init))"
  using assms
  by (auto simp: grants_at_most_def reduce_output_def dim_values_def narrower_def
      fold_sets fold_depth fold_expiry)

lemma reduced_narrower:
  assumes "reduce_caveats (cs @ ds) = Inr out'"
  shows "\<exists>claims out. map read_caveat cs = map Inr claims \<and> reduce_caveats cs = Inr out \<and>
           grants_at_most claims out' out"
proof -
  from assms obtain st' where run: "run_steps reduce_caveat (cs @ ds) reduce_init = Inr st'"
    and out': "out' = reduce_output st'"
    by (auto simp: reduce_caveats_def split: sum.splits)
  from reduction.run_append_le [OF run] obtain st where
    st: "run_steps reduce_caveat cs reduce_init = Inr st" and le: "narrower st' st" .
  from st obtain claims where claims: "map read_caveat cs = map Inr claims"
    "st = fold apply_claim claims reduce_init" by (auto simp: run_reduce)
  have "reduce_caveats cs = Inr (reduce_output st)"
    using st by (simp add: reduce_caveats_def)
  with claims narrower_grants le out' show ?thesis by blast
qed

lemma reduce_error:
  assumes "reduce_caveats cs = Inl e"
  shows "(\<exists>k. e = ErrUnknownCaveat k) \<or> (\<exists>m. e = ErrMalformedCaveat m)"
proof -
  from assms obtain c where c: "read_caveat c = Inl e"
    using run_reduce_Inl [of cs reduce_init e]
    by (auto simp: reduce_caveats_def find_Some_iff split: sum.splits)
  have "\<exists>m. e' = ErrMalformedCaveat m" if "parse_caveat c = Inl e'" for e'
    using that by (auto simp: parse_caveat_def cut_at_def Let_def split: if_splits option.splits)
  then show ?thesis
    using c unfolding read_caveat_def
    by (cases "parse_caveat c") (auto split: if_splits option.splits)
qed

text \<open>
  Attenuation: when \<open>Reduce\<close> accepts a list of caveats, it accepts every prefix
  of it, and the caveats after the prefix only narrow what the prefix established: a set
  dimension that the prefix constrains can only lose members, delegation cannot be
  switched back on, depth and expiry that the prefix bounds can only decrease, and the
  agent and initiator that the prefix names stay.
\<close>

theorem reduce_attenuates:
  assumes "reduce_caveats (cs @ ds) = Inr out'"
  shows "\<exists>claims out. map read_caveat cs = map Inr claims \<and> reduce_caveats cs = Inr out \<and>
           grants_at_most claims out' out"
  using assms by (rule reduced_narrower)

theorem reduce_attenuates_witness:
  "\<exists>claims out. map read_caveat [''target IN [a,b]'', ''delegation_depth <= 3''] = map Inr claims \<and>
     reduce_caveats [''target IN [a,b]'', ''delegation_depth <= 3''] = Inr out \<and>
     grants_at_most claims
       (meaning [WithinSet ''target'' [''a'', ''b''], DepthAtMost 3,
                 WithinSet ''target'' [''b'', ''c''], DepthAtMost 1]) out"
proof -
  let ?cs = "[''target IN [a,b]'', ''delegation_depth <= 3'']"
  let ?ds = "[''target IN [b,c]'', ''delegation_depth <= 1'']"
  have "map read_caveat (?cs @ ?ds) = map Inr
      [WithinSet ''target'' [''a'', ''b''], DepthAtMost 3,
       WithinSet ''target'' [''b'', ''c''], DepthAtMost 1]" by code_simp
  then have "reduce_caveats (?cs @ ?ds) = Inr (meaning
      [WithinSet ''target'' [''a'', ''b''], DepthAtMost 3,
       WithinSet ''target'' [''b'', ''c''], DepthAtMost 1])"
    unfolding reduce_Inr_iff by blast
  then show ?thesis by (rule reduce_attenuates)
qed

end
