(* ===== verification/RootKeys.thy ===== *)
theory RootKeys
  imports Macaroon
begin

text \<open>
  Component \<open>internal/macaroon/rootkeys.go\<close>: one HMAC root key per root task. The store is
  the map \<open>keys\<close>; \<open>rand.Read\<close> and \<open>time.Now\<close> are arguments (a failing random source is
  \<open>None\<close>). Two contracts are interpreted here: the store gives out the key that was
  issued last for a task (\<open>key_provider\<close>), and its cleanup removes exactly the entries
  whose latest token expiry has passed (\<open>expiring_store\<close>).
\<close>

section \<open>State and operations\<close>

record root_key_entry =
  rk_key :: bytes
  rk_created_at :: time
  rk_max_expiry :: time

type_synonym root_keys = "(string, root_key_entry) gomap"

definition new_root_key_store :: root_keys where
  "new_root_key_store = []"

definition root_generate ::
    "time \<Rightarrow> bytes option \<Rightarrow> string \<Rightarrow> time \<Rightarrow> root_keys \<Rightarrow> (mac_error + bytes) \<times> root_keys" where
  "root_generate now rand root max_expiry ks =
     (case rand of
        None \<Rightarrow> (Inl ErrRandomSource, ks)
      | Some key \<Rightarrow>
          (Inr key,
           put root \<lparr>rk_key = key, rk_created_at = now, rk_max_expiry = max_expiry\<rparr> ks))"

definition root_get :: "root_keys \<Rightarrow> string \<Rightarrow> bytes option" where
  "root_get ks root = map_option rk_key (get ks root)"

definition root_extend_max_expiry :: "string \<Rightarrow> time \<Rightarrow> root_keys \<Rightarrow> root_keys" where
  "root_extend_max_expiry root expiry ks =
     (case get ks root of
        None \<Rightarrow> ks
      | Some entry \<Rightarrow>
          if expiry > rk_max_expiry entry then put root (entry\<lparr>rk_max_expiry := expiry\<rparr>) ks
          else ks)"

definition root_delete :: "string \<Rightarrow> root_keys \<Rightarrow> root_keys" where
  "root_delete root ks = del root ks"

definition root_cleanup :: "time \<Rightarrow> root_keys \<Rightarrow> root_keys" where
  "root_cleanup now ks = drop_if (\<lambda>_ entry. now > rk_max_expiry entry) ks"

definition root_count :: "root_keys \<Rightarrow> nat" where
  "root_count ks = length ks"

section \<open>The contracts\<close>

locale key_provider =
  fixes valid :: "'s \<Rightarrow> bool"
    and key_of :: "'s \<Rightarrow> string \<Rightarrow> bytes option"
    and issue :: "string \<Rightarrow> bytes \<Rightarrow> 's \<Rightarrow> 's"
    and forget :: "string \<Rightarrow> 's \<Rightarrow> 's"
  assumes key_of_issue: "valid s \<Longrightarrow> key_of (issue i k s) j = (if j = i then Some k else key_of s j)"
    and key_of_forget: "valid s \<Longrightarrow> key_of (forget i s) j = (if j = i then None else key_of s j)"
    and valid_issue: "valid s \<Longrightarrow> valid (issue i k s)"
    and valid_forget: "valid s \<Longrightarrow> valid (forget i s)"
begin

definition issue_all :: "(string \<times> bytes) list \<Rightarrow> 's \<Rightarrow> 's" where
  "issue_all ks s = fold (\<lambda>(i, k). issue i k) ks s"

lemma valid_issue_all: "valid s \<Longrightarrow> valid (issue_all ks s)"
  by (induction ks arbitrary: s) (auto simp: issue_all_def valid_issue)

lemma key_survives_others:
  "valid s \<Longrightarrow> i \<notin> fst ` set ks \<Longrightarrow> key_of (issue_all ks s) i = key_of s i"
  by (induction ks arbitrary: s) (auto simp: issue_all_def key_of_issue valid_issue)

lemma verify_under_issued:
  assumes "valid s" and "i \<notin> fst ` set ks"
  shows "\<exists>key. key_of (issue_all ks (issue i k s)) i = Some key \<and>
           mac_verify hmac key (add_caveats hmac cs (new_macaroon hmac loc i k)) = Inr cs"
  using assms verify_add_caveats [OF verify_new, of hmac k cs loc i]
  by (simp add: key_survives_others key_of_issue valid_issue)

lemma reissue_replaces:
  "valid s \<Longrightarrow> key_of (issue_all ks (issue i k' (issue i k s))) i = key_of (issue_all ks (issue i k' s)) i"
proof (induction ks rule: rev_induct)
  case (snoc e ks)
  then show ?case
    by (cases e) (simp add: issue_all_def key_of_issue valid_issue
        valid_issue_all [unfolded issue_all_def])
qed (simp add: issue_all_def key_of_issue valid_issue)

end

interpretation root_provider: key_provider map_wf root_get
  "\<lambda>root key ks. snd (root_generate now (Some key) root max_expiry ks)" root_delete
  for now max_expiry
  by unfold_locales (auto simp: root_get_def root_generate_def root_delete_def)

interpretation root_expiry: expiring_store map_wf get "\<lambda>now e. now > rk_max_expiry e" root_cleanup
  by unfold_locales (auto simp: root_cleanup_def get_drop_if split: option.splits)

section \<open>Lemmas\<close>

lemma root_get_generate [simp]:
  "root_get (snd (root_generate now (Some k) root e ks)) r =
     (if r = root then Some k else root_get ks r)"
  by (simp add: root_generate_def root_get_def)

lemma fst_root_generate [simp]: "fst (root_generate now (Some k) root e ks) = Inr k"
  by (simp add: root_generate_def)

lemma root_get_extend [simp]: "root_get (root_extend_max_expiry root e ks) r = root_get ks r"
  by (auto simp: root_extend_max_expiry_def root_get_def split: option.splits)

lemma wf_root_extend [intro]: "map_wf ks \<Longrightarrow> map_wf (root_extend_max_expiry root e ks)"
  by (auto simp: root_extend_max_expiry_def split: option.splits)

lemma extend_not_expired:
  "get ks root = Some e0 \<Longrightarrow>
   \<exists>e'. get (root_extend_max_expiry root e ks) root = Some e' \<and> rk_key e' = rk_key e0 \<and>
        rk_max_expiry e' = max (rk_max_expiry e0) e"
  by (auto simp: root_extend_max_expiry_def max_def)

section \<open>Properties\<close>

text \<open>
  A root key outlives every token that the store was told about: after a key was
  generated and its expiry extended any number of times, no sequence of cleanups at
  times up to the latest of these expiries removes it, and \<open>Get\<close> still returns the key
  that \<open>Generate\<close> returned.
\<close>

theorem root_key_outlives_tokens:
  assumes "map_wf ks"
    and "root_generate now (Some key) root expiry ks = (Inr key, ks')"
    and "\<forall>t \<in> set sweeps. t \<le> Max (set (expiry # extensions))"
  shows "root_get (fold root_cleanup sweeps
           (fold (root_extend_max_expiry root) extensions ks')) root = Some key"
proof -
  have "\<exists>e. get (fold (root_extend_max_expiry root) es s) root = Some e \<and> rk_key e = rk_key e0 \<and>
      rk_max_expiry e = Max (set (rk_max_expiry e0 # es)) \<and>
      map_wf (fold (root_extend_max_expiry root) es s)"
    if "get s root = Some e0" "map_wf s" for es s e0
    using that
  proof (induction es arbitrary: s e0)
    case (Cons x es)
    from extend_not_expired [OF Cons.prems(1), of x] obtain e' where
      e': "get (root_extend_max_expiry root x s) root = Some e'" "rk_key e' = rk_key e0"
      "rk_max_expiry e' = max (rk_max_expiry e0) x" by blast
    have "Max (set (rk_max_expiry e0 # x # es)) = Max (set (max (rk_max_expiry e0) x # es))"
      by (cases "es = []") (simp_all add: max.assoc)
    with Cons.IH [OF e'(1) wf_root_extend [OF Cons.prems(2)]] e' show ?case by simp
  qed simp
  moreover have "get ks' root = Some \<lparr>rk_key = key, rk_created_at = now, rk_max_expiry = expiry\<rparr>"
    "map_wf ks'" using assms(1,2) by (auto simp: root_generate_def)
  ultimately obtain e where e: "get (fold (root_extend_max_expiry root) extensions ks') root = Some e"
    "rk_key e = key" "rk_max_expiry e = Max (set (expiry # extensions))"
    "map_wf (fold (root_extend_max_expiry root) extensions ks')" by fastforce
  then have "get (fold root_cleanup sweeps (fold (root_extend_max_expiry root) extensions ks')) root
      = Some e"
    using assms(3) by (intro root_expiry.sweeps_keep_live) (simp_all only: not_less)
  with e show ?thesis by (simp add: root_get_def)
qed

theorem root_key_outlives_tokens_witness:
  "root_get (fold root_cleanup [5, 20, 30] (fold (root_extend_max_expiry ''r'') [30, 20]
     (snd (root_generate 1 (Some ''k'') ''r'' 10 [])))) ''r'' = Some ''k''"
  by (rule root_key_outlives_tokens [where ks = "[]" and now = 1 and expiry = 10])
     (simp_all add: root_generate_def)

end
