(* ===== verification/Verifier.thy ===== *)
theory Verifier
  imports RootKeys Reducer Encoding
begin

text \<open>
  Component \<open>internal/macaroon/verifier.go\<close>: a token is valid when its root key is known,
  its HMAC chain checks, its caveats reduce and the reduced expiry has not passed.
  \<open>sha256\<close> stands for \<open>sha256.Sum256\<close>; the current time is an argument.
\<close>

record verify_result =
  vr_envelope :: effective_envelope
  vr_metadata :: token_metadata
  vr_sig_digest :: string

definition verifier_verify ::
    "(bytes \<Rightarrow> bytes \<Rightarrow> bytes) \<Rightarrow> (bytes \<Rightarrow> bytes) \<Rightarrow> time \<Rightarrow> root_keys \<Rightarrow> macaroon \<Rightarrow>
     mac_error + verify_result" where
  "verifier_verify hmac sha256 now ks mac =
     (case root_get ks (m_id mac) of
        None \<Rightarrow> Inl (ErrUnknownRootTask (m_id mac))
      | Some key \<Rightarrow>
      (case mac_verify hmac key mac of
        Inl e \<Rightarrow> Inl e
      | Inr caveats \<Rightarrow>
      (case reduce_caveats caveats of
        Inl e \<Rightarrow> Inl e
      | Inr reduced \<Rightarrow>
          if ee_expires_at (ro_envelope reduced) \<noteq> 0 \<and> now > ee_expires_at (ro_envelope reduced)
          then Inl ErrExpired
          else Inr \<lparr>vr_envelope = ro_envelope reduced, vr_metadata = ro_metadata reduced,
                    vr_sig_digest = hex_encode (sha256 (m_signature mac))\<rparr>)))"

lemma verifier_accepts:
  "verifier_verify hmac sha256 now ks mac = Inr r \<longleftrightarrow>
   (\<exists>key out. root_get ks (m_id mac) = Some key \<and>
      m_signature mac = hmac_chain hmac key (m_id mac) (m_caveats mac) \<and>
      reduce_caveats (m_caveats mac) = Inr out \<and>
      (ee_expires_at (ro_envelope out) = 0 \<or> now \<le> ee_expires_at (ro_envelope out)) \<and>
      r = \<lparr>vr_envelope = ro_envelope out, vr_metadata = ro_metadata out,
           vr_sig_digest = hex_encode (sha256 (m_signature mac))\<rparr>)"
  by (auto simp: verifier_verify_def mac_verify_def split: option.splits sum.splits)

section \<open>Properties\<close>

text \<open>
  Claim C16. Offline attenuation is sound: whoever holds an accepted token and appends
  caveats to it gets a token that the verifier either rejects for its caveats or expiry
  or accepts with an authority no larger than before on every dimension the original
  constrained, and with the same agent and initiator if the original named them. (What
  the verifier never does is to reject the extended token for its signature.)
\<close>

theorem appended_caveats_attenuate:
  assumes "verifier_verify hmac sha256 now ks mac = Inr r"
    and "mac' = fold (add_caveat hmac) ds mac"
  shows "(\<exists>e. verifier_verify hmac sha256 now ks mac' = Inl e \<and>
            e \<noteq> ErrInvalidSignature \<and> (\<forall>i. e \<noteq> ErrUnknownRootTask i)) \<or>
         (\<exists>r' claims. verifier_verify hmac sha256 now ks mac' = Inr r' \<and>
            map read_caveat (m_caveats mac) = map Inr claims \<and>
            grants_at_most claims \<lparr>ro_envelope = vr_envelope r', ro_metadata = vr_metadata r'\<rparr>
              \<lparr>ro_envelope = vr_envelope r, ro_metadata = vr_metadata r\<rparr>)"
proof -
  from assms(1) obtain key out where ok: "root_get ks (m_id mac) = Some key"
    "m_signature mac = hmac_chain hmac key (m_id mac) (m_caveats mac)"
    "reduce_caveats (m_caveats mac) = Inr out"
    and r: "vr_envelope r = ro_envelope out" "vr_metadata r = ro_metadata out"
    by (auto simp: verifier_accepts)
  from ok(2) have "mac_verify hmac key mac = Inr (m_caveats mac)" by (simp add: mac_verify_def)
  then have mac': "mac_verify hmac key mac' = Inr (m_caveats mac @ ds)"
    "m_id mac' = m_id mac"
    using verify_add_caveats [of hmac key mac] assms(2) by (simp_all add: add_caveats_def [symmetric])
  show ?thesis
  proof (cases "verifier_verify hmac sha256 now ks mac'")
    case (Inl e)
    with ok(1) mac' show ?thesis
      by (auto simp: verifier_verify_def dest: reduce_error split: sum.splits if_splits)
  next
    case (Inr r')
    with ok(1) mac' have "reduce_caveats (m_caveats mac @ ds) =
        Inr \<lparr>ro_envelope = vr_envelope r', ro_metadata = vr_metadata r'\<rparr>"
      by (auto simp: verifier_verify_def split: sum.splits if_splits)
    moreover have "out = \<lparr>ro_envelope = vr_envelope r, ro_metadata = vr_metadata r\<rparr>"
      using r by simp
    ultimately show ?thesis using reduced_narrower ok(3) Inr by fastforce
  qed
qed

theorem appended_caveats_attenuate_witness:
  "let hmac = (\<lambda>k x. take 3 (rev x) @ k);
       mac = add_caveat hmac ''target IN [a]'' (new_macaroon hmac ''l'' ''r'' ''key'');
       mac' = fold (add_caveat hmac) [''target IN [b]''] mac;
       ks = snd (root_generate 1 (Some ''key'') ''r'' 10 [])
   in (\<exists>e. verifier_verify hmac id 5 ks mac' = Inl e \<and>
            e \<noteq> ErrInvalidSignature \<and> (\<forall>i. e \<noteq> ErrUnknownRootTask i)) \<or>
      (\<exists>r' claims out. verifier_verify hmac id 5 ks mac' = Inr r' \<and>
         map read_caveat (m_caveats mac) = map Inr claims \<and>
         grants_at_most claims \<lparr>ro_envelope = vr_envelope r', ro_metadata = vr_metadata r'\<rparr> out)"
proof -
  let ?h = "\<lambda>k x. take 3 (rev x) @ k"
  let ?mac = "add_caveat ?h ''target IN [a]'' (new_macaroon ?h ''l'' ''r'' ''key'')"
  let ?ks = "snd (root_generate 1 (Some ''key'') ''r'' 10 [])"
  have "isl (verifier_verify ?h id 5 ?ks ?mac) = False" by code_simp
  then obtain r where "verifier_verify ?h id 5 ?ks ?mac = Inr r"
    by (cases "verifier_verify ?h id 5 ?ks ?mac") auto
  from appended_caveats_attenuate [OF this refl, of "[''target IN [b]'']"]
  show ?thesis unfolding Let_def by blast
qed

end
