(* ===== verification/Minter.thy ===== *)
theory Minter
  imports Verifier
begin

text \<open>
  Component \<open>internal/macaroon/minter.go\<close>: minting a root token from an envelope and a
  delegated token from its parent. \<open>tz\<close> is the zone, in minutes east of UTC, in which the
  broker formats times. The main result is that verifying a minted token gives back the
  envelope it was minted from.
\<close>

section \<open>Operations\<close>

definition broker_location :: string where
  "broker_location = ''ephyr-broker''"

definition list_caveat :: "string \<Rightarrow> string list \<Rightarrow> bytes list" where
  "list_caveat key xs = (if length xs > 0 then [key @ '' IN ['' @ join '','' xs @ '']''] else [])"

definition envelope_texts :: "int \<Rightarrow> effective_envelope \<Rightarrow> bytes list" where
  "envelope_texts tz env =
     [''expires_before = '' @ format_rfc3339 tz (ee_expires_at env)] @
     list_caveat ''target'' (ee_targets env) @
     list_caveat ''role'' (ee_roles env) @
     list_caveat ''service'' (ee_services env) @
     list_caveat ''remote'' (ee_remotes env) @
     list_caveat ''method'' (ee_methods env) @
     [''can_delegate = '' @ format_bool (ee_can_delegate env)] @
     (if ee_can_delegate env then [''delegation_depth <= '' @ itoa (ee_delegation_depth env)] else [])"

definition add_envelope_caveats ::
    "(bytes \<Rightarrow> bytes \<Rightarrow> bytes) \<Rightarrow> int \<Rightarrow> string \<Rightarrow> string \<Rightarrow> effective_envelope \<Rightarrow> macaroon \<Rightarrow> macaroon"
  where
  "add_envelope_caveats hmac tz agent initiated_by env mac =
     fold (add_caveat hmac)
       ([''agent = '' @ agent, ''initiated_by = '' @ initiated_by] @ envelope_texts tz env) mac"

definition add_delegation_caveats ::
    "(bytes \<Rightarrow> bytes \<Rightarrow> bytes) \<Rightarrow> int \<Rightarrow> effective_envelope \<Rightarrow> macaroon \<Rightarrow> macaroon" where
  "add_delegation_caveats hmac tz env mac = fold (add_caveat hmac) (envelope_texts tz env) mac"

definition check_size :: "macaroon \<Rightarrow> mac_error option" where
  "check_size mac = (case marshal_binary mac of Inl e \<Rightarrow> Some e | Inr _ \<Rightarrow> None)"

definition mint_root ::
    "(bytes \<Rightarrow> bytes \<Rightarrow> bytes) \<Rightarrow> int \<Rightarrow> time \<Rightarrow> bytes option \<Rightarrow> string \<Rightarrow> string \<Rightarrow> string \<Rightarrow>
     effective_envelope \<Rightarrow> root_keys \<Rightarrow> (mac_error + macaroon) \<times> root_keys" where
  "mint_root hmac tz now rand root agent initiated_by env ks =
     (case root_generate now rand root (ee_expires_at env) ks of
        (Inl e, ks) \<Rightarrow> (Inl e, ks)
      | (Inr key, ks) \<Rightarrow>
          let mac = add_envelope_caveats hmac tz agent initiated_by env
                      (new_macaroon hmac broker_location root key)
          in (case check_size mac of
                Some e \<Rightarrow> (Inl e, ks)
              | None \<Rightarrow> (Inr mac, ks)))"

definition mint_delegated ::
    "(bytes \<Rightarrow> bytes \<Rightarrow> bytes) \<Rightarrow> int \<Rightarrow> macaroon \<Rightarrow> effective_envelope \<Rightarrow> mac_error + macaroon"
  where
  "mint_delegated hmac tz parent child_env =
     (let child = add_delegation_caveats hmac tz child_env (clone parent)
      in (case check_size child of Some e \<Rightarrow> Inl e | None \<Rightarrow> Inr child))"

section \<open>Reading back a printed caveat\<close>

text \<open>Texts without spaces at either end are left alone by \<open>TrimSpace\<close>.\<close>

lemma special_not_plain [simp]:
  "\<not> plain_char (CHR '' '')" "\<not> plain_char (CHR '','')" "\<not> plain_char (CHR ''['')"
  "\<not> plain_char (CHR '']'')"
  by (simp_all add: plain_char_def)

definition edge_char :: "char \<Rightarrow> bool" where
  "edge_char c \<longleftrightarrow> (let n = (of_char c :: nat) in 33 \<le> n \<and> n \<le> 126)"

lemma plain_edge: "plain_char c \<Longrightarrow> edge_char c"
  by (simp add: plain_char_def edge_char_def Let_def)

lemma strip_other:
  assumes "\<forall>p \<in> set ps. p \<noteq> [] \<and> \<not> edge_char (hd p)" and "edge_char c"
  shows "strip ps (c # s) = c # s"
proof -
  have "\<not> has_prefix p (c # s)" if "p \<in> set ps" for p
    using bspec [OF assms(1) that] assms(2) by (cases p) auto
  then have "find (\<lambda>p. p \<noteq> [] \<and> has_prefix p (c # s)) ps = None"
    by (auto simp: find_None_iff)
  then show ?thesis by (subst strip.simps) simp
qed

lemma strip_front: "edge_char c \<Longrightarrow> strip space_codes (c # s) = c # s"
  by (rule strip_other) (code_simp, assumption)

lemma strip_back: "edge_char c \<Longrightarrow> strip (map rev space_codes) (c # s) = c # s"
  by (rule strip_other) (code_simp, assumption)

lemma trim_space_edges:
  assumes "s \<noteq> []" "edge_char (hd s)" "edge_char (last s)"
  shows "trim_space s = s"
proof -
  obtain c r where "s = c # r" using assms(1) by (cases s) auto
  then have 1: "strip space_codes s = s" using strip_front assms(2) by simp
  obtain d q where "rev s = d # q" "d = last s"
    using assms(1) by (cases s rule: rev_cases) auto
  then have "strip (map rev space_codes) (rev s) = rev s" using strip_back assms(3) by metis
  with 1 show ?thesis by (simp add: trim_space_def)
qed

lemma plain_edges: "plain s \<Longrightarrow> s \<noteq> [] \<and> edge_char (hd s) \<and> edge_char (last s)"
  by (auto simp: plain_def list_all_iff intro!: plain_edge)

lemma trim_space_plain [simp]: "plain s \<Longrightarrow> trim_space s = s"
  using plain_edges trim_space_edges by blast

lemma plain_no_space: "plain s \<Longrightarrow> CHR '' '' \<notin> set s"
  using special_not_plain(1) unfolding plain_def list_all_iff by metis

lemma index_of_skip:
  "CHR '' '' \<notin> set k \<Longrightarrow>
   index_of (CHR '' '' # sub) (k @ r) = map_option ((+) (length k)) (index_of (CHR '' '' # sub) r)"
proof (induction k)
  case Nil
  then show ?case by (cases "index_of (CHR '' '' # sub) r") simp_all
next
  case (Cons a k)
  then show ?case by (cases "index_of (CHR '' '' # sub) r") auto
qed

definition solid :: "string \<Rightarrow> bool" where
  "solid s \<longleftrightarrow> s \<noteq> [] \<and> edge_char (hd s) \<and> edge_char (last s) \<and> CHR '' '' \<notin> set s"

lemma plain_solid: "plain s \<Longrightarrow> solid s"
  using plain_edges plain_no_space by (auto simp: solid_def)

lemma trim_space_solid [simp]: "solid s \<Longrightarrow> trim_space s = s"
  by (simp add: solid_def trim_space_edges)

lemma index_of_none: "CHR '' '' \<notin> set v \<Longrightarrow> index_of (CHR '' '' # sub) v = None"
  using index_of_skip [of v sub "[]"] by simp

lemma not_prefix: "CHR '' '' \<in> set p \<Longrightarrow> CHR '' '' \<notin> set v \<Longrightarrow> \<not> has_prefix p v"
  by (auto simp: has_prefix_iff)

lemma spaceless_tail:
  assumes "CHR '' '' \<notin> set v" "CHR '' '' \<in> set sub" "CHR '' '' \<notin> set opn"
    and "\<not> has_prefix (CHR '' '' # sub) (CHR '' '' # opn @ CHR '' '' # v)"
  shows "index_of (CHR '' '' # sub) (CHR '' '' # opn @ CHR '' '' # v) = None"
proof -
  have "index_of (CHR '' '' # sub) (CHR '' '' # v) = None"
    using assms(1,2) by (simp add: index_of_none not_prefix)
  then have "index_of (CHR '' '' # sub) (opn @ CHR '' '' # v) = None"
    using assms(3) by (simp add: index_of_skip)
  with assms(4) show ?thesis by simp
qed

lemma parse_printed:
  assumes k: "solid k" and v: "solid v"
  shows "parse_caveat (k @ '' IN '' @ v) = Inr (k, ''IN'', v)"
    and "parse_caveat (k @ '' <= '' @ v) = Inr (k, ''<='', v)"
    and "parse_caveat (k @ '' = '' @ v) = Inr (k, ''='', v)"
proof -
  have kv: "k \<noteq> []" "v \<noteq> []" "CHR '' '' \<notin> set k" "CHR '' '' \<notin> set v"
    using k v by (auto simp: solid_def)
  have trim: "trim_space (k @ m @ v) = k @ m @ v" for m
    using k v by (intro trim_space_edges) (auto simp: solid_def)
  have here: "index_of (CHR '' '' # sub) (k @ CHR '' '' # sub @ v) = Some (length k)" for sub
    using kv(3) by (simp add: index_of_skip)
  have none: "index_of '' IN '' (k @ '' <= '' @ v) = None" "index_of '' IN '' (k @ '' = '' @ v) = None"
    "index_of '' <= '' (k @ '' = '' @ v) = None"
    using kv spaceless_tail [OF kv(4), of "''IN ''" "''<=''"]
      spaceless_tail [OF kv(4), of "''IN ''" "''=''"] spaceless_tail [OF kv(4), of "''<= ''" "''=''"]
    by (simp_all add: index_of_skip)
  show "parse_caveat (k @ '' IN '' @ v) = Inr (k, ''IN'', v)"
    using here [of "''IN ''"] kv k v trim [of "'' IN ''"]
    by (simp add: parse_caveat_def cut_at_def Let_def)
  show "parse_caveat (k @ '' <= '' @ v) = Inr (k, ''<='', v)"
    using here [of "''<= ''"] none kv k v trim [of "'' <= ''"]
    by (simp add: parse_caveat_def cut_at_def Let_def)
  show "parse_caveat (k @ '' = '' @ v) = Inr (k, ''='', v)"
    using here [of "''= ''"] none kv k v trim [of "'' = ''"]
    by (simp add: parse_caveat_def cut_at_def Let_def)
qed

lemma split_on_no: "c \<notin> set x \<Longrightarrow> split_on c x = [x]"
  by (induction x) auto

lemma split_on_append: "c \<notin> set x \<Longrightarrow> split_on c (x @ c # y) = x # split_on c y"
  by (induction x) auto

lemma split_on_join:
  "xs \<noteq> [] \<Longrightarrow> \<forall>x \<in> set xs. c \<notin> set x \<Longrightarrow> split_on c (join [c] xs) = xs"
proof (induction "[c]" xs rule: join.induct)
  case (3 x y ys)
  then show ?case by (simp add: split_on_append)
qed (simp_all add: split_on_no)

lemma plain_no_comma: "plain s \<Longrightarrow> CHR '','' \<notin> set s"
  using special_not_plain(2) unfolding plain_def list_all_iff by metis

lemma join_plain:
  assumes "xs \<noteq> []" "\<forall>x \<in> set xs. plain x"
  shows "join '','' xs \<noteq> []" "edge_char (hd (join '','' xs))" "CHR '' '' \<notin> set (join '','' xs)"
  using assms
  by (induction "'',''" xs rule: join.induct) (auto dest: plain_edges plain_no_space)

lemma parse_csv_join:
  assumes "xs \<noteq> []" "\<forall>x \<in> set xs. plain x"
  shows "solid (''['' @ join '','' xs @ '']'')" "parse_csv (''['' @ join '','' xs @ '']'') = xs"
proof -
  have e: "edge_char (CHR ''['')" "edge_char (CHR '']'')" by (simp_all add: edge_char_def)
  show s: "solid (''['' @ join '','' xs @ '']'')"
    using e join_plain [OF assms] by (simp add: solid_def)
  have "\<forall>x \<in> set xs. x \<noteq> [] \<and> trim_space x = x" using assms(2) by (auto simp: plain_def)
  then have "filter (\<lambda>p. p \<noteq> []) (map trim_space xs) = xs"
    by (induction xs) auto
  moreover have "split_on (CHR '','') (join '','' xs) = xs"
    using assms plain_no_comma by (intro split_on_join) auto
  moreover have "trim_space (''['' @ join '','' xs @ '']'') = ''['' @ join '','' xs @ '']''"
    using s by (rule trim_space_solid)
  ultimately show "parse_csv (''['' @ join '','' xs @ '']'') = xs"
    using join_plain(1) [OF assms] unfolding parse_csv_def
    by (simp add: trim_prefix_def trim_suffix_def)
qed

section \<open>What the minted caveats claim\<close>

context text_codec
begin

lemma parse_printed_value:
  assumes "solid k" "ok x"
  shows "parse_caveat (k @ '' = '' @ fmt x) = Inr (k, ''='', fmt x)"
    and "parse_caveat (k @ '' <= '' @ fmt x) = Inr (k, ''<='', fmt x)"
  using assms fmt_plain plain_solid parse_printed(2,3) by blast+

end

lemma solid_keys [simp]:
  "solid ''target''" "solid ''role''" "solid ''service''" "solid ''remote''" "solid ''method''"
  "solid ''can_delegate''" "solid ''delegation_depth''" "solid ''expires_before''"
  "solid ''agent''" "solid ''initiated_by''"
  by (simp_all add: solid_def edge_char_def)

definition set_claim :: "string \<Rightarrow> string list \<Rightarrow> caveat_claim list" where
  "set_claim key xs = (if xs = [] then [] else [WithinSet key xs])"

definition envelope_claims :: "effective_envelope \<Rightarrow> caveat_claim list" where
  "envelope_claims env =
     [ExpiresBefore (whole_seconds (ee_expires_at env))] @
     set_claim ''target'' (ee_targets env) @ set_claim ''role'' (ee_roles env) @
     set_claim ''service'' (ee_services env) @ set_claim ''remote'' (ee_remotes env) @
     set_claim ''method'' (ee_methods env) @ [CanDelegate (ee_can_delegate env)] @
     (if ee_can_delegate env then [DepthAtMost (ee_delegation_depth env)] else [])"

definition printable :: "int \<Rightarrow> effective_envelope \<Rightarrow> bool" where
  "printable tz env \<longleftrightarrow>
     list_all plain (ee_targets env @ ee_roles env @ ee_services env @ ee_remotes env @ ee_methods env) \<and>
     formattable tz (ee_expires_at env) \<and> int64 (ee_delegation_depth env)"

lemma read_list_caveat:
  assumes "list_all plain xs" "key \<in> set set_keys"
  shows "map read_caveat (list_caveat key xs) = map Inr (set_claim key xs)"
proof (cases "xs = []")
  case False
  have k: "solid key" "key \<in> set known_caveat_keys"
    using assms(2) by (auto simp: set_keys_def known_caveat_keys_def)
  have xs: "\<forall>x \<in> set xs. plain x" using assms(1) by (simp add: list_all_iff)
  have "parse_caveat (key @ '' IN '' @ ''['' @ join '','' xs @ '']'') =
      Inr (key, ''IN'', ''['' @ join '','' xs @ '']'')"
    using parse_printed(1) k(1) parse_csv_join(1) False xs by blast
  with k assms(2) False parse_csv_join(2) [OF False xs] show ?thesis
    by (simp add: list_caveat_def set_claim_def read_caveat_def)
qed (simp add: list_caveat_def set_claim_def)

lemma read_flag_caveat:
  "read_caveat (''can_delegate = '' @ format_bool b) = Inr (CanDelegate b)"
  using boolean.parse_printed_value(1) [of "''can_delegate''" b] boolean.parse_fmt [of b]
  by (simp add: read_caveat_def known_caveat_keys_def set_keys_def)

lemma read_depth_caveat:
  "int64 d \<Longrightarrow> read_caveat (''delegation_depth <= '' @ itoa d) = Inr (DepthAtMost d)"
  using decimal.parse_printed_value(2) [of "''delegation_depth''" d] decimal.parse_fmt [of d]
  by (simp add: read_caveat_def known_caveat_keys_def set_keys_def)

lemma read_expiry_caveat:
  "formattable tz t \<Longrightarrow>
   read_caveat (''expires_before = '' @ format_rfc3339 tz t) = Inr (ExpiresBefore (whole_seconds t))"
  using rfc3339.parse_printed_value(1) [of "''expires_before''" tz t] rfc3339.parse_fmt [of tz t]
  by (simp add: read_caveat_def known_caveat_keys_def set_keys_def)

lemma read_metadata_caveats:
  "plain a \<Longrightarrow> read_caveat (''agent = '' @ a) = Inr (ByAgent a)"
  "plain a \<Longrightarrow> read_caveat (''initiated_by = '' @ a) = Inr (InitiatedBy a)"
  using parse_printed(3) [of "''agent''" a] parse_printed(3) [of "''initiated_by''" a]
  by (simp_all add: read_caveat_def known_caveat_keys_def set_keys_def plain_solid)

lemma read_envelope_texts:
  assumes "printable tz env"
  shows "map read_caveat (envelope_texts tz env) = map Inr (envelope_claims env)"
  using assms
  by (simp add: printable_def envelope_texts_def envelope_claims_def read_list_caveat
      read_flag_caveat read_depth_caveat read_expiry_caveat set_keys_def
      del: append.append_Cons)

lemma clone_same [simp]: "clone m = m"
  by (simp add: clone_def)

section \<open>Minted tokens verify\<close>

lemma check_size_None: "check_size mac = None \<longleftrightarrow> marshal_size mac \<le> max_token_size"
  by (simp add: check_size_def marshal_binary_def)

lemma minted_size:
  "marshal_size (add_caveats hmac cs (new_macaroon hmac loc ident key)) =
     45 + length ident + length loc + sum_list (map (\<lambda>c. 4 + length c) cs)"
  by (simp add: marshal_size_def) (simp add: new_macaroon_def)

lemma mint_root_fits:
  assumes "45 + length root + length broker_location + sum_list (map (\<lambda>c. 4 + length c)
      ([''agent = '' @ agent, ''initiated_by = '' @ init] @ envelope_texts tz env)) \<le> max_token_size"
  shows "\<exists>mac ks'. mint_root hmac tz now (Some key) root agent init env ks = (Inr mac, ks')"
proof -
  have "check_size (add_envelope_caveats hmac tz agent init env
      (new_macaroon hmac broker_location root key)) = None"
    using assms minted_size unfolding check_size_None add_envelope_caveats_def add_caveats_def
    by metis
  then show ?thesis by (simp add: mint_root_def root_generate_def Let_def)
qed

lemma mint_root_result:
  assumes "mint_root hmac tz now (Some key) root agent init env ks = (Inr mac, ks')"
  shows "root_get ks' root = Some key" and "m_id mac = root"
    and "m_caveats mac = [''agent = '' @ agent, ''initiated_by = '' @ init] @ envelope_texts tz env"
    and "mac_verify hmac key mac = Inr (m_caveats mac)"
proof -
  define cs where "cs = [''agent = '' @ agent, ''initiated_by = '' @ init] @ envelope_texts tz env"
  have *: "ks' = snd (root_generate now (Some key) root (ee_expires_at env) ks)"
    "mac = add_caveats hmac cs (new_macaroon hmac broker_location root key)"
    using assms
    by (auto simp: mint_root_def root_generate_def add_envelope_caveats_def add_caveats_def
        cs_def Let_def split: option.splits)
  then show "root_get ks' root = Some key" "m_id mac = root" "m_caveats mac =
      [''agent = '' @ agent, ''initiated_by = '' @ init] @ envelope_texts tz env"
    by (simp_all add: cs_def new_macaroon_def)
  show "mac_verify hmac key mac = Inr (m_caveats mac)"
    using *(2) verify_add_caveats [OF verify_new, of hmac key cs broker_location root]
    by (simp add: new_macaroon_def)
qed

lemma mint_delegated_result:
  assumes "mint_delegated hmac tz parent env = Inr child"
    and "mac_verify hmac key parent = Inr (m_caveats parent)"
  shows "m_id child = m_id parent" and "m_caveats child = m_caveats parent @ envelope_texts tz env"
    and "mac_verify hmac key child = Inr (m_caveats child)"
  using assms(1) verify_add_caveats [OF assms(2), of "envelope_texts tz env"]
  by (auto simp: mint_delegated_def add_delegation_caveats_def Let_def add_caveats_def [symmetric]
      split: option.splits)

lemma mint_delegated_fits:
  assumes "marshal_size parent + sum_list (map (\<lambda>c. 4 + length c) (envelope_texts tz env))
      \<le> max_token_size"
  shows "\<exists>child. mint_delegated hmac tz parent env = Inr child"
proof -
  have "marshal_size (add_caveats hmac cs parent) =
      marshal_size parent + sum_list (map (\<lambda>c. 4 + length c) cs)" for cs
    by (simp add: marshal_size_def)
  then have "check_size (add_delegation_caveats hmac tz env (clone parent)) = None"
    using assms by (simp add: check_size_None add_delegation_caveats_def add_caveats_def)
  then show ?thesis by (simp add: mint_delegated_def Let_def)
qed

lemma verifier_meaning:
  assumes "root_get ks (m_id mac) = Some key" "mac_verify hmac key mac = Inr (m_caveats mac)"
    and "map read_caveat (m_caveats mac) = map Inr claims"
    and "now \<le> ee_expires_at (ro_envelope (meaning claims))"
  shows "verifier_verify hmac sha256 now ks mac =
    Inr \<lparr>vr_envelope = ro_envelope (meaning claims), vr_metadata = ro_metadata (meaning claims),
         vr_sig_digest = hex_encode (sha256 (m_signature mac))\<rparr>"
proof -
  have "reduce_caveats (m_caveats mac) = Inr (meaning claims)"
    using assms(3) unfolding reduce_Inr_iff by blast
  with assms show ?thesis by (simp add: verifier_verify_def)
qed

definition stored_envelope :: "effective_envelope \<Rightarrow> effective_envelope" where
  "stored_envelope env =
     env\<lparr>ee_expires_at := whole_seconds (ee_expires_at env),
         ee_delegation_depth := (if ee_can_delegate env then ee_delegation_depth env else -1)\<rparr>"

definition restrict_set :: "string list \<Rightarrow> string list \<Rightarrow> string list" where
  "restrict_set p c = (if c = [] then p else if p = [] then c else intersect_sets p c)"

definition delegated_envelope :: "effective_envelope \<Rightarrow> effective_envelope \<Rightarrow> effective_envelope" where
  "delegated_envelope p c =
     \<lparr>ee_targets = restrict_set (ee_targets p) (ee_targets c),
      ee_roles = restrict_set (ee_roles p) (ee_roles c),
      ee_services = restrict_set (ee_services p) (ee_services c),
      ee_remotes = restrict_set (ee_remotes p) (ee_remotes c),
      ee_methods = restrict_set (ee_methods p) (ee_methods c),
      ee_can_delegate = (ee_can_delegate p \<and> ee_can_delegate c),
      ee_delegation_depth =
        least (-1) ((if ee_can_delegate p then [ee_delegation_depth p] else []) @
                    (if ee_can_delegate c then [ee_delegation_depth c] else [])),
      ee_expires_at =
        min (whole_seconds (ee_expires_at p)) (whole_seconds (ee_expires_at c))\<rparr>"

lemma append_claims:
  "dim_lists key (a @ b) = dim_lists key a @ dim_lists key b"
  "depths (a @ b) = depths a @ depths b" "expiries (a @ b) = expiries a @ expiries b"
  "agents (a @ b) = agents a @ agents b" "initiators (a @ b) = initiators a @ initiators b"
  by (simp_all add: dim_lists_def depths_def expiries_def agents_def initiators_def)

lemma set_claim_parts [simp]:
  "dim_lists key (set_claim k xs) = (if k = key \<and> xs \<noteq> [] then [xs] else [])"
  "depths (set_claim k xs) = []" "expiries (set_claim k xs) = []"
  "agents (set_claim k xs) = []" "initiators (set_claim k xs) = []"
  "CanDelegate b \<notin> set (set_claim k xs)"
  by (simp_all add: set_claim_def dim_lists_def)

lemma envelope_claims_parts:
  "dim_lists ''target'' (envelope_claims e) = (if ee_targets e = [] then [] else [ee_targets e])"
  "dim_lists ''role'' (envelope_claims e) = (if ee_roles e = [] then [] else [ee_roles e])"
  "dim_lists ''service'' (envelope_claims e) = (if ee_services e = [] then [] else [ee_services e])"
  "dim_lists ''remote'' (envelope_claims e) = (if ee_remotes e = [] then [] else [ee_remotes e])"
  "dim_lists ''method'' (envelope_claims e) = (if ee_methods e = [] then [] else [ee_methods e])"
  "depths (envelope_claims e) = (if ee_can_delegate e then [ee_delegation_depth e] else [])"
  "expiries (envelope_claims e) = [whole_seconds (ee_expires_at e)]"
  "agents (envelope_claims e) = []" "initiators (envelope_claims e) = []"
  "CanDelegate False \<in> set (envelope_claims e) \<longleftrightarrow> \<not> ee_can_delegate e"
  unfolding envelope_claims_def append_claims by (simp_all)

lemma metadata_claims_parts [simp]:
  "dim_lists key [ByAgent a, InitiatedBy i] = []" "depths [ByAgent a, InitiatedBy i] = []"
  "expiries [ByAgent a, InitiatedBy i] = []" "agents [ByAgent a, InitiatedBy i] = [a]"
  "initiators [ByAgent a, InitiatedBy i] = [i]"
  by (simp_all add: dim_lists_def depths_def expiries_def agents_def initiators_def)

lemma allowed_two:
  "allowed (if p = [] then [] else [p]) = p"
  "allowed ((if p = [] then [] else [p]) @ (if c = [] then [] else [c])) = restrict_set p c"
  by (auto simp: allowed_def restrict_set_def intersect_sets_eq)

lemma meaning_root:
  "meaning ([ByAgent a, InitiatedBy i] @ envelope_claims e) =
     \<lparr>ro_envelope = stored_envelope e, ro_metadata = \<lparr>md_agent = a, md_initiated_by = i\<rparr>\<rparr>"
  unfolding meaning_def append_claims envelope_claims_parts metadata_claims_parts
  by (simp add: allowed_two stored_envelope_def least_def first_of_def envelope_claims_parts)

lemma meaning_delegated:
  "meaning (([ByAgent a, InitiatedBy i] @ envelope_claims p) @ envelope_claims c) =
     \<lparr>ro_envelope = delegated_envelope p c, ro_metadata = \<lparr>md_agent = a, md_initiated_by = i\<rparr>\<rparr>"
  unfolding meaning_def append_claims envelope_claims_parts metadata_claims_parts
  by (simp add: allowed_two delegated_envelope_def least_def first_of_def envelope_claims_parts)

section \<open>A sample envelope\<close>

text \<open>A concrete parent and child envelope, on which the properties are applied.\<close>

definition sample_envelope :: effective_envelope where
  "sample_envelope =
     \<lparr>ee_targets = [''web1'', ''web2''], ee_roles = [''read''], ee_services = [], ee_remotes = [],
      ee_methods = [], ee_can_delegate = True, ee_delegation_depth = 5,
      ee_expires_at = 63871000000500000000\<rparr>"

definition sample_child :: effective_envelope where
  "sample_child =
     \<lparr>ee_targets = [''web2'', ''web3''], ee_roles = [], ee_services = [], ee_remotes = [],
      ee_methods = [], ee_can_delegate = False, ee_delegation_depth = 4,
      ee_expires_at = 63870500000000000000\<rparr>"

lemma sample_texts:
  "envelope_texts 60 sample_envelope =
     [''expires_before = 2024-12-28T17:26:40+01:00'', ''target IN [web1,web2]'', ''role IN [read]'',
      ''can_delegate = true'', ''delegation_depth <= 5'']"
  by code_simp

lemma sample_fits:
  "45 + length ''R1'' + length broker_location + sum_list (map (\<lambda>c. 4 + length c)
     ([''agent = '' @ ''claude'', ''initiated_by = '' @ ''ben''] @ envelope_texts 60 sample_envelope))
     \<le> max_token_size"
  by (simp add: sample_texts broker_location_def max_token_size_def)

lemma sample_child_texts:
  "envelope_texts 60 sample_child =
     [''expires_before = 2024-12-22T22:33:20+01:00'', ''target IN [web2,web3]'', ''can_delegate = false'']"
  by code_simp

lemma sample_printable: "printable 60 sample_envelope" by code_simp

lemma sample_child_printable: "printable 60 sample_child" by code_simp

section \<open>Properties\<close>

text \<open>
  Minting and verifying a root token round trip: as long as the store still has
  the key that was generated for the root task and the expiry (in whole seconds) has not
  passed, \<open>Verify\<close> accepts a token that \<open>MintRoot\<close> returned and gives back the very
  envelope, agent and initiator it was minted from; only the expiry is cut to seconds,
  and the depth of a token that must not delegate is not carried.
\<close>

theorem minted_root_verifies:
  assumes "mint_root hmac tz now (Some key) root agent init env ks = (Inr mac, ks')"
    and "printable tz env" "plain agent" "plain init"
    and "root_get later root = root_get ks' root"
    and "now' \<le> whole_seconds (ee_expires_at env)"
  shows "verifier_verify hmac sha256 now' later mac =
    Inr \<lparr>vr_envelope = stored_envelope env,
         vr_metadata = \<lparr>md_agent = agent, md_initiated_by = init\<rparr>,
         vr_sig_digest = hex_encode (sha256 (m_signature mac))\<rparr>"
proof -
  note mac = mint_root_result [OF assms(1)]
  have claims: "map read_caveat (m_caveats mac) =
      map Inr ([ByAgent agent, InitiatedBy init] @ envelope_claims env)"
    using read_envelope_texts [OF assms(2)] read_metadata_caveats assms(3,4) unfolding mac(3) by simp
  have key: "root_get later (m_id mac) = Some key" using mac(1,2) assms(5) by simp
  from verifier_meaning [OF key mac(4) claims, of now' sha256] assms(6) show ?thesis
    unfolding meaning_root by (simp add: stored_envelope_def)
qed

theorem minted_root_verifies_witness:
  "\<exists>mac ks'. mint_root (\<lambda>k x. take 8 (rev x @ k)) 60 1 (Some ''k'') ''R1'' ''claude'' ''ben''
     sample_envelope [] = (Inr mac, ks') \<and>
   verifier_verify (\<lambda>k x. take 8 (rev x @ k)) id 63870000000000000000 ks' mac =
     Inr \<lparr>vr_envelope = sample_envelope\<lparr>ee_expires_at := 63871000000000000000\<rparr>,
          vr_metadata = \<lparr>md_agent = ''claude'', md_initiated_by = ''ben''\<rparr>,
          vr_sig_digest = hex_encode (m_signature mac)\<rparr>"
proof -
  let ?h = "\<lambda>k x. take 8 (rev x @ k)"
  obtain mac ks' where mint:
    "mint_root ?h 60 1 (Some ''k'') ''R1'' ''claude'' ''ben'' sample_envelope [] = (Inr mac, ks')"
    using mint_root_fits [OF sample_fits, of ?h 1 "''k''" "[]"] by blast
  have "plain ''claude''" "plain ''ben''" by code_simp+
  from minted_root_verifies [OF mint sample_printable this refl, of 63870000000000000000 id] mint
  show ?thesis by (simp add: stored_envelope_def whole_seconds_def sample_envelope_def)
qed



end
