(* ===== verification/TokenEnvelope.thy ===== *)
theory TokenEnvelope
  imports Prelude
begin

text \<open>
  Component \<open>internal/token/types.go\<close> and \<open>internal/broker/envelope_check.go\<close>: the
  capability envelope, the subset test of delegation, the intersection of two envelopes
  (\<open>intersectEnvelopes\<close> of \<open>internal/broker/task.go\<close>) and the three checks that enforce an
  envelope. \<open>token.Envelope\<close> and \<open>broker.TaskEnvelope\<close> have the same five fields and are
  converted field by field, so one record stands for both. The lemmas give each operation
  its meaning: an envelope dimension \<open>grants\<close> a name, the subset test decides inclusion of
  what is granted, and the intersection grants exactly what both sides grant.
\<close>

record envelope =
  te_targets :: "string list"
  te_roles :: "string list"
  te_services :: "string list"
  te_remotes :: "string list"
  te_methods :: "string list"

abbreviation wildcard :: string where "wildcard \<equiv> ''*''"

section \<open>Membership and subset\<close>

fun contains_string :: "string list \<Rightarrow> string \<Rightarrow> bool" where
  "contains_string [] val = False"
| "contains_string (s # slice) val = (if s = wildcard \<or> s = val then True else contains_string slice val)"

definition contains_target :: "envelope \<Rightarrow> string \<Rightarrow> bool" where
  "contains_target e t = contains_string (te_targets e) t"

definition contains_role :: "envelope \<Rightarrow> string \<Rightarrow> bool" where
  "contains_role e r = contains_string (te_roles e) r"

definition contains_service :: "envelope \<Rightarrow> string \<Rightarrow> bool" where
  "contains_service e s = contains_string (te_services e) s"

definition contains_method :: "envelope \<Rightarrow> string \<Rightarrow> bool" where
  "contains_method e m = contains_string (te_methods e) m"

definition contains_remote :: "envelope \<Rightarrow> string \<Rightarrow> bool" where
  "contains_remote e r = contains_string (te_remotes e) r"

fun subset_loop :: "string list \<Rightarrow> string list \<Rightarrow> bool" where
  "subset_loop [] parent = True"
| "subset_loop (c # child) parent =
     (if c = wildcard then False
      else if \<not> list_ex (\<lambda>p. p = c) parent then False
      else subset_loop child parent)"

definition is_subset :: "string list \<Rightarrow> string list \<Rightarrow> bool" where
  "is_subset child parent =
     (if list_ex (\<lambda>p. p = wildcard) parent then True else subset_loop child parent)"

definition is_subset_of :: "envelope \<Rightarrow> envelope \<Rightarrow> bool" where
  "is_subset_of e parent \<longleftrightarrow>
     is_subset (te_targets e) (te_targets parent) \<and>
     is_subset (te_roles e) (te_roles parent) \<and>
     is_subset (te_services e) (te_services parent) \<and>
     is_subset (te_remotes e) (te_remotes parent) \<and>
     is_subset (te_methods e) (te_methods parent)"

section \<open>Intersection\<close>

fun slice_contains_wild :: "string list \<Rightarrow> bool" where
  "slice_contains_wild [] = False"
| "slice_contains_wild (v # s) = (if v = wildcard then True else slice_contains_wild s)"

definition intersect_slices :: "string list \<Rightarrow> string list \<Rightarrow> string list" where
  "intersect_slices a b =
     (let a_wild = slice_contains_wild a; b_wild = slice_contains_wild b in
      if a_wild \<and> b_wild then [wildcard]
      else if a_wild then b
      else if b_wild then a
      else filter (\<lambda>s. s \<in> set b) a)"

definition intersect_envelopes :: "envelope \<Rightarrow> envelope \<Rightarrow> envelope" where
  "intersect_envelopes a b =
     \<lparr>te_targets = intersect_slices (te_targets a) (te_targets b),
      te_roles = intersect_slices (te_roles a) (te_roles b),
      te_services = intersect_slices (te_services a) (te_services b),
      te_remotes = intersect_slices (te_remotes a) (te_remotes b),
      te_methods = intersect_slices (te_methods a) (te_methods b)\<rparr>"

section \<open>Enforcement\<close>

text \<open>An agent without task claims (API key authentication) has no envelope to check.\<close>

datatype envelope_error =
    TargetNotPermitted string
  | RoleNotPermitted string
  | ServiceNotPermitted string
  | MethodNotPermitted string
  | RemoteNotPermitted string

definition enforce_exec_envelope :: "envelope option \<Rightarrow> string \<Rightarrow> string \<Rightarrow> envelope_error option" where
  "enforce_exec_envelope claims target role =
     (case claims of
        None \<Rightarrow> None
      | Some env \<Rightarrow>
          if \<not> contains_target env target then Some (TargetNotPermitted target)
          else if \<not> contains_role env role then Some (RoleNotPermitted role)
          else None)"

definition enforce_proxy_envelope :: "envelope option \<Rightarrow> string \<Rightarrow> string \<Rightarrow> envelope_error option" where
  "enforce_proxy_envelope claims service method =
     (case claims of
        None \<Rightarrow> None
      | Some env \<Rightarrow>
          if \<not> contains_service env service then Some (ServiceNotPermitted service)
          else if \<not> contains_method env method then Some (MethodNotPermitted method)
          else None)"

definition enforce_federation_envelope :: "envelope option \<Rightarrow> string \<Rightarrow> envelope_error option" where
  "enforce_federation_envelope claims remote =
     (case claims of
        None \<Rightarrow> None
      | Some env \<Rightarrow>
          if \<not> contains_remote env remote then Some (RemoteNotPermitted remote) else None)"

section \<open>The meaning of the operations\<close>

lemma contains_string_iff: "contains_string xs x \<longleftrightarrow> wildcard \<in> set xs \<or> x \<in> set xs"
  by (induction xs) auto

lemma slice_contains_wild_iff: "slice_contains_wild xs \<longleftrightarrow> wildcard \<in> set xs"
  by (induction xs) auto

lemma subset_loop_iff: "subset_loop c p \<longleftrightarrow> wildcard \<notin> set c \<and> set c \<subseteq> set p"
  by (induction c) (auto simp: list_ex_iff)

lemma is_subset_iff:
  "is_subset c p \<longleftrightarrow> (\<forall>x. contains_string c x \<longrightarrow> contains_string p x)"
proof
  assume "is_subset c p"
  then show "\<forall>x. contains_string c x \<longrightarrow> contains_string p x"
    by (auto simp: is_subset_def subset_loop_iff list_ex_iff contains_string_iff split: if_splits)
next
  assume all: "\<forall>x. contains_string c x \<longrightarrow> contains_string p x"
  show "is_subset c p"
  proof (cases "wildcard \<in> set p")
    case False
    with all [rule_format, of wildcard] have "wildcard \<notin> set c" by (auto simp: contains_string_iff)
    moreover have "x \<in> set p" if "x \<in> set c" for x
      using all [rule_format, of x] that False by (auto simp: contains_string_iff)
    ultimately show ?thesis by (auto simp: is_subset_def subset_loop_iff)
  qed (auto simp: is_subset_def list_ex_iff)
qed

lemma contains_intersect_slices:
  "contains_string (intersect_slices a b) x \<longleftrightarrow> contains_string a x \<and> contains_string b x"
  by (auto simp: intersect_slices_def contains_string_iff slice_contains_wild_iff Let_def)

lemma is_subset_refl [simp]: "is_subset c c"
  by (simp add: is_subset_iff)

lemma is_subset_of_refl [simp, intro]: "is_subset_of e e"
  by (simp add: is_subset_of_def)

lemma is_subset_of_trans: "is_subset_of a b \<Longrightarrow> is_subset_of b c \<Longrightarrow> is_subset_of a c"
  by (auto simp: is_subset_of_def is_subset_iff)

lemma intersect_is_subset: "is_subset_of (intersect_envelopes a b) a" "is_subset_of (intersect_envelopes a b) b"
  by (auto simp: is_subset_of_def is_subset_iff intersect_envelopes_def contains_intersect_slices)

lemma is_subset_of_enforce:
  assumes "is_subset_of c p"
  shows "enforce_exec_envelope (Some c) t r = None \<Longrightarrow> enforce_exec_envelope (Some p) t r = None"
    and "enforce_proxy_envelope (Some c) s m = None \<Longrightarrow> enforce_proxy_envelope (Some p) s m = None"
    and "enforce_federation_envelope (Some c) q = None \<Longrightarrow>
         enforce_federation_envelope (Some p) q = None"
  using assms
  by (auto simp: is_subset_of_def is_subset_iff enforce_exec_envelope_def contains_target_def
      contains_role_def enforce_proxy_envelope_def contains_service_def contains_method_def
      enforce_federation_envelope_def contains_remote_def split: if_splits)

section \<open>Properties\<close>

text \<open>
  The subset test of delegation is exact: a child envelope passes \<open>IsSubsetOf\<close>
  iff on each of the five dimensions every name that the child's \<open>Contains\<close> check permits
  is also permitted by the parent's, wildcards included.
\<close>

theorem is_subset_of_exact:
  "is_subset_of c p \<longleftrightarrow>
   (\<forall>x. (contains_target c x \<longrightarrow> contains_target p x) \<and>
        (contains_role c x \<longrightarrow> contains_role p x) \<and>
        (contains_service c x \<longrightarrow> contains_service p x) \<and>
        (contains_remote c x \<longrightarrow> contains_remote p x) \<and>
        (contains_method c x \<longrightarrow> contains_method p x))"
  unfolding is_subset_of_def is_subset_iff contains_target_def contains_role_def
    contains_service_def contains_remote_def contains_method_def by blast

theorem is_subset_of_exact_witness:
  "let p = \<lparr>te_targets = [''web'', ''db''], te_roles = [wildcard], te_services = [],
             te_remotes = [], te_methods = [''GET'']\<rparr>;
       c = p\<lparr>te_targets := [''db''], te_roles := [''read'']\<rparr>
   in is_subset_of c p \<and> contains_role p ''read'' \<and>
      \<not> is_subset_of (p\<lparr>te_services := [wildcard]\<rparr>) p"
proof -
  let ?p = "\<lparr>te_targets = [''web'', ''db''], te_roles = [wildcard], te_services = [],
             te_remotes = [], te_methods = [''GET'']\<rparr>"
  let ?c = "?p\<lparr>te_targets := [''db''], te_roles := [''read'']\<rparr>"
  have "is_subset_of ?c ?p"
    unfolding is_subset_of_exact
    by (simp add: contains_target_def contains_role_def contains_service_def contains_remote_def
        contains_method_def)
  moreover have "contains_role ?p ''read''" by (simp add: contains_role_def)
  moreover have "\<not> is_subset_of (?p\<lparr>te_services := [wildcard]\<rparr>) ?p"
    unfolding is_subset_of_exact
    by (auto simp: contains_service_def)
  ultimately show ?thesis unfolding Let_def by blast
qed

text \<open>
  \<open>intersectEnvelopes\<close>, which caps the envelope of a task created under another
  token, grants on every dimension exactly the names that both envelopes grant.
\<close>

theorem intersect_envelopes_exact:
  "contains_target (intersect_envelopes a b) x = (contains_target a x \<and> contains_target b x) \<and>
   contains_role (intersect_envelopes a b) x = (contains_role a x \<and> contains_role b x) \<and>
   contains_service (intersect_envelopes a b) x = (contains_service a x \<and> contains_service b x) \<and>
   contains_remote (intersect_envelopes a b) x = (contains_remote a x \<and> contains_remote b x) \<and>
   contains_method (intersect_envelopes a b) x = (contains_method a x \<and> contains_method b x)"
  by (simp add: contains_target_def contains_role_def contains_service_def contains_remote_def
      contains_method_def intersect_envelopes_def contains_intersect_slices)

end
