(* ===== verification/Tasks.thy ===== *)
theory Tasks
  imports TokenEnvelope "HOL-Library.Product_Lexorder"
begin

text \<open>
  Component \<open>internal/broker/task.go\<close>: the task manager. Its state is the map of tasks, the
  index of task ids by agent and the index of macaroon signature digests. Every operation
  is a function on that state; the current time and a freshly generated ULID are
  arguments. \<open>task_step\<close> is the step relation of all operations; its invariant
  \<open>manager_ok\<close> says that lineages are well formed, that a task never has more authority
  or a later expiry than any ancestor that is still registered, and that the agent index
  agrees with the task map. The policy-derived envelope is in theory \<open>TaskPolicy\<close>.
\<close>

section \<open>State\<close>

record task =
  tk_id :: string
  tk_root_id :: string
  tk_parent_id :: string
  tk_agent_name :: string
  tk_description :: string
  tk_depth :: int
  tk_lineage :: "string list"
  tk_initiated_by :: string
  tk_created_at :: time
  tk_expires_at :: time
  tk_envelope :: envelope
  tk_token_id :: string
  tk_can_delegate :: bool
  tk_sig_digest :: string
  tk_holder_pub_key :: "bytes option"
  tk_holder_bound :: bool
  tk_bind_deadline :: time

record create_task_params =
  cp_agent_name :: string
  cp_description :: string
  cp_ttl :: duration
  cp_initiated_by :: string
  cp_envelope :: envelope
  cp_can_delegate :: bool
  cp_holder_pub_key :: bytes

record create_child_params =
  cc_parent_id :: string
  cc_agent_name :: string
  cc_description :: string
  cc_ttl :: duration
  cc_envelope :: "envelope option"
  cc_can_delegate :: bool

record task_manager =
  tm_tasks :: "(string, task) gomap"
  tm_by_agent :: "(string, (string, bool) gomap) gomap"
  tm_sig_index :: "(string, string) gomap"

datatype task_error =
    ParentNotFound string
  | ParentExpired string
  | AgentMismatch string string
  | DelegationForbidden
  | MaxDepthExceeded
  | ChildOutlivesParent
  | ChildExceedsEnvelope
  | TaskNotFound
  | BindDeadlineExpired
  | KeyAlreadyBound
  | InvalidPublicKey nat

definition new_task_manager :: task_manager where
  "new_task_manager = \<lparr>tm_tasks = [], tm_by_agent = [], tm_sig_index = []\<rparr>"

definition default_max_child_depth :: int where
  "default_max_child_depth = 5"

definition default_bind_deadline :: duration where
  "default_bind_deadline = 30 * second"

section \<open>The agent index\<close>

definition index_add ::
    "string \<Rightarrow> string \<Rightarrow> (string, (string, bool) gomap) gomap \<Rightarrow> (string, (string, bool) gomap) gomap"
  where
  "index_add agent tid m =
     put agent (put tid True (case get m agent of None \<Rightarrow> [] | Some ids \<Rightarrow> ids)) m"

definition index_remove ::
    "string \<Rightarrow> string \<Rightarrow> (string, (string, bool) gomap) gomap \<Rightarrow> (string, (string, bool) gomap) gomap"
  where
  "index_remove agent tid m =
     (case get m agent of
        None \<Rightarrow> m
      | Some ids \<Rightarrow>
          let ids = del tid ids in if length ids = 0 then del agent m else put agent ids m)"

section \<open>Creating and looking up\<close>

definition store_task :: "task \<Rightarrow> task_manager \<Rightarrow> task_manager" where
  "store_task t tm =
     tm\<lparr>tm_tasks := put (tk_id t) t (tm_tasks tm),
        tm_by_agent := index_add (tk_agent_name t) (tk_id t) (tm_by_agent tm)\<rparr>"

definition create_task ::
    "time \<Rightarrow> string \<Rightarrow> create_task_params \<Rightarrow> task_manager \<Rightarrow> task \<times> task_manager" where
  "create_task now tid params tm =
     (let t = \<lparr>tk_id = tid, tk_root_id = tid, tk_parent_id = [],
               tk_agent_name = cp_agent_name params, tk_description = cp_description params,
               tk_depth = 0, tk_lineage = [tid], tk_initiated_by = cp_initiated_by params,
               tk_created_at = now, tk_expires_at = now + cp_ttl params,
               tk_envelope = cp_envelope params, tk_token_id = [],
               tk_can_delegate = cp_can_delegate params, tk_sig_digest = [],
               tk_holder_pub_key = None, tk_holder_bound = False, tk_bind_deadline = 0\<rparr>;
          t = (if length (cp_holder_pub_key params) = 32
               then t\<lparr>tk_holder_pub_key := Some (cp_holder_pub_key params), tk_holder_bound := True\<rparr>
               else t)
      in (t, store_task t tm))"

definition get_task :: "time \<Rightarrow> task_manager \<Rightarrow> string \<Rightarrow> task option" where
  "get_task now tm tid =
     (case get (tm_tasks tm) tid of
        None \<Rightarrow> None
      | Some t \<Rightarrow> if now > tk_expires_at t then None else Some t)"

definition is_task_active :: "time \<Rightarrow> task_manager \<Rightarrow> string \<Rightarrow> bool" where
  "is_task_active now tm tid \<longleftrightarrow> get_task now tm tid \<noteq> None"

definition active_tasks :: "time \<Rightarrow> task_manager \<Rightarrow> task list" where
  "active_tasks now tm = filter (\<lambda>t. now < tk_expires_at t) (map snd (tm_tasks tm))"

definition list_tasks :: "time \<Rightarrow> task_manager \<Rightarrow> string \<Rightarrow> task list" where
  "list_tasks now tm agent =
     sort_key tk_created_at
       (if agent \<noteq> [] then
          concat (map (\<lambda>(tid, _). case get (tm_tasks tm) tid of
                         Some t \<Rightarrow> if now < tk_expires_at t then [t] else []
                       | None \<Rightarrow> [])
                    (case get (tm_by_agent tm) agent of None \<Rightarrow> [] | Some ids \<Rightarrow> ids))
        else active_tasks now tm)"

definition list_tasks_by_agent :: "time \<Rightarrow> task_manager \<Rightarrow> string \<Rightarrow> task list" where
  "list_tasks_by_agent now tm agent = list_tasks now tm agent"

definition task_count :: "time \<Rightarrow> task_manager \<Rightarrow> nat" where
  "task_count now tm = length (active_tasks now tm)"

definition get_children :: "time \<Rightarrow> task_manager \<Rightarrow> string \<Rightarrow> task list" where
  "get_children now tm parent =
     sort_key tk_created_at (filter (\<lambda>t. tk_parent_id t = parent) (active_tasks now tm))"

definition get_task_tree :: "time \<Rightarrow> task_manager \<Rightarrow> string \<Rightarrow> task list" where
  "get_task_tree now tm root =
     sort_key (\<lambda>t. (tk_depth t, tk_created_at t))
       (filter (\<lambda>t. tk_root_id t = root) (active_tasks now tm))"

definition count_delegations :: "time \<Rightarrow> task_manager \<Rightarrow> nat" where
  "count_delegations now tm = length (filter (\<lambda>t. tk_depth t > 0) (active_tasks now tm))"

definition list_all_tasks :: "time \<Rightarrow> task_manager \<Rightarrow> task list" where
  "list_all_tasks now tm = sort_key (\<lambda>t. - tk_created_at t) (active_tasks now tm)"

section \<open>Signatures\<close>

definition register_signature :: "string \<Rightarrow> string \<Rightarrow> task_manager \<Rightarrow> task_manager" where
  "register_signature digest tid tm = tm\<lparr>tm_sig_index := put digest tid (tm_sig_index tm)\<rparr>"

definition lookup_by_signature :: "time \<Rightarrow> task_manager \<Rightarrow> string \<Rightarrow> task option" where
  "lookup_by_signature now tm digest =
     (case get (tm_sig_index tm) digest of
        None \<Rightarrow> None
      | Some tid \<Rightarrow>
          (case get (tm_tasks tm) tid of
             None \<Rightarrow> None
           | Some t \<Rightarrow> if now > tk_expires_at t then None else Some t))"

definition unregister_signature :: "string \<Rightarrow> task_manager \<Rightarrow> task_manager" where
  "unregister_signature digest tm = tm\<lparr>tm_sig_index := del digest (tm_sig_index tm)\<rparr>"

text \<open>The assignment \<open>task.MacaroonSigDigest = sigDigest\<close> of the create handler.\<close>

definition set_sig_digest :: "string \<Rightarrow> string \<Rightarrow> task_manager \<Rightarrow> task_manager" where
  "set_sig_digest tid digest tm =
     (case get (tm_tasks tm) tid of
        None \<Rightarrow> tm
      | Some t \<Rightarrow> tm\<lparr>tm_tasks := put tid (t\<lparr>tk_sig_digest := digest\<rparr>) (tm_tasks tm)\<rparr>)"

section \<open>Removing\<close>

definition remove_task :: "string \<Rightarrow> task \<Rightarrow> task_manager \<Rightarrow> task_manager" where
  "remove_task tid t tm =
     tm\<lparr>tm_tasks := del tid (tm_tasks tm),
        tm_by_agent := index_remove (tk_agent_name t) tid (tm_by_agent tm),
        tm_sig_index := (if tk_sig_digest t \<noteq> [] then del (tk_sig_digest t) (tm_sig_index tm)
                         else tm_sig_index tm)\<rparr>"

definition revoke_task :: "string \<Rightarrow> task_manager \<Rightarrow> task option \<times> task_manager" where
  "revoke_task tid tm =
     (case get (tm_tasks tm) tid of
        None \<Rightarrow> (None, tm)
      | Some t \<Rightarrow> (Some t, remove_task tid t tm))"

definition should_remove :: "time \<Rightarrow> task \<Rightarrow> bool" where
  "should_remove now t \<longleftrightarrow>
     now > tk_expires_at t \<or>
     (\<not> tk_holder_bound t \<and> tk_bind_deadline t \<noteq> 0 \<and> now > tk_bind_deadline t)"

text \<open>The second component lists the tasks that \<open>OnExpire\<close> is called with.\<close>

definition cleanup :: "time \<Rightarrow> task_manager \<Rightarrow> task_manager \<times> task list" where
  "cleanup now tm =
     (let expired = filter (\<lambda>(_, t). should_remove now t) (tm_tasks tm)
      in (fold (\<lambda>(tid, t). remove_task tid t) expired tm, map snd expired))"

section \<open>Holder keys and delegation\<close>

definition bind_holder_key ::
    "time \<Rightarrow> string \<Rightarrow> bytes \<Rightarrow> task_manager \<Rightarrow> task_error option \<times> task_manager" where
  "bind_holder_key now tid pub_key tm =
     (case get (tm_tasks tm) tid of
        None \<Rightarrow> (Some TaskNotFound, tm)
      | Some t \<Rightarrow>
          if tk_bind_deadline t \<noteq> 0 \<and> now > tk_bind_deadline t then (Some BindDeadlineExpired, tm)
          else if tk_holder_bound t \<and> tk_holder_pub_key t \<noteq> None then
            (if tk_holder_pub_key t \<noteq> Some pub_key then (Some KeyAlreadyBound, tm) else (None, tm))
          else if length pub_key \<noteq> 32 then (Some (InvalidPublicKey (length pub_key)), tm)
          else (None, tm\<lparr>tm_tasks := put tid
                  (t\<lparr>tk_holder_pub_key := Some pub_key, tk_holder_bound := True,
                     tk_bind_deadline := 0\<rparr>) (tm_tasks tm)\<rparr>))"

definition create_child_task ::
    "time \<Rightarrow> string \<Rightarrow> create_child_params \<Rightarrow> task_manager \<Rightarrow> (task_error + task) \<times> task_manager"
  where
  "create_child_task now tid params tm =
     (case get (tm_tasks tm) (cc_parent_id params) of
        None \<Rightarrow> (Inl (ParentNotFound (cc_parent_id params)), tm)
      | Some parent \<Rightarrow>
          if now > tk_expires_at parent then (Inl (ParentExpired (cc_parent_id params)), tm)
          else if tk_agent_name parent \<noteq> cc_agent_name params then
            (Inl (AgentMismatch (tk_agent_name parent) (cc_agent_name params)), tm)
          else if \<not> tk_can_delegate parent then (Inl DelegationForbidden, tm)
          else if tk_depth parent + 1 > default_max_child_depth then (Inl MaxDepthExceeded, tm)
          else let child_expiry = now + cc_ttl params in
          if child_expiry > tk_expires_at parent then (Inl ChildOutlivesParent, tm)
          else if (case cc_envelope params of
                     None \<Rightarrow> False
                   | Some e \<Rightarrow> \<not> is_subset_of e (tk_envelope parent))
          then (Inl ChildExceedsEnvelope, tm)
          else let child =
            \<lparr>tk_id = tid, tk_root_id = tk_root_id parent, tk_parent_id = tk_id parent,
             tk_agent_name = cc_agent_name params, tk_description = cc_description params,
             tk_depth = tk_depth parent + 1, tk_lineage = tk_lineage parent @ [tid],
             tk_initiated_by = tk_initiated_by parent, tk_created_at = now,
             tk_expires_at = child_expiry,
             tk_envelope = (case cc_envelope params of None \<Rightarrow> tk_envelope parent | Some e \<Rightarrow> e),
             tk_token_id = [], tk_can_delegate = cc_can_delegate params, tk_sig_digest = [],
             tk_holder_pub_key = None, tk_holder_bound = False,
             tk_bind_deadline = now + default_bind_deadline\<rparr>
          in (Inr child, store_task child tm))"

section \<open>The step relation\<close>

text \<open>
  A ULID is new when no registered task has it as its own id or in its lineage; this is
  what the 80 random bits of a ULID provide.
\<close>

definition new_id :: "task_manager \<Rightarrow> string \<Rightarrow> bool" where
  "new_id tm tid \<longleftrightarrow>
     get (tm_tasks tm) tid = None \<and>
     (\<forall>i t. get (tm_tasks tm) i = Some t \<longrightarrow> tid \<notin> set (tk_lineage t))"

inductive task_step :: "task_manager \<Rightarrow> task_manager \<Rightarrow> bool" where
  Create: "new_id tm tid \<Longrightarrow> task_step tm (snd (create_task now tid params tm))"
| Child: "new_id tm tid \<Longrightarrow> task_step tm (snd (create_child_task now tid cparams tm))"
| Revoke: "task_step tm (snd (revoke_task tid tm))"
| Cleanup: "task_step tm (fst (cleanup now tm))"
| Bind: "task_step tm (snd (bind_holder_key now tid key tm))"
| Register: "task_step tm (register_signature digest tid tm)"
| Unregister: "task_step tm (unregister_signature digest tm)"
| SetDigest: "task_step tm (set_sig_digest tid digest tm)"

inductive_cases task_stepE: "task_step tm tm'"

abbreviation reachable :: "task_manager \<Rightarrow> bool" where
  "reachable tm \<equiv> task_step\<^sup>*\<^sup>* new_task_manager tm"

section \<open>The invariant\<close>

definition task_ok :: "task \<Rightarrow> bool" where
  "task_ok t \<longleftrightarrow>
     tk_lineage t \<noteq> [] \<and> last (tk_lineage t) = tk_id t \<and> hd (tk_lineage t) = tk_root_id t \<and>
     distinct (tk_lineage t) \<and> int (length (tk_lineage t)) = tk_depth t + 1 \<and>
     tk_depth t \<le> default_max_child_depth \<and>
     (tk_holder_bound t \<longrightarrow> (\<exists>k. tk_holder_pub_key t = Some k \<and> length k = 32))"

text \<open>\<open>t\<close> descends from \<open>a\<close> and has at most its authority and its lifetime.\<close>

definition below :: "task \<Rightarrow> task \<Rightarrow> bool" where
  "below t a \<longleftrightarrow>
     is_subset_of (tk_envelope t) (tk_envelope a) \<and> tk_expires_at t \<le> tk_expires_at a \<and>
     tk_root_id t = tk_root_id a \<and> tk_agent_name t = tk_agent_name a \<and>
     tk_initiated_by t = tk_initiated_by a \<and>
     (\<exists>rest. tk_lineage t = tk_lineage a @ rest) \<and>
     (tk_id t \<noteq> tk_id a \<longrightarrow> tk_can_delegate a)"

definition tasks_ok :: "(string, task) gomap \<Rightarrow> bool" where
  "tasks_ok m \<longleftrightarrow>
     map_wf m \<and>
     (\<forall>i t. get m i = Some t \<longrightarrow> tk_id t = i \<and> task_ok t) \<and>
     (\<forall>i t j a. get m i = Some t \<longrightarrow> get m j = Some a \<longrightarrow> j \<in> set (tk_lineage t) \<longrightarrow> below t a)"

definition indexed :: "(string, (string, bool) gomap) gomap \<Rightarrow> string \<Rightarrow> string \<Rightarrow> bool" where
  "indexed m a i \<longleftrightarrow> (case get m a of None \<Rightarrow> False | Some ids \<Rightarrow> get ids i \<noteq> None)"

definition index_wf :: "(string, (string, bool) gomap) gomap \<Rightarrow> bool" where
  "index_wf m \<longleftrightarrow> map_wf m \<and> (\<forall>a ids. get m a = Some ids \<longrightarrow> map_wf ids \<and> ids \<noteq> [])"

definition index_agrees :: "(string, (string, bool) gomap) gomap \<Rightarrow> (string, task) gomap \<Rightarrow> bool" where
  "index_agrees m ts \<longleftrightarrow>
     (\<forall>a i. indexed m a i \<longleftrightarrow> (\<exists>t. get ts i = Some t \<and> tk_agent_name t = a))"

definition manager_ok :: "task_manager \<Rightarrow> bool" where
  "manager_ok tm \<longleftrightarrow>
     tasks_ok (tm_tasks tm) \<and> index_wf (tm_by_agent tm) \<and>
     index_agrees (tm_by_agent tm) (tm_tasks tm)"

subsection \<open>The agent index\<close>

lemma put_not_Nil [simp]: "put k v m \<noteq> []"
  by (cases m) (auto simp: put_def)

lemma indexed_add [simp]:
  "indexed (index_add a i m) b j \<longleftrightarrow> (b = a \<and> j = i) \<or> indexed m b j"
  by (auto simp: indexed_def index_add_def split: option.splits)

lemma indexed_remove:
  "indexed (index_remove a i m) b j \<longleftrightarrow> indexed m b j \<and> \<not> (b = a \<and> j = i)"
proof (cases "get m a")
  case (Some ids)
  then show ?thesis
    by (cases "del i ids = []")
       (auto simp: indexed_def index_remove_def Let_def split: option.splits
         dest: arg_cong [of _ "[]" "\<lambda>m. get m j"])
qed (auto simp: indexed_def index_remove_def)

lemma index_wf_add: "index_wf m \<Longrightarrow> index_wf (index_add a i m)"
  by (auto simp: index_wf_def index_add_def split: option.splits)

lemma index_wf_remove: "index_wf m \<Longrightarrow> index_wf (index_remove a i m)"
  by (auto simp: index_wf_def index_remove_def Let_def split: option.splits if_splits)

subsection \<open>The task map\<close>

lemma below_refl: "below t t"
  by (auto simp: below_def)

lemma below_trans: "below t b \<Longrightarrow> below b a \<Longrightarrow> (tk_id b = tk_id a \<Longrightarrow> b = a) \<Longrightarrow> below t a"
  unfolding below_def by (auto intro: is_subset_of_trans)

lemma tasks_ok_submap:
  assumes "tasks_ok m" "map_wf m'" "\<And>i t. get m' i = Some t \<Longrightarrow> get m i = Some t"
  shows "tasks_ok m'"
  using assms unfolding tasks_ok_def by meson

text \<open>An update that leaves identity, authority and lifetime alone.\<close>

definition same_claims :: "task \<Rightarrow> task \<Rightarrow> bool" where
  "same_claims t' t \<longleftrightarrow>
     tk_id t' = tk_id t \<and> tk_root_id t' = tk_root_id t \<and> tk_agent_name t' = tk_agent_name t \<and>
     tk_depth t' = tk_depth t \<and> tk_lineage t' = tk_lineage t \<and>
     tk_initiated_by t' = tk_initiated_by t \<and> tk_expires_at t' = tk_expires_at t \<and>
     tk_envelope t' = tk_envelope t \<and> tk_can_delegate t' = tk_can_delegate t"

lemma below_same: "same_claims t' t \<Longrightarrow> same_claims a' a \<Longrightarrow> below t' a' = below t a"
  by (simp add: below_def same_claims_def)

lemma tasks_ok_update:
  assumes ok: "tasks_ok m" and t: "get m i = Some t" and same: "same_claims t' t" and "task_ok t'"
  shows "tasks_ok (put i t' m)"
proof -
  have refl: "same_claims x x" for x by (simp add: same_claims_def)
  have old: "\<exists>x0. get m j = Some x0 \<and> same_claims x x0" if "get (put i t' m) j = Some x" for j x
    using that t same refl by (auto split: if_splits)
  have "below x a" if "get (put i t' m) j = Some x" "get (put i t' m) k = Some a"
    "k \<in> set (tk_lineage x)" for j x k a
  proof -
    from old [OF that(1)] obtain x0 where x: "get m j = Some x0" "same_claims x x0" by blast
    from old [OF that(2)] obtain a0 where a: "get m k = Some a0" "same_claims a a0" by blast
    from x(2) that(3) have "k \<in> set (tk_lineage x0)" by (simp add: same_claims_def)
    with ok x(1) a(1) have "below x0 a0" unfolding tasks_ok_def by blast
    with below_same x(2) a(2) show ?thesis by blast
  qed
  moreover have "tk_id x = j \<and> task_ok x" if "get (put i t' m) j = Some x" for j x
    using that ok t same assms(4) unfolding tasks_ok_def
    by (auto simp: same_claims_def split: if_splits)
  moreover have "map_wf (put i t' m)" using ok by (simp add: tasks_ok_def)
  ultimately show ?thesis unfolding tasks_ok_def by blast
qed

lemma tasks_ok_insert:
  assumes ok: "tasks_ok m" and new: "\<And>j x. get m j = Some x \<Longrightarrow> tk_id t \<notin> set (tk_lineage x)"
    and "get m (tk_id t) = None" and "task_ok t"
    and above: "\<And>j a. get m j = Some a \<Longrightarrow> j \<in> set (tk_lineage t) \<Longrightarrow> below t a"
  shows "tasks_ok (put (tk_id t) t m)"
proof -
  have "below x a" if "get (put (tk_id t) t m) j = Some x" "get (put (tk_id t) t m) k = Some a"
    "k \<in> set (tk_lineage x)" for j x k a
  proof (cases "j = tk_id t")
    case True
    with that above below_refl show ?thesis by (auto split: if_splits)
  next
    case False
    with that(1) have x: "get m j = Some x" by simp
    with new that(3) have "k \<noteq> tk_id t" by blast
    with that(2) x that(3) ok show ?thesis unfolding tasks_ok_def by auto
  qed
  moreover have "tk_id x = j \<and> task_ok x" if "get (put (tk_id t) t m) j = Some x" for j x
    using that ok assms(4) unfolding tasks_ok_def by (auto split: if_splits)
  moreover have "map_wf (put (tk_id t) t m)" using ok by (simp add: tasks_ok_def)
  ultimately show ?thesis unfolding tasks_ok_def by blast
qed

subsection \<open>Every operation preserves the invariant\<close>

lemma manager_ok_new: "manager_ok new_task_manager"
  by (simp add: manager_ok_def new_task_manager_def tasks_ok_def index_wf_def index_agrees_def
      indexed_def)

lemma manager_ok_store:
  assumes "manager_ok tm" "new_id tm (tk_id t)" "task_ok t"
    and "\<And>j a. get (tm_tasks tm) j = Some a \<Longrightarrow> j \<in> set (tk_lineage t) \<Longrightarrow> below t a"
  shows "manager_ok (store_task t tm)"
proof -
  have none: "get (tm_tasks tm) (tk_id t) = None" using assms(2) by (simp add: new_id_def)
  have "tasks_ok (put (tk_id t) t (tm_tasks tm))"
    using assms by (intro tasks_ok_insert) (auto simp: manager_ok_def new_id_def)
  moreover have "index_agrees (index_add (tk_agent_name t) (tk_id t) (tm_by_agent tm))
      (put (tk_id t) t (tm_tasks tm))"
    using assms(1) none by (auto simp: manager_ok_def index_agrees_def)
  ultimately show ?thesis
    using assms(1) by (simp add: manager_ok_def store_task_def index_wf_add)
qed

lemma manager_ok_create:
  assumes "manager_ok tm" "new_id tm tid"
  shows "manager_ok (snd (create_task now tid params tm))"
proof -
  have "tk_id (fst (create_task now tid params tm)) = tid \<and>
      tk_lineage (fst (create_task now tid params tm)) = [tid] \<and>
      task_ok (fst (create_task now tid params tm))"
    by (simp add: create_task_def Let_def task_ok_def default_max_child_depth_def)
  moreover have "snd (create_task now tid params tm) =
      store_task (fst (create_task now tid params tm)) tm"
    by (simp add: create_task_def Let_def)
  ultimately show ?thesis
    using assms manager_ok_store [of tm "fst (create_task now tid params tm)"]
    by (simp add: new_id_def)
qed

lemma create_child_cases:
  "create_child_task now tid params tm = (r, tm') \<Longrightarrow>
   (\<exists>e. r = Inl e \<and> tm' = tm) \<or>
   (\<exists>parent child. r = Inr child \<and> tm' = store_task child tm \<and>
      get (tm_tasks tm) (cc_parent_id params) = Some parent \<and>
      now \<le> tk_expires_at parent \<and> tk_agent_name parent = cc_agent_name params \<and>
      tk_can_delegate parent \<and> tk_depth parent + 1 \<le> default_max_child_depth \<and>
      tk_id child = tid \<and> tk_root_id child = tk_root_id parent \<and> tk_parent_id child = tk_id parent \<and>
      tk_agent_name child = tk_agent_name parent \<and> tk_depth child = tk_depth parent + 1 \<and>
      tk_lineage child = tk_lineage parent @ [tid] \<and>
      tk_initiated_by child = tk_initiated_by parent \<and>
      tk_expires_at child = now + cc_ttl params \<and> tk_expires_at child \<le> tk_expires_at parent \<and>
      is_subset_of (tk_envelope child) (tk_envelope parent) \<and>
      tk_can_delegate child = cc_can_delegate params \<and>
      tk_holder_bound child = False \<and> tk_holder_pub_key child = None \<and>
      tk_bind_deadline child = now + default_bind_deadline)"
  unfolding create_child_task_def Let_def
  by (cases "cc_envelope params") (auto split: option.splits if_splits)

lemma manager_ok_child:
  assumes ok: "manager_ok tm" and new: "new_id tm tid"
  shows "manager_ok (snd (create_child_task now tid params tm))"
proof -
  obtain r tm' where res: "create_child_task now tid params tm = (r, tm')" by fastforce
  from create_child_cases [OF res] show ?thesis
  proof (elim disjE exE conjE)
    fix parent child
    assume store: "tm' = store_task child tm"
      and parent: "get (tm_tasks tm) (cc_parent_id params) = Some parent"
      and c: "tk_can_delegate parent" "tk_depth parent + 1 \<le> default_max_child_depth"
      "tk_id child = tid" "tk_root_id child = tk_root_id parent"
      "tk_agent_name child = tk_agent_name parent" "tk_depth child = tk_depth parent + 1"
      "tk_lineage child = tk_lineage parent @ [tid]"
      "tk_initiated_by child = tk_initiated_by parent"
      "tk_expires_at child \<le> tk_expires_at parent"
      "is_subset_of (tk_envelope child) (tk_envelope parent)" "tk_holder_bound child = False"
    from ok parent have p: "task_ok parent" "tk_id parent = cc_parent_id params"
      unfolding manager_ok_def tasks_ok_def by auto
    have fresh: "tid \<notin> set (tk_lineage parent)" using new parent unfolding new_id_def by blast
    then have child: "task_ok child" using p c by (simp add: task_ok_def)
    have up: "below child parent" using c by (auto simp: below_def)
    have "below child a" if "get (tm_tasks tm) j = Some a" "j \<in> set (tk_lineage child)" for j a
    proof -
      have "j \<noteq> tid" using that(1) new by (auto simp: new_id_def)
      with that c(7) have "j \<in> set (tk_lineage parent)" by simp
      with ok parent that(1) have "below parent a" unfolding manager_ok_def tasks_ok_def by blast
      moreover have "tk_id parent = tk_id a \<Longrightarrow> parent = a"
        using ok parent that(1) unfolding manager_ok_def tasks_ok_def by (metis option.inject)
      ultimately show ?thesis using below_trans [OF up] by blast
    qed
    with manager_ok_store [OF ok _ child] new c(3) store res show ?thesis by simp
  qed (use ok res in auto)
qed

lemma manager_ok_remove:
  assumes ok: "manager_ok tm" and t: "get (tm_tasks tm) tid = Some t"
  shows "manager_ok (remove_task tid t tm)"
proof -
  have wf: "map_wf (tm_tasks tm)" using ok by (simp add: manager_ok_def tasks_ok_def)
  have "tasks_ok (del tid (tm_tasks tm))"
    by (rule tasks_ok_submap [of "tm_tasks tm"])
       (use ok wf in \<open>auto simp: manager_ok_def split: if_splits\<close>)
  moreover have "index_agrees (index_remove (tk_agent_name t) tid (tm_by_agent tm))
      (del tid (tm_tasks tm))"
    using ok t by (auto simp: manager_ok_def index_agrees_def indexed_remove)
  ultimately show ?thesis
    using ok by (simp add: manager_ok_def remove_task_def index_wf_remove)
qed

lemma remove_many:
  assumes "manager_ok tm" "distinct (map fst es)"
    "\<And>i t. (i, t) \<in> set es \<Longrightarrow> get (tm_tasks tm) i = Some t"
  shows "manager_ok (fold (\<lambda>(i, t). remove_task i t) es tm) \<and>
    (\<forall>i. get (tm_tasks (fold (\<lambda>(i, t). remove_task i t) es tm)) i =
       (if i \<in> fst ` set es then None else get (tm_tasks tm) i))"
  using assms
proof (induction es arbitrary: tm)
  case (Cons e es)
  obtain i t where e: "e = (i, t)" by force
  have 1: "manager_ok (remove_task i t tm)"
    using Cons.prems e by (intro manager_ok_remove) auto
  have get: "get (tm_tasks (remove_task i t tm)) j = (if j = i then None else get (tm_tasks tm) j)" for j
    by (simp add: remove_task_def)
  have "get (tm_tasks (remove_task i t tm)) j = Some x" if "(j, x) \<in> set es" for j x
  proof -
    have "j \<noteq> i" using that Cons.prems(2) e by force
    with that Cons.prems(3) [of j x] get show ?thesis by simp
  qed
  with Cons.IH [OF 1] Cons.prems(2) e get show ?case by auto
qed simp

lemma cleanup_spec:
  assumes "manager_ok tm"
  shows "manager_ok (fst (cleanup now tm))"
    and "get (tm_tasks (fst (cleanup now tm))) i =
      (case get (tm_tasks tm) i of None \<Rightarrow> None | Some t \<Rightarrow> if should_remove now t then None else Some t)"
proof -
  let ?es = "filter (\<lambda>(_, t). should_remove now t) (tm_tasks tm)"
  have wf: "map_wf (tm_tasks tm)" using assms by (simp add: manager_ok_def tasks_ok_def)
  then have d: "distinct (map fst ?es)" by (simp add: map_wf_def distinct_map_filter)
  have g: "get (tm_tasks tm) i = Some t" if "(i, t) \<in> set ?es" for i t
    using that wf by (simp add: get_in_set)
  have mem: "i \<in> fst ` set ?es \<longleftrightarrow> (\<exists>t. get (tm_tasks tm) i = Some t \<and> should_remove now t)"
    using wf by (force simp: get_in_set)
  have fst_cleanup: "fst (cleanup now tm) = fold (\<lambda>(i, t). remove_task i t) ?es tm"
    by (simp add: cleanup_def Let_def)
  show "manager_ok (fst (cleanup now tm))"
    unfolding fst_cleanup by (rule conjunct1 [OF remove_many [OF assms d g]])
  have "get (tm_tasks (fst (cleanup now tm))) i =
      (if i \<in> fst ` set ?es then None else get (tm_tasks tm) i)"
    unfolding fst_cleanup by (rule spec [OF conjunct2 [OF remove_many [OF assms d g]]])
  then show "get (tm_tasks (fst (cleanup now tm))) i =
      (case get (tm_tasks tm) i of None \<Rightarrow> None | Some t \<Rightarrow> if should_remove now t then None else Some t)"
    unfolding mem by (cases "get (tm_tasks tm) i") simp_all
qed

lemma manager_ok_update:
  assumes ok: "manager_ok tm" and "get (tm_tasks tm) i = Some t" "same_claims t' t" "task_ok t'"
  shows "manager_ok (tm\<lparr>tm_tasks := put i t' (tm_tasks tm)\<rparr>)"
proof -
  have "tasks_ok (put i t' (tm_tasks tm))"
    using assms tasks_ok_update unfolding manager_ok_def by blast
  moreover have "index_agrees (tm_by_agent tm) (put i t' (tm_tasks tm))"
    using assms by (auto simp: manager_ok_def index_agrees_def same_claims_def)
  ultimately show ?thesis using ok by (simp add: manager_ok_def)
qed

lemma manager_ok_bind:
  assumes "manager_ok tm"
  shows "manager_ok (snd (bind_holder_key now tid key tm))"
proof -
  have "task_ok t" if "get (tm_tasks tm) tid = Some t" for t
    using assms that by (simp add: manager_ok_def tasks_ok_def)
  then show ?thesis
    using assms
    by (auto simp: bind_holder_key_def same_claims_def task_ok_def intro!: manager_ok_update
        split: option.splits)
qed

lemma manager_ok_set_digest:
  assumes "manager_ok tm"
  shows "manager_ok (set_sig_digest tid digest tm)"
proof -
  have "task_ok t" if "get (tm_tasks tm) tid = Some t" for t
    using assms that by (simp add: manager_ok_def tasks_ok_def)
  then show ?thesis
    using assms
    by (auto simp: set_sig_digest_def same_claims_def task_ok_def intro!: manager_ok_update
        split: option.splits)
qed

lemmas manager_ok_intros =
  manager_ok_create manager_ok_child manager_ok_remove cleanup_spec(1) manager_ok_bind
  manager_ok_set_digest

lemma manager_ok_step: "task_step tm tm' \<Longrightarrow> manager_ok tm \<Longrightarrow> manager_ok tm'"
proof (induction rule: task_step.induct)
  case (Revoke tm tid)
  then show ?case by (auto simp: revoke_task_def intro: manager_ok_intros split: option.splits)
next
  case (Register tm digest tid)
  then show ?case by (simp add: manager_ok_def register_signature_def)
next
  case (Unregister tm digest)
  then show ?case by (simp add: manager_ok_def unregister_signature_def)
qed (auto intro: manager_ok_intros)

lemma reachable_ok: "reachable tm \<Longrightarrow> manager_ok tm"
  by (induction rule: rtranclp_induct) (auto intro: manager_ok_new manager_ok_step)

lemma should_remove_mono: "should_remove t v \<Longrightarrow> t \<le> t' \<Longrightarrow> should_remove t' v"
  by (auto simp: should_remove_def)

interpretation task_expiry: expiring_store manager_ok "\<lambda>tm. get (tm_tasks tm)" should_remove
  "\<lambda>now tm. fst (cleanup now tm)"
  by unfold_locales (simp_all add: cleanup_spec should_remove_mono)

lemma reachable_wf: "reachable tm \<Longrightarrow> map_wf (tm_tasks tm)"
  using reachable_ok by (simp add: manager_ok_def tasks_ok_def)

lemma listed_by_agent:
  assumes ok: "manager_ok tm" and "agent \<noteq> []"
  shows "set (list_tasks now tm agent) =
    {t. get (tm_tasks tm) (tk_id t) = Some t \<and> tk_agent_name t = agent \<and> now < tk_expires_at t}"
    and "distinct (map tk_id (list_tasks now tm agent))"
proof -
  define ids where "ids = (case get (tm_by_agent tm) agent of None \<Rightarrow> [] | Some ids \<Rightarrow> ids)"
  define pick where "pick = (\<lambda>(tid, b::bool). case get (tm_tasks tm) tid of
      Some t \<Rightarrow> if now < tk_expires_at t then [t] else [] | None \<Rightarrow> [])"
  have lt: "list_tasks now tm agent = sort_key tk_created_at (concat (map pick ids))"
    using assms(2) by (simp add: list_tasks_def ids_def pick_def)
  have wf: "map_wf ids" using ok
    by (auto simp: ids_def manager_ok_def index_wf_def split: option.splits)
  have idx: "(\<exists>b. (i, b) \<in> set ids) \<longleftrightarrow> (\<exists>t. get (tm_tasks tm) i = Some t \<and> tk_agent_name t = agent)" for i
  proof -
    have "(\<exists>b. (i, b) \<in> set ids) \<longleftrightarrow> indexed (tm_by_agent tm) agent i"
      using wf by (auto simp: indexed_def ids_def get_in_set [symmetric] split: option.splits)
    then show ?thesis using ok by (simp add: manager_ok_def index_agrees_def)
  qed
  have key: "tk_id t = i" if "get (tm_tasks tm) i = Some t" for i t
    using ok that by (simp add: manager_ok_def tasks_ok_def)
  have "t \<in> set (concat (map pick ids)) \<longleftrightarrow>
      (\<exists>i b. (i, b) \<in> set ids \<and> get (tm_tasks tm) i = Some t \<and> now < tk_expires_at t)" for t
    by (force simp: pick_def split: option.splits if_splits)
  moreover have "(\<exists>i b. (i, b) \<in> set ids \<and> get (tm_tasks tm) i = Some t \<and> now < tk_expires_at t) \<longleftrightarrow>
      (\<exists>i. get (tm_tasks tm) i = Some t \<and> tk_agent_name t = agent \<and> now < tk_expires_at t)" for t
    using idx by (metis option.inject)
  moreover have "(\<exists>i. get (tm_tasks tm) i = Some t \<and> P) \<longleftrightarrow> get (tm_tasks tm) (tk_id t) = Some t \<and> P"
    for t P using key by metis
  ultimately show "set (list_tasks now tm agent) =
    {t. get (tm_tasks tm) (tk_id t) = Some t \<and> tk_agent_name t = agent \<and> now < tk_expires_at t}"
    unfolding lt set_sort by (intro set_eqI) (simp only: mem_Collect_eq)
  have "map tk_id (pick e) = [] \<or> map tk_id (pick e) = [fst e]" for e
    by (auto simp: pick_def key split: option.splits prod.splits)
  then have "distinct (concat (map (\<lambda>e. map tk_id (pick e)) ids))"
    using wf by (rule distinct_picked(2))
  then have "distinct (map tk_id (concat (map pick ids)))" by (simp add: map_concat comp_def)
  then show "distinct (map tk_id (list_tasks now tm agent))"
    unfolding lt by (metis distinct_map distinct_sort set_sort)
qed

lemma step_keeps:
  assumes step: "task_step tm tm'" and ok: "manager_ok tm"
    and t: "get (tm_tasks tm) i = Some t" and t': "get (tm_tasks tm') i = Some t'"
  shows "same_claims t' t \<and>
    (tk_holder_bound t \<longrightarrow> tk_holder_bound t' \<and> tk_holder_pub_key t' = tk_holder_pub_key t)"
  using step
proof (cases rule: task_step.cases)
  case (Create tid now params)
  then have "i \<noteq> tid" using t by (auto simp: new_id_def)
  with Create t t' show ?thesis
    by (auto simp: create_task_def Let_def store_task_def same_claims_def split: if_splits)
next
  case (Child tid now cparams)
  then have "i \<noteq> tid" using t by (auto simp: new_id_def)
  obtain r tm2 where res: "create_child_task now tid cparams tm = (r, tm2)" by fastforce
  have "get (tm_tasks tm') i = get (tm_tasks tm) i"
    using create_child_cases [OF res] Child res \<open>i \<noteq> tid\<close> by (auto simp: store_task_def)
  with t t' show ?thesis by (simp add: same_claims_def)
next
  case (Revoke tid)
  with t t' show ?thesis
    by (auto simp: revoke_task_def remove_task_def same_claims_def split: option.splits if_splits)
next
  case (Cleanup now)
  with t t' cleanup_spec(2) [OF ok, of now i] show ?thesis
    by (auto simp: same_claims_def split: if_splits)
next
  case (Bind now tid key)
  have "task_ok t" using ok t by (simp add: manager_ok_def tasks_ok_def)
  then have "tk_holder_bound t \<longrightarrow> tk_holder_pub_key t \<noteq> None" by (auto simp: task_ok_def)
  with Bind t t' show ?thesis
    by (auto simp: bind_holder_key_def same_claims_def split: option.splits if_splits)
next
  case (SetDigest tid digest)
  with t t' show ?thesis
    by (auto simp: set_sig_digest_def same_claims_def split: option.splits if_splits)
qed (use t t' in \<open>auto simp: register_signature_def unregister_signature_def same_claims_def\<close>)

section \<open>A sample tree\<close>

text \<open>A root task and one delegated child, on which the properties are applied.\<close>

definition sample_root_params :: create_task_params where
  "sample_root_params =
     \<lparr>cp_agent_name = ''claude'', cp_description = ''d'', cp_ttl = 1000, cp_initiated_by = ''ben'',
      cp_envelope = \<lparr>te_targets = [''web'', ''db''], te_roles = [''read''], te_services = [''*''],
                     te_remotes = [], te_methods = [''GET'']\<rparr>,
      cp_can_delegate = True, cp_holder_pub_key = replicate 32 (CHR ''k'')\<rparr>"

definition sample_child_params :: create_child_params where
  "sample_child_params =
     \<lparr>cc_parent_id = ''R'', cc_agent_name = ''claude'', cc_description = ''c'', cc_ttl = 500,
      cc_envelope = Some \<lparr>te_targets = [''db''], te_roles = [''read''], te_services = [''git''],
                          te_remotes = [], te_methods = []\<rparr>,
      cc_can_delegate = False\<rparr>"

definition sample_tree :: task_manager where
  "sample_tree =
     snd (create_child_task 20 ''C'' sample_child_params
       (snd (create_task 10 ''R'' sample_root_params new_task_manager)))"

lemma sample_reachable: "reachable sample_tree"
proof -
  let ?tm = "snd (create_task 10 ''R'' sample_root_params new_task_manager)"
  have "new_id new_task_manager ''R''" by (simp add: new_id_def new_task_manager_def)
  then have "reachable ?tm" by (blast intro: Create)
  moreover have "new_id ?tm ''C''"
    by (auto simp: new_id_def new_task_manager_def create_task_def store_task_def Let_def
        sample_root_params_def put_def)
  then have "task_step ?tm sample_tree" unfolding sample_tree_def by (rule Child)
  ultimately show ?thesis by (rule rtranclp.rtrancl_into_rtrancl)
qed

definition sample_task :: "string \<Rightarrow> task" where
  "sample_task i = the (get (tm_tasks sample_tree) i)"

lemma sample_gets:
  "get (tm_tasks sample_tree) ''R'' = Some (sample_task ''R'')"
  "get (tm_tasks sample_tree) ''C'' = Some (sample_task ''C'')"
  by code_simp+

section \<open>Properties\<close>

text \<open>
  Claim C8. Delegation only attenuates, through any history of the task manager: if a
  registered task descends from another registered task (it occurs in the lineage), then
  its envelope is within the ancestor's, it expires no later, it belongs to the same root,
  agent and initiator, the ancestor was allowed to delegate, the ancestor's lineage is a
  prefix of its own, and the delegation depth is at most five.
\<close>

theorem delegation_attenuates:
  assumes "reachable tm"
    and "get (tm_tasks tm) i = Some t" and "get (tm_tasks tm) j = Some a"
    and "j \<in> set (tk_lineage t)"
  shows "is_subset_of (tk_envelope t) (tk_envelope a) \<and> tk_expires_at t \<le> tk_expires_at a \<and>
    tk_root_id t = tk_root_id a \<and> tk_agent_name t = tk_agent_name a \<and>
    tk_initiated_by t = tk_initiated_by a \<and> (i \<noteq> j \<longrightarrow> tk_can_delegate a) \<and>
    take (length (tk_lineage a)) (tk_lineage t) = tk_lineage a \<and>
    tk_depth t = int (length (tk_lineage t)) - 1 \<and> tk_depth t \<le> 5"
proof -
  have ok: "tasks_ok (tm_tasks tm)" using reachable_ok [OF assms(1)] by (simp add: manager_ok_def)
  then have "below t a" "task_ok t" "tk_id t = i" "tk_id a = j"
    using assms(2-4) unfolding tasks_ok_def by blast+
  then show ?thesis by (auto simp: below_def task_ok_def default_max_child_depth_def)
qed

theorem delegation_attenuates_witness:
  "is_subset_of (tk_envelope (sample_task ''C'')) (tk_envelope (sample_task ''R'')) \<and>
   tk_expires_at (sample_task ''C'') \<le> tk_expires_at (sample_task ''R'') \<and>
   tk_lineage (sample_task ''C'') = [''R'', ''C''] \<and> tk_can_delegate (sample_task ''R'')"
proof -
  have "tk_lineage (sample_task ''C'') = [''R'', ''C'']" by code_simp
  with delegation_attenuates [OF sample_reachable sample_gets(2,1)] show ?thesis by simp
qed

text \<open>
  Claims of a registered task are immutable and its holder key is bound for good:
  whatever operation the task manager performs, a task that is registered before and
  after it keeps its lineage, root, agent, envelope, expiry and delegation right, and
  once a holder key is bound no operation replaces or removes it.
\<close>

theorem claims_and_key_immutable:
  assumes "reachable tm" and "task_step tm tm'"
    and "get (tm_tasks tm) i = Some t" and "get (tm_tasks tm') i = Some t'"
  shows "tk_id t' = tk_id t \<and> tk_root_id t' = tk_root_id t \<and> tk_lineage t' = tk_lineage t \<and>
    tk_agent_name t' = tk_agent_name t \<and> tk_initiated_by t' = tk_initiated_by t \<and>
    tk_envelope t' = tk_envelope t \<and> tk_expires_at t' = tk_expires_at t \<and>
    tk_can_delegate t' = tk_can_delegate t \<and>
    (tk_holder_bound t \<longrightarrow> tk_holder_bound t' \<and> tk_holder_pub_key t' = tk_holder_pub_key t)"
  using step_keeps [OF assms(2) reachable_ok [OF assms(1)] assms(3,4)]
  by (simp add: same_claims_def)

theorem claims_and_key_immutable_witness:
  "tk_holder_pub_key (the (get (tm_tasks
     (snd (bind_holder_key 30 ''R'' (replicate 32 (CHR ''x'')) sample_tree))) ''R'')) =
   Some (replicate 32 (CHR ''k''))"
proof -
  let ?tm = "snd (bind_holder_key 30 ''R'' (replicate 32 (CHR ''x'')) sample_tree)"
  have "get (tm_tasks ?tm) ''R'' = Some (the (get (tm_tasks ?tm) ''R''))" by code_simp
  moreover have "tk_holder_bound (sample_task ''R'')"
    "tk_holder_pub_key (sample_task ''R'') = Some (replicate 32 (CHR ''k''))" by code_simp+
  ultimately show ?thesis
    using claims_and_key_immutable [OF sample_reachable Bind sample_gets(1)] by metis
qed

text \<open>
  The agent index is complete: for every reachable state and agent name,
  \<open>ListTasks\<close> returns each unexpired task of that agent exactly once, oldest first, and
  nothing else.
\<close>

theorem list_tasks_exact:
  assumes "reachable tm" and "agent \<noteq> []"
  shows "set (list_tasks now tm agent) =
      {t. get (tm_tasks tm) (tk_id t) = Some t \<and> tk_agent_name t = agent \<and> now < tk_expires_at t} \<and>
    distinct (map tk_id (list_tasks now tm agent)) \<and>
    sorted (map tk_created_at (list_tasks now tm agent))"
  using listed_by_agent [OF reachable_ok [OF assms(1)] assms(2)]
  by (simp add: list_tasks_def)

theorem list_tasks_exact_witness:
  "sample_task ''C'' \<in> set (list_tasks 100 sample_tree ''claude'') \<and>
   sorted (map tk_created_at (list_tasks 100 sample_tree ''claude''))"
proof -
  have "tk_id (sample_task ''C'') = ''C'' \<and> tk_agent_name (sample_task ''C'') = ''claude'' \<and>
      100 < tk_expires_at (sample_task ''C'')" by code_simp
  with list_tasks_exact [OF sample_reachable, of "''claude''" 100] sample_gets(2) show ?thesis
    by simp
qed

text \<open>
  Cleanup removes exactly the tasks that are past their expiry or were never bound
  to a holder key by their bind deadline; it reports exactly those to \<open>OnExpire\<close>, and
  any number of cleanups leaves a task alone as long as it is live.
\<close>

theorem cleanup_exact:
  assumes "reachable tm"
  shows "get (tm_tasks (fst (cleanup now tm))) i =
      (case get (tm_tasks tm) i of
         None \<Rightarrow> None
       | Some t \<Rightarrow>
           if now > tk_expires_at t \<or>
              (\<not> tk_holder_bound t \<and> tk_bind_deadline t \<noteq> 0 \<and> now > tk_bind_deadline t)
           then None else Some t) \<and>
    set (snd (cleanup now tm)) =
      {t. get (tm_tasks tm) (tk_id t) = Some t \<and>
          get (tm_tasks (fst (cleanup now tm))) (tk_id t) = None} \<and>
    (\<forall>t. get (tm_tasks tm) i = Some t \<and> (\<forall>s \<in> set sweeps. \<not> should_remove s t) \<longrightarrow>
       get (tm_tasks (fold (\<lambda>s m. fst (cleanup s m)) sweeps tm)) i = Some t)"
proof (intro conjI allI impI)
  note ok = reachable_ok [OF assms]
  show "get (tm_tasks (fst (cleanup now tm))) i =
      (case get (tm_tasks tm) i of
         None \<Rightarrow> None
       | Some t \<Rightarrow>
           if now > tk_expires_at t \<or>
              (\<not> tk_holder_bound t \<and> tk_bind_deadline t \<noteq> 0 \<and> now > tk_bind_deadline t)
           then None else Some t)"
    by (rule cleanup_spec(2) [OF ok, unfolded should_remove_def])
  have key: "get (tm_tasks tm) i = Some t \<Longrightarrow> tk_id t = i" for i t
    using ok by (simp add: manager_ok_def tasks_ok_def)
  have "t \<in> set (snd (cleanup now tm)) \<longleftrightarrow>
      (\<exists>i. get (tm_tasks tm) i = Some t \<and> should_remove now t)" for t
    using reachable_wf [OF assms] by (force simp: cleanup_def Let_def get_in_set)
  then show "set (snd (cleanup now tm)) =
      {t. get (tm_tasks tm) (tk_id t) = Some t \<and>
          get (tm_tasks (fst (cleanup now tm))) (tk_id t) = None}"
    using key cleanup_spec(2) [OF ok, of now] by (intro set_eqI) (force split: option.splits)
  show "get (tm_tasks (fold (\<lambda>s m. fst (cleanup s m)) sweeps tm)) i = Some t"
    if "get (tm_tasks tm) i = Some t \<and> (\<forall>s \<in> set sweeps. \<not> should_remove s t)" for t
    using task_expiry.sweeps_keep_live [OF ok] that by blast
qed

theorem cleanup_exact_witness:
  "get (tm_tasks (fst (cleanup 30000000100 sample_tree))) ''C'' = None \<and>
   get (tm_tasks (fold (\<lambda>s m. fst (cleanup s m)) [100, 200] sample_tree)) ''C'' \<noteq> None"
proof -
  have "30000000100 > tk_expires_at (sample_task ''C'')" "\<not> should_remove 100 (sample_task ''C'')"
    "\<not> should_remove 200 (sample_task ''C'')" by code_simp+
  with cleanup_exact [OF sample_reachable, of 30000000100 "''C''" "[100, 200]"] sample_gets(2)
  show ?thesis by simp
qed

text \<open>
  Revocation of a task is complete inside the task manager: after \<open>RevokeTask\<close>
  no lookup finds the task at any time, neither by id nor in its agent's list nor by the
  signature digest recorded in it, while every other task is still found.
\<close>

theorem revoke_task_complete:
  assumes "reachable tm" and "revoke_task i tm = (Some t, tm')"
  shows "get_task now tm' i = None \<and> t \<notin> set (list_tasks now tm' (tk_agent_name t)) \<and>
    (tk_sig_digest t \<noteq> [] \<longrightarrow> lookup_by_signature now tm' (tk_sig_digest t) = None) \<and>
    (\<forall>j. j \<noteq> i \<longrightarrow> get_task now tm' j = get_task now tm j)"
proof -
  have t: "get (tm_tasks tm) i = Some t" "tm' = remove_task i t tm"
    using assms(2) by (auto simp: revoke_task_def split: option.splits)
  then have id: "tk_id t = i" using reachable_ok [OF assms(1)] by (simp add: manager_ok_def tasks_ok_def)
  have gone: "get (tm_tasks tm') j = (if j = i then None else get (tm_tasks tm) j)" for j
    using t(2) by (simp add: remove_task_def)
  have "t \<notin> set (list_tasks now tm' (tk_agent_name t))"
  proof (cases "tk_agent_name t = []")
    case True
    have "map_wf (tm_tasks tm')" using t(2) reachable_wf [OF assms(1)] by (simp add: remove_task_def)
    then have "x \<in> set (map snd (tm_tasks tm')) \<Longrightarrow> \<exists>j. j \<noteq> i \<and> get (tm_tasks tm) j = Some x" for x
      using gone by (auto simp: get_in_set [symmetric] split: if_splits)
    moreover have "tk_id x = j" if "get (tm_tasks tm) j = Some x" for j x
      using reachable_ok [OF assms(1)] that by (simp add: manager_ok_def tasks_ok_def)
    ultimately show ?thesis using True id by (auto simp: list_tasks_def active_tasks_def)
  next
    case False
    have "manager_ok tm'" using manager_ok_remove reachable_ok [OF assms(1)] t by blast
    from listed_by_agent(1) [OF this False] gone id show ?thesis by auto
  qed
  then show ?thesis
    using gone t(2) by (auto simp: get_task_def lookup_by_signature_def remove_task_def split: option.splits)
qed

theorem revoke_task_complete_witness:
  "get_task 50 (snd (revoke_task ''R'' sample_tree)) ''R'' = None \<and>
   get_task 50 (snd (revoke_task ''R'' sample_tree)) ''C'' = get_task 50 sample_tree ''C''"
proof -
  have "revoke_task ''R'' sample_tree = (Some (sample_task ''R''), snd (revoke_task ''R'' sample_tree))"
    using sample_gets(1) by (simp add: revoke_task_def)
  from revoke_task_complete [OF sample_reachable this, of 50] show ?thesis by simp
qed

end
