(* ===== verification/Revocation.thy ===== *)
theory Revocation
  imports Prelude
begin

text \<open>
  Component \<open>internal/broker/revocation.go\<close>: revocation watermarks. \<open>watermarks\<close> maps a
  task id to the time it was revoked; a token is revoked when it was issued no later than
  the watermark of any task of its lineage. Old watermarks are collected, which is safe
  for tokens whose lifetime is within \<open>maxTTL\<close>.
\<close>

section \<open>State and operations\<close>

record revocation_map =
  rv_watermarks :: "(string, time) gomap"
  rv_max_ttl :: duration

datatype revocation_error = TaskRevoked string time time

definition new_revocation_map :: "duration \<Rightarrow> revocation_map" where
  "new_revocation_map max_ttl = \<lparr>rv_watermarks = [], rv_max_ttl = max_ttl\<rparr>"

definition revoke_at :: "string \<Rightarrow> time \<Rightarrow> revocation_map \<Rightarrow> revocation_map" where
  "revoke_at tid at r = r\<lparr>rv_watermarks := put tid at (rv_watermarks r)\<rparr>"

definition revoke :: "time \<Rightarrow> string \<Rightarrow> revocation_map \<Rightarrow> revocation_map" where
  "revoke now tid r = revoke_at tid now r"

fun check_lineage :: "revocation_map \<Rightarrow> string list \<Rightarrow> time \<Rightarrow> revocation_error option" where
  "check_lineage r [] issued = None"
| "check_lineage r (tid # lineage) issued =
     (case get (rv_watermarks r) tid of
        None \<Rightarrow> check_lineage r lineage issued
      | Some watermark \<Rightarrow>
          if \<not> issued > watermark then Some (TaskRevoked tid watermark issued)
          else check_lineage r lineage issued)"

definition is_revoked :: "revocation_map \<Rightarrow> string \<Rightarrow> bool" where
  "is_revoked r tid \<longleftrightarrow> get (rv_watermarks r) tid \<noteq> None"

definition revocation_count :: "revocation_map \<Rightarrow> nat" where
  "revocation_count r = length (rv_watermarks r)"

definition gc :: "time \<Rightarrow> revocation_map \<Rightarrow> revocation_map" where
  "gc now r =
     (let cutoff = now + - rv_max_ttl r
      in r\<lparr>rv_watermarks := drop_if (\<lambda>_ watermark. watermark < cutoff) (rv_watermarks r)\<rparr>)"

section \<open>Lemmas\<close>

lemma check_lineage_None:
  "check_lineage r lineage issued = None \<longleftrightarrow>
   (\<forall>tid \<in> set lineage. \<forall>w. get (rv_watermarks r) tid = Some w \<longrightarrow> w < issued)"
  by (induction lineage) (auto split: option.splits)

definition store_ok :: "duration \<Rightarrow> revocation_map \<Rightarrow> bool" where
  "store_ok ttl r \<longleftrightarrow> map_wf (rv_watermarks r) \<and> rv_max_ttl r = ttl"

interpretation watermarks: expiring_store "store_ok ttl" "\<lambda>r. get (rv_watermarks r)"
  "\<lambda>now w. w < now + - ttl" gc
  for ttl
  by unfold_locales (auto simp: gc_def store_ok_def Let_def get_drop_if split: option.splits)

text \<open>What can happen to the map after a revocation: collections and further revocations.\<close>

datatype revocation_event = Collected time | RevokedAt string time

fun apply_event :: "revocation_event \<Rightarrow> revocation_map \<Rightarrow> revocation_map" where
  "apply_event (Collected now) r = gc now r"
| "apply_event (RevokedAt tid at) r = revoke_at tid at r"

fun event_time :: "revocation_event \<Rightarrow> time" where
  "event_time (Collected now) = now"
| "event_time (RevokedAt tid at) = at"

lemma store_ok_event: "store_ok ttl r \<Longrightarrow> store_ok ttl (apply_event e r)"
  by (cases e) (auto simp: store_ok_def gc_def revoke_at_def Let_def)

lemma watermark_kept:
  assumes "store_ok ttl r" "get (rv_watermarks r) tid = Some w"
    and "\<forall>e \<in> set es. w \<le> event_time e \<and> event_time e \<le> w + ttl"
  shows "\<exists>w'. get (rv_watermarks (fold apply_event es r)) tid = Some w' \<and> w \<le> w'"
proof -
  have "\<exists>w'. get (rv_watermarks (fold apply_event es r)) tid = Some w' \<and> w \<le> w'"
    if "store_ok ttl r" "get (rv_watermarks r) tid = Some w0" "w \<le> w0" for w0
    using assms(3) that
  proof (induction es arbitrary: r w0)
    case (Cons e es)
    have "\<exists>w1. get (rv_watermarks (apply_event e r)) tid = Some w1 \<and> w \<le> w1"
    proof (cases e)
      case (Collected now)
      then have "\<not> w0 < now + - ttl" using Cons.prems by simp
      with watermarks.sweep_keeps_live [OF Cons.prems(2,3)] Collected Cons.prems(4) show ?thesis by simp
    next
      case (RevokedAt tid' at)
      with Cons.prems show ?thesis by (auto simp: revoke_at_def)
    qed
    with Cons.IH store_ok_event [OF Cons.prems(2)] Cons.prems(1) show ?case by auto
  qed auto
  with assms(1,2) show ?thesis by blast
qed

section \<open>Properties\<close>

text \<open>
  Revocation cascades: after a task is revoked, a token issued no later is
  rejected whenever the task is anywhere in the token's lineage, so every descendant is
  revoked with it; a token whose lineage avoids the task is judged as before.
\<close>

theorem revocation_cascades:
  "(tid \<in> set lineage \<longrightarrow> issued \<le> now \<longrightarrow> check_lineage (revoke now tid r) lineage issued \<noteq> None) \<and>
   (tid \<notin> set lineage \<longrightarrow>
      (check_lineage (revoke now tid r) lineage issued = None \<longleftrightarrow> check_lineage r lineage issued = None))"
proof -
  have "get (rv_watermarks (revoke now tid r)) j =
      (if j = tid then Some now else get (rv_watermarks r) j)" for j
    by (simp add: revoke_def revoke_at_def)
  then show ?thesis unfolding check_lineage_None by auto
qed

theorem revocation_cascades_witness:
  "check_lineage (revoke 100 ''P'' (new_revocation_map 50)) [''R'', ''P'', ''C''] 90 \<noteq> None \<and>
   check_lineage (revoke 100 ''P'' (new_revocation_map 50)) [''R''] 90 = None"
  using revocation_cascades [of "''P''" "[''R'', ''P'', ''C'']" 90 100 "new_revocation_map 50"]
    revocation_cascades [of "''P''" "[''R'']" 90 100 "new_revocation_map 50"]
  by (simp add: new_revocation_map_def)

text \<open>
  Claim C34. A revocation is not forgotten while it matters: from the revocation of a task
  until \<open>maxTTL\<close> later, whatever collections and further revocations happen in between,
  every token issued before the revocation with the task in its lineage is rejected. A
  token that lives no longer than \<open>maxTTL\<close> has therefore expired before its revocation
  can be collected.
\<close>

theorem revocation_survives_gc:
  assumes "map_wf (rv_watermarks r)"
    and "\<forall>e \<in> set events. at \<le> event_time e \<and> event_time e \<le> at + rv_max_ttl r"
    and "tid \<in> set lineage" and "issued \<le> at"
  shows "check_lineage (fold apply_event events (revoke at tid r)) lineage issued \<noteq> None"
proof -
  have "store_ok (rv_max_ttl r) (revoke at tid r)" "get (rv_watermarks (revoke at tid r)) tid = Some at"
    using assms(1) by (simp_all add: store_ok_def revoke_def revoke_at_def)
  from watermark_kept [OF this assms(2)] obtain w where
    w: "get (rv_watermarks (fold apply_event events (revoke at tid r))) tid = Some w" "at \<le> w" by blast
  then have "\<not> w < issued" using assms(4) by simp
  with w(1) assms(3) show ?thesis unfolding check_lineage_None by blast
qed

theorem revocation_survives_gc_witness:
  "check_lineage (fold apply_event [Collected 120, RevokedAt ''X'' 130, Collected 150]
     (revoke 100 ''P'' (new_revocation_map 50))) [''R'', ''P''] 90 \<noteq> None"
  by (rule revocation_survives_gc) (simp_all add: new_revocation_map_def)

end
