(* ===== verification/RateLimit.thy ===== *)
theory RateLimit
  imports Prelude
begin

text \<open>
  Components \<open>rateLimiter\<close> of \<open>internal/broker/middleware.go\<close> (one sliding window per peer
  UID) and \<open>internal/signer/ratelimit.go\<close> (one window for all signing requests). Both
  satisfy the contract \<open>sliding_window\<close>, in which the guarantee is proved once: in any
  window of the configured length at most the configured number of requests is admitted.
\<close>

section \<open>The broker's limiter\<close>

record rate_limiter =
  rl_windows :: "(nat, time list) gomap"
  rl_max_requests :: int
  rl_window :: duration

definition new_rate_limiter :: "int \<Rightarrow> int \<Rightarrow> rate_limiter" where
  "new_rate_limiter max_requests window_seconds =
     \<lparr>rl_windows = [], rl_max_requests = max_requests,
      rl_window = (if window_seconds \<le> 0 then 60 else window_seconds) * second\<rparr>"

definition uid_window :: "rate_limiter \<Rightarrow> nat \<Rightarrow> time list" where
  "uid_window rl uid = (case get (rl_windows rl) uid of None \<Rightarrow> [] | Some w \<Rightarrow> w)"

definition rate_allow :: "time \<Rightarrow> nat \<Rightarrow> rate_limiter \<Rightarrow> (bool \<times> duration) \<times> rate_limiter" where
  "rate_allow now uid rl =
     (if rl_max_requests rl \<le> 0 then ((True, 0), rl)
      else let cutoff = now + - rl_window rl;
               pruned = filter (\<lambda>ts. ts > cutoff) (uid_window rl uid);
               store = (\<lambda>w. rl\<lparr>rl_windows := put uid w (rl_windows rl)\<rparr>)
           in if int (length pruned) \<ge> rl_max_requests rl
              then let retry = hd pruned + rl_window rl - now
                   in ((False, if retry < second then second else retry), store pruned)
              else ((True, 0), store (pruned @ [now])))"

section \<open>The signer's limiter\<close>

record signer_limiter =
  sl_max :: int
  sl_window :: duration
  sl_requests :: "time list"

definition new_signer_limiter :: "int \<Rightarrow> duration \<Rightarrow> signer_limiter" where
  "new_signer_limiter max_per_window window = \<lparr>sl_max = max_per_window, sl_window = window, sl_requests = []\<rparr>"

definition signer_allow :: "time \<Rightarrow> signer_limiter \<Rightarrow> bool \<times> signer_limiter" where
  "signer_allow now rl =
     (if sl_max rl \<le> 0 then (True, rl)
      else let cutoff = now + - sl_window rl;
               valid = filter (\<lambda>t. t > cutoff) (sl_requests rl)
           in if int (length valid) \<ge> sl_max rl then (False, rl\<lparr>sl_requests := valid\<rparr>)
              else (True, rl\<lparr>sl_requests := valid @ [now]\<rparr>))"

definition signer_count :: "time \<Rightarrow> signer_limiter \<Rightarrow> nat" where
  "signer_count now rl = length (filter (\<lambda>t. t > now + - sl_window rl) (sl_requests rl))"

section \<open>The contract\<close>

text \<open>
  \<open>log\<close> is the list of remembered admissions of the requests that are \<open>mine\<close>; a request of
  somebody else leaves it alone.
\<close>

locale sliding_window =
  fixes inv :: "'s \<Rightarrow> bool"
    and limit :: int
    and window :: duration
    and log :: "'s \<Rightarrow> time list"
    and mine :: "'r \<Rightarrow> bool"
    and step :: "'r \<Rightarrow> time \<Rightarrow> 's \<Rightarrow> bool \<times> 's"
  assumes admits: "inv s \<Longrightarrow> mine r \<Longrightarrow>
        fst (step r now s) \<longleftrightarrow> int (length (filter (\<lambda>t. t > now - window) (log s))) < limit"
    and log_step: "inv s \<Longrightarrow> mine r \<Longrightarrow>
        log (snd (step r now s)) =
          filter (\<lambda>t. t > now - window) (log s) @ (if fst (step r now s) then [now] else [])"
    and log_other: "inv s \<Longrightarrow> \<not> mine r \<Longrightarrow> log (snd (step r now s)) = log s"
    and inv_step: "inv s \<Longrightarrow> inv (snd (step r now s))"
begin

fun run :: "('r \<times> time) list \<Rightarrow> 's \<Rightarrow> time list \<times> 's" where
  "run [] s = ([], s)"
| "run ((r, now) # rs) s =
     (let (ok, s1) = step r now s; (admitted, s2) = run rs s1
      in (if mine r \<and> ok then now # admitted else admitted, s2))"

lemma run_snoc:
  "run (rs @ [(r, now)]) s =
     (let (admitted, s1) = run rs s; (ok, s2) = step r now s1
      in (if mine r \<and> ok then admitted @ [now] else admitted, s2))"
  by (induction rs arbitrary: s) (auto simp: Let_def split: prod.splits)

lemma run_inv: "inv s \<Longrightarrow> inv (snd (run rs s))"
proof (induction rs arbitrary: s)
  case (Cons e rs)
  obtain r now where e: "e = (r, now)" by force
  obtain ok S where S: "step r now s = (ok, S)" by fastforce
  then have "inv S" using inv_step [OF Cons.prems, of r now] by simp
  then have "inv (snd (run rs S))" by (rule Cons.IH)
  then show ?case using e S by (cases "run rs S") (simp add: Let_def)
qed simp

definition in_window :: "time \<Rightarrow> time list \<Rightarrow> time list" where
  "in_window x ts = filter (\<lambda>t. x - window < t \<and> t \<le> x) ts"

lemma run_bounded:
  assumes "inv s" "log s = []" "0 \<le> limit" "0 \<le> window" "sorted (map snd rs)"
  shows "(\<forall>y. (\<forall>q \<in> set rs. snd q \<le> y) \<longrightarrow>
           filter (\<lambda>t. t > y - window) (log (snd (run rs s))) =
           filter (\<lambda>t. t > y - window) (fst (run rs s))) \<and>
    (\<forall>x. int (length (in_window x (fst (run rs s)))) \<le> limit) \<and>
    (\<forall>a \<in> set (fst (run rs s)). \<exists>q \<in> set rs. a = snd q)"
  using assms(5)
proof (induction rs rule: rev_induct)
  case Nil
  then show ?case using assms by (simp add: in_window_def)
next
  case (snoc e rs)
  obtain r now where e: "e = (r, now)" by force
  obtain A S where AS: "run rs s = (A, S)" by fastforce
  obtain ok S' where S': "step r now S = (ok, S')" by fastforce
  have inv: "inv S" using run_inv [OF assms(1), of rs] AS by simp
  have below: "\<forall>q \<in> set rs. snd q \<le> now" using snoc.prems e by (auto simp: sorted_append)
  from snoc have IH:
    "\<And>y. (\<forall>q \<in> set rs. snd q \<le> y) \<Longrightarrow> filter (\<lambda>t. t > y - window) (log S) = filter (\<lambda>t. t > y - window) A"
    "\<And>x. int (length (in_window x A)) \<le> limit" "\<forall>a \<in> set A. \<exists>q \<in> set rs. a = snd q"
    using AS by (auto simp: sorted_append)
  have old: "\<forall>a \<in> set A. a \<le> now" using IH(3) below by auto
  have recent: "filter (\<lambda>t. t > now - window) (log S) = filter (\<lambda>t. t > now - window) A"
    using IH(1) below by blast
  show ?case
  proof (cases "mine r \<and> ok")
    case True
    have run: "run (rs @ [e]) s = (A @ [now], S')" using AS S' e True by (simp add: run_snoc)
    have log: "log S' = filter (\<lambda>t. t > now - window) A @ [now]"
      using log_step [OF inv, of r now] True S' recent by simp
    have room: "int (length (filter (\<lambda>t. t > now - window) A)) < limit"
      using admits [OF inv, of r now] True S' recent by simp
    have bound: "int (length (in_window x (A @ [now]))) \<le> limit" for x
    proof (cases "now \<le> x")
      case True
      have "length (in_window x A) \<le> length (filter (\<lambda>t. t > now - window) A)"
        unfolding in_window_def using True by (induction A) auto
      with room show ?thesis by (simp add: in_window_def)
    next
      case False
      with IH(2) [of x] show ?thesis by (simp add: in_window_def)
    qed
    have "filter (\<lambda>t. t > y - window) (log S') = filter (\<lambda>t. t > y - window) (A @ [now])"
      if "now \<le> y" for y
    proof -
      have "filter (\<lambda>t. t > y - window) (filter (\<lambda>t. t > now - window) A) =
          filter (\<lambda>t. t > y - window) A"
        unfolding filter_filter using that by (intro filter_cong) auto
      then show ?thesis by (simp add: log)
    qed
    with run bound IH(3) e show ?thesis by auto
  next
    case False
    have run: "run (rs @ [e]) s = (A, S')" using AS S' e False by (auto simp: run_snoc)
    have "filter (\<lambda>t. t > y - window) (log S') = filter (\<lambda>t. t > y - window) A"
      if "\<forall>q \<in> set (rs @ [e]). snd q \<le> y" for y
    proof (cases "mine r")
      case True
      with False have "log S' = filter (\<lambda>t. t > now - window) A"
        using log_step [OF inv, of r now] S' recent by simp
      moreover have "filter (\<lambda>t. t > y - window) (filter (\<lambda>t. t > now - window) A) =
          filter (\<lambda>t. t > y - window) A"
        unfolding filter_filter using that e by (intro filter_cong) auto
      ultimately show ?thesis by simp
    next
      case False
      then have "log S' = log S" using log_other [OF inv, of r now] S' by simp
      then show ?thesis using IH(1) that by simp
    qed
    with run IH(2,3) show ?thesis by auto
  qed
qed

lemma window_guarantee:
  "inv s \<Longrightarrow> log s = [] \<Longrightarrow> 0 \<le> limit \<Longrightarrow> 0 \<le> window \<Longrightarrow> sorted (map snd rs) \<Longrightarrow>
   int (length (in_window x (fst (run rs s)))) \<le> limit"
  using run_bounded by blast

end

definition configured :: "int \<Rightarrow> duration \<Rightarrow> rate_limiter \<Rightarrow> bool" where
  "configured m w rl \<longleftrightarrow> rl_max_requests rl = m \<and> rl_window rl = w \<and> 0 < m"

definition allow_request :: "nat \<Rightarrow> time \<Rightarrow> rate_limiter \<Rightarrow> bool \<times> rate_limiter" where
  "allow_request uid now rl = (fst (fst (rate_allow now uid rl)), snd (rate_allow now uid rl))"

interpretation broker_window: sliding_window "configured m w" m w "\<lambda>rl. uid_window rl uid"
  "\<lambda>u. u = uid" allow_request
  for m w uid
  by unfold_locales
     (auto simp: configured_def allow_request_def rate_allow_def uid_window_def Let_def)

definition signer_configured :: "int \<Rightarrow> duration \<Rightarrow> signer_limiter \<Rightarrow> bool" where
  "signer_configured m w rl \<longleftrightarrow> sl_max rl = m \<and> sl_window rl = w \<and> 0 < m"

interpretation signer_window: sliding_window "signer_configured m w" m w sl_requests
  "\<lambda>_::unit. True" "\<lambda>_ now rl. signer_allow now rl"
  for m w
  by unfold_locales (auto simp: signer_configured_def signer_allow_def Let_def)

section \<open>Properties\<close>

text \<open>The times at which a sequence of requests from several UIDs admits one of them.\<close>

fun admitted :: "nat \<Rightarrow> (nat \<times> time) list \<Rightarrow> rate_limiter \<Rightarrow> time list" where
  "admitted uid [] rl = []"
| "admitted uid ((u, now) # reqs) rl =
     (if u = uid \<and> fst (fst (rate_allow now u rl))
      then now # admitted uid reqs (snd (rate_allow now u rl))
      else admitted uid reqs (snd (rate_allow now u rl)))"

lemma admitted_run: "admitted uid reqs rl = fst (broker_window.run uid reqs rl)"
proof (induction uid reqs rl rule: admitted.induct)
  case (2 uid u now reqs rl)
  obtain ok rl' where a: "allow_request u now rl = (ok, rl')" by fastforce
  then have b: "fst (fst (rate_allow now u rl)) = ok" "snd (rate_allow now u rl) = rl'"
    by (simp_all add: allow_request_def)
  obtain A S where "broker_window.run uid reqs rl' = (A, S)" by fastforce
  with 2 a b show ?case by (cases "u = uid \<and> ok") (auto simp: Let_def)
qed simp

fun signed :: "time list \<Rightarrow> signer_limiter \<Rightarrow> time list" where
  "signed [] rl = []"
| "signed (now # ts) rl =
     (if fst (signer_allow now rl) then now # signed ts (snd (signer_allow now rl))
      else signed ts (snd (signer_allow now rl)))"

lemma signed_run: "signed ts rl = fst (signer_window.run (map (\<lambda>t. ((), t)) ts) rl)"
proof (induction ts rl rule: signed.induct)
  case (2 now ts rl)
  obtain ok rl' where a: "signer_allow now rl = (ok, rl')" by fastforce
  obtain A S where "signer_window.run (map (\<lambda>t. ((), t)) ts) rl' = (A, S)" by fastforce
  with 2 a show ?case by (cases ok) (auto simp: Let_def)
qed simp

text \<open>
  Claim C37. The broker's rate limiter keeps its promise under any interleaving of peers: for
  requests at non-decreasing times, at most \<open>maxRequests\<close> requests of one UID are admitted
  in any window of the configured length, wherever the window lies.
\<close>

theorem rate_limiter_bounded:
  assumes "0 < max_requests" and "sorted (map snd reqs)"
    and "rl = new_rate_limiter max_requests seconds"
  shows "int (length (filter (\<lambda>t. x - rl_window rl < t \<and> t \<le> x) (admitted uid reqs rl))) \<le> max_requests"
proof -
  have c: "configured max_requests (rl_window rl) rl" "uid_window rl uid = []" "0 \<le> rl_window rl"
    using assms by (auto simp: configured_def new_rate_limiter_def uid_window_def)
  show ?thesis
    using broker_window.window_guarantee [OF c(1,2) _ c(3) assms(2), of x] assms(1)
    by (simp add: admitted_run broker_window.in_window_def)
qed

theorem rate_limiter_bounded_witness:
  "let rl = new_rate_limiter 2 1; reqs = [(7, 1), (7, 2), (8, 3), (7, 4), (7, 1000000003)]
   in admitted 7 reqs rl = [1, 2, 1000000003] \<and>
      int (length (filter (\<lambda>t. 1000000003 - rl_window rl < t \<and> t \<le> 1000000003) (admitted 7 reqs rl))) \<le> 2"
proof -
  let ?reqs = "[(7, 1), (7, 2), (8, 3), (7, 4), (7, 1000000003)] :: (nat \<times> time) list"
  have "admitted 7 ?reqs (new_rate_limiter 2 1) = [1, 2, 1000000003]" by code_simp
  moreover have "sorted (map snd ?reqs)" by simp
  ultimately show ?thesis
    using rate_limiter_bounded [of 2 ?reqs "new_rate_limiter 2 1" 1 1000000003 7]
    unfolding Let_def by simp
qed

text \<open>
  The signer's limiter bounds the signing requests of the whole broker in the same
  way: in any window of \<open>windowSize\<close> at most \<open>maxPerWindow\<close> requests are allowed.
\<close>

theorem signer_limiter_bounded:
  assumes "0 < max_per_window" and "0 \<le> window" and "sorted ts"
  shows "int (length (filter (\<lambda>t. x - window < t \<and> t \<le> x)
           (signed ts (new_signer_limiter max_per_window window)))) \<le> max_per_window"
proof -
  let ?rl = "new_signer_limiter max_per_window window"
  have "signer_configured max_per_window window ?rl" "sl_requests ?rl = []"
    using assms(1) by (auto simp: signer_configured_def new_signer_limiter_def)
  moreover have "sorted (map snd (map (\<lambda>t. ((), t)) ts))" using assms(3) by (simp add: comp_def)
  ultimately show ?thesis
    using signer_window.window_guarantee [of max_per_window window ?rl "map (\<lambda>t. ((), t)) ts" x] assms
    by (simp add: signed_run signer_window.in_window_def)
qed

theorem signer_limiter_bounded_witness:
  "signed [1, 2, 3, 12] (new_signer_limiter 2 10) = [1, 2, 12] \<and>
   int (length (filter (\<lambda>t. 12 - 10 < t \<and> t \<le> 12)
     (signed [1, 2, 3, 12] (new_signer_limiter 2 10)))) \<le> 2"
proof -
  have "signed [1, 2, 3, 12] (new_signer_limiter 2 10) = [1, 2, 12]" by code_simp
  with signer_limiter_bounded [of 2 10 "[1, 2, 3, 12]" 12] show ?thesis by simp
qed

end
