(* ===== verification/Pop.thy ===== *)
theory Pop
  imports GoTime Encoding
begin

text \<open>
  Component \<open>internal/broker/pop.go\<close>: proof of possession. \<open>ed_verify key message signature\<close>
  stands for \<open>ed25519.Verify\<close> and \<open>sha256\<close> for \<open>sha256.Sum256\<close>. \<open>VerifyPoP\<close> reads the clock
  twice, once when it stores the nonce and once when it checks the timestamp, so both
  times are arguments. The result is the error, if any, and the nonce cache after it.
\<close>

section \<open>State and operations\<close>

record proof_payload =
  pp_task_id :: string
  pp_req_type :: string
  pp_resource :: string
  pp_method :: string
  pp_body_hash :: string
  pp_mac_digest :: string
  pp_nonce :: string
  pp_ts :: string

record pop_proof =
  pf_sig :: string
  pf_payload :: proof_payload

record nonce_cache =
  nc_entries :: "(string, time) gomap"
  nc_ttl :: duration

datatype pop_error =
    ProofNil
  | BadHolderKey nat
  | BadSignatureEncoding
  | BadSignatureLength nat
  | SignatureFailed
  | MacDigestMismatch
  | BodyHashMismatch
  | ReplayDetected
  | BadTimestamp
  | TimestampTooOld
  | TimestampInFuture

definition new_nonce_cache :: "duration \<Rightarrow> nonce_cache" where
  "new_nonce_cache ttl = \<lparr>nc_entries = [], nc_ttl = ttl\<rparr>"

definition nonce_key :: "string \<Rightarrow> string \<Rightarrow> string" where
  "nonce_key tid nonce = tid @ '':'' @ nonce"

definition check_and_store :: "time \<Rightarrow> string \<Rightarrow> string \<Rightarrow> nonce_cache \<Rightarrow> bool \<times> nonce_cache" where
  "check_and_store now tid nonce nc =
     (let key = nonce_key tid nonce in
      case get (nc_entries nc) key of
        Some _ \<Rightarrow> (False, nc)
      | None \<Rightarrow> (True, nc\<lparr>nc_entries := put key now (nc_entries nc)\<rparr>))"

definition nonce_cleanup :: "time \<Rightarrow> nonce_cache \<Rightarrow> nonce_cache" where
  "nonce_cleanup now nc =
     (let cutoff = now + - nc_ttl nc
      in nc\<lparr>nc_entries := drop_if (\<lambda>_ ts. ts < cutoff) (nc_entries nc)\<rparr>)"

definition nonce_count :: "nonce_cache \<Rightarrow> nat" where
  "nonce_count nc = length (nc_entries nc)"

definition canonicalize_payload :: "proof_payload \<Rightarrow> bytes" where
  "canonicalize_payload p = json_object
     [(''task_id'', pp_task_id p), (''req_type'', pp_req_type p), (''resource'', pp_resource p),
      (''method'', pp_method p), (''body_hash'', pp_body_hash p), (''mac_digest'', pp_mac_digest p),
      (''nonce'', pp_nonce p), (''ts'', pp_ts p)]"

definition verify_pop ::
    "(bytes \<Rightarrow> bytes \<Rightarrow> bytes \<Rightarrow> bool) \<Rightarrow> (bytes \<Rightarrow> bytes) \<Rightarrow> time \<Rightarrow> time \<Rightarrow> pop_proof option \<Rightarrow>
     bytes \<Rightarrow> bytes \<Rightarrow> bytes \<Rightarrow> duration \<Rightarrow> nonce_cache option \<Rightarrow> pop_error option \<times> nonce_cache option"
  where
  "verify_pop ed_verify sha256 seen now pr holder_key mac_binary request_body skew cache =
     (case pr of
        None \<Rightarrow> (Some ProofNil, cache)
      | Some prf \<Rightarrow>
        if length holder_key \<noteq> 32 then (Some (BadHolderKey (length holder_key)), cache)
        else let p = pf_payload prf in
        (case b64_decode (pf_sig prf) of
          None \<Rightarrow> (Some BadSignatureEncoding, cache)
        | Some sig_bytes \<Rightarrow>
          if length sig_bytes \<noteq> 64 then (Some (BadSignatureLength (length sig_bytes)), cache)
          else if \<not> ed_verify holder_key (canonicalize_payload p) sig_bytes
          then (Some SignatureFailed, cache)
          else if pp_mac_digest p \<noteq> hex_encode (sha256 mac_binary) then (Some MacDigestMismatch, cache)
          else if pp_body_hash p \<noteq> hex_encode (sha256 request_body) then (Some BodyHashMismatch, cache)
          else
          let (fresh, cache) =
            (case cache of
               None \<Rightarrow> (True, None)
             | Some nc \<Rightarrow>
                 let (ok, nc) = check_and_store seen (pp_task_id p) (pp_nonce p) nc in (ok, Some nc))
          in
          if \<not> fresh then (Some ReplayDetected, cache)
          else (case parse_rfc3339 (pp_ts p) of
            None \<Rightarrow> (Some BadTimestamp, cache)
          | Some ts \<Rightarrow>
              if ts < now + - skew then (Some TimestampTooOld, cache)
              else if ts > now + skew then (Some TimestampInFuture, cache)
              else (None, cache))))"

section \<open>Lemmas\<close>

definition nonces_ok :: "duration \<Rightarrow> nonce_cache \<Rightarrow> bool" where
  "nonces_ok ttl nc \<longleftrightarrow> map_wf (nc_entries nc) \<and> nc_ttl nc = ttl"

interpretation nonces: expiring_store "nonces_ok ttl" "\<lambda>nc. get (nc_entries nc)"
  "\<lambda>now ts. ts < now + - ttl" nonce_cleanup
  for ttl
  by unfold_locales
     (auto simp: nonce_cleanup_def nonces_ok_def Let_def get_drop_if split: option.splits)

lemma nonces_ok_store: "nonces_ok ttl nc \<Longrightarrow> nonces_ok ttl (snd (check_and_store now t n nc))"
  by (auto simp: check_and_store_def nonces_ok_def Let_def split: option.splits)

lemma verify_pop_accepts:
  "verify_pop ed sha256 seen now (Some prf) hk mac body skew (Some nc) = (None, Some nc') \<longleftrightarrow>
   (\<exists>sig_bytes ts. length hk = 32 \<and> b64_decode (pf_sig prf) = Some sig_bytes \<and>
      length sig_bytes = 64 \<and> ed hk (canonicalize_payload (pf_payload prf)) sig_bytes \<and>
      pp_mac_digest (pf_payload prf) = hex_encode (sha256 mac) \<and>
      pp_body_hash (pf_payload prf) = hex_encode (sha256 body) \<and>
      check_and_store seen (pp_task_id (pf_payload prf)) (pp_nonce (pf_payload prf)) nc = (True, nc') \<and>
      parse_rfc3339 (pp_ts (pf_payload prf)) = Some ts \<and> now - skew \<le> ts \<and> ts \<le> now + skew)"
  by (auto simp: verify_pop_def Let_def not_less split: option.splits prod.splits if_splits)

text \<open>
  What happens to the cache between two requests: other proofs are checked (each stores at
  most one nonce) and the cache is cleaned.
\<close>

datatype cache_event = Cleaned time | Stored time string string

fun apply_cache_event :: "cache_event \<Rightarrow> nonce_cache \<Rightarrow> nonce_cache" where
  "apply_cache_event (Cleaned now) nc = nonce_cleanup now nc"
| "apply_cache_event (Stored now tid nonce) nc = snd (check_and_store now tid nonce nc)"

fun cleaned_by :: "cache_event \<Rightarrow> time \<Rightarrow> bool" where
  "cleaned_by (Cleaned now) t \<longleftrightarrow> now \<le> t"
| "cleaned_by (Stored now tid nonce) t \<longleftrightarrow> True"

lemma verify_pop_cache:
  "snd (verify_pop ed sha256 seen now pr hk mac body skew (Some nc)) = Some nc' \<Longrightarrow>
   nc' = nc \<or> (\<exists>t n. nc' = apply_cache_event (Stored seen t n) nc)"
  by (auto simp: verify_pop_def Let_def split: option.splits prod.splits if_splits)
     (metis snd_conv)+

lemma nonces_ok_event: "nonces_ok ttl nc \<Longrightarrow> nonces_ok ttl (apply_cache_event e nc)"
  by (cases e) (auto simp: nonces.inv_sweep nonces_ok_store)

lemma nonce_kept:
  assumes "nonces_ok ttl nc" "get (nc_entries nc) key = Some stored"
    and "\<forall>e \<in> set es. cleaned_by e limit"
  shows "get (nc_entries (fold apply_cache_event es nc)) key \<noteq> None \<or> stored + ttl < limit"
  using assms
proof (induction es arbitrary: nc)
  case (Cons e es)
  have "get (nc_entries (apply_cache_event e nc)) key = Some stored \<or> stored + ttl < limit"
  proof (cases e)
    case (Cleaned c)
    then show ?thesis
      using Cons.prems nonces.look_sweep [OF Cons.prems(1), of c key] by auto
  next
    case (Stored c t n)
    then show ?thesis
      using Cons.prems(2) by (auto simp: check_and_store_def Let_def split: option.splits)
  qed
  with Cons.IH nonces_ok_event [OF Cons.prems(1)] Cons.prems(3) show ?case by auto
qed auto

lemma pop_accepts_iff:
  "fst (verify_pop ed sha256 seen now (Some prf) hk mac body skew (Some nc)) = None \<longleftrightarrow>
   length hk = 32 \<and>
   (\<exists>sig_bytes. b64_decode (pf_sig prf) = Some sig_bytes \<and> length sig_bytes = 64 \<and>
      ed hk (canonicalize_payload (pf_payload prf)) sig_bytes) \<and>
   pp_mac_digest (pf_payload prf) = hex_encode (sha256 mac) \<and>
   pp_body_hash (pf_payload prf) = hex_encode (sha256 body) \<and>
   get (nc_entries nc) (nonce_key (pp_task_id (pf_payload prf)) (pp_nonce (pf_payload prf))) = None \<and>
   (\<exists>ts. parse_rfc3339 (pp_ts (pf_payload prf)) = Some ts \<and> now - skew \<le> ts \<and> ts \<le> now + skew)"
proof -
  have "\<exists>nc'. snd (verify_pop ed sha256 seen now (Some prf) hk mac body skew (Some nc)) = Some nc'"
    by (auto simp: verify_pop_def Let_def split: option.splits prod.splits)
  then have "fst (verify_pop ed sha256 seen now (Some prf) hk mac body skew (Some nc)) = None \<longleftrightarrow>
      (\<exists>nc'. verify_pop ed sha256 seen now (Some prf) hk mac body skew (Some nc) = (None, Some nc'))"
    by (metis fst_conv prod.collapse)
  moreover have "(\<exists>nc'. check_and_store seen t n nc = (True, nc')) \<longleftrightarrow>
      get (nc_entries nc) (nonce_key t n) = None" for t n
    by (auto simp: check_and_store_def Let_def split: option.splits)
  ultimately show ?thesis unfolding verify_pop_accepts by blast
qed

section \<open>Properties\<close>

text \<open>
  An accepted proof was signed by the bound holder key over the very payload that
  was checked, names the presented macaroon and the request body by their digests, is
  dated within the allowed skew and carries a nonce that was not in the cache, which
  now holds it; and every proof with these qualities is accepted.
\<close>

theorem pop_accepts_exactly:
  "fst (verify_pop ed sha256 seen now (Some prf) hk mac body skew (Some nc)) = None \<longleftrightarrow>
   length hk = 32 \<and>
   (\<exists>sig_bytes. b64_decode (pf_sig prf) = Some sig_bytes \<and> length sig_bytes = 64 \<and>
      ed hk (canonicalize_payload (pf_payload prf)) sig_bytes) \<and>
   pp_mac_digest (pf_payload prf) = hex_encode (sha256 mac) \<and>
   pp_body_hash (pf_payload prf) = hex_encode (sha256 body) \<and>
   get (nc_entries nc) (nonce_key (pp_task_id (pf_payload prf)) (pp_nonce (pf_payload prf))) = None \<and>
   (\<exists>ts. parse_rfc3339 (pp_ts (pf_payload prf)) = Some ts \<and> now - skew \<le> ts \<and> ts \<le> now + skew)"
  by (rule pop_accepts_iff)

text \<open>
  Claim C29. No replay: once a proof was accepted, no later request with the same task id,
  nonce and timestamp is accepted, whatever requests and cleanups happen in between,
  provided the cache keeps nonces for at least twice the clock skew plus the time between
  the two clock readings of one check. (The broker's 5 minutes and 30 seconds satisfy
  this with four minutes to spare.)
\<close>

theorem pop_no_replay:
  assumes "verify_pop ed sha256 seen now (Some prf) hk mac body skew (Some nc) = (None, Some nc1)"
    and "map_wf (nc_entries nc)"
    and "2 * skew + (now - seen) \<le> nc_ttl nc"
    and "\<forall>e \<in> set events. cleaned_by e seen2" and "seen2 \<le> now2"
    and "pp_task_id (pf_payload prf2) = pp_task_id (pf_payload prf)"
    and "pp_nonce (pf_payload prf2) = pp_nonce (pf_payload prf)"
    and "pp_ts (pf_payload prf2) = pp_ts (pf_payload prf)"
  shows "fst (verify_pop ed sha256 seen2 now2 (Some prf2) hk2 mac2 body2 skew
           (Some (fold apply_cache_event events nc1))) \<noteq> None"
proof
  let ?key = "nonce_key (pp_task_id (pf_payload prf)) (pp_nonce (pf_payload prf))"
  assume "fst (verify_pop ed sha256 seen2 now2 (Some prf2) hk2 mac2 body2 skew
           (Some (fold apply_cache_event events nc1))) = None"
  then obtain ts2 where second: "get (nc_entries (fold apply_cache_event events nc1)) ?key = None"
    "parse_rfc3339 (pp_ts (pf_payload prf)) = Some ts2" "now2 - skew \<le> ts2"
    using assms(6-8) by (auto simp: pop_accepts_iff)
  from assms(1) obtain ts where first: "parse_rfc3339 (pp_ts (pf_payload prf)) = Some ts" "ts \<le> now + skew"
    "check_and_store seen (pp_task_id (pf_payload prf)) (pp_nonce (pf_payload prf)) nc = (True, nc1)"
    by (auto simp: verify_pop_accepts)
  then have "get (nc_entries nc1) ?key = Some seen" "nonces_ok (nc_ttl nc) nc1"
    using assms(2) by (auto simp: check_and_store_def nonces_ok_def Let_def split: option.splits)
  with nonce_kept [OF this(2,1) assms(4)] second(1) have "seen + nc_ttl nc < seen2" by simp
  with assms(3,5) first(1,2) second(2,3) show False by simp
qed

theorem pop_no_replay_witness:
  "\<exists>nc1. verify_pop (\<lambda>_ _ _. True) (\<lambda>_. ''d'') 63871000000000000000 63871000000000000005
     (Some \<lparr>pf_sig = replicate 86 (CHR ''A''), pf_payload = \<lparr>pp_task_id = ''T'', pp_req_type = [],
        pp_resource = [], pp_method = [], pp_body_hash = ''64'', pp_mac_digest = ''64'',
        pp_nonce = ''n'', pp_ts = ''2024-12-28T16:26:40Z''\<rparr>\<rparr>)
     (replicate 32 (CHR ''k'')) ''m'' ''b'' 30000000000 (Some (new_nonce_cache 300000000000)) =
       (None, Some nc1) \<and>
   fst (verify_pop (\<lambda>_ _ _. True) (\<lambda>_. ''d'') 63871000010000000000 63871000010000000001
     (Some \<lparr>pf_sig = replicate 86 (CHR ''A''), pf_payload = \<lparr>pp_task_id = ''T'', pp_req_type = [],
        pp_resource = [], pp_method = [], pp_body_hash = ''64'', pp_mac_digest = ''64'',
        pp_nonce = ''n'', pp_ts = ''2024-12-28T16:26:40Z''\<rparr>\<rparr>)
     (replicate 32 (CHR ''k'')) ''m'' ''b'' 30000000000
     (Some (fold apply_cache_event [Stored 63871000001000000000 ''T'' ''x'', Cleaned 63871000002000000000] nc1)))
       \<noteq> None"
proof -
  let ?payload = "\<lparr>pp_task_id = ''T'', pp_req_type = [],
        pp_resource = [], pp_method = [], pp_body_hash = ''64'', pp_mac_digest = ''64'',
        pp_nonce = ''n'', pp_ts = ''2024-12-28T16:26:40Z''\<rparr>"
  let ?pr = "\<lparr>pf_sig = replicate 86 (CHR ''A''), pf_payload = ?payload\<rparr>"
  let ?nc1 = "\<lparr>nc_entries = [(''T:n'', 63871000000000000000)], nc_ttl = 300000000000\<rparr>"
  have sig: "b64_decode (replicate 86 (CHR ''A'')) = Some (replicate 64 (CHR 0x00))" by code_simp
  have ts: "parse_rfc3339 ''2024-12-28T16:26:40Z'' = Some 63871000000000000000" by code_simp
  have dig: "hex_encode ''d'' = ''64''" by code_simp
  have first: "verify_pop (\<lambda>_ _ _. True) (\<lambda>_. ''d'') 63871000000000000000 63871000000000000005
      (Some ?pr) (replicate 32 (CHR ''k'')) ''m'' ''b'' 30000000000
      (Some (new_nonce_cache 300000000000)) = (None, Some ?nc1)"
    unfolding verify_pop_accepts
    by (simp add: sig ts dig check_and_store_def new_nonce_cache_def nonce_key_def put_def)
  have "fst (verify_pop (\<lambda>_ _ _. True) (\<lambda>_. ''d'') 63871000010000000000 63871000010000000001
     (Some ?pr) (replicate 32 (CHR ''k'')) ''m'' ''b'' 30000000000
     (Some (fold apply_cache_event [Stored 63871000001000000000 ''T'' ''x'', Cleaned 63871000002000000000] ?nc1)))
       \<noteq> None"
    by (rule pop_no_replay [OF first]) (simp_all add: new_nonce_cache_def)
  with first show ?thesis by blast
qed

end
