(* ===== verification/HostControl.thy ===== *)
theory HostControl
  imports Prelude
begin

text \<open>
  Component \<open>internal/broker/hostctl.go\<close>: per-host access toggles. A host without an entry
  is enabled.
\<close>

type_synonym host_states = "(string, bool) gomap"

definition new_host_controller :: host_states where
  "new_host_controller = []"

definition host_is_enabled :: "host_states \<Rightarrow> string \<Rightarrow> bool" where
  "host_is_enabled st host = (case get st host of None \<Rightarrow> True | Some enabled \<Rightarrow> enabled)"

definition host_toggle :: "string \<Rightarrow> host_states \<Rightarrow> bool \<times> host_states" where
  "host_toggle host st =
     (let current = (case get st host of None \<Rightarrow> True | Some enabled \<Rightarrow> enabled)
      in (\<not> current, put host (\<not> current) st))"

definition host_set_enabled :: "string \<Rightarrow> bool \<Rightarrow> host_states \<Rightarrow> host_states" where
  "host_set_enabled host enabled st = put host enabled st"

definition host_list_states :: "host_states \<Rightarrow> host_states" where
  "host_list_states st = fold (\<lambda>(k, v) out. put k v out) st []"

lemma host_set_enabled_iff [simp]:
  "host_is_enabled (host_set_enabled h b st) j = (if j = h then b else host_is_enabled st j)"
  by (simp add: host_is_enabled_def host_set_enabled_def)

lemma host_toggle_iff:
  "fst (host_toggle h st) = (\<not> host_is_enabled st h)"
  "host_is_enabled (snd (host_toggle h st)) j = (if j = h then \<not> host_is_enabled st h else host_is_enabled st j)"
  by (simp_all add: host_toggle_def host_is_enabled_def Let_def)

lemma host_toggle_twice:
  "host_is_enabled (snd (host_toggle h (snd (host_toggle h st)))) j = host_is_enabled st j"
  by (simp add: host_toggle_iff)

lemma get_copy: "map_wf st \<Longrightarrow> get (fold (\<lambda>(k, v) out. put k v out) st acc) j =
    (case get st j of None \<Rightarrow> get acc j | Some v \<Rightarrow> Some v)"
proof (induction st arbitrary: acc)
  case (Cons e st)
  obtain k v where e: "e = (k, v)" by force
  have "map_wf st" "get st k = None"
    using Cons.prems e by (auto simp: map_wf_def get_def map_of_eq_None_iff)
  with Cons.IH [of "put k v acc"] e show ?case by (auto split: option.splits)
qed simp

lemma host_list_states_copy: "map_wf st \<Longrightarrow> get (host_list_states st) j = get st j"
  by (simp add: host_list_states_def get_copy split: option.splits)

end
