(* ===== verification/CommandFilter.thy ===== *)
theory CommandFilter
  imports Prelude
begin

text \<open>
  Component \<open>internal/broker/command_filter.go\<close>: the per-target command filter. The result
  carries, as in the code, the verdict, the matching pattern and the mode; the
  human-readable reason is one of five fixed messages, given by the constructor of
  \<open>deny_reason\<close>.
\<close>

section \<open>Operations\<close>

datatype deny_reason =
    NoReason
  | NotInAllowList
  | Destructive string
  | PrivilegeChange string
  | Dangerous string
  | Prohibited string

record command_filter_result =
  cf_allowed :: bool
  cf_reason :: deny_reason
  cf_pattern :: string
  cf_mode :: string

definition match_pattern :: "string \<Rightarrow> string \<Rightarrow> bool" where
  "match_pattern cmd pattern =
     (if pattern = [] then False
      else let starts = has_prefix ''*'' pattern; ends = has_suffix ''*'' pattern in
      if starts \<and> ends then
        (if length pattern \<le> 2 then True
         else str_contains cmd (take (length pattern - 2) (drop 1 pattern)))
      else if ends then has_prefix (take (length pattern - 1) pattern) cmd
      else if starts then has_suffix (drop 1 pattern) cmd
      else str_contains cmd pattern)"

definition destructive_words :: "string list" where
  "destructive_words = [''rm '', ''rm -'', ''rmdir'', ''dd if='', ''mkfs'', ''fdisk'', ''shred'']"

definition privilege_words :: "string list" where
  "privilege_words = [''chmod'', ''chown'', ''passwd'', ''usermod'', ''userdel'', ''visudo'']"

definition dangerous_words :: "string list" where
  "dangerous_words = ['':()'', ''fork'', ''> /dev/'', ''| /dev/'']"

definition build_deny_reason :: "string \<Rightarrow> deny_reason" where
  "build_deny_reason pattern =
     (let lower = to_lower pattern in
      if list_ex (str_contains lower) destructive_words then Destructive pattern
      else if list_ex (str_contains lower) privilege_words then PrivilegeChange pattern
      else if list_ex (str_contains lower) dangerous_words then Dangerous pattern
      else Prohibited pattern)"

definition check_command :: "string \<Rightarrow> string list \<Rightarrow> string list \<Rightarrow> bool \<Rightarrow> command_filter_result" where
  "check_command command deny allow enabled =
     (if \<not> enabled then \<lparr>cf_allowed = True, cf_reason = NoReason, cf_pattern = [], cf_mode = []\<rparr>
      else let cmd = to_lower (trim_space command) in
      if length allow > 0 then
        (case find (\<lambda>p. match_pattern cmd (to_lower p)) allow of
           Some p \<Rightarrow> \<lparr>cf_allowed = True, cf_reason = NoReason, cf_pattern = p, cf_mode = ''allow''\<rparr>
         | None \<Rightarrow> \<lparr>cf_allowed = False, cf_reason = NotInAllowList, cf_pattern = [], cf_mode = ''allow''\<rparr>)
      else if length deny > 0 then
        (case find (\<lambda>p. match_pattern cmd (to_lower p)) deny of
           Some p \<Rightarrow> \<lparr>cf_allowed = False, cf_reason = build_deny_reason p, cf_pattern = p,
                      cf_mode = ''deny''\<rparr>
         | None \<Rightarrow> \<lparr>cf_allowed = True, cf_reason = NoReason, cf_pattern = [], cf_mode = []\<rparr>)
      else \<lparr>cf_allowed = True, cf_reason = NoReason, cf_pattern = [], cf_mode = []\<rparr>)"

section \<open>The meaning of a pattern\<close>

text \<open>
  A pattern is an optional leading star, a core and an optional trailing star. A command
  matches when it contains the core; a star at only one end anchors the other end.
\<close>

definition glob_spec :: "string \<Rightarrow> string \<Rightarrow> bool" where
  "glob_spec cmd pattern \<longleftrightarrow>
     pattern = ''*'' \<or>
     (\<exists>pre core post. cmd = pre @ core @ post \<and>
        (pattern = ''*'' @ core @ ''*'' \<or>
         (pattern = core @ ''*'' \<and> pre = [] \<and> \<not> has_prefix ''*'' pattern) \<or>
         (pattern = ''*'' @ core \<and> post = [] \<and> \<not> has_suffix ''*'' pattern) \<or>
         (pattern = core \<and> pattern \<noteq> [] \<and> \<not> has_prefix ''*'' pattern \<and> \<not> has_suffix ''*'' pattern)))"

lemma star_prefix: "has_prefix ''*'' p \<longleftrightarrow> (\<exists>q. p = CHR ''*'' # q)"
  by (auto simp: has_prefix_iff)

lemma star_suffix: "has_suffix ''*'' p \<longleftrightarrow> (\<exists>q. p = q @ ''*'')"
  by (auto simp: has_suffix_iff)

lemma match_pattern_iff: "match_pattern cmd p \<longleftrightarrow> glob_spec cmd p"
proof -
  consider (empty) "p = []" | (one) "p = ''*''" | (both) q where "p = ''*'' @ q @ ''*''"
    | (ends) q where "p = q @ ''*''" "\<not> has_prefix ''*'' p"
    | (starts) q where "p = ''*'' @ q" "\<not> has_suffix ''*'' p"
    | (plain) "p \<noteq> []" "\<not> has_prefix ''*'' p" "\<not> has_suffix ''*'' p"
  proof (cases "has_prefix ''*'' p"; cases "has_suffix ''*'' p")
    assume "has_prefix ''*'' p" "has_suffix ''*'' p"
    then obtain q r where "p = CHR ''*'' # q" "p = r @ ''*''" unfolding star_prefix star_suffix by blast
    then show thesis using one both by (cases q rule: rev_cases) auto
  qed (use empty ends starts plain in \<open>auto simp: star_prefix star_suffix\<close>)
  then show ?thesis
  proof cases
    case empty
    then show ?thesis by (auto simp: match_pattern_def glob_spec_def)
  next
    case one
    then show ?thesis by (simp add: match_pattern_def glob_spec_def has_suffix_def)
  next
    case (both q)
    have "match_pattern cmd p \<longleftrightarrow> str_contains cmd q"
      using both by (cases q) (auto simp: match_pattern_def has_suffix_def str_contains_iff)
    moreover have "glob_spec cmd p \<longleftrightarrow> (\<exists>a b. cmd = a @ q @ b)"
      using both by (auto simp: glob_spec_def has_suffix_def star_prefix)
    ultimately show ?thesis by (simp add: str_contains_iff)
  next
    case (ends q)
    then have "match_pattern cmd p \<longleftrightarrow> has_prefix q cmd"
      by (simp add: match_pattern_def has_suffix_def)
    moreover have "glob_spec cmd p \<longleftrightarrow> (\<exists>b. cmd = q @ b)"
      using ends by (auto simp: glob_spec_def star_prefix has_suffix_def)
    ultimately show ?thesis by (simp add: has_prefix_iff)
  next
    case (starts q)
    then have "match_pattern cmd p \<longleftrightarrow> has_suffix q cmd"
      by (simp add: match_pattern_def)
    moreover have "glob_spec cmd p" if "cmd = a @ q" for a
      unfolding glob_spec_def using that starts
      by (intro disjI2 exI [of _ a] exI [of _ q] exI [of _ "[]"]) simp
    moreover have "\<exists>a. cmd = a @ q" if "glob_spec cmd p"
      using that starts by (auto simp: glob_spec_def star_suffix)
    ultimately show ?thesis by (auto simp: has_suffix_iff)
  next
    case plain
    then have "match_pattern cmd p \<longleftrightarrow> str_contains cmd p" by (simp add: match_pattern_def)
    moreover have "glob_spec cmd p \<longleftrightarrow> (\<exists>a b. cmd = a @ p @ b)"
      using plain by (auto simp: glob_spec_def star_prefix star_suffix)
    ultimately show ?thesis by (simp add: str_contains_iff)
  qed
qed

section \<open>Properties\<close>

text \<open>
  The command filter decides exactly by glob matching on the trimmed lower-case
  command: with an allow list a command passes iff some allow pattern matches (the deny
  list is then not consulted), otherwise it passes iff no deny pattern matches; a
  rejection by the deny list reports the first pattern that matches.
\<close>

theorem check_command_exact:
  "cf_allowed (check_command command deny allow enabled) =
     (if enabled then
        (let cmd = to_lower (trim_space command) in
         if allow \<noteq> [] then list_ex (\<lambda>p. glob_spec cmd (to_lower p)) allow
         else \<not> list_ex (\<lambda>p. glob_spec cmd (to_lower p)) deny)
      else True) \<and>
   (cf_mode (check_command command deny allow enabled) = ''deny'') =
     (enabled \<and> allow = [] \<and>
      find (\<lambda>p. glob_spec (to_lower (trim_space command)) (to_lower p)) deny =
        Some (cf_pattern (check_command command deny allow enabled)))"
  by (auto simp: check_command_def Let_def match_pattern_iff find_None_iff find_Some_iff list_ex_iff
      split: option.splits)
     (metis nth_mem)+

end
