(* ===== verification/Grants.thy ===== *)
theory Grants
  imports Prelude
begin

text \<open>
  Component \<open>internal/broker/grants.go\<close>: time-limited access grants for services and remote
  MCP servers. Ranging over the map finds the first matching grant in the map's order;
  new ids are arguments. The invariant \<open>one_live\<close> says that no two grants for the same
  type, agent and target are live at once, so that revoking a grant ends the access.
\<close>

section \<open>State and operations\<close>

datatype grant_type = SSHCert | Service | MCP

datatype grant_mode = ModeTTL | ModePassthrough

datatype grant_status = Active | Expired | Revoked

record access_grant =
  ag_id :: string
  ag_type :: grant_type
  ag_agent :: string
  ag_target :: string
  ag_issued_at :: time
  ag_expires_at :: time
  ag_status :: grant_status
  ag_details :: "(string, string) gomap"

record grant_store =
  gs_grants :: "(string, access_grant) gomap"
  gs_service_ttl :: duration
  gs_mcp_ttl :: duration
  gs_mode :: grant_mode

datatype revoke_failure = GrantNotFound | AlreadyRevoked

definition new_grant_store :: grant_store where
  "new_grant_store =
     \<lparr>gs_grants = [], gs_service_ttl = 5 * minute, gs_mcp_ttl = 5 * minute, gs_mode = ModeTTL\<rparr>"

definition usable :: "time \<Rightarrow> grant_type \<Rightarrow> string \<Rightarrow> string \<Rightarrow> access_grant \<Rightarrow> bool" where
  "usable now ty agent target g \<longleftrightarrow>
     ag_type g = ty \<and> ag_agent g = agent \<and> ag_target g = target \<and> ag_status g = Active \<and>
     ag_expires_at g > now"

definition validate_grant ::
    "time \<Rightarrow> grant_type \<Rightarrow> string \<Rightarrow> string \<Rightarrow> grant_store \<Rightarrow> access_grant option" where
  "validate_grant now ty agent target gs = find (usable now ty agent target) (map snd (gs_grants gs))"

definition issue_grant ::
    "time \<Rightarrow> string \<Rightarrow> grant_type \<Rightarrow> string \<Rightarrow> string \<Rightarrow> duration \<Rightarrow> (string, string) gomap \<Rightarrow>
     grant_store \<Rightarrow> access_grant \<times> grant_store" where
  "issue_grant now gid ty agent target ttl details gs =
     (case find (usable now ty agent target) (map snd (gs_grants gs)) of
        Some g \<Rightarrow> (g, gs)
      | None \<Rightarrow>
          let ttl = (if ttl \<le> 0 then
                       (case ty of Service \<Rightarrow> gs_service_ttl gs | MCP \<Rightarrow> gs_mcp_ttl gs
                                 | SSHCert \<Rightarrow> 5 * minute)
                     else ttl);
              g = \<lparr>ag_id = gid, ag_type = ty, ag_agent = agent, ag_target = target,
                   ag_issued_at = now, ag_expires_at = now + ttl, ag_status = Active,
                   ag_details = details\<rparr>
          in (g, gs\<lparr>gs_grants := put gid g (gs_grants gs)\<rparr>))"

definition revoke_grant :: "string \<Rightarrow> grant_store \<Rightarrow> revoke_failure option \<times> grant_store" where
  "revoke_grant gid gs =
     (case get (gs_grants gs) gid of
        None \<Rightarrow> (Some GrantNotFound, gs)
      | Some g \<Rightarrow>
          if ag_status g = Revoked then (Some AlreadyRevoked, gs)
          else (None, gs\<lparr>gs_grants := put gid (g\<lparr>ag_status := Revoked\<rparr>) (gs_grants gs)\<rparr>))"

definition clean_expired :: "time \<Rightarrow> grant_store \<Rightarrow> grant_store" where
  "clean_expired now gs =
     (let marked = map (\<lambda>(k, g). (k, if ag_status g = Active \<and> ag_expires_at g < now
                                      then g\<lparr>ag_status := Expired\<rparr> else g)) (gs_grants gs)
      in gs\<lparr>gs_grants :=
           drop_if (\<lambda>_ g. ag_status g \<noteq> Active \<and> ag_expires_at g + 10 * minute < now) marked\<rparr>)"

definition get_grant :: "string \<Rightarrow> grant_store \<Rightarrow> access_grant option" where
  "get_grant gid gs = get (gs_grants gs) gid"

definition list_all_grants :: "grant_store \<Rightarrow> access_grant list" where
  "list_all_grants gs = map snd (gs_grants gs)"

definition list_active_grants :: "time \<Rightarrow> grant_store \<Rightarrow> access_grant list" where
  "list_active_grants now gs =
     filter (\<lambda>g. ag_status g = Active \<and> ag_expires_at g > now) (map snd (gs_grants gs))"

definition list_grants_by_agent :: "time \<Rightarrow> string \<Rightarrow> grant_store \<Rightarrow> access_grant list" where
  "list_grants_by_agent now agent gs =
     filter (\<lambda>g. ag_agent g = agent \<and> ag_status g = Active \<and> ag_expires_at g > now)
       (map snd (gs_grants gs))"

definition active_grant_count :: "time \<Rightarrow> grant_store \<Rightarrow> nat" where
  "active_grant_count now gs =
     length (filter (\<lambda>g. ag_status g = Active \<and> ag_expires_at g > now) (map snd (gs_grants gs)))"

section \<open>The invariant\<close>

definition grants_ok :: "grant_store \<Rightarrow> bool" where
  "grants_ok gs \<longleftrightarrow>
     map_wf (gs_grants gs) \<and> (\<forall>i g. get (gs_grants gs) i = Some g \<longrightarrow> ag_id g = i)"

definition one_live :: "time \<Rightarrow> grant_store \<Rightarrow> bool" where
  "one_live now gs \<longleftrightarrow>
     (\<forall>i j g h ty agent target.
        get (gs_grants gs) i = Some g \<longrightarrow> get (gs_grants gs) j = Some h \<longrightarrow>
        usable now ty agent target g \<longrightarrow> usable now ty agent target h \<longrightarrow> i = j)"

lemma usable_mono: "usable now ty a t g \<Longrightarrow> now' \<le> now \<Longrightarrow> usable now' ty a t g"
  by (simp add: usable_def)

lemma one_live_later: "one_live now gs \<Longrightarrow> now \<le> now' \<Longrightarrow> one_live now' gs"
  unfolding one_live_def by (meson usable_mono)

lemma validate_iff:
  assumes "map_wf (gs_grants gs)"
  shows "validate_grant now ty a t gs \<noteq> None \<longleftrightarrow>
    (\<exists>i g. get (gs_grants gs) i = Some g \<and> usable now ty a t g)"
proof -
  have "validate_grant now ty a t gs \<noteq> None \<longleftrightarrow> (\<exists>g \<in> set (map snd (gs_grants gs)). usable now ty a t g)"
    by (auto simp: validate_grant_def find_None_iff)
  also have "\<dots> \<longleftrightarrow> (\<exists>i g. (i, g) \<in> set (gs_grants gs) \<and> usable now ty a t g)" by force
  finally show ?thesis using assms by (simp add: get_in_set)
qed

lemma validate_Some:
  assumes "grants_ok gs" "validate_grant now ty a t gs = Some h"
  shows "usable now ty a t h \<and> get (gs_grants gs) (ag_id h) = Some h"
proof -
  from assms(2) have h: "usable now ty a t h" "h \<in> set (map snd (gs_grants gs))"
    by (auto simp: validate_grant_def find_Some_iff)
  then obtain i where "(i, h) \<in> set (gs_grants gs)" by auto
  then have "get (gs_grants gs) i = Some h" "ag_id h = i"
    using assms(1) by (auto simp: grants_ok_def get_in_set [symmetric])
  with h(1) show ?thesis by simp
qed

lemma issue_existing:
  "validate_grant now ty a t gs = Some h \<Longrightarrow> issue_grant now gid ty a t ttl d gs = (h, gs)"
  by (simp add: issue_grant_def validate_grant_def)

lemma issue_new:
  "validate_grant now ty a t gs = None \<Longrightarrow>
   \<exists>g. issue_grant now gid ty a t ttl d gs = (g, gs\<lparr>gs_grants := put gid g (gs_grants gs)\<rparr>) \<and>
       ag_id g = gid \<and> ag_status g = Active \<and> ag_type g = ty \<and> ag_agent g = a \<and> ag_target g = t"
  by (simp add: issue_grant_def validate_grant_def Let_def)

lemma one_live_subset:
  assumes "one_live now gs"
    and "\<And>i g. get (gs_grants gs') i = Some g \<Longrightarrow> ag_status g = Active \<Longrightarrow> get (gs_grants gs) i = Some g"
  shows "one_live now gs'"
proof -
  have old: "get (gs_grants gs) i = Some g"
    if "get (gs_grants gs') i = Some g" "usable now ty a t g" for i g ty a t
    using assms(2) that by (simp add: usable_def)
  show ?thesis unfolding one_live_def
  proof (intro allI impI)
    fix i j g h ty a t
    assume "get (gs_grants gs') i = Some g" "get (gs_grants gs') j = Some h"
      "usable now ty a t g" "usable now ty a t h"
    with old assms(1) show "i = j" unfolding one_live_def by blast
  qed
qed

lemma revoke_ok:
  assumes "grants_ok gs"
  shows "grants_ok (snd (revoke_grant gid gs))" "one_live now gs \<Longrightarrow> one_live now (snd (revoke_grant gid gs))"
proof -
  show "grants_ok (snd (revoke_grant gid gs))"
    using assms by (auto simp: grants_ok_def revoke_grant_def split: option.splits if_splits)
  show "one_live now (snd (revoke_grant gid gs))" if "one_live now gs"
    by (rule one_live_subset [OF that]) (auto simp: revoke_grant_def split: option.splits if_splits)
qed

lemma get_clean_expired:
  assumes "grants_ok gs" "get (gs_grants (clean_expired now gs)) i = Some g"
  shows "\<exists>g0. get (gs_grants gs) i = Some g0 \<and> (g = g0 \<or> g = g0\<lparr>ag_status := Expired\<rparr>)"
proof -
  let ?mark = "\<lambda>g. if ag_status g = Active \<and> ag_expires_at g < now then g\<lparr>ag_status := Expired\<rparr> else g"
  have m: "get (map (\<lambda>(k, g). (k, ?mark g)) m) i = map_option ?mark (get m i)" for m
    by (induction m) auto
  have "map_wf (map (\<lambda>(k, g). (k, ?mark g)) (gs_grants gs))"
    using assms(1) by (simp add: grants_ok_def map_wf_def comp_def case_prod_beta)
  then show ?thesis
    using assms(2) by (auto simp: clean_expired_def Let_def get_drop_if m split: option.splits if_splits)
qed

lemma clean_ok:
  assumes "grants_ok gs"
  shows "grants_ok (clean_expired now gs)" "one_live t gs \<Longrightarrow> one_live t (clean_expired now gs)"
proof -
  have "map_wf (gs_grants (clean_expired now gs))"
    using assms unfolding clean_expired_def Let_def
    by (auto simp: grants_ok_def map_wf_def drop_if_def comp_def case_prod_beta intro: distinct_map_filter)
  then show "grants_ok (clean_expired now gs)"
    using get_clean_expired [OF assms] assms by (fastforce simp: grants_ok_def)
  show "one_live t (clean_expired now gs)" if "one_live t gs"
    by (rule one_live_subset [OF that]) (use get_clean_expired [OF assms] in fastforce)
qed

lemma issue_ok:
  assumes "grants_ok gs" "get (gs_grants gs) gid = None"
  shows "grants_ok (snd (issue_grant now gid ty a t ttl d gs))"
    and "one_live now gs \<Longrightarrow> one_live now (snd (issue_grant now gid ty a t ttl d gs))"
proof -
  let ?gs' = "snd (issue_grant now gid ty a t ttl d gs)"
  show "grants_ok ?gs'"
    using assms by (auto simp: grants_ok_def issue_grant_def Let_def split: option.splits)
  show "one_live now ?gs'" if live: "one_live now gs"
  proof (cases "validate_grant now ty a t gs")
    case None
    then have none: "\<not> usable now ty a t g" if "get (gs_grants gs) i = Some g" for i g
      using validate_iff [of gs now ty a t] assms(1) that by (auto simp: grants_ok_def)
    obtain g where g: "gs_grants ?gs' = put gid g (gs_grants gs)" "ag_type g = ty" "ag_agent g = a"
      "ag_target g = t"
      using None by (simp add: issue_grant_def validate_grant_def Let_def)
    have same: "ty' = ty \<and> a' = a \<and> t' = t" if "usable now ty' a' t' g" for ty' a' t'
      using that g(2-4) by (simp add: usable_def)
    show ?thesis unfolding one_live_def g(1) get_put
      using live same none unfolding one_live_def by (metis option.inject)
  qed (use live in \<open>simp add: issue_grant_def validate_grant_def\<close>)
qed

section \<open>Steps\<close>

inductive grant_step :: "time \<Rightarrow> grant_store \<Rightarrow> grant_store \<Rightarrow> bool" for now where
  Issue: "get (gs_grants gs) gid = None \<Longrightarrow>
          grant_step now gs (snd (issue_grant now gid ty agent target ttl details gs))"
| RevokeG: "grant_step now gs (snd (revoke_grant gid gs))"
| Clean: "grant_step now gs (clean_expired now gs)"

text \<open>A history of the store: steps at non-decreasing times.\<close>

inductive history :: "time \<Rightarrow> grant_store \<Rightarrow> bool" where
  Start: "history t new_grant_store"
| Later: "history t gs \<Longrightarrow> t \<le> now \<Longrightarrow> grant_step now gs gs' \<Longrightarrow> history now gs'"

inductive_cases grant_stepE: "grant_step now gs gs'"

lemma history_ok: "history now gs \<Longrightarrow> grants_ok gs \<and> one_live now gs"
proof (induction rule: history.induct)
  case (Start t)
  then show ?case by (simp add: grants_ok_def one_live_def new_grant_store_def)
next
  case (Later t gs now gs')
  then have "grants_ok gs" "one_live now gs" using one_live_later by blast+
  with Later.hyps(3) show ?case
    by (auto elim!: grant_stepE intro: issue_ok revoke_ok clean_ok)
qed

section \<open>Properties\<close>

text \<open>
  Issuing grants access and revoking ends it: after any history of the store,
  \<open>Issue\<close> at a later time returns a grant that \<open>Validate\<close> accepts until it expires; and
  once that grant is revoked, \<open>Validate\<close> accepts nothing for the same type, agent and
  target at that or any later time (no second grant for them can be live).
\<close>

theorem issue_then_revoke:
  assumes "history t0 gs" and "t0 \<le> now" and "get (gs_grants gs) gid = None"
    and "issue_grant now gid ty agent target ttl details gs = (g, gs1)"
    and "revoke_grant (ag_id g) gs1 = (r, gs2)" and "now \<le> now'"
  shows "(now' < ag_expires_at g \<longrightarrow> validate_grant now' ty agent target gs1 \<noteq> None) \<and>
    r = None \<and> validate_grant now' ty agent target gs2 = None"
proof -
  have ok: "grants_ok gs" "one_live now gs" using history_ok [OF assms(1)] one_live_later assms(2) by blast+
  have ok1: "grants_ok gs1" "one_live now gs1"
    using issue_ok [OF ok(1) assms(3)] ok(2) assms(4) by (metis snd_conv)+
  have g: "get (gs_grants gs1) (ag_id g) = Some g \<and> ag_status g = Active \<and> ag_type g = ty \<and>
      ag_agent g = agent \<and> ag_target g = target"
  proof (cases "validate_grant now ty agent target gs")
    case None
    with issue_new [OF None, of gid ttl details] assms(4) show ?thesis by auto
  next
    case (Some h)
    with issue_existing [OF Some, of gid ttl details] validate_Some [OF ok(1) Some] assms(4)
    show ?thesis by (simp add: usable_def)
  qed
  have wf1: "map_wf (gs_grants gs1)" using ok1 by (simp add: grants_ok_def)
  have 2: "r = None" "gs_grants gs2 = put (ag_id g) (g\<lparr>ag_status := Revoked\<rparr>) (gs_grants gs1)"
    using assms(5) g by (auto simp: revoke_grant_def)
  have "validate_grant now' ty agent target gs1 \<noteq> None" if "now' < ag_expires_at g"
    using validate_iff [OF wf1] g that by (auto simp: usable_def)
  moreover have "\<not> usable now' ty agent target h" if "get (gs_grants gs2) i = Some h" for i h
  proof
    assume u: "usable now' ty agent target h"
    with that 2(2) have h: "i \<noteq> ag_id g" "get (gs_grants gs1) i = Some h"
      by (auto simp: usable_def split: if_splits)
    from usable_mono [OF u assms(6)] have u': "usable now ty agent target h" .
    show False
    proof (cases "validate_grant now ty agent target gs")
      case None
      with issue_new [OF None, of gid ttl details] assms(4) h have "get (gs_grants gs) i = Some h"
        by auto
      with None u' validate_iff [of gs now ty agent target] ok(1) show False
        by (auto simp: grants_ok_def)
    next
      case (Some x)
      with issue_existing [OF Some, of gid ttl details] validate_Some [OF ok(1) Some] assms(4)
      have "usable now ty agent target g" by simp
      with u' h g ok1(2) show False unfolding one_live_def by blast
    qed
  qed
  then have "validate_grant now' ty agent target gs2 = None"
    using validate_iff [of gs2 now' ty agent target] wf1 2(2) by auto
  ultimately show ?thesis using 2(1) by blast
qed

theorem issue_then_revoke_witness:
  "validate_grant 50 Service ''claude'' ''git''
     (snd (issue_grant 10 ''g1'' Service ''claude'' ''git'' 100 [] new_grant_store)) \<noteq> None \<and>
   validate_grant 50 Service ''claude'' ''git'' (snd (revoke_grant ''g1''
     (snd (issue_grant 10 ''g1'' Service ''claude'' ''git'' 100 [] new_grant_store)))) = None"
proof -
  let ?i = "issue_grant 10 ''g1'' Service ''claude'' ''git'' 100 [] new_grant_store"
  let ?r = "revoke_grant (ag_id (fst ?i)) (snd ?i)"
  have id: "ag_id (fst ?i) = ''g1''" and exp: "50 < ag_expires_at (fst ?i)" by code_simp+
  have "get (gs_grants new_grant_store) ''g1'' = None" by (simp add: new_grant_store_def)
  from issue_then_revoke [OF Start [of 0] _ this, of 10 Service "''claude''" "''git''" 100 "[]"
      "fst ?i" "snd ?i" "fst ?r" "snd ?r" 50]
  have "(50 < ag_expires_at (fst ?i) \<longrightarrow> validate_grant 50 Service ''claude'' ''git'' (snd ?i) \<noteq> None) \<and>
      fst ?r = None \<and> validate_grant 50 Service ''claude'' ''git'' (snd ?r) = None" by simp
  with exp show ?thesis unfolding id by blast
qed

end
