(* ===== verification/PolicyTypes.thy ===== *)
theory PolicyTypes
  imports Prelude
begin

text \<open>
  Component \<open>internal/policy/types.go\<close>: the policy data. Optional pointers are \<open>option\<close>
  values, maps are \<open>gomap\<close>s, and the \<open>sudo\<close> field (any YAML value) is a datatype of the
  shapes the loader distinguishes. The type variable \<open>'k\<close> of \<open>resolved_config\<close> is the
  type of parsed SSH host keys. Dashboard levels are instances of \<open>linorder\<close> in the order
  of their constants.
\<close>

section \<open>Configuration\<close>

record agent_target_access =
  ata_roles :: "string list"
  ata_auto_approve :: "bool option"

type_synonym service_access = "string list"
type_synonym remote_access = "string list"

record rate_limit_config =
  rlc_requests_per_window :: int
  rlc_window_seconds :: int

record global_policy =
  gp_max_active_certs :: int
  gp_default_ttl :: string
  gp_max_ttl :: string
  gp_rate_limit :: rate_limit_config
  gp_host_key_strict :: bool

record agent_policy =
  ap_uid :: int
  ap_max_concurrent_certs :: int
  ap_description :: string
  ap_api_key_hash :: string
  ap_inherits :: "string list"
  ap_ssh :: "(string, agent_target_access) gomap"
  ap_services :: "(string, service_access) gomap"
  ap_remotes :: "(string, remote_access) gomap"
  ap_dashboard :: string

record template_policy =
  tp_description :: string
  tp_ssh :: "(string, agent_target_access) gomap"
  tp_services :: "(string, service_access) gomap"
  tp_remotes :: "(string, remote_access) gomap"
  tp_dashboard :: string

record target_policy =
  tg_host :: string
  tg_port :: int
  tg_vlan :: int
  tg_allowed_roles :: "string list"
  tg_max_ttl :: string
  tg_auto_approve :: bool
  tg_force_command :: string
  tg_description :: string
  tg_command_filter :: bool
  tg_command_deny :: "string list"
  tg_command_allow :: "string list"
  tg_auto_revoke_on_deny :: bool
  tg_host_key :: string
  tg_host_key_fingerprint :: string

text \<open>A list item of \<open>sudo\<close> is a string or something else (\<open>None\<close>).\<close>

datatype sudo_value = SudoNil | SudoBool bool | SudoList "string option list" | SudoOther

record role_definition =
  rd_principal :: string
  rd_description :: string
  rd_shell :: string
  rd_sudo :: sudo_value
  rd_system :: "bool option"

record config =
  cfg_global :: global_policy
  cfg_agents :: "(string, agent_policy) gomap"
  cfg_targets :: "(string, target_policy) gomap"
  cfg_roles :: "(string, role_definition) gomap"
  cfg_templates :: "(string, template_policy) gomap"

section \<open>Resolved configuration\<close>

record resolved_role =
  rr_name :: string
  rr_principal :: string
  rr_shell :: string
  rr_sudo_rules :: "string list"
  rr_system :: bool

datatype dashboard_level = DashboardNone | DashboardViewer | DashboardOperator | DashboardAdmin

record resolved_agent_perms =
  rp_ssh_access :: "(string, agent_target_access) gomap"
  rp_service_access :: "(string, service_access) gomap"
  rp_remote_access :: "(string, remote_access) gomap"
  rp_dashboard :: dashboard_level
  rp_legacy_mode :: bool

record 'k resolved_config =
  rc_raw :: config
  rc_global_default_ttl :: duration
  rc_global_max_ttl :: duration
  rc_target_max_ttls :: "(string, duration) gomap"
  rc_agent_perms :: "(string, resolved_agent_perms) gomap"
  rc_target_host_keys :: "(string, 'k) gomap"
  rc_resolved_roles :: "(string, resolved_role) gomap"

section \<open>Decisions\<close>

datatype decision = Approve | Deny | Pending

definition decision_string :: "decision \<Rightarrow> string" where
  "decision_string d = (case d of Approve \<Rightarrow> ''APPROVE'' | Deny \<Rightarrow> ''DENY'' | Pending \<Rightarrow> ''PENDING'')"

datatype eval_reason =
    UnknownAgent int
  | UnknownTarget string
  | RoleNotAllowed string string
  | RoleUndefined string
  | AgentAtLimit int int
  | GlobalLimit int
  | AwaitingApproval
  | AutoApproved

record eval_request =
  er_agent_uid :: int
  er_target_name :: string
  er_role_name :: string
  er_duration :: duration

record eval_result =
  ev_decision :: decision
  ev_reason :: eval_reason
  ev_clamped_duration :: duration
  ev_principal :: string

record tracked_cert =
  tc_serial :: nat
  tc_agent_uid :: int
  tc_target :: string
  tc_role :: string
  tc_expires_at :: time

section \<open>Dashboard levels are ordered\<close>

definition level_rank :: "dashboard_level \<Rightarrow> nat" where
  "level_rank l =
     (case l of DashboardNone \<Rightarrow> 0 | DashboardViewer \<Rightarrow> 1 | DashboardOperator \<Rightarrow> 2 | DashboardAdmin \<Rightarrow> 3)"

instantiation dashboard_level :: linorder
begin

definition less_eq_dashboard_level :: "dashboard_level \<Rightarrow> dashboard_level \<Rightarrow> bool" where
  "less_eq_dashboard_level a b \<longleftrightarrow> level_rank a \<le> level_rank b"

definition less_dashboard_level :: "dashboard_level \<Rightarrow> dashboard_level \<Rightarrow> bool" where
  "less_dashboard_level a b \<longleftrightarrow> level_rank a < level_rank b"

instance
proof
  fix a b :: dashboard_level
  show "a \<le> b \<Longrightarrow> b \<le> a \<Longrightarrow> a = b"
    by (cases a; cases b) (simp_all add: less_eq_dashboard_level_def level_rank_def)
qed (auto simp: less_eq_dashboard_level_def less_dashboard_level_def)

end

lemma level_simps [simp]:
  "DashboardNone \<le> l" "l \<le> DashboardAdmin" "l \<le> DashboardNone \<longleftrightarrow> l = DashboardNone"
  by (cases l; simp add: less_eq_dashboard_level_def level_rank_def)+

end
