(* ===== verification/PolicyResolve.thy ===== *)
theory PolicyResolve
  imports PolicyTypes
begin

text \<open>
  Component \<open>internal/policy/resolve.go\<close>: resolving the effective permissions of an agent
  from its templates and its own settings, and the queries on them.
\<close>

section \<open>Resolution\<close>

definition add_missing :: "('k, 'v) gomap \<Rightarrow> ('k, 'v) gomap \<Rightarrow> ('k, 'v) gomap" where
  "add_missing new m = fold (\<lambda>(k, v) m. if get m k = None then put k v m else m) new m"

definition override :: "('k, 'v) gomap \<Rightarrow> ('k, 'v) gomap \<Rightarrow> ('k, 'v) gomap" where
  "override new m = fold (\<lambda>(k, v) m. put k v m) new m"

definition parse_dashboard_level :: "string \<Rightarrow> dashboard_level" where
  "parse_dashboard_level s =
     (let l = to_lower s in
      if l = ''viewer'' then DashboardViewer
      else if l = ''operator'' then DashboardOperator
      else if l = ''admin'' then DashboardAdmin
      else DashboardNone)"

definition merge_template_perms :: "template_policy \<Rightarrow> resolved_agent_perms \<Rightarrow> resolved_agent_perms" where
  "merge_template_perms tmpl perms =
     perms\<lparr>rp_ssh_access := add_missing (tp_ssh tmpl) (rp_ssh_access perms),
           rp_service_access := add_missing (tp_services tmpl) (rp_service_access perms),
           rp_remote_access := add_missing (tp_remotes tmpl) (rp_remote_access perms),
           rp_dashboard := (if rp_dashboard perms = DashboardNone \<and> tp_dashboard tmpl \<noteq> []
                            then parse_dashboard_level (tp_dashboard tmpl) else rp_dashboard perms)\<rparr>"

definition intersect_roles :: "string list \<Rightarrow> string list \<Rightarrow> string list" where
  "intersect_roles agent_roles target_roles = filter (\<lambda>r. r \<in> set target_roles) agent_roles"

definition clip_roles :: "config \<Rightarrow> string \<Rightarrow> agent_target_access \<Rightarrow> agent_target_access" where
  "clip_roles cfg target_name access =
     (if target_name = ''*'' then access
      else (case get (cfg_targets cfg) target_name of
              None \<Rightarrow> access
            | Some target \<Rightarrow>
                access\<lparr>ata_roles := intersect_roles (ata_roles access) (tg_allowed_roles target)\<rparr>))"

definition has_rbac :: "agent_policy \<Rightarrow> bool" where
  "has_rbac agent \<longleftrightarrow>
     length (ap_ssh agent) > 0 \<or> length (ap_services agent) > 0 \<or> length (ap_remotes agent) > 0 \<or>
     ap_dashboard agent \<noteq> [] \<or> length (ap_inherits agent) > 0"

definition resolve_agent :: "agent_policy \<Rightarrow> config \<Rightarrow> resolved_agent_perms" where
  "resolve_agent agent cfg =
     (if \<not> has_rbac agent then
        \<lparr>rp_ssh_access = [], rp_service_access = [], rp_remote_access = [],
         rp_dashboard = DashboardAdmin, rp_legacy_mode = True\<rparr>
      else
        let perms = \<lparr>rp_ssh_access = [], rp_service_access = [], rp_remote_access = [],
                     rp_dashboard = DashboardNone, rp_legacy_mode = False\<rparr>;
            perms = fold (\<lambda>name perms. case get (cfg_templates cfg) name of
                                  Some tmpl \<Rightarrow> merge_template_perms tmpl perms
                                | None \<Rightarrow> perms) (ap_inherits agent) perms;
            perms = perms\<lparr>rp_ssh_access := override (ap_ssh agent) (rp_ssh_access perms),
                          rp_service_access := override (ap_services agent) (rp_service_access perms),
                          rp_remote_access := override (ap_remotes agent) (rp_remote_access perms),
                          rp_dashboard := (if ap_dashboard agent \<noteq> []
                                           then parse_dashboard_level (ap_dashboard agent)
                                           else rp_dashboard perms)\<rparr>
        in perms\<lparr>rp_ssh_access := map (\<lambda>(k, a). (k, clip_roles cfg k a)) (rp_ssh_access perms)\<rparr>)"

definition resolve_agent_perms :: "config \<Rightarrow> (string, resolved_agent_perms) gomap" where
  "resolve_agent_perms cfg =
     fold (\<lambda>(name, agent) m. put name (resolve_agent agent cfg) m) (cfg_agents cfg) []"

section \<open>Queries\<close>

definition can_access_target :: "resolved_agent_perms \<Rightarrow> string \<Rightarrow> bool" where
  "can_access_target p target =
     (if rp_legacy_mode p then True
      else if get (rp_ssh_access p) target \<noteq> None then True
      else if get (rp_ssh_access p) ''*'' \<noteq> None then True
      else False)"

definition get_target_roles :: "resolved_agent_perms \<Rightarrow> string \<Rightarrow> string list" where
  "get_target_roles p target =
     (if rp_legacy_mode p then []
      else (case get (rp_ssh_access p) target of
              Some access \<Rightarrow> ata_roles access
            | None \<Rightarrow>
                (case get (rp_ssh_access p) ''*'' of
                   Some access \<Rightarrow> ata_roles access
                 | None \<Rightarrow> [])))"

definition get_target_auto_approve :: "resolved_agent_perms \<Rightarrow> string \<Rightarrow> bool option" where
  "get_target_auto_approve p target =
     (if rp_legacy_mode p then None
      else (case get (rp_ssh_access p) target of
              Some access \<Rightarrow> ata_auto_approve access
            | None \<Rightarrow>
                (case get (rp_ssh_access p) ''*'' of
                   Some access \<Rightarrow> ata_auto_approve access
                 | None \<Rightarrow> None)))"

definition get_service_access :: "resolved_agent_perms \<Rightarrow> string \<Rightarrow> service_access option" where
  "get_service_access p service =
     (case get (rp_service_access p) service of
        Some access \<Rightarrow> Some access
      | None \<Rightarrow> get (rp_service_access p) ''*'')"

definition can_access_service :: "resolved_agent_perms \<Rightarrow> string \<Rightarrow> string \<Rightarrow> bool" where
  "can_access_service p service method =
     (if rp_legacy_mode p then True
      else (case get_service_access p service of
              None \<Rightarrow> False
            | Some methods \<Rightarrow>
                if length methods = 0 then True else list_ex (\<lambda>m. equal_fold m method) methods))"

definition get_remote_access :: "resolved_agent_perms \<Rightarrow> string \<Rightarrow> remote_access option" where
  "get_remote_access p remote =
     (case get (rp_remote_access p) remote of
        Some access \<Rightarrow> Some access
      | None \<Rightarrow> get (rp_remote_access p) ''*'')"

definition can_access_remote :: "resolved_agent_perms \<Rightarrow> string \<Rightarrow> string \<Rightarrow> bool" where
  "can_access_remote p remote tool =
     (if rp_legacy_mode p then True
      else (case get_remote_access p remote of
              None \<Rightarrow> False
            | Some tools \<Rightarrow>
                if length tools = 0 then True
                else if tool = [] then True
                else list_ex (\<lambda>t. t = tool) tools))"

section \<open>Lemmas\<close>

lemma get_override: "map_wf new \<Longrightarrow>
    get (override new m) k = (case get new k of Some v \<Rightarrow> Some v | None \<Rightarrow> get m k)"
proof (induction new arbitrary: m)
  case (Cons e new)
  obtain a v where e: "e = (a, v)" by force
  have "map_wf new" "get new a = None"
    using Cons.prems e by (auto simp: map_wf_def get_def map_of_eq_None_iff)
  with Cons.IH [of "put a v m"] e show ?case by (auto simp: override_def split: option.splits)
qed (simp add: override_def)

lemma get_add_missing: "map_wf new \<Longrightarrow>
    get (add_missing new m) k = (case get m k of Some v \<Rightarrow> Some v | None \<Rightarrow> get new k)"
proof (induction new arbitrary: m)
  case (Cons e new)
  obtain a v where e: "e = (a, v)" by force
  have "map_wf new" "get new a = None"
    using Cons.prems e by (auto simp: map_wf_def get_def map_of_eq_None_iff)
  have step: "add_missing (e # new) m = add_missing new (if get m a = None then put a v m else m)"
    by (simp add: add_missing_def e)
  show ?case
    unfolding step Cons.IH [OF \<open>map_wf new\<close>] using \<open>get new a = None\<close>
    by (cases "get m a"; cases "get m k") (auto simp: e)
qed (simp add: add_missing_def split: option.splits)

lemma wf_override: "map_wf m \<Longrightarrow> map_wf (override new m)"
  by (induction new arbitrary: m) (auto simp: override_def)

lemma wf_add_missing: "map_wf m \<Longrightarrow> map_wf (add_missing new m)"
proof (induction new arbitrary: m)
  case (Cons e new)
  have "add_missing (e # new) m =
      add_missing new (if get m (fst e) = None then put (fst e) (snd e) m else m)"
    by (cases e) (simp add: add_missing_def)
  with Cons.IH Cons.prems show ?case by (simp add: wf_put)
qed (simp add: add_missing_def)

lemma get_map_values: "get (map (\<lambda>(k, a). (k, f k a)) m) k = map_option (f k) (get m k)"
  by (induction m) auto

text \<open>The first of several maps that has an entry.\<close>

fun first_entry :: "('k, 'v) gomap list \<Rightarrow> 'k \<Rightarrow> 'v option" where
  "first_entry [] k = None"
| "first_entry (m # ms) k = (case get m k of Some v \<Rightarrow> Some v | None \<Rightarrow> first_entry ms k)"

definition inherited :: "config \<Rightarrow> agent_policy \<Rightarrow> template_policy list" where
  "inherited cfg agent =
     concat (map (\<lambda>n. case get (cfg_templates cfg) n of Some t \<Rightarrow> [t] | None \<Rightarrow> []) (ap_inherits agent))"

definition config_wf :: "config \<Rightarrow> bool" where
  "config_wf cfg \<longleftrightarrow>
     map_wf (cfg_agents cfg) \<and> map_wf (cfg_targets cfg) \<and> map_wf (cfg_roles cfg) \<and>
     map_wf (cfg_templates cfg) \<and>
     (\<forall>n a. get (cfg_agents cfg) n = Some a \<longrightarrow>
        map_wf (ap_ssh a) \<and> map_wf (ap_services a) \<and> map_wf (ap_remotes a)) \<and>
     (\<forall>n t. get (cfg_templates cfg) n = Some t \<longrightarrow>
        map_wf (tp_ssh t) \<and> map_wf (tp_services t) \<and> map_wf (tp_remotes t))"

definition merge_all :: "template_policy list \<Rightarrow> resolved_agent_perms \<Rightarrow> resolved_agent_perms" where
  "merge_all ts perms = fold merge_template_perms ts perms"

lemma merge_inherited:
  "fold (\<lambda>name perms. case get (cfg_templates cfg) name of
          Some tmpl \<Rightarrow> merge_template_perms tmpl perms | None \<Rightarrow> perms) names perms =
   merge_all (concat (map (\<lambda>n. case get (cfg_templates cfg) n of Some t \<Rightarrow> [t] | None \<Rightarrow> []) names)) perms"
  by (induction names arbitrary: perms) (auto simp: merge_all_def split: option.splits)

lemma get_merge_all:
  assumes "\<forall>t \<in> set ts. map_wf (tp_ssh t) \<and> map_wf (tp_services t) \<and> map_wf (tp_remotes t)"
  shows "get (rp_ssh_access (merge_all ts perms)) k =
      first_entry (rp_ssh_access perms # map tp_ssh ts) k"
    and "get (rp_service_access (merge_all ts perms)) k =
      first_entry (rp_service_access perms # map tp_services ts) k"
    and "get (rp_remote_access (merge_all ts perms)) k =
      first_entry (rp_remote_access perms # map tp_remotes ts) k"
    and "rp_legacy_mode (merge_all ts perms) = rp_legacy_mode perms"
  using assms
  by (induction ts arbitrary: perms)
     (auto simp: merge_all_def merge_template_perms_def get_add_missing split: option.splits)

lemma resolve_agent_gets:
  assumes "has_rbac a" "map_wf (ap_ssh a)" "map_wf (ap_services a)" "map_wf (ap_remotes a)"
    and "\<forall>t \<in> set (inherited cfg a). map_wf (tp_ssh t) \<and> map_wf (tp_services t) \<and> map_wf (tp_remotes t)"
  shows "get (rp_ssh_access (resolve_agent a cfg)) k =
      map_option (clip_roles cfg k) (first_entry (ap_ssh a # map tp_ssh (inherited cfg a)) k)"
    and "get (rp_service_access (resolve_agent a cfg)) k =
      first_entry (ap_services a # map tp_services (inherited cfg a)) k"
    and "get (rp_remote_access (resolve_agent a cfg)) k =
      first_entry (ap_remotes a # map tp_remotes (inherited cfg a)) k"
    and "\<not> rp_legacy_mode (resolve_agent a cfg)"
  using assms get_merge_all [OF assms(5)]
  by (simp_all add: resolve_agent_def merge_inherited inherited_def [symmetric] Let_def
      get_map_values get_override split: option.splits)

lemma inherited_wf:
  assumes "config_wf cfg"
  shows "\<forall>t \<in> set (inherited cfg a). map_wf (tp_ssh t) \<and> map_wf (tp_services t) \<and> map_wf (tp_remotes t)"
  using assms by (auto simp: inherited_def config_wf_def split: option.splits)

lemma get_fold_put: "map_wf m \<Longrightarrow>
    get (fold (\<lambda>(k, v) acc. put k (f v) acc) m acc) j =
      (case get m j of Some v \<Rightarrow> Some (f v) | None \<Rightarrow> get acc j)"
proof (induction m arbitrary: acc)
  case (Cons e m)
  obtain a v where e: "e = (a, v)" by force
  have "map_wf m" "get m a = None"
    using Cons.prems e by (auto simp: map_wf_def get_def map_of_eq_None_iff)
  with Cons.IH [of "put a (f v) acc"] e show ?case by (auto split: option.splits)
qed simp

lemma get_resolve_agent_perms:
  assumes "config_wf cfg"
  shows "get (resolve_agent_perms cfg) n = map_option (\<lambda>a. resolve_agent a cfg) (get (cfg_agents cfg) n)"
  using assms
  by (simp add: resolve_agent_perms_def get_fold_put config_wf_def split: option.splits)

lemma first_entry_clip:
  "first_entry ms k = Some x \<Longrightarrow> \<exists>m \<in> set ms. get m k = Some x"
  by (induction ms) (auto split: option.splits)

section \<open>Properties\<close>

text \<open>
  Resolution has the documented precedence: for an agent with any RBAC field, the
  effective access to a target, service or remote is the agent's own entry if it has one,
  else that of the first inherited template (left to right) that has one, else none; and
  the SSH roles for a defined target are cut down to the target's allowed roles.
\<close>

theorem resolve_precedence:
  assumes "config_wf cfg" and "get (cfg_agents cfg) name = Some a" and "has_rbac a"
    and "get (resolve_agent_perms cfg) name = Some p"
  shows "get (rp_ssh_access p) k =
      map_option (clip_roles cfg k) (first_entry (ap_ssh a # map tp_ssh (inherited cfg a)) k) \<and>
    get (rp_service_access p) k = first_entry (ap_services a # map tp_services (inherited cfg a)) k \<and>
    get (rp_remote_access p) k = first_entry (ap_remotes a # map tp_remotes (inherited cfg a)) k \<and>
    (\<forall>t. k \<noteq> ''*'' \<and> get (cfg_targets cfg) k = Some t \<and> get (rp_ssh_access p) k \<noteq> None \<longrightarrow>
       set (get_target_roles p k) \<subseteq> set (tg_allowed_roles t))"
proof -
  have p: "p = resolve_agent a cfg" using assms(1,2,4) by (simp add: get_resolve_agent_perms)
  have "map_wf (ap_ssh a)" "map_wf (ap_services a)" "map_wf (ap_remotes a)"
    using assms(1,2) by (auto simp: config_wf_def)
  note gets = resolve_agent_gets [OF assms(3) this inherited_wf [OF assms(1)]]
  have "set (get_target_roles p k) \<subseteq> set (tg_allowed_roles t)"
    if "k \<noteq> ''*''" "get (cfg_targets cfg) k = Some t" "get (rp_ssh_access p) k \<noteq> None" for t
    using that gets(1,4) unfolding p
    by (auto simp: get_target_roles_def clip_roles_def intersect_roles_def)
  with gets show ?thesis unfolding p by blast
qed

definition sample_config :: config where
  "sample_config =
     \<lparr>cfg_global = \<lparr>gp_max_active_certs = 10, gp_default_ttl = ''5m'', gp_max_ttl = ''30m'',
        gp_rate_limit = \<lparr>rlc_requests_per_window = 10, rlc_window_seconds = 60\<rparr>,
        gp_host_key_strict = False\<rparr>,
      cfg_agents = [(''claude'', \<lparr>ap_uid = 1000, ap_max_concurrent_certs = 3, ap_description = [],
        ap_api_key_hash = [], ap_inherits = [''base''],
        ap_ssh = [(''web'', \<lparr>ata_roles = [''read'', ''admin''], ata_auto_approve = None\<rparr>)],
        ap_services = [], ap_remotes = [], ap_dashboard = []\<rparr>)],
      cfg_targets = [(''web'', \<lparr>tg_host = ''h'', tg_port = 22, tg_vlan = 0,
        tg_allowed_roles = [''operator'', ''read''], tg_max_ttl = ''10m'', tg_auto_approve = True,
        tg_force_command = [], tg_description = [], tg_command_filter = False,
        tg_command_deny = [], tg_command_allow = [], tg_auto_revoke_on_deny = False,
        tg_host_key = [], tg_host_key_fingerprint = []\<rparr>)],
      cfg_roles = [(''read'', \<lparr>rd_principal = ''agent-read'', rd_description = [], rd_shell = [],
        rd_sudo = SudoNil, rd_system = None\<rparr>),
        (''operator'', \<lparr>rd_principal = ''agent-op'', rd_description = [], rd_shell = [],
        rd_sudo = SudoNil, rd_system = None\<rparr>)],
      cfg_templates = [(''base'', \<lparr>tp_description = [],
        tp_ssh = [(''web'', \<lparr>ata_roles = [''operator''], ata_auto_approve = None\<rparr>)],
        tp_services = [(''git'', [''GET''])], tp_remotes = [], tp_dashboard = ''viewer''\<rparr>)]\<rparr>"

lemma config_wf_sample: "config_wf sample_config"
  by (simp add: config_wf_def sample_config_def map_wf_def)

theorem resolve_precedence_witness:
  "\<exists>p. get (resolve_agent_perms sample_config) ''claude'' = Some p \<and>
     map_option ata_roles (get (rp_ssh_access p) ''web'') = Some [''read''] \<and>
     set (get_target_roles p ''web'') \<subseteq> {''operator'', ''read''}"
proof -
  define a where "a = the (get (cfg_agents sample_config) ''claude'')"
  define p where "p = the (get (resolve_agent_perms sample_config) ''claude'')"
  have a: "get (cfg_agents sample_config) ''claude'' = Some a" "has_rbac a"
    unfolding a_def by code_simp+
  have p: "get (resolve_agent_perms sample_config) ''claude'' = Some p"
    "map_option ata_roles (get (rp_ssh_access p) ''web'') = Some [''read'']"
    unfolding p_def by code_simp+
  have "map_option tg_allowed_roles (get (cfg_targets sample_config) ''web'') = Some [''operator'', ''read'']"
    by code_simp
  with resolve_precedence [OF config_wf_sample a p(1), of "''web''"] p show ?thesis by auto
qed

end
