(* ===== verification/PolicyEngine.thy ===== *)
theory PolicyEngine
  imports PolicyResolve GoTime
begin

text \<open>
  Component \<open>internal/policy/engine.go\<close>: the policy engine. It evaluates certificate
  requests against the resolved policy and tracks active certificates in three maps
  (certificates by serial, number of certificates by agent UID, latest serial by
  agent, target and role). The invariant \<open>engine_ok\<close> ties the three maps together.
\<close>

section \<open>State\<close>

record 'k policy_engine =
  pe_resolved :: "'k resolved_config"
  pe_certs :: "(nat, tracked_cert) gomap"
  pe_agent_counts :: "(int, int) gomap"
  pe_active_sigs :: "(string, nat) gomap"

definition new_engine :: "'k resolved_config \<Rightarrow> 'k policy_engine" where
  "new_engine rc = \<lparr>pe_resolved = rc, pe_certs = [], pe_agent_counts = [], pe_active_sigs = []\<rparr>"

text \<open>\<open>Reload\<close>: a configuration that the loader rejects leaves the engine as it is.\<close>

definition engine_reload :: "('e + 'k resolved_config) \<Rightarrow> 'k policy_engine \<Rightarrow> 'e option \<times> 'k policy_engine" where
  "engine_reload loaded e =
     (case loaded of Inl err \<Rightarrow> (Some err, e) | Inr rc \<Rightarrow> (None, e\<lparr>pe_resolved := rc\<rparr>))"

section \<open>Tracking\<close>

definition cert_sig :: "int \<Rightarrow> string \<Rightarrow> string \<Rightarrow> string" where
  "cert_sig agent_uid target role = itoa agent_uid @ '':'' @ target @ '':'' @ role"

definition count_of :: "(int, int) gomap \<Rightarrow> int \<Rightarrow> int" where
  "count_of m uid = (case get m uid of None \<Rightarrow> 0 | Some n \<Rightarrow> n)"

definition remove_cert_locked :: "nat \<Rightarrow> 'k policy_engine \<Rightarrow> 'k policy_engine" where
  "remove_cert_locked serial e =
     (case get (pe_certs e) serial of
        None \<Rightarrow> e
      | Some tc \<Rightarrow>
          let uid = tc_agent_uid tc;
              counts = pe_agent_counts e;
              counts = (if count_of counts uid > 0 then put uid (count_of counts uid - 1) counts
                        else counts);
              counts = (if count_of counts uid = 0 then del uid counts else counts);
              sig = cert_sig uid (tc_target tc) (tc_role tc);
              current = (case get (pe_active_sigs e) sig of None \<Rightarrow> 0 | Some s \<Rightarrow> s)
          in e\<lparr>pe_certs := del serial (pe_certs e), pe_agent_counts := counts,
               pe_active_sigs := (if current = serial then del sig (pe_active_sigs e)
                                  else pe_active_sigs e)\<rparr>)"

definition track_cert :: "nat \<Rightarrow> int \<Rightarrow> string \<Rightarrow> string \<Rightarrow> time \<Rightarrow> 'k policy_engine \<Rightarrow> 'k policy_engine" where
  "track_cert serial agent_uid target role expires_at e =
     e\<lparr>pe_certs := put serial \<lparr>tc_serial = serial, tc_agent_uid = agent_uid, tc_target = target,
                      tc_role = role, tc_expires_at = expires_at\<rparr> (pe_certs e),
       pe_agent_counts := put agent_uid (count_of (pe_agent_counts e) agent_uid + 1) (pe_agent_counts e),
       pe_active_sigs := put (cert_sig agent_uid target role) serial (pe_active_sigs e)\<rparr>"

definition remove_cert :: "nat \<Rightarrow> 'k policy_engine \<Rightarrow> 'k policy_engine" where
  "remove_cert serial e = remove_cert_locked serial e"

definition clean_expired_certs :: "time \<Rightarrow> 'k policy_engine \<Rightarrow> nat \<times> 'k policy_engine" where
  "clean_expired_certs now e =
     (let expired = map fst (filter (\<lambda>(_, tc). tc_expires_at tc < now) (pe_certs e))
      in (length expired, fold remove_cert_locked expired e))"

definition active_certs_for_agent :: "int \<Rightarrow> 'k policy_engine \<Rightarrow> int" where
  "active_certs_for_agent uid e = count_of (pe_agent_counts e) uid"

definition active_certs_total :: "'k policy_engine \<Rightarrow> nat" where
  "active_certs_total e = length (pe_certs e)"

section \<open>Evaluation\<close>

definition find_agent_by_uid :: "(string, agent_policy) gomap \<Rightarrow> int \<Rightarrow> (string \<times> agent_policy) option" where
  "find_agent_by_uid agents uid = find (\<lambda>(_, agent). ap_uid agent = uid) agents"

definition role_allowed :: "string list \<Rightarrow> string \<Rightarrow> bool" where
  "role_allowed allowed role = list_ex (\<lambda>r. r = role) allowed"

definition deny :: "eval_reason \<Rightarrow> eval_result" where
  "deny reason = \<lparr>ev_decision = Deny, ev_reason = reason, ev_clamped_duration = 0, ev_principal = []\<rparr>"

definition clamp_duration :: "'k resolved_config \<Rightarrow> eval_request \<Rightarrow> duration" where
  "clamp_duration rc req =
     (let dur = (if er_duration req \<le> 0 then rc_global_default_ttl rc else er_duration req);
          target_max = (case get (rc_target_max_ttls rc) (er_target_name req) of None \<Rightarrow> 0 | Some d \<Rightarrow> d);
          dur = (if dur > target_max then target_max else dur)
      in if dur > rc_global_max_ttl rc then rc_global_max_ttl rc else dur)"

definition evaluate :: "time \<Rightarrow> eval_request \<Rightarrow> 'k policy_engine \<Rightarrow> eval_result \<times> 'k policy_engine" where
  "evaluate now req e0 =
     (let e = snd (clean_expired_certs now e0); rc = pe_resolved e; cfg = rc_raw rc in
      case find_agent_by_uid (cfg_agents cfg) (er_agent_uid req) of
        None \<Rightarrow> (deny (UnknownAgent (er_agent_uid req)), e)
      | Some (agent_name, agent) \<Rightarrow>
      (case get (cfg_targets cfg) (er_target_name req) of
        None \<Rightarrow> (deny (UnknownTarget (er_target_name req)), e)
      | Some target \<Rightarrow>
        if \<not> role_allowed (tg_allowed_roles target) (er_role_name req)
        then (deny (RoleNotAllowed (er_role_name req) (er_target_name req)), e)
        else (case get (cfg_roles cfg) (er_role_name req) of
          None \<Rightarrow> (deny (RoleUndefined (er_role_name req)), e)
        | Some role_def \<Rightarrow>
          let dur = clamp_duration rc req in
          if count_of (pe_agent_counts e) (er_agent_uid req) \<ge> ap_max_concurrent_certs agent
          then (deny (AgentAtLimit (er_agent_uid req) (ap_max_concurrent_certs agent)), e)
          else
          let sig = cert_sig (er_agent_uid req) (er_target_name req) (er_role_name req);
              e = (case get (pe_active_sigs e) sig of
                     Some old_serial \<Rightarrow> remove_cert_locked old_serial e
                   | None \<Rightarrow> e)
          in
          if int (length (pe_certs e)) \<ge> gp_max_active_certs (cfg_global cfg)
          then (deny (GlobalLimit (gp_max_active_certs (cfg_global cfg))), e)
          else (\<lparr>ev_decision = (if tg_auto_approve target then Approve else Pending),
                 ev_reason = (if tg_auto_approve target then AutoApproved else AwaitingApproval),
                 ev_clamped_duration = dur, ev_principal = rd_principal role_def\<rparr>, e))))"

section \<open>The invariant\<close>

definition uid_certs :: "(nat, tracked_cert) gomap \<Rightarrow> int \<Rightarrow> int" where
  "uid_certs certs uid = int (length (filter (\<lambda>(_, tc). tc_agent_uid tc = uid) certs))"

definition engine_ok :: "'k policy_engine \<Rightarrow> bool" where
  "engine_ok e \<longleftrightarrow>
     map_wf (pe_certs e) \<and> map_wf (pe_agent_counts e) \<and> map_wf (pe_active_sigs e) \<and>
     (\<forall>uid. count_of (pe_agent_counts e) uid = uid_certs (pe_certs e) uid) \<and>
     (\<forall>sig s. get (pe_active_sigs e) sig = Some s \<longrightarrow>
        (\<exists>tc. get (pe_certs e) s = Some tc \<and>
              cert_sig (tc_agent_uid tc) (tc_target tc) (tc_role tc) = sig))"

lemma put_new: "get m k = None \<Longrightarrow> put k v m = m @ [(k, v)]"
  by (induction m) (auto simp: put_def get_def split: if_splits)

lemma del_filter: "del k m = filter (\<lambda>(k', _). k \<noteq> k') m"
  by (simp add: del_def AList.delete_eq)

lemma count_del:
  assumes "map_wf m" "get m k = Some v"
  shows "length (filter P (del k m)) = length (filter P m) - (if P (k, v) then 1 else 0)"
    and "P (k, v) \<Longrightarrow> 0 < length (filter P m)"
proof -
  from assms obtain as bs where m: "m = as @ (k, v) # bs"
    by (metis get_in_set in_set_conv_decomp)
  with assms(1) have "\<forall>e \<in> set (as @ bs). fst e \<noteq> k" by (force simp: map_wf_def)
  then have "filter (\<lambda>(k', _). k \<noteq> k') (as @ bs) = as @ bs"
    by (intro filter_True) force
  then have "del k m = as @ bs"
    unfolding del_filter m by simp
  then show "length (filter P (del k m)) = length (filter P m) - (if P (k, v) then 1 else 0)"
    "P (k, v) \<Longrightarrow> 0 < length (filter P m)" by (simp_all add: m)
qed

lemma uid_certs_del:
  "map_wf certs \<Longrightarrow> get certs s = Some tc \<Longrightarrow>
   uid_certs (del s certs) uid = uid_certs certs uid - (if tc_agent_uid tc = uid then 1 else 0)"
  using count_del [of certs s tc "\<lambda>(_, tc). tc_agent_uid tc = uid"]
  by (auto simp: uid_certs_def of_nat_diff Suc_le_eq)

lemma uid_certs_pos:
  "map_wf certs \<Longrightarrow> get certs s = Some tc \<Longrightarrow> 0 < uid_certs certs (tc_agent_uid tc)"
  using count_del(2) [of certs s tc "\<lambda>(_, t). tc_agent_uid t = tc_agent_uid tc"]
  by (simp add: uid_certs_def)

lemma uid_certs_put:
  "get certs s = None \<Longrightarrow>
   uid_certs (put s tc certs) uid = uid_certs certs uid + (if tc_agent_uid tc = uid then 1 else 0)"
  by (simp add: uid_certs_def put_new)

lemma count_of_put [simp]: "count_of (put u n m) v = (if v = u then n else count_of m v)"
  by (simp add: count_of_def)

lemma count_of_del [simp]: "count_of (del u m) v = (if v = u then 0 else count_of m v)"
  by (simp add: count_of_def)

lemma engine_ok_new: "engine_ok (new_engine rc)"
  by (simp add: engine_ok_def new_engine_def uid_certs_def count_of_def)

lemma engine_ok_track:
  assumes "engine_ok e" "get (pe_certs e) serial = None"
  shows "engine_ok (track_cert serial uid t r x e)"
proof -
  have "get (pe_active_sigs e) g \<noteq> Some serial" for g
    using assms unfolding engine_ok_def by fastforce
  then show ?thesis
    using assms by (auto simp: engine_ok_def track_cert_def uid_certs_put)
qed

lemma engine_ok_remove:
  assumes "engine_ok e"
  shows "engine_ok (remove_cert_locked serial e)"
proof (cases "get (pe_certs e) serial")
  case (Some tc)
  define e' where "e' = remove_cert_locked serial e"
  define sig where "sig = cert_sig (tc_agent_uid tc) (tc_target tc) (tc_role tc)"
  have wf: "map_wf (pe_certs e)" using assms by (simp add: engine_ok_def)
  have pos: "count_of (pe_agent_counts e) (tc_agent_uid tc) > 0"
    using assms uid_certs_pos [OF wf Some] by (simp add: engine_ok_def)
  have parts: "pe_certs e' = del serial (pe_certs e)"
    "map_wf (pe_agent_counts e')" "map_wf (pe_active_sigs e')"
    "count_of (pe_agent_counts e') uid = count_of (pe_agent_counts e) uid - (if tc_agent_uid tc = uid then 1 else 0)" for uid
    using assms pos Some by (auto simp: e'_def remove_cert_locked_def Let_def engine_ok_def)
  have sigs: "get (pe_active_sigs e') g = Some s \<Longrightarrow> get (pe_active_sigs e) g = Some s \<and> s \<noteq> serial" for g s
  proof -
    assume g: "get (pe_active_sigs e') g = Some s"
    then have old: "get (pe_active_sigs e) g = Some s"
      using Some by (auto simp: e'_def remove_cert_locked_def Let_def split: if_splits)
    moreover have "s \<noteq> serial"
    proof
      assume s: "s = serial"
      with old assms obtain tc' where "get (pe_certs e) serial = Some tc'"
        "cert_sig (tc_agent_uid tc') (tc_target tc') (tc_role tc') = g"
        unfolding engine_ok_def by blast
      then have "g = sig" using Some by (simp add: sig_def)
      with g old s Some show False
        by (auto simp: e'_def remove_cert_locked_def Let_def sig_def [symmetric])
    qed
    ultimately show ?thesis by simp
  qed
  have "engine_ok e'"
    unfolding engine_ok_def parts(1,4)
    using assms parts(2,3) sigs uid_certs_del [OF wf Some] wf
    by (auto simp: engine_ok_def) 
  then show ?thesis by (simp add: e'_def)
qed (use assms in \<open>simp add: remove_cert_locked_def\<close>)

lemma get_remove_cert:
  "map_wf (pe_certs e) \<Longrightarrow> get (pe_certs (remove_cert_locked serial e)) s =
     (if s = serial then None else get (pe_certs e) s)"
  by (auto simp: remove_cert_locked_def Let_def split: option.splits)

lemma remove_cert_config [simp]: "pe_resolved (remove_cert_locked serial e) = pe_resolved e"
  by (auto simp: remove_cert_locked_def Let_def split: option.splits)

lemma removes_ok:
  "engine_ok e \<Longrightarrow> engine_ok (fold remove_cert_locked ss e) \<and>
     pe_resolved (fold remove_cert_locked ss e) = pe_resolved e \<and>
     (\<forall>s. get (pe_certs (fold remove_cert_locked ss e)) s =
        (if s \<in> set ss then None else get (pe_certs e) s))"
proof (induction ss arbitrary: e)
  case (Cons s ss)
  have "map_wf (pe_certs e)" using Cons.prems by (simp add: engine_ok_def)
  with Cons.IH [OF engine_ok_remove [OF Cons.prems, of s]] show ?case
    by (auto simp: get_remove_cert)
qed simp

lemma clean_spec:
  assumes "engine_ok e"
  shows "engine_ok (snd (clean_expired_certs now e))"
    and "pe_resolved (snd (clean_expired_certs now e)) = pe_resolved e"
    and "get (pe_certs (snd (clean_expired_certs now e))) s =
      (case get (pe_certs e) s of None \<Rightarrow> None | Some tc \<Rightarrow> if tc_expires_at tc < now then None else Some tc)"
proof -
  let ?ss = "map fst (filter (\<lambda>(_, tc). tc_expires_at tc < now) (pe_certs e))"
  have wf: "map_wf (pe_certs e)" using assms by (simp add: engine_ok_def)
  have mem: "s \<in> set ?ss \<longleftrightarrow> (\<exists>tc. get (pe_certs e) s = Some tc \<and> tc_expires_at tc < now)"
    using wf by (force simp: get_in_set)
  note all = removes_ok [OF assms, of ?ss]
  show "engine_ok (snd (clean_expired_certs now e))"
    "pe_resolved (snd (clean_expired_certs now e)) = pe_resolved e"
    using all by (simp_all add: clean_expired_certs_def Let_def)
  have "get (pe_certs (snd (clean_expired_certs now e))) s =
      (if s \<in> set ?ss then None else get (pe_certs e) s)"
    using all by (simp add: clean_expired_certs_def Let_def)
  then show "get (pe_certs (snd (clean_expired_certs now e))) s =
      (case get (pe_certs e) s of None \<Rightarrow> None | Some tc \<Rightarrow> if tc_expires_at tc < now then None else Some tc)"
    unfolding mem by (cases "get (pe_certs e) s") simp_all
qed

interpretation cert_expiry: expiring_store engine_ok "\<lambda>e. get (pe_certs e)"
  "\<lambda>now tc. tc_expires_at tc < now" "\<lambda>now e. snd (clean_expired_certs now e)"
  by unfold_locales (simp_all add: clean_spec)

lemma counts_shrink:
  assumes "engine_ok e"
  shows "count_of (pe_agent_counts (remove_cert_locked s e)) uid \<le> count_of (pe_agent_counts e) uid"
    and "length (pe_certs (remove_cert_locked s e)) \<le> length (pe_certs e)"
proof -
  have "engine_ok (remove_cert_locked s e)" using assms by (rule engine_ok_remove)
  moreover have "uid_certs (pe_certs (remove_cert_locked s e)) uid \<le> uid_certs (pe_certs e) uid"
    using assms uid_certs_del [of "pe_certs e" s _ uid]
    by (cases "get (pe_certs e) s") (auto simp: remove_cert_locked_def Let_def engine_ok_def)
  ultimately show "count_of (pe_agent_counts (remove_cert_locked s e)) uid \<le> count_of (pe_agent_counts e) uid"
    using assms by (simp add: engine_ok_def)
  show "length (pe_certs (remove_cert_locked s e)) \<le> length (pe_certs e)"
    by (cases "get (pe_certs e) s") (auto simp: remove_cert_locked_def Let_def del_filter)
qed

lemma removes_shrink:
  "engine_ok e \<Longrightarrow>
   count_of (pe_agent_counts (fold remove_cert_locked ss e)) uid \<le> count_of (pe_agent_counts e) uid \<and>
   length (pe_certs (fold remove_cert_locked ss e)) \<le> length (pe_certs e)"
proof (induction ss arbitrary: e)
  case (Cons s ss)
  from Cons.IH [OF engine_ok_remove [OF Cons.prems, of s]] counts_shrink [OF Cons.prems, of s] show ?case
    by (auto intro: order_trans)
qed simp

definition superseded :: "eval_request \<Rightarrow> 'k policy_engine \<Rightarrow> 'k policy_engine" where
  "superseded req e =
     (case get (pe_active_sigs e) (cert_sig (er_agent_uid req) (er_target_name req) (er_role_name req)) of
        Some old_serial \<Rightarrow> remove_cert_locked old_serial e
      | None \<Rightarrow> e)"

text \<open>The conditions under which a request is not denied, over the engine after the purge.\<close>

definition admitted :: "eval_request \<Rightarrow> 'k policy_engine \<Rightarrow> eval_result \<Rightarrow> bool" where
  "admitted req e res \<longleftrightarrow> (let rc = pe_resolved e; cfg = rc_raw rc in
     (\<exists>name agent target role_def.
         find_agent_by_uid (cfg_agents cfg) (er_agent_uid req) = Some (name, agent) \<and>
         get (cfg_targets cfg) (er_target_name req) = Some target \<and>
         role_allowed (tg_allowed_roles target) (er_role_name req) \<and>
         get (cfg_roles cfg) (er_role_name req) = Some role_def \<and>
         ev_principal res = rd_principal role_def \<and>
         ev_clamped_duration res = clamp_duration rc req \<and>
         ev_decision res = (if tg_auto_approve target then Approve else Pending) \<and>
         count_of (pe_agent_counts e) (er_agent_uid req) < ap_max_concurrent_certs agent \<and>
         int (length (pe_certs (superseded req e))) < gp_max_active_certs (cfg_global cfg)))"

lemma evaluate_outcomes:
  assumes ev: "evaluate now req e0 = (res, e)" and e1: "e1 = snd (clean_expired_certs now e0)"
  shows "e \<in> {e1, superseded req e1} \<and> ev_decision res = Deny \<or>
         e = superseded req e1 \<and> admitted req e1 res"
proof -
  define rc where "rc = pe_resolved e1"
  have "(res, e) = evaluate now req e0" by (simp add: ev)
  note unfolded = this [unfolded evaluate_def Let_def e1 [symmetric] superseded_def [symmetric], folded rc_def]
  consider
    "find_agent_by_uid (cfg_agents (rc_raw rc)) (er_agent_uid req) = None"
  | n a where "find_agent_by_uid (cfg_agents (rc_raw rc)) (er_agent_uid req) = Some (n, a)"
      "get (cfg_targets (rc_raw rc)) (er_target_name req) = None"
  | n a t where "find_agent_by_uid (cfg_agents (rc_raw rc)) (er_agent_uid req) = Some (n, a)"
      "get (cfg_targets (rc_raw rc)) (er_target_name req) = Some t"
      "\<not> role_allowed (tg_allowed_roles t) (er_role_name req)"
  | n a t where "find_agent_by_uid (cfg_agents (rc_raw rc)) (er_agent_uid req) = Some (n, a)"
      "get (cfg_targets (rc_raw rc)) (er_target_name req) = Some t"
      "role_allowed (tg_allowed_roles t) (er_role_name req)"
      "get (cfg_roles (rc_raw rc)) (er_role_name req) = None"
  | n a t r where "find_agent_by_uid (cfg_agents (rc_raw rc)) (er_agent_uid req) = Some (n, a)"
      "get (cfg_targets (rc_raw rc)) (er_target_name req) = Some t"
      "role_allowed (tg_allowed_roles t) (er_role_name req)"
      "get (cfg_roles (rc_raw rc)) (er_role_name req) = Some r"
    by (metis option.exhaust surj_pair)
  then show ?thesis
  proof cases
    case (5 n a t r)
    show ?thesis
    proof (cases "count_of (pe_agent_counts e1) (er_agent_uid req) < ap_max_concurrent_certs a \<and>
        int (length (pe_certs (superseded req e1))) < gp_max_active_certs (cfg_global (rc_raw rc))")
      case False
      with unfolded 5 show ?thesis by (auto simp: deny_def split: if_splits)
    next
      case True
      with unfolded 5 have "e = superseded req e1" by simp
      moreover from True unfolded 5 have "admitted req e1 res"
        by (simp add: admitted_def Let_def rc_def)
      ultimately show ?thesis by blast
    qed
  qed (use unfolded in \<open>simp_all add: deny_def\<close>)
qed

lemma superseded_ok:
  "engine_ok e \<Longrightarrow> engine_ok (superseded req e)"
  "pe_resolved (superseded req e) = pe_resolved e"
  "engine_ok e \<Longrightarrow> count_of (pe_agent_counts (superseded req e)) uid \<le> count_of (pe_agent_counts e) uid"
  "engine_ok e \<Longrightarrow> length (pe_certs (superseded req e)) \<le> length (pe_certs e)"
  by (auto simp: superseded_def engine_ok_remove counts_shrink split: option.splits)

lemma clean_shrinks:
  assumes "engine_ok e"
  shows "count_of (pe_agent_counts (snd (clean_expired_certs now e))) uid \<le> count_of (pe_agent_counts e) uid"
    and "length (pe_certs (snd (clean_expired_certs now e))) \<le> length (pe_certs e)"
  using removes_shrink [OF assms] by (simp_all add: clean_expired_certs_def Let_def)

lemma evaluate_keeps:
  assumes ok: "engine_ok e0" and ev: "evaluate now req e0 = (res, e)"
  shows "engine_ok e" and "pe_resolved e = pe_resolved e0"
    and "count_of (pe_agent_counts e) uid \<le> count_of (pe_agent_counts e0) uid"
    and "length (pe_certs e) \<le> length (pe_certs e0)"
proof -
  define e1 where "e1 = snd (clean_expired_certs now e0)"
  from evaluate_outcomes [OF ev e1_def] have e: "e = e1 \<or> e = superseded req e1" by blast
  have ok1: "engine_ok e1" "pe_resolved e1 = pe_resolved e0"
    "count_of (pe_agent_counts e1) uid \<le> count_of (pe_agent_counts e0) uid"
    "length (pe_certs e1) \<le> length (pe_certs e0)"
    using clean_spec [OF ok] clean_shrinks [OF ok] by (simp_all add: e1_def)
  note sup = superseded_ok [where e = e1 and req = req]
  show "engine_ok e" "pe_resolved e = pe_resolved e0" using e ok1 sup by auto
  show "count_of (pe_agent_counts e) uid \<le> count_of (pe_agent_counts e0) uid"
    using e ok1 sup(3) [of uid] by fastforce
  show "length (pe_certs e) \<le> length (pe_certs e0)" using e ok1 sup(4) by fastforce
qed

lemma evaluate_admits:
  "evaluate now req e0 = (res, e) \<Longrightarrow> ev_decision res \<noteq> Deny \<Longrightarrow>
   e = superseded req (snd (clean_expired_certs now e0)) \<and> admitted req (snd (clean_expired_certs now e0)) res"
  using evaluate_outcomes [OF _ refl] by blast

lemma evaluate_leaves_room:
  assumes "engine_ok e0" "evaluate now req e0 = (res, e)" "ev_decision res \<noteq> Deny"
  shows "\<exists>name agent. find_agent_by_uid (cfg_agents (rc_raw (pe_resolved e0))) (er_agent_uid req) = Some (name, agent) \<and>
      count_of (pe_agent_counts e) (er_agent_uid req) < ap_max_concurrent_certs agent"
    and "int (length (pe_certs e)) < gp_max_active_certs (cfg_global (rc_raw (pe_resolved e0)))"
proof -
  define e1 where "e1 = snd (clean_expired_certs now e0)"
  have ok: "engine_ok e1" "pe_resolved e1 = pe_resolved e0" using clean_spec [OF assms(1)] by (simp_all add: e1_def)
  from evaluate_admits [OF assms(2,3)] have e: "e = superseded req e1" "admitted req e1 res" by (simp_all add: e1_def)
  then show "\<exists>name agent. find_agent_by_uid (cfg_agents (rc_raw (pe_resolved e0))) (er_agent_uid req) = Some (name, agent) \<and>
      count_of (pe_agent_counts e) (er_agent_uid req) < ap_max_concurrent_certs agent"
    "int (length (pe_certs e)) < gp_max_active_certs (cfg_global (rc_raw (pe_resolved e0)))"
    using superseded_ok(3) [OF ok(1), of req "er_agent_uid req"] ok(2)
    by (auto simp: admitted_def Let_def intro: le_less_trans)
qed

section \<open>Runs of the engine\<close>

text \<open>
  One step is one call under the engine's locks. Serials come from the signer, which
  draws them so that no two live certificates share one: \<open>TrackCert\<close> gets a serial that
  is not tracked.
\<close>

inductive engine_step :: "'k policy_engine \<Rightarrow> 'k policy_engine \<Rightarrow> bool" where
  step_track: "get (pe_certs e) serial = None \<Longrightarrow> engine_step e (track_cert serial uid t r x e)"
| step_remove: "engine_step e (remove_cert serial e)"
| step_clean: "engine_step e (snd (clean_expired_certs now e))"
| step_evaluate: "engine_step e (snd (evaluate now req e))"
| step_reload: "engine_step e (snd (engine_reload (loaded :: string + _) e))"

inductive_cases engine_stepE: "engine_step e e'"

lemma engine_step_ok: "engine_step e e' \<Longrightarrow> engine_ok e \<Longrightarrow> engine_ok e'"
proof (induction rule: engine_step.induct)
  case (step_evaluate e now req)
  then show ?case by (cases "evaluate now req e") (simp add: evaluate_keeps)
next
  case (step_reload e loaded)
  then show ?case by (simp add: engine_reload_def engine_ok_def split: sum.splits)
qed (simp_all add: engine_ok_track remove_cert_def engine_ok_remove clean_spec)

lemma engine_run_ok: "engine_step\<^sup>*\<^sup>* e e' \<Longrightarrow> engine_ok e \<Longrightarrow> engine_ok e'"
  by (induction rule: rtranclp_induct) (auto intro: engine_step_ok)

text \<open>
  The engine's three certificate maps stay consistent: after any sequence of
  evaluations, issues, removals, purges and reloads, the counter of an agent is exactly the
  number of its tracked certificates, and every deduplication entry points to a tracked
  certificate with that signature.
\<close>

theorem engine_maps_consistent:
  assumes "engine_step\<^sup>*\<^sup>* (new_engine rc) e"
  shows "active_certs_for_agent uid e =
           int (length (filter (\<lambda>(_, tc). tc_agent_uid tc = uid) (pe_certs e))) \<and>
         (\<forall>sig s. get (pe_active_sigs e) sig = Some s \<longrightarrow>
           (\<exists>tc. get (pe_certs e) s = Some tc \<and>
                sig = cert_sig (tc_agent_uid tc) (tc_target tc) (tc_role tc)))"
proof -
  have ok: "engine_ok e" using assms engine_ok_new by (rule engine_run_ok)
  then have "active_certs_for_agent uid e =
           int (length (filter (\<lambda>(_, tc). tc_agent_uid tc = uid) (pe_certs e)))"
    by (simp add: engine_ok_def active_certs_for_agent_def uid_certs_def)
  with ok show ?thesis unfolding engine_ok_def by blast
qed

definition sample_resolved :: "unit resolved_config" where
  "sample_resolved =
     \<lparr>rc_raw = sample_config, rc_global_default_ttl = 300, rc_global_max_ttl = 1800,
      rc_target_max_ttls = [(''web'', 600)], rc_agent_perms = resolve_agent_perms sample_config,
      rc_target_host_keys = [], rc_resolved_roles = []\<rparr>"

definition sample_request :: eval_request where
  "sample_request = \<lparr>er_agent_uid = 1000, er_target_name = ''web'', er_role_name = ''read'', er_duration = 0\<rparr>"

definition one_cert :: "unit policy_engine" where
  "one_cert = track_cert 1 1000 ''web'' ''read'' 400 (new_engine sample_resolved)"

lemma one_cert_reachable: "engine_step\<^sup>*\<^sup>* (new_engine sample_resolved) one_cert"
  unfolding one_cert_def by (intro r_into_rtranclp step_track) (simp add: new_engine_def)

theorem engine_maps_consistent_witness:
  "active_certs_for_agent 1000 one_cert = 1 \<and>
   (\<exists>tc. get (pe_certs one_cert) 1 = Some tc \<and>
      cert_sig 1000 ''web'' ''read'' = cert_sig (tc_agent_uid tc) (tc_target tc) (tc_role tc))"
proof -
  have "length (filter (\<lambda>(_, tc). tc_agent_uid tc = 1000) (pe_certs one_cert)) = 1"
    "get (pe_active_sigs one_cert) (cert_sig 1000 ''web'' ''read'') = Some 1"
    by (simp_all add: one_cert_def track_cert_def new_engine_def put_new)
  with engine_maps_consistent [OF one_cert_reachable, of 1000] show ?thesis by simp
qed

text \<open>
  \<open>Evaluate\<close> never lets an unauthorized request through: a decision other than
  DENY means the agent UID and target are configured, the role is in the target's
  allowed roles and defined, the principal is that role's, the duration is the requested one
  (or the default) bounded by the target's and the global maximum, approval is automatic
  exactly when the target says so, and both certificate limits still leave room.
\<close>

theorem evaluate_sound:
  assumes "engine_step\<^sup>*\<^sup>* (new_engine rc0) e0" "evaluate now req e0 = (res, e)" "ev_decision res \<noteq> Deny"
  shows "\<exists>name agent target role_def.
      find_agent_by_uid (cfg_agents (rc_raw (pe_resolved e0))) (er_agent_uid req) = Some (name, agent) \<and>
      get (cfg_targets (rc_raw (pe_resolved e0))) (er_target_name req) = Some target \<and>
      er_role_name req \<in> set (tg_allowed_roles target) \<and>
      get (cfg_roles (rc_raw (pe_resolved e0))) (er_role_name req) = Some role_def \<and>
      ev_principal res = rd_principal role_def \<and>
      ev_decision res = (if tg_auto_approve target then Approve else Pending) \<and>
      ev_clamped_duration res =
        min (if er_duration req \<le> 0 then rc_global_default_ttl (pe_resolved e0) else er_duration req)
          (min (rc_global_max_ttl (pe_resolved e0))
               (case get (rc_target_max_ttls (pe_resolved e0)) (er_target_name req) of None \<Rightarrow> 0 | Some d \<Rightarrow> d)) \<and>
      active_certs_for_agent (er_agent_uid req) e < ap_max_concurrent_certs agent \<and>
      int (active_certs_total e) < gp_max_active_certs (cfg_global (rc_raw (pe_resolved e0)))"
proof -
  have ok: "engine_ok e0" using assms(1) engine_ok_new by (rule engine_run_ok)
  define e1 where "e1 = snd (clean_expired_certs now e0)"
  have ok1: "engine_ok e1" "pe_resolved e1 = pe_resolved e0" using clean_spec [OF ok] by (simp_all add: e1_def)
  from evaluate_admits [OF assms(2,3)] have e: "e = superseded req e1" "admitted req e1 res"
    by (simp_all add: e1_def)
  from e(2) obtain name agent target role_def where *:
    "find_agent_by_uid (cfg_agents (rc_raw (pe_resolved e0))) (er_agent_uid req) = Some (name, agent)"
    "get (cfg_targets (rc_raw (pe_resolved e0))) (er_target_name req) = Some target"
    "role_allowed (tg_allowed_roles target) (er_role_name req)"
    "get (cfg_roles (rc_raw (pe_resolved e0))) (er_role_name req) = Some role_def"
    "ev_principal res = rd_principal role_def"
    "ev_clamped_duration res = clamp_duration (pe_resolved e0) req"
    "ev_decision res = (if tg_auto_approve target then Approve else Pending)"
    unfolding admitted_def Let_def ok1(2) by blast
  have room: "active_certs_for_agent (er_agent_uid req) e < ap_max_concurrent_certs agent"
    "int (active_certs_total e) < gp_max_active_certs (cfg_global (rc_raw (pe_resolved e0)))"
    using evaluate_leaves_room [OF ok assms(2,3)] *(1)
    by (simp_all add: active_certs_for_agent_def active_certs_total_def)
  have "clamp_duration (pe_resolved e0) req =
        min (if er_duration req \<le> 0 then rc_global_default_ttl (pe_resolved e0) else er_duration req)
          (min (rc_global_max_ttl (pe_resolved e0))
               (case get (rc_target_max_ttls (pe_resolved e0)) (er_target_name req) of None \<Rightarrow> 0 | Some d \<Rightarrow> d))"
    unfolding clamp_duration_def Let_def min_def by presburger
  moreover from *(3) have "er_role_name req \<in> set (tg_allowed_roles target)"
    by (simp add: role_allowed_def list_ex_iff)
  ultimately show ?thesis using * room by metis
qed

lemma sample_approved:
  "ev_decision (fst (evaluate 100 sample_request one_cert)) = Approve"
  "ev_clamped_duration (fst (evaluate 100 sample_request one_cert)) = 300"
  "find_agent_by_uid (cfg_agents sample_config) 1000 = Some (''claude'', the (get (cfg_agents sample_config) ''claude''))"
  "get (cfg_targets sample_config) ''web'' = Some (the (get (cfg_targets sample_config) ''web''))"
  by code_simp+

theorem evaluate_sound_witness:
  "\<exists>target. get (cfg_targets sample_config) ''web'' = Some target \<and> ''read'' \<in> set (tg_allowed_roles target) \<and>
     ev_clamped_duration (fst (evaluate 100 sample_request one_cert)) = 300"
proof -
  obtain res e where ev: "evaluate 100 sample_request one_cert = (res, e)" by fastforce
  have "pe_resolved one_cert = sample_resolved" by (simp add: one_cert_def track_cert_def new_engine_def)
  moreover have "ev_decision res \<noteq> Deny" using sample_approved(1) by (simp add: ev)
  ultimately show ?thesis
    using evaluate_sound [OF one_cert_reachable ev] sample_approved(2)
    by (auto simp: sample_resolved_def sample_request_def)
qed

section \<open>The limits hold when each issue follows its evaluation\<close>

text \<open>
  \<open>issue_step\<close> is the engine used by one caller at a time: a certificate is tracked right
  after the evaluation that allowed it, for that request. Removals, purges and other
  evaluations may happen in between issues.
\<close>

inductive issue_step :: "'k policy_engine \<Rightarrow> 'k policy_engine \<Rightarrow> bool" where
  issue: "evaluate now req e = (res, e1) \<Longrightarrow> ev_decision res \<noteq> Deny \<Longrightarrow> get (pe_certs e1) serial = None \<Longrightarrow>
     issue_step e (track_cert serial (er_agent_uid req) (er_target_name req) (er_role_name req) x e1)"
| drop: "issue_step e (remove_cert serial e)"
| purge: "issue_step e (snd (clean_expired_certs now e))"
| ask: "issue_step e (snd (evaluate now req e))"

definition within_limits :: "'k policy_engine \<Rightarrow> bool" where
  "within_limits e \<longleftrightarrow> (let cfg = rc_raw (pe_resolved e) in
     int (length (pe_certs e)) \<le> max 0 (gp_max_active_certs (cfg_global cfg)) \<and>
     (\<forall>uid name agent. find_agent_by_uid (cfg_agents cfg) uid = Some (name, agent) \<longrightarrow>
        count_of (pe_agent_counts e) uid \<le> max 0 (ap_max_concurrent_certs agent)))"

lemma within_limits_shrink:
  assumes "within_limits e" "pe_resolved e' = pe_resolved e"
    "\<And>uid. count_of (pe_agent_counts e') uid \<le> count_of (pe_agent_counts e) uid"
    "length (pe_certs e') \<le> length (pe_certs e)"
  shows "within_limits e'"
  using assms unfolding within_limits_def Let_def
  by (smt (verit) of_nat_le_iff order_trans)

lemma issue_step_limits:
  "issue_step e e' \<Longrightarrow> engine_ok e \<and> within_limits e \<Longrightarrow>
   engine_ok e' \<and> within_limits e' \<and> pe_resolved e' = pe_resolved e"
proof (induction rule: issue_step.induct)
  case (issue now req e res e1 serial x)
  then have ok: "engine_ok e" and ev: "evaluate now req e = (res, e1)" and nd: "ev_decision res \<noteq> Deny"
    and lim: "within_limits e" by blast+
  note k = evaluate_keeps [OF ok ev] and room = evaluate_leaves_room [OF ok ev nd]
  have lim1: "within_limits e1" using within_limits_shrink [OF lim k(2,3,4)] .
  let ?e2 = "track_cert serial (er_agent_uid req) (er_target_name req) (er_role_name req) x e1"
  have "within_limits ?e2"
    using lim1 room issue.hyps(3) k(2)
    by (auto simp: within_limits_def Let_def track_cert_def put_new)
  moreover have "engine_ok ?e2" using k(1) issue.hyps(3) by (rule engine_ok_track)
  ultimately show ?case using k(2) by (simp add: track_cert_def)
next
  case (drop e serial)
  then show ?case
    using within_limits_shrink [of e "remove_cert serial e"] counts_shrink [of e]
    by (simp add: remove_cert_def engine_ok_remove)
next
  case (purge e now)
  then show ?case
    using within_limits_shrink [of e "snd (clean_expired_certs now e)"] clean_spec [of e] clean_shrinks [of e]
    by simp
next
  case (ask e now req)
  obtain res e1 where ev: "evaluate now req e = (res, e1)" by fastforce
  from ask show ?case
    using within_limits_shrink [of e e1] evaluate_keeps [OF _ ev] by (simp add: ev)
qed

text \<open>
  The certificate limits of the policy are respected whenever every issue directly
  follows its evaluation: at no point does an agent hold more than its
  \<open>max_concurrent_certs\<close>, nor the whole system more than \<open>max_active_certs\<close>.
\<close>

theorem serial_issuing_respects_limits:
  assumes "issue_step\<^sup>*\<^sup>* (new_engine rc) e"
  shows "int (active_certs_total e) \<le> max 0 (gp_max_active_certs (cfg_global (rc_raw rc))) \<and>
    (\<forall>uid name agent. find_agent_by_uid (cfg_agents (rc_raw rc)) uid = Some (name, agent) \<longrightarrow>
       active_certs_for_agent uid e \<le> max 0 (ap_max_concurrent_certs agent))"
proof -
  have "within_limits (new_engine rc)"
    by (simp add: within_limits_def new_engine_def count_of_def Let_def)
  with engine_ok_new have start: "engine_ok (new_engine rc) \<and> within_limits (new_engine rc) \<and> pe_resolved (new_engine rc) = rc"
    by (simp add: new_engine_def)
  from assms start have "engine_ok e \<and> within_limits e \<and> pe_resolved e = rc"
    by (induction rule: rtranclp_induct) (auto dest: issue_step_limits)
  then show ?thesis
    by (auto simp: within_limits_def Let_def active_certs_total_def active_certs_for_agent_def)
qed

theorem serial_issuing_respects_limits_witness:
  "\<exists>e. ev_decision (fst (evaluate 100 sample_request (new_engine sample_resolved))) = Approve \<and>
     e = track_cert 7 1000 ''web'' ''read'' 400 (snd (evaluate 100 sample_request (new_engine sample_resolved))) \<and>
     int (active_certs_total e) \<le> 10"
proof -
  have a: "ev_decision (fst (evaluate 100 sample_request (new_engine sample_resolved))) = Approve"
    "get (pe_certs (snd (evaluate 100 sample_request (new_engine sample_resolved)))) 7 = None"
    "gp_max_active_certs (cfg_global (rc_raw sample_resolved)) = 10"
    by code_simp+
  obtain res e1 where ev: "evaluate 100 sample_request (new_engine sample_resolved) = (res, e1)" by fastforce
  have "issue_step (new_engine sample_resolved) (track_cert 7 (er_agent_uid sample_request)
      (er_target_name sample_request) (er_role_name sample_request) 400 e1)"
    using a by (intro issue [OF ev]) (simp_all add: ev)
  from serial_issuing_respects_limits [OF r_into_rtranclp [of issue_step, OF this]] a ev show ?thesis
    by (auto simp: sample_request_def)
qed

text \<open>
  Without that discipline the limits do not hold: evaluations reserve nothing. Four
  evaluations in a row (concurrent requests, or requests queued for manual approval) all
  pass a limit of three, and the four issues that follow are all tracked.
\<close>

lemma interleaved_issues_exceed_limit:
  "let ask = evaluate 100 sample_request;
       (r1, e1) = ask (new_engine sample_resolved); (r2, e2) = ask e1; (r3, e3) = ask e2; (r4, e4) = ask e3;
       e = fold (\<lambda>s. track_cert s 1000 ''web'' ''read'' 400) [1, 2, 3, 4] e4
   in map ev_decision [r1, r2, r3, r4] = [Approve, Approve, Approve, Approve] \<and>
      map_option ap_max_concurrent_certs (get (cfg_agents sample_config) ''claude'') = Some 3 \<and>
      active_certs_for_agent 1000 e = 4"
  by code_simp

end
