(* ===== verification/Ulid.thy ===== *)
theory Ulid
  imports GoTime "HOL-Library.Word"
begin

text \<open>
  Component \<open>internal/token/ulid.go\<close>: identifiers of tasks. A ULID is the Unix time in
  milliseconds (10 characters) followed by 80 random bits (16 characters), in Crockford's
  base 32, most significant group first. The random bytes are an argument.
\<close>

unbundle bit_operations_syntax

section \<open>Definitions\<close>

definition crockford_base32 :: string where
  "crockford_base32 = ''0123456789ABCDEFGHJKMNPQRSTVWXYZ''"

text \<open>The table \<open>crockfordDecode\<close>: upper and lower case letters, \<open>None\<close> for -1.\<close>

definition crockford_decode :: "char \<Rightarrow> nat option" where
  "crockford_decode c =
     (case map_of (zip crockford_base32 [0..<32]) c of
        Some n \<Rightarrow> Some n
      | None \<Rightarrow> map_of (map (\<lambda>(d, n). (lower_char d, n))
                  (filter (\<lambda>(d, _). CHR ''A'' \<le> d \<and> d \<le> CHR ''Z'') (zip crockford_base32 [0..<32]))) c)"

text \<open>\<open>(w >> n) & 0x1F\<close> as an index into the alphabet.\<close>

definition group_of :: "64 word \<Rightarrow> nat \<Rightarrow> 64 word" where
  "group_of w n = drop_bit n w AND 0x1F"

definition group_char :: "64 word \<Rightarrow> char" where
  "group_char g = crockford_base32 ! unat g"

text \<open>\<open>binary.BigEndian.Uint64\<close> of the first eight bytes and \<open>Uint16\<close> of the last two.\<close>

definition big_endian :: "bytes \<Rightarrow> 64 word" where
  "big_endian bs = fold (\<lambda>c w. push_bit 8 w OR of_nat (of_char c)) bs 0"

definition random_groups :: "64 word \<Rightarrow> 64 word \<Rightarrow> 64 word list" where
  "random_groups r_hi r_lo =
     map (group_of r_hi) [59, 54, 49, 44, 39, 34, 29, 24, 19, 14, 9, 4] @
     [push_bit 1 (r_hi AND 0x0F) OR (drop_bit 15 r_lo AND 0x01)] @
     map (group_of r_lo) [10, 5, 0]"

definition new_ulid_at :: "time \<Rightarrow> bytes \<Rightarrow> string" where
  "new_ulid_at t random_bytes =
     (let ms = (word_of_int (unix_millis t) :: 64 word);
          r_hi = big_endian (take 8 random_bytes);
          r_lo = big_endian (take 2 (drop 8 random_bytes))
      in map group_char (map (group_of ms) [45, 40, 35, 30, 25, 20, 15, 10, 5, 0]) @
         map group_char (random_groups r_hi r_lo))"

fun decode_groups :: "string \<Rightarrow> 64 word \<Rightarrow> 64 word option" where
  "decode_groups [] ms = Some ms"
| "decode_groups (c # cs) ms =
     (case crockford_decode c of
        None \<Rightarrow> None
      | Some v \<Rightarrow> decode_groups cs (push_bit 5 ms OR of_nat v))"

definition ulid_time :: "string \<Rightarrow> time" where
  "ulid_time ident =
     (if length ident \<noteq> 26 then 0
      else case decode_groups (take 10 ident) 0 of
        None \<Rightarrow> 0
      | Some ms \<Rightarrow> from_unix_millis (sint ms))"

definition upper_char :: "char \<Rightarrow> char" where
  "upper_char c = (if CHR ''a'' \<le> c \<and> c \<le> CHR ''z'' then char_of (of_char c - 32 :: nat) else c)"

definition validate_ulid :: "string \<Rightarrow> bool" where
  "validate_ulid ident \<longleftrightarrow>
     length ident = 26 \<and> list_all (\<lambda>c. crockford_decode c \<noteq> None) ident \<and>
     upper_char (ident ! 0) \<le> CHR ''7''"

section \<open>Groups of five bits\<close>

lemma group_take_bit: "group_of w n = take_bit 5 (drop_bit n w)"
proof -
  have "(0x1F :: 64 word) = mask 5" by (simp add: mask_eq_exp_minus_1)
  then show ?thesis by (simp only: group_of_def take_bit_eq_mask)
qed

lemma bit_group: "bit (group_of w n) k \<longleftrightarrow> k < 5 \<and> bit w (n + k)" for w :: "64 word"
  by (simp add: group_take_bit bit_simps)

lemma group_bound: "unat (group_of w n) < 32"
proof -
  have "unat (group_of w n) = take_bit 5 (unat (drop_bit n w))"
    unfolding group_take_bit by (rule unsigned_take_bit_eq)
  then show ?thesis using take_bit_nat_less_exp [of 5 "unat (drop_bit n w)"] by simp
qed

lemma group_step: "push_bit 5 (drop_bit (n + 5) w) OR group_of w n = drop_bit n w" for w :: "64 word"
  by (rule bit_word_eqI) (auto simp: bit_simps bit_group)

lemma group_bits:
  "group_of v n = group_of w n \<Longrightarrow> n \<le> k \<Longrightarrow> k < n + 5 \<Longrightarrow> bit v k = bit w k" for v w :: "64 word"
  using bit_group [of v n "k - n"] bit_group [of w n "k - n"] by fastforce

lemma decode_char: "n < 32 \<Longrightarrow> crockford_decode (crockford_base32 ! n) = Some n"
proof -
  have "\<forall>n \<in> set [0..<32]. crockford_decode (crockford_base32 ! n) = Some n" by code_simp
  then show "n < 32 \<Longrightarrow> crockford_decode (crockford_base32 ! n) = Some n" by simp
qed

lemma decode_group [simp]: "unat g < 32 \<Longrightarrow> crockford_decode (group_char g) = Some (unat g)"
  by (simp add: group_char_def decode_char)

lemma group_char_inj: "unat g < 32 \<Longrightarrow> unat h < 32 \<Longrightarrow> group_char g = group_char h \<Longrightarrow> g = h"
  using decode_group [of g] decode_group [of h] by (simp add: word_unat_eq_iff)

section \<open>Decoding\<close>

lemma decode_step [simp]:
  "decode_groups (group_char (group_of w n) # cs) (drop_bit (n + 5) w) = decode_groups cs (drop_bit n w)"
  by (simp add: group_bound group_step)

lemma decode_time_groups:
  assumes "drop_bit 50 w = 0"
  shows "decode_groups (map group_char (map (group_of w) [45, 40, 35, 30, 25, 20, 15, 10, 5, 0])) 0 = Some w"
  using decode_step [of w 45] decode_step [of w 40] decode_step [of w 35] decode_step [of w 30]
    decode_step [of w 25] decode_step [of w 20] decode_step [of w 15] decode_step [of w 10]
    decode_step [of w 5] decode_step [of w 0] assms
  by (simp del: decode_groups.simps(2) add: decode_groups.simps(1))

lemma high_group:
  "4 \<le> k \<Longrightarrow> k < 64 \<Longrightarrow>
   \<exists>n \<in> set [59, 54, 49, 44, 39, 34, 29, 24, 19, 14, 9, 4]. n \<le> k \<and> k < n + (5::nat)"
proof -
  assume "4 \<le> k" "k < 64"
  then have "k \<in> set [4..<64]" unfolding set_upt by (intro atLeastLessThan_iff [THEN iffD2]) simp
  moreover have "\<forall>k \<in> set [4..<64]. \<exists>n \<in> set [59, 54, 49, 44, 39, 34, 29, 24, 19, 14, 9, 4]. n \<le> k \<and> k < n + (5::nat)"
    by code_simp
  ultimately show ?thesis by (rule bspec [rotated])
qed

lemma bit_middle:
  "bit (push_bit 1 (h AND 0x0F) OR (drop_bit 15 l AND 0x01)) k \<longleftrightarrow>
   (if k = 0 then bit l 15 else k < 5 \<and> bit h (k - 1))" for h l :: "64 word"
proof -
  have m: "(0x0F :: 64 word) = mask 4" "(0x01 :: 64 word) = mask 1" by (simp_all add: mask_eq_exp_minus_1)
  show ?thesis
    unfolding m bit_or_iff bit_push_bit_iff bit_and_iff bit_mask_iff bit_drop_bit_eq
    by (cases k) (auto dest: bit_imp_le_length)
qed

lemma random_groups_inj:
  assumes eq: "random_groups h l = random_groups h' l'" and small: "drop_bit 16 l = 0" "drop_bit 16 l' = 0"
  shows "h = h' \<and> l = l'"
proof
  have hs: "\<forall>n \<in> set [59, 54, 49, 44, 39, 34, 29, 24, 19, 14, 9, 4]. group_of h n = group_of h' n"
    and ls: "\<forall>n \<in> {10, 5, 0}. group_of l n = group_of l' n"
    and mid: "push_bit 1 (h AND 0x0F) OR (drop_bit 15 l AND 0x01) = push_bit 1 (h' AND 0x0F) OR (drop_bit 15 l' AND 0x01)"
    using eq by (simp_all add: random_groups_def)
  have m: "(if k = 0 then bit l 15 else k < 5 \<and> bit h (k - 1)) = (if k = 0 then bit l' 15 else k < 5 \<and> bit h' (k - 1))" for k
    using bit_middle [of h l k] bit_middle [of h' l' k] mid by simp
  show "h = h'"
  proof (rule bit_word_eqI)
    fix k assume "k < LENGTH(64)"
    then consider "k < 4" | "4 \<le> k" "k < 64" by fastforce
    then show "bit h k = bit h' k"
    proof cases
      case 1
      then show ?thesis using m [of "Suc k"] by simp
    next
      case 2
      then show ?thesis using high_group hs group_bits by blast
    qed
  qed
  show "l = l'"
  proof (rule bit_word_eqI)
    fix k :: nat
    consider "k < 15" | "k = 15" | "16 \<le> k" by linarith
    then show "bit l k = bit l' k"
    proof cases
      case 1
      then obtain n where "n \<in> {10, 5, 0}" "n \<le> k" "k < n + 5" by (cases "k < 5"; cases "k < 10") fastforce+
      then show ?thesis using ls group_bits by blast
    next
      case 2
      then show ?thesis using m [of 0] by simp
    next
      case 3
      then have "bit l k = bit (drop_bit 16 l) (k - 16)" "bit l' k = bit (drop_bit 16 l') (k - 16)"
        by (simp_all add: bit_drop_bit_eq)
      then show ?thesis unfolding small by simp
    qed
  qed
qed

section \<open>Generated identifiers\<close>

lemma bit_char: "bit (of_nat (of_char c) :: 64 word) k \<longleftrightarrow> k < 8 \<and> bit (of_char c :: nat) k"
proof -
  have "of_char c = take_bit 8 (of_char c :: nat)"
    using nat_of_char_less_256 [of c] by (simp add: take_bit_nat_eq_self)
  then have "bit (of_char c :: nat) k \<longleftrightarrow> k < 8 \<and> bit (of_char c :: nat) k"
    by (metis bit_take_bit_iff)
  then show ?thesis by (auto simp: bit_simps)
qed

lemma big_endian_snoc:
  "bit (big_endian (bs @ [c])) k \<longleftrightarrow>
   (if k < 8 then bit (of_char c :: nat) k else k < 64 \<and> bit (big_endian bs) (k - 8))"
  unfolding big_endian_def by (auto simp: bit_or_iff bit_char bit_push_bit_iff dest: bit_imp_le_length)

lemma big_endian_high: "8 * length bs \<le> k \<Longrightarrow> \<not> bit (big_endian bs) k"
proof (induction bs arbitrary: k rule: rev_induct)
  case (snoc c bs)
  then show ?case by (auto simp: big_endian_snoc)
qed (simp add: big_endian_def)

lemma big_endian_16: "length bs \<le> 2 \<Longrightarrow> drop_bit 16 (big_endian bs) = 0"
proof (rule bit_word_eqI)
  fix k assume "length bs \<le> 2"
  then have "8 * length bs \<le> 16 + k" by linarith
  then show "bit (drop_bit 16 (big_endian bs)) k = bit 0 k"
    using big_endian_high [of bs "16 + k"] by (simp add: bit_drop_bit_eq)
qed

lemma char_bits: "(\<And>k. k < 8 \<Longrightarrow> bit (of_char c :: nat) k = bit (of_char d :: nat) k) \<Longrightarrow> c = d"
proof -
  assume "\<And>k. k < 8 \<Longrightarrow> bit (of_char c :: nat) k = bit (of_char d :: nat) k"
  then have "(of_nat (of_char c) :: 64 word) = of_nat (of_char d)"
    by (intro bit_word_eqI) (auto simp: bit_char)
  then have "unat (of_nat (of_char c) :: 64 word) = unat (of_nat (of_char d) :: 64 word)" by simp
  then have "(of_char c :: nat) = of_char d"
    using nat_of_char_less_256 [of c] nat_of_char_less_256 [of d]
    by (simp add: unat_of_nat)
  then show "c = d" by simp
qed

lemma big_endian_inj:
  "length bs = length cs \<Longrightarrow> length bs \<le> 8 \<Longrightarrow> big_endian bs = big_endian cs \<Longrightarrow> bs = cs"
proof (induction bs arbitrary: cs rule: rev_induct)
  case (snoc b bs)
  from snoc.prems(1) obtain cs' c where cs: "cs = cs' @ [c]" by (metis append_butlast_last_id length_0_conv snoc_eq_iff_butlast)
  have eq: "bit (big_endian (bs @ [b])) k = bit (big_endian (cs' @ [c])) k" for k
    using snoc.prems(3) cs by simp
  have "b = c"
    by (rule char_bits) (metis eq big_endian_snoc)
  moreover have "big_endian bs = big_endian cs'"
  proof (rule bit_word_eqI)
    fix k
    show "bit (big_endian bs) k = bit (big_endian cs') k"
    proof (cases "k < 56")
      case True
      then show ?thesis using eq [of "k + 8"] by (simp add: big_endian_snoc)
    next
      case False
      then have "8 * length bs \<le> k" "8 * length cs' \<le> k" using snoc.prems(1,2) cs by simp_all
      then show ?thesis by (simp add: big_endian_high)
    qed
  qed
  then have "bs = cs'" using snoc.IH [of cs'] snoc.prems(1,2) cs by simp
  ultimately show ?case by (simp add: cs)
qed simp

lemma small_millis:
  assumes "0 \<le> ms" "ms < 2 ^ 48"
  shows "drop_bit 50 (word_of_int ms :: 64 word) = 0" and "sint (word_of_int ms :: 64 word) = ms"
    and "unat (group_of (word_of_int ms) 45) < 8"
proof -
  have u: "uint (word_of_int ms :: 64 word) = ms" using assms by (simp add: word_of_int_inverse)
  have "drop_bit 50 ms = 0" "drop_bit 45 ms < 8" using assms by (simp_all add: drop_bit_eq_div)
  then show "drop_bit 50 (word_of_int ms :: 64 word) = 0"
    using assms
    by (simp add: uint_0_iff [symmetric] unsigned_drop_bit_eq u take_bit_int_eq_self del: uint_word_of_int uint_0_iff)
  show "sint (word_of_int ms :: 64 word) = ms"
    using assms by (simp add: sint_uint u signed_take_bit_int_eq_self)
  have "uint (group_of (word_of_int ms) 45) = take_bit 5 (drop_bit 45 ms)"
    using assms
    by (simp add: group_take_bit unsigned_take_bit_eq unsigned_drop_bit_eq u take_bit_int_eq_self del: uint_word_of_int)
  moreover have "take_bit 5 (drop_bit 45 ms) \<le> drop_bit 45 ms"
    using assms by (simp add: take_bit_int_less_eq_self_iff)
  ultimately show "unat (group_of (word_of_int ms) 45) < 8"
    using \<open>drop_bit 45 ms < 8\<close> by (simp add: unat_eq_nat_uint nat_less_iff)
qed

lemma low_digit: "n < 8 \<Longrightarrow> upper_char (crockford_base32 ! n) \<le> CHR ''7''"
proof -
  have "\<forall>n \<in> set [0..<8]. upper_char (crockford_base32 ! n) \<le> CHR ''7''" by code_simp
  then show "n < 8 \<Longrightarrow> upper_char (crockford_base32 ! n) \<le> CHR ''7''" by simp
qed

lemma random_groups_bound: "g \<in> set (random_groups h l) \<Longrightarrow> unat g < 32"
proof -
  define m where "m = push_bit 1 (h AND 0x0F) OR (drop_bit 15 l AND 0x01)"
  have "m = take_bit 5 m"
    by (rule bit_word_eqI) (simp only: m_def bit_take_bit_iff bit_middle, auto)
  then have "unat m = take_bit 5 (unat m)" by (metis unsigned_take_bit_eq)
  then have "unat m < 32" using take_bit_nat_less_exp [of 5 "unat m"] by simp
  then show "g \<in> set (random_groups h l) \<Longrightarrow> unat g < 32"
    unfolding random_groups_def m_def [symmetric] using group_bound by auto
qed

lemma map_group_char_inj:
  "list_all (\<lambda>g. unat g < 32) gs \<Longrightarrow> list_all (\<lambda>g. unat g < 32) hs \<Longrightarrow>
   map group_char gs = map group_char hs \<Longrightarrow> gs = hs"
proof (induction gs arbitrary: hs)
  case (Cons g gs)
  then show ?case by (cases hs) (auto dest: group_char_inj)
qed simp

lemma ulid_length: "length (new_ulid_at t rnd) = 26"
  by (simp add: new_ulid_at_def Let_def random_groups_def)

lemma ulid_time_new:
  assumes "0 \<le> unix_millis t" "unix_millis t < 2 ^ 48"
  shows "ulid_time (new_ulid_at t rnd) = from_unix_millis (unix_millis t)"
proof -
  let ?w = "word_of_int (unix_millis t) :: 64 word"
  have "take 10 (new_ulid_at t rnd) = map group_char (map (group_of ?w) [45, 40, 35, 30, 25, 20, 15, 10, 5, 0])"
    by (simp add: new_ulid_at_def Let_def)
  with decode_time_groups [OF small_millis(1) [OF assms]] small_millis(2) [OF assms] show ?thesis
    by (simp add: ulid_time_def ulid_length del: list.map)
qed

lemma ulid_valid:
  assumes "0 \<le> unix_millis t" "unix_millis t < 2 ^ 48"
  shows "validate_ulid (new_ulid_at t rnd)"
proof -
  let ?w = "word_of_int (unix_millis t) :: 64 word"
  have "new_ulid_at t rnd ! 0 = crockford_base32 ! unat (group_of ?w 45)"
    by (simp add: new_ulid_at_def Let_def group_char_def)
  moreover have "list_all (\<lambda>c. crockford_decode c \<noteq> None) (new_ulid_at t rnd)"
    unfolding new_ulid_at_def Let_def list_all_iff
    by (auto simp: group_bound random_groups_bound simp del: crockford_decode_def)
  ultimately show ?thesis
    using low_digit [OF small_millis(3) [OF assms]] by (simp add: validate_ulid_def ulid_length)
qed

lemma ulid_random_inj:
  assumes "new_ulid_at t rnd = new_ulid_at t' rnd'" "length rnd = 10" "length rnd' = 10"
  shows "rnd = rnd'"
proof -
  let ?h = "\<lambda>r. big_endian (take 8 r)" and ?l = "\<lambda>r. big_endian (take 2 (drop 8 r))"
  have "map group_char (random_groups (?h rnd) (?l rnd)) = map group_char (random_groups (?h rnd') (?l rnd'))"
    using arg_cong [OF assms(1), of "drop 10"] by (simp add: new_ulid_at_def Let_def)
  then have "random_groups (?h rnd) (?l rnd) = random_groups (?h rnd') (?l rnd')"
    by (rule map_group_char_inj [rotated 2]) (simp_all add: list_all_iff random_groups_bound)
  then have "?h rnd = ?h rnd' \<and> ?l rnd = ?l rnd'"
    by (rule random_groups_inj) (simp_all add: big_endian_16)
  then have "take 8 rnd = take 8 rnd'" "take 2 (drop 8 rnd) = take 2 (drop 8 rnd')"
    using assms(2,3) by (auto intro: big_endian_inj)
  moreover have "r = take 8 r @ take 2 (drop 8 r)" if "length r = 10" for r :: string
    using that by simp
  ultimately show ?thesis using assms(2,3) by metis
qed

text \<open>
  Task identifiers are well formed, dated and unambiguous: for times from 1970 to
  the year 10889 a generated ULID has 26 characters and passes \<open>ValidateULID\<close>,
  \<open>ULIDTime\<close> gives back its creation time cut to milliseconds, and two identifiers are
  equal only if they were generated in the same millisecond from the same random bytes.
\<close>

theorem ulid_round_trip:
  assumes "0 \<le> unix_millis t" and "unix_millis t < 2 ^ 48" and "length rnd = 10"
  shows "length (new_ulid_at t rnd) = 26 \<and> validate_ulid (new_ulid_at t rnd) \<and>
    ulid_time (new_ulid_at t rnd) = from_unix_millis (unix_millis t) \<and>
    (\<forall>t' rnd'. 0 \<le> unix_millis t' \<and> unix_millis t' < 2 ^ 48 \<and> length rnd' = 10 \<and>
       new_ulid_at t' rnd' = new_ulid_at t rnd \<longrightarrow> unix_millis t' = unix_millis t \<and> rnd' = rnd)"
proof (intro conjI allI impI)
  fix t' rnd'
  assume *: "0 \<le> unix_millis t' \<and> unix_millis t' < 2 ^ 48 \<and> length rnd' = 10 \<and>
       new_ulid_at t' rnd' = new_ulid_at t rnd"
  then have "from_unix_millis (unix_millis t') = from_unix_millis (unix_millis t)"
    using ulid_time_new [of t' rnd'] ulid_time_new [OF assms(1,2), of rnd] by simp
  then show "unix_millis t' = unix_millis t" by (simp add: from_unix_millis_def)
  show "rnd' = rnd" using * assms(3) ulid_random_inj by blast
qed (rule ulid_length, rule ulid_valid [OF assms(1,2)], rule ulid_time_new [OF assms(1,2)])

theorem ulid_round_trip_witness:
  "ulid_time (new_ulid_at (unix_epoch + 1700000000123456789) (replicate 10 (CHR ''x''))) =
     unix_epoch + 1700000000123000000"
proof -
  have "unix_millis (unix_epoch + 1700000000123456789) = 1700000000123"
    by (simp add: unix_millis_def)
  with ulid_round_trip [of "unix_epoch + 1700000000123456789" "replicate 10 (CHR ''x'')"]
  show ?thesis by (simp add: from_unix_millis_def)
qed

end
