(* ===== verification/Json.thy ===== *)
theory Json
  imports GoTime Encoding
begin

text \<open>
  JSON as the program uses it: the values an untyped \<open>interface{}\<close> holds, \<open>json.Marshal\<close> of
  them and the parser behind \<open>json.Unmarshal\<close>. A number is kept as its literal, a string as
  its bytes; the depth limit of Go's decoder (10000) and the replacement of invalid UTF-8
  are not modelled. \<open>json_parse_text\<close> is the round trip.
\<close>

section \<open>Values and their text\<close>

datatype json =
    JNull
  | JBool bool
  | JNum string
  | JStr string
  | JArr "json list"
  | JObj "(string \<times> json) list"

lemma size_member [termination_simp]:
  "f \<in> set fs \<Longrightarrow> size (snd f) < Suc (size_list (size_prod (\<lambda>_. 0) size) fs)"
  by (induction fs) auto

fun json_text :: "json \<Rightarrow> string" where
  "json_text JNull = ''null''"
| "json_text (JBool b) = format_bool b"
| "json_text (JNum s) = s"
| "json_text (JStr s) = json_string s"
| "json_text (JArr js) = ''['' @ join '','' (map json_text js) @ '']''"
| "json_text (JObj fs) =
     ''{'' @ join '','' (map (\<lambda>f. json_string (fst f) @ '':'' @ json_text (snd f)) fs) @ ''}''"

definition JInt :: "int \<Rightarrow> json" where
  "JInt n = JNum (itoa n)"

section \<open>Parsing\<close>

definition skip_ws :: "string \<Rightarrow> string" where
  "skip_ws s = dropWhile (\<lambda>c. c \<in> {CHR 0x20, CHR 0x09, CHR 0x0A, CHR 0x0D}) s"

definition is_digit :: "char \<Rightarrow> bool" where
  "is_digit c \<longleftrightarrow> digit_val c \<noteq> None"

text \<open>A digit sequence; a literal's fraction and exponent are optional.\<close>

definition scan_digits :: "string \<Rightarrow> (string \<times> string) option" where
  "scan_digits s =
     (if takeWhile is_digit s = [] then None else Some (takeWhile is_digit s, dropWhile is_digit s))"

definition scan_int :: "string \<Rightarrow> (string \<times> string) option" where
  "scan_int s = (case s of c # r \<Rightarrow> if c = CHR ''0'' then Some ([c], r) else scan_digits s | [] \<Rightarrow> None)"

definition scan_fraction :: "string \<Rightarrow> (string \<times> string) option" where
  "scan_fraction s =
     (case s of
        c # r \<Rightarrow> if c = CHR ''.'' then map_option (\<lambda>(ds, r). (c # ds, r)) (scan_digits r) else Some ([], s)
      | [] \<Rightarrow> Some ([], s))"

definition scan_exponent :: "string \<Rightarrow> (string \<times> string) option" where
  "scan_exponent s =
     (case s of
        c # r \<Rightarrow>
          if c = CHR ''e'' \<or> c = CHR ''E''
          then (case r of
                  d # r' \<Rightarrow>
                    if d = CHR ''+'' \<or> d = CHR ''-''
                    then map_option (\<lambda>(ds, r). (c # d # ds, r)) (scan_digits r')
                    else map_option (\<lambda>(ds, r). (c # ds, r)) (scan_digits r)
                | [] \<Rightarrow> None)
          else Some ([], s)
      | [] \<Rightarrow> Some ([], s))"

definition scan_number :: "string \<Rightarrow> (string \<times> string) option" where
  "scan_number s0 =
     (let (sign, s) = (case s0 of c # r \<Rightarrow> if c = CHR ''-'' then ([c], r) else ([], s0) | [] \<Rightarrow> ([], s0)) in
      case scan_int s of None \<Rightarrow> None | Some (ip, s) \<Rightarrow>
      (case scan_fraction s of None \<Rightarrow> None | Some (fp, s) \<Rightarrow>
      (case scan_exponent s of None \<Rightarrow> None | Some (ep, s) \<Rightarrow> Some (sign @ ip @ fp @ ep, s))))"

definition hex_val :: "char \<Rightarrow> nat option" where
  "hex_val c =
     (let n = (of_char c :: nat) in
      if 48 \<le> n \<and> n \<le> 57 then Some (n - 48)
      else if 97 \<le> n \<and> n \<le> 102 then Some (n - 87)
      else if 65 \<le> n \<and> n \<le> 70 then Some (n - 55)
      else None)"

definition hex4 :: "string \<Rightarrow> nat option" where
  "hex4 s =
     (if length s < 4 \<or> None \<in> set (map hex_val (take 4 s)) then None
      else Some (fold (\<lambda>c n. n * 16 + the (hex_val c)) (take 4 s) 0))"

definition utf8 :: "nat \<Rightarrow> string" where
  "utf8 n =
     (if n < 128 then [char_of n]
      else if n < 2048 then [char_of (192 + n div 64), char_of (128 + n mod 64)]
      else if n < 65536
      then [char_of (224 + n div 4096), char_of (128 + n div 64 mod 64), char_of (128 + n mod 64)]
      else [char_of (240 + n div 262144), char_of (128 + n div 4096 mod 64),
            char_of (128 + n div 64 mod 64), char_of (128 + n mod 64)])"

definition escape_char :: "char \<Rightarrow> char option" where
  "escape_char e =
     map_of [(CHR 0x22, CHR 0x22), (CHR 0x5C, CHR 0x5C), (CHR ''/'', CHR ''/''), (CHR ''b'', CHR 0x08),
       (CHR ''f'', CHR 0x0C), (CHR ''n'', CHR 0x0A), (CHR ''r'', CHR 0x0D), (CHR ''t'', CHR 0x09)] e"

text \<open>The rest of a string literal after its opening quote.\<close>

fun parse_str :: "string \<Rightarrow> (string \<times> string) option" where
  "parse_str [] = None"
| "parse_str (c # s) =
     (if c = CHR 0x22 then Some ([], s)
      else if (of_char c :: nat) < 32 then None
      else if c \<noteq> CHR 0x5C then map_option (\<lambda>(t, r). (c # t, r)) (parse_str s)
      else if s = [] then None
      else if hd s = CHR ''u'' then
        (case hex4 (tl s) of
           None \<Rightarrow> None
         | Some n \<Rightarrow>
             let r = drop 4 (tl s);
                 low = (if take 2 r = [CHR 0x5C, CHR ''u''] then hex4 (drop 2 r) else None) in
             if 55296 \<le> n \<and> n < 56320 \<and> low \<noteq> None \<and> 56320 \<le> the low \<and> the low < 57344
             then map_option (\<lambda>(t, r'). (utf8 (65536 + (n - 55296) * 1024 + (the low - 56320)) @ t, r'))
                    (parse_str (drop 10 (tl s)))
             else if 55296 \<le> n \<and> n < 57344
             then map_option (\<lambda>(t, r'). (utf8 65533 @ t, r')) (parse_str (drop 4 (tl s)))
             else map_option (\<lambda>(t, r'). (utf8 n @ t, r')) (parse_str (drop 4 (tl s))))
      else (case escape_char (hd s) of
              None \<Rightarrow> None
            | Some d \<Rightarrow> map_option (\<lambda>(t, r). (d # t, r)) (parse_str (tl s))))"

declare parse_str.simps(2) [simp del]

text \<open>
  The recursive descent takes fuel. A value consumes a character and an item list calls for
  a value, so twice the length of the text is enough (\<open>json_parse\<close>).
\<close>

fun parse_value :: "nat \<Rightarrow> string \<Rightarrow> (json \<times> string) option"
  and parse_items :: "nat \<Rightarrow> string \<Rightarrow> (json list \<times> string) option"
  and parse_members :: "nat \<Rightarrow> string \<Rightarrow> ((string \<times> json) list \<times> string) option"
where
  "parse_value 0 s = None"
| "parse_value (Suc n) s0 =
     (case skip_ws s0 of
        [] \<Rightarrow> None
      | c # r \<Rightarrow>
          if c = CHR 0x22 then map_option (\<lambda>(t, r). (JStr t, r)) (parse_str r)
          else if c = CHR ''['' then
            (if has_prefix '']'' (skip_ws r) then Some (JArr [], tl (skip_ws r))
             else map_option (\<lambda>(js, r). (JArr js, r)) (parse_items n r))
          else if c = CHR ''{'' then
            (if has_prefix ''}'' (skip_ws r) then Some (JObj [], tl (skip_ws r))
             else map_option (\<lambda>(fs, r). (JObj fs, r)) (parse_members n r))
          else if has_prefix ''null'' (c # r) then Some (JNull, drop 4 (c # r))
          else if has_prefix ''true'' (c # r) then Some (JBool True, drop 4 (c # r))
          else if has_prefix ''false'' (c # r) then Some (JBool False, drop 5 (c # r))
          else map_option (\<lambda>(l, r). (JNum l, r)) (scan_number (c # r)))"
| "parse_items 0 s = None"
| "parse_items (Suc n) s =
     (case parse_value n s of
        None \<Rightarrow> None
      | Some (j, r) \<Rightarrow>
          if has_prefix '','' (skip_ws r)
          then map_option (\<lambda>(js, r). (j # js, r)) (parse_items n (tl (skip_ws r)))
          else if has_prefix '']'' (skip_ws r) then Some ([j], tl (skip_ws r))
          else None)"
| "parse_members 0 s = None"
| "parse_members (Suc n) s =
     (if \<not> has_prefix [CHR 0x22] (skip_ws s) then None
      else case parse_str (tl (skip_ws s)) of
        None \<Rightarrow> None
      | Some (k, r) \<Rightarrow>
          if \<not> has_prefix '':'' (skip_ws r) then None
          else (case parse_value n (tl (skip_ws r)) of
             None \<Rightarrow> None
           | Some (j, r) \<Rightarrow>
               if has_prefix '','' (skip_ws r)
               then map_option (\<lambda>(fs, r). ((k, j) # fs, r)) (parse_members n (tl (skip_ws r)))
               else if has_prefix ''}'' (skip_ws r) then Some ([(k, j)], tl (skip_ws r))
               else None))"

definition json_parse :: "string \<Rightarrow> json option" where
  "json_parse s =
     (case parse_value (2 * length s + 1) s of
        Some (j, r) \<Rightarrow> if skip_ws r = [] then Some j else None
      | None \<Rightarrow> None)"

section \<open>Round trip\<close>

lemma hex_val_digit: "n < 16 \<Longrightarrow> hex_val (hex_digit n) = Some n"
  by (simp add: hex_val_def hex_digit_def Let_def)

lemma hex_val_0 [simp]: "hex_val CHR ''0'' = Some 0"
  by code_simp

lemma hex4_digits:
  "a < 16 \<Longrightarrow> b < 16 \<Longrightarrow>
   hex4 (CHR ''0'' # CHR ''0'' # hex_digit a # hex_digit b # t) = Some (a * 16 + b)"
  by (simp add: hex4_def hex_val_digit)

lemma parse_str_unicode:
  assumes "n < 128"
  shows "parse_str (CHR 0x5C # CHR ''u'' # CHR ''0'' # CHR ''0'' # hex_digit (n div 16) # hex_digit (n mod 16) # t) =
   map_option (\<lambda>(s, r). (char_of n # s, r)) (parse_str t)"
proof -
  have h: "hex4 (CHR ''0'' # CHR ''0'' # hex_digit (n div 16) # hex_digit (n mod 16) # t) = Some n"
    using hex4_digits [of "n div 16" "n mod 16" t] assms by simp
  have "utf8 n = [char_of n]" using assms by (simp add: utf8_def)
  with assms show ?thesis
    by (subst parse_str.simps(2)) (simp add: h Let_def)
qed

lemma char_of_48: "char_of (48 :: nat) = CHR ''0''"
  by (rule of_char_eq_iff [where 'a = nat, THEN iffD1], simp)

lemma control_chars:
  "(of_char c :: nat) = 8 \<Longrightarrow> c = CHR 0x08" "(of_char c :: nat) = 12 \<Longrightarrow> c = CHR 0x0C"
  "(of_char c :: nat) = 10 \<Longrightarrow> c = CHR 0x0A" "(of_char c :: nat) = 13 \<Longrightarrow> c = CHR 0x0D"
  "(of_char c :: nat) = 9 \<Longrightarrow> c = CHR 0x09"
  by (rule of_char_eq_iff [where 'a = nat, THEN iffD1], simp)+

lemma json_char_cases:
  obtains "c = CHR 0x22" | "c = CHR 0x5C"
  | e where "json_char c = [CHR 0x5C, e]" "e \<noteq> CHR ''u''" "escape_char e = Some c"
  | "(of_char c :: nat) < 128"
    "json_char c = CHR 0x5C # ''u00'' @ [hex_digit (of_char c div 16), hex_digit (of_char c mod 16)]"
  | "json_char c = [c]" "c \<noteq> CHR 0x22" "c \<noteq> CHR 0x5C" "\<not> (of_char c :: nat) < 32"
proof -
  define n where "n = (of_char c :: nat)"
  have c: "c = char_of n" by (simp add: n_def)
  consider "c = CHR 0x22" | "c = CHR 0x5C" | "c \<noteq> CHR 0x22" "c \<noteq> CHR 0x5C" "n = 8"
    | "c \<noteq> CHR 0x22" "c \<noteq> CHR 0x5C" "n = 12" | "c \<noteq> CHR 0x22" "c \<noteq> CHR 0x5C" "n = 10"
    | "c \<noteq> CHR 0x22" "c \<noteq> CHR 0x5C" "n = 13" | "c \<noteq> CHR 0x22" "c \<noteq> CHR 0x5C" "n = 9"
    | "c \<noteq> CHR 0x22" "c \<noteq> CHR 0x5C" "n \<notin> {8, 12, 10, 13, 9}" by auto
  then show thesis
  proof cases
    case 8
    show thesis
    proof (cases "n < 32 \<or> c \<in> {CHR ''<'', CHR ''>'', CHR ''&''}")
      case True
      then have "n < 128" by (auto simp: n_def)
      with True 8 show thesis
        by (intro that(4)) (simp_all add: json_char_def n_def [symmetric] Let_def)
    next
      case False
      with 8 show thesis
        by (intro that(5)) (simp_all add: json_char_def n_def [symmetric] Let_def)
    qed
  qed (use that control_chars [of c] in \<open>auto simp: json_char_def escape_char_def n_def Let_def\<close>)
qed

lemma parse_str_char:
  "parse_str (json_char c @ t) = map_option (\<lambda>(s, r). (c # s, r)) (parse_str t)"
proof (cases rule: json_char_cases [of c])
  case 1
  then show ?thesis by (simp add: json_char_def parse_str.simps(2) [of "CHR 0x5C"] escape_char_def)
next
  case 2
  then show ?thesis by (simp add: json_char_def parse_str.simps(2) [of "CHR 0x5C"] escape_char_def)
next
  case (3 e)
  then show ?thesis by (simp add: parse_str.simps(2) [of "CHR 0x5C"])
next
  case 4
  then show ?thesis using parse_str_unicode [OF 4(1), of t] by simp
next
  case 5
  then show ?thesis by (simp add: parse_str.simps(2) [of c])
qed

lemma parse_str_text:
  "parse_str (concat (map json_char s) @ CHR 0x22 # r) = Some (s, r)"
  by (induction s) (simp_all add: parse_str.simps(2) [of "CHR 0x22"] parse_str_char)

lemma is_digit_digit: "0 \<le> n \<Longrightarrow> n < 10 \<Longrightarrow> is_digit (digit n)"
  by (simp add: is_digit_def)

lemma digits_of_digits: "c \<in> set (digits_of n) \<Longrightarrow> is_digit c"
proof (induction n rule: less_induct)
  case (less n)
  show ?case
    using less.prems less.IH [of "n div 10"] digits_of.simps [of n]
    by (auto simp: is_digit_digit split: if_splits)
qed

lemma digits_of_no_zero: "0 < n \<Longrightarrow> hd (digits_of n) \<noteq> CHR ''0''"
proof (induction n rule: less_induct)
  case (less n)
  show ?case
  proof (cases "n < 10")
    case True
    then have "(of_char (digit (int n)) :: nat) \<noteq> of_char CHR ''0''"
      using less.prems by (simp add: digit_def)
    then have "digit (int n) \<noteq> CHR ''0''" by metis
    then show ?thesis using True by (simp add: digits_of.simps)
  next
    case False
    then have "hd (digits_of (n div 10)) \<noteq> CHR ''0''" by (intro less.IH) simp_all
    then show ?thesis using False by (subst digits_of.simps) simp
  qed
qed

text \<open>What may follow a value: the end of the text, a comma or a closing bracket.\<close>

definition closes :: "string \<Rightarrow> bool" where
  "closes r \<longleftrightarrow> r = [] \<or> hd r \<in> {CHR '','', CHR '']'', CHR ''}''}"

lemma closes_simps [simp]: "closes []" "closes (CHR '','' # r)" "closes (CHR '']'' # r)" "closes (CHR ''}'' # r)"
  by (simp_all add: closes_def)

lemma closesE:
  assumes "closes r"
  shows "takeWhile is_digit r = []" "scan_fraction r = Some ([], r)" "scan_exponent r = Some ([], r)"
  using assms
  by (cases r; auto simp: closes_def is_digit_def digit_val_def scan_fraction_def scan_exponent_def)+

lemma scan_int_digits: "closes r \<Longrightarrow> scan_int (digits_of n @ r) = Some (digits_of n, r)"
proof (cases "n = 0")
  case True
  then have "digits_of n = ''0''" by (simp add: digits_of.simps digit_def char_of_48)
  then show ?thesis by (simp add: scan_int_def)
next
  case False
  assume r: "closes r"
  obtain c cs where ds: "digits_of n = c # cs" by (cases "digits_of n") auto
  have "takeWhile is_digit (digits_of n @ r) = digits_of n" "dropWhile is_digit (digits_of n @ r) = r"
    using digits_of_digits closesE(1) [OF r]
    by (simp_all add: takeWhile_append2 dropWhile_append2, metis takeWhile_dropWhile_id append_Nil)
  moreover have "c \<noteq> CHR ''0''" using digits_of_no_zero [of n] False ds by simp
  ultimately show ?thesis by (simp add: scan_int_def scan_digits_def ds)
qed

lemma scan_number_itoa: "closes r \<Longrightarrow> scan_number (itoa n @ r) = Some (itoa n, r)"
proof -
  assume r: "closes r"
  obtain c cs where ds: "digits_of (nat n) = c # cs" by (cases "digits_of (nat n)") auto
  then have "is_digit c" using digits_of_digits [of c "nat n"] by simp
  then have "c \<noteq> CHR ''-''" by (auto simp: is_digit_def digit_val_def)
  with r scan_int_digits [OF r, of "nat n"] scan_int_digits [OF r, of "nat (- n)"] closesE [OF r] ds
  show ?thesis by (auto simp: scan_number_def itoa_def)
qed

text \<open>Values whose numbers are integers, as everything the program marshals.\<close>

fun json_ok :: "json \<Rightarrow> bool" where
  "json_ok (JNum s) \<longleftrightarrow> (\<exists>n. s = itoa n)"
| "json_ok (JArr js) \<longleftrightarrow> (\<forall>j \<in> set js. json_ok j)"
| "json_ok (JObj fs) \<longleftrightarrow> (\<forall>f \<in> set fs. json_ok (snd f))"
| "json_ok _ \<longleftrightarrow> True"

lemma json_ok_JInt [simp]: "json_ok (JInt n)"
  by (auto simp: JInt_def)

fun fuel_for :: "json \<Rightarrow> nat" where
  "fuel_for (JArr js) = Suc (sum_list (map (\<lambda>j. Suc (fuel_for j)) js))"
| "fuel_for (JObj fs) = Suc (sum_list (map (\<lambda>f. Suc (fuel_for (snd f))) fs))"
| "fuel_for _ = 1"

lemma skip_ws_Cons: "c \<notin> {CHR 0x20, CHR 0x09, CHR 0x0A, CHR 0x0D} \<Longrightarrow> skip_ws (c # s) = c # s"
  by (simp add: skip_ws_def)

lemma skip_ws_Nil [simp]: "skip_ws [] = []"
  by (simp add: skip_ws_def)

lemma skip_ws_punct [simp]:
  "skip_ws (CHR '','' # r) = CHR '','' # r" "skip_ws (CHR '']'' # r) = CHR '']'' # r"
  "skip_ws (CHR ''}'' # r) = CHR ''}'' # r" "skip_ws (CHR '':'' # r) = CHR '':'' # r"
  "skip_ws (CHR 0x22 # r) = CHR 0x22 # r" "skip_ws (CHR ''['' # r) = CHR ''['' # r"
  "skip_ws (CHR ''{'' # r) = CHR ''{'' # r"
  by (simp_all add: skip_ws_def)

lemma itoa_head:
  obtains c cs where "itoa n = c # cs" "is_digit c \<or> c = CHR ''-''"
proof (cases "n < 0")
  case False
  obtain c cs where "digits_of (nat n) = c # cs" by (cases "digits_of (nat n)") auto
  with digits_of_digits [of c "nat n"] False show ?thesis by (intro that [of c cs]) (simp_all add: itoa_def)
qed (use that in \<open>simp add: itoa_def\<close>)

lemma not_digit_punct [simp]:
  "\<not> is_digit CHR ''['' \<and> \<not> is_digit CHR ''{'' \<and> \<not> is_digit CHR 0x22 \<and> \<not> is_digit CHR ''n'' \<and>
   \<not> is_digit CHR ''t'' \<and> \<not> is_digit CHR ''f'' \<and> \<not> is_digit CHR '']'' \<and> \<not> is_digit CHR ''}'' \<and>
   \<not> is_digit CHR 0x20 \<and> \<not> is_digit CHR 0x09 \<and> \<not> is_digit CHR 0x0A \<and> \<not> is_digit CHR 0x0D"
  by (simp add: is_digit_def digit_val_def)

lemma json_text_head:
  assumes "json_ok j"
  obtains c s where "json_text j = c # s" "skip_ws (c # s @ r) = c # s @ r" "c \<noteq> CHR '']''"
proof -
  have "\<exists>c s. json_text j = c # s \<and> c \<notin> {CHR 0x20, CHR 0x09, CHR 0x0A, CHR 0x0D, CHR '']''}"
  proof (cases j)
    case (JNum l)
    with assms obtain n where "l = itoa n" by auto
    obtain c cs where c: "itoa n = c # cs" "is_digit c \<or> c = CHR ''-''" by (rule itoa_head)
    then have "c \<notin> {CHR 0x20, CHR 0x09, CHR 0x0A, CHR 0x0D, CHR '']''}" using not_digit_punct by auto
    with c(1) JNum \<open>l = itoa n\<close> show ?thesis by simp
  qed (auto simp: format_bool_def json_string_def)
  then show ?thesis using that skip_ws_Cons by fastforce
qed

lemma parse_value_num:
  assumes "closes r"
  shows "parse_value (Suc n) (itoa k @ r) = Some (JNum (itoa k), r)"
proof -
  obtain c cs where c: "itoa k = c # cs" "is_digit c \<or> c = CHR ''-''" by (rule itoa_head)
  then have "c \<notin> {CHR 0x20, CHR 0x09, CHR 0x0A, CHR 0x0D}" "c \<noteq> CHR 0x22" "c \<noteq> CHR ''[''" "c \<noteq> CHR ''{''"
    "c \<noteq> CHR ''n''" "c \<noteq> CHR ''t''" "c \<noteq> CHR ''f''"
    using not_digit_punct by auto
  with scan_number_itoa [OF assms, of k] show ?thesis
    by (simp add: c(1) skip_ws_Cons)
qed

lemma parse_member_key:
  "skip_ws (json_string k @ r) = CHR 0x22 # concat (map json_char k) @ CHR 0x22 # r"
  by (simp add: json_string_def)

lemma parse_items_text:
  assumes "\<And>j n r. j \<in> set js \<Longrightarrow> closes r \<Longrightarrow> fuel_for j \<le> n \<Longrightarrow> parse_value n (json_text j @ r) = Some (j, r)"
    and "js \<noteq> []" and "sum_list (map (\<lambda>j. Suc (fuel_for j)) js) \<le> n"
  shows "parse_items n (join '','' (map json_text js) @ CHR '']'' # r) = Some (js, r)"
  using assms
proof (induction js arbitrary: n)
  case (Cons j js)
  then obtain m where n: "n = Suc m" "fuel_for j \<le> m" by (cases n) auto
  show ?case
  proof (cases js)
    case Nil
    with Cons.prems(1) [of j "CHR '']'' # r" m] n show ?thesis by simp
  next
    case (Cons j' js')
    define t where "t = join '','' (map json_text js) @ CHR '']'' # r"
    have "join '','' (map json_text (j # js)) @ CHR '']'' # r = json_text j @ CHR '','' # t"
      by (simp add: t_def Cons)
    moreover have "parse_items m t = Some (js, r)"
      using Cons.IH [of m] Cons.prems n Cons by (simp add: t_def)
    ultimately show ?thesis
      using Cons.prems(1) [of j "CHR '','' # t" m] n by simp
  qed
qed simp

lemma parse_members_text:
  assumes "\<And>j n r. j \<in> snd ` set fs \<Longrightarrow> closes r \<Longrightarrow> fuel_for j \<le> n \<Longrightarrow> parse_value n (json_text j @ r) = Some (j, r)"
    and "fs \<noteq> []" and "sum_list (map (\<lambda>f. Suc (fuel_for (snd f))) fs) \<le> n"
  shows "parse_members n (join '','' (map (\<lambda>f. json_string (fst f) @ '':'' @ json_text (snd f)) fs) @ CHR ''}'' # r) =
    Some (fs, r)"
  using assms
proof (induction fs arbitrary: n)
  case (Cons f fs)
  obtain k j where f: "f = (k, j)" by (cases f)
  with Cons.prems obtain m where n: "n = Suc m" "fuel_for j \<le> m" by (cases n) auto
  show ?case
  proof (cases fs)
    case Nil
    with Cons.prems(1) [of j "CHR ''}'' # r" m] n show ?thesis
      by (simp add: f parse_member_key parse_str_text)
  next
    case (Cons f' fs')
    define t where "t = join '','' (map (\<lambda>f. json_string (fst f) @ '':'' @ json_text (snd f)) fs) @ CHR ''}'' # r"
    have "join '','' (map (\<lambda>f. json_string (fst f) @ '':'' @ json_text (snd f)) (f # fs)) @ CHR ''}'' # r =
        json_string k @ CHR '':'' # json_text j @ CHR '','' # t"
      by (simp add: t_def Cons f)
    moreover have "parse_members m t = Some (fs, r)"
      using Cons.IH [of m] Cons.prems n Cons f by (simp add: t_def)
    ultimately show ?thesis
      using Cons.prems(1) [of j "CHR '','' # t" m] n
      by (simp add: f parse_member_key parse_str_text)
  qed
qed simp

lemma parse_value_arr:
  "parse_value (Suc n) (CHR ''['' # s) =
     (if has_prefix '']'' (skip_ws s) then Some (JArr [], tl (skip_ws s))
      else map_option (\<lambda>(js, r). (JArr js, r)) (parse_items n s))"
  by simp

lemma parse_value_obj:
  "parse_value (Suc n) (CHR ''{'' # s) =
     (if has_prefix ''}'' (skip_ws s) then Some (JObj [], tl (skip_ws s))
      else map_option (\<lambda>(fs, r). (JObj fs, r)) (parse_members n s))"
  by simp

lemma join_head: "xs \<noteq> [] \<Longrightarrow> \<exists>t. join sep xs = hd xs @ t"
  by (induction sep xs rule: join.induct) auto

lemma parse_value_text:
  "json_ok j \<Longrightarrow> closes r \<Longrightarrow> fuel_for j \<le> n \<Longrightarrow> parse_value n (json_text j @ r) = Some (j, r)"
proof (induction j arbitrary: n r)
  case JNull
  then show ?case by (cases n) (simp_all add: skip_ws_Cons)
next
  case (JBool b)
  then show ?case by (cases n; cases b) (simp_all add: skip_ws_Cons format_bool_def)
next
  case (JNum l)
  then show ?case by (cases n) (auto simp: parse_value_num simp del: parse_value.simps(2))
next
  case (JStr s)
  then show ?case by (cases n) (simp_all add: parse_member_key parse_str_text)
next
  case (JArr js)
  then obtain m where n: "n = Suc m" "sum_list (map (\<lambda>j. Suc (fuel_for j)) js) \<le> m" by (cases n) auto
  show ?case
  proof (cases js)
    case Nil
    then show ?thesis by (simp add: n)
  next
    case (Cons j js')
    define s where "s = join '','' (map json_text js) @ CHR '']'' # r"
    have "json_ok j" using JArr.prems Cons by simp
    obtain t where "join '','' (map json_text js) = json_text j @ t"
      using join_head [of "map json_text js"] Cons by auto
    then have "\<not> has_prefix '']'' (skip_ws s)"
      using json_text_head [OF \<open>json_ok j\<close>, of "t @ CHR '']'' # r"] by (fastforce simp: s_def)
    moreover have "parse_items m s = Some (js, r)"
      unfolding s_def using JArr Cons n(2) by (intro parse_items_text) auto
    ultimately have "parse_value n (CHR ''['' # s) = Some (JArr js, r)"
      by (simp only: n parse_value_arr) simp
    then show ?thesis by (simp add: s_def)
  qed
next
  case (JObj fs)
  then obtain m where n: "n = Suc m" "sum_list (map (\<lambda>f. Suc (fuel_for (snd f))) fs) \<le> m" by (cases n) auto
  show ?case
  proof (cases fs)
    case Nil
    then show ?thesis by (simp add: n)
  next
    case (Cons f fs')
    define s where "s = join '','' (map (\<lambda>f. json_string (fst f) @ '':'' @ json_text (snd f)) fs) @ CHR ''}'' # r"
    obtain t where "join '','' (map (\<lambda>f. json_string (fst f) @ '':'' @ json_text (snd f)) fs) =
        (json_string (fst f) @ '':'' @ json_text (snd f)) @ t"
      using join_head [of "map (\<lambda>f. json_string (fst f) @ '':'' @ json_text (snd f)) fs" "'',''"]
      unfolding Cons by auto
    then have "s = json_string (fst f) @ '':'' @ json_text (snd f) @ t @ CHR ''}'' # r" by (simp add: s_def)
    then have "\<not> has_prefix ''}'' (skip_ws s)" by (simp add: parse_member_key)
    moreover have "parse_members m s = Some (fs, r)"
      unfolding s_def
    proof (rule parse_members_text)
      fix j n r
      assume "j \<in> snd ` set fs" "closes r" "fuel_for j \<le> n"
      then show "parse_value n (json_text j @ r) = Some (j, r)"
        using JObj by (auto intro: JObj.IH snds.intros)
    qed (use Cons n(2) in simp_all)
    ultimately have "parse_value n (CHR ''{'' # s) = Some (JObj fs, r)"
      by (simp only: n parse_value_obj) simp
    then show ?thesis by (simp add: s_def)
  qed
qed

lemma length_join: "sum_list (map length xs) \<le> length (join sep xs)"
  by (induction sep xs rule: join.induct) auto

lemma sum_list_twice:
  "(\<And>x. x \<in> set xs \<Longrightarrow> f x \<le> 2 * g x) \<Longrightarrow> sum_list (map f xs) \<le> 2 * sum_list (map g xs)" for f g :: "'a \<Rightarrow> nat"
  by (induction xs) (auto simp: add_mono)

lemma fuel_bound: "json_ok j \<Longrightarrow> fuel_for j < 2 * length (json_text j)"
proof (induction j)
  case (JNum l)
  then obtain n where "l = itoa n" by auto
  moreover obtain c cs where "itoa n = c # cs" by (rule itoa_head)
  ultimately show ?case by simp
next
  case (JArr js)
  have "sum_list (map (\<lambda>j. Suc (fuel_for j)) js) \<le> 2 * sum_list (map (\<lambda>j. length (json_text j)) js)"
    using JArr by (intro sum_list_twice) (simp add: Suc_le_eq)
  with length_join [of "map json_text js" "'',''"] show ?case by (simp add: comp_def)
next
  case (JObj fs)
  have "Suc (fuel_for (snd f)) \<le> 2 * length (json_string (fst f) @ '':'' @ json_text (snd f))" if "f \<in> set fs" for f
  proof -
    have "fuel_for (snd f) < 2 * length (json_text (snd f))"
    proof (rule JObj.IH [OF that])
      show "snd f \<in> Basic_BNFs.snds f" by (cases f) (simp add: snds.intros)
      show "json_ok (snd f)" using JObj.prems that by simp
    qed
    then show ?thesis by simp
  qed
  then have "sum_list (map (\<lambda>f. Suc (fuel_for (snd f))) fs) \<le>
      2 * sum_list (map (\<lambda>f. length (json_string (fst f) @ '':'' @ json_text (snd f))) fs)"
    by (rule sum_list_twice)
  with length_join [of "map (\<lambda>f. json_string (fst f) @ '':'' @ json_text (snd f)) fs" "'',''"]
  show ?case by (simp add: comp_def)
qed (simp_all add: format_bool_def json_string_def)

theorem json_parse_text: "json_ok j \<Longrightarrow> json_parse (json_text j) = Some j"
  using parse_value_text [of j "[]" "2 * length (json_text j) + 1"] fuel_bound [of j]
  by (simp add: json_parse_def)

section \<open>Decoding into Go values\<close>

text \<open>
  \<open>json.Unmarshal\<close> into a struct: a key sets the field with that name up to case, a later key
  overwrites an earlier one, other keys are ignored and \<open>null\<close> leaves the field as it is.
  Each reader takes the value so far and returns \<open>None\<close> for a value of the wrong type.
\<close>

definition read_string :: "json \<Rightarrow> string \<Rightarrow> string option" where
  "read_string j old = (case j of JStr s \<Rightarrow> Some s | JNull \<Rightarrow> Some old | _ \<Rightarrow> None)"

definition read_int :: "json \<Rightarrow> int \<Rightarrow> int option" where
  "read_int j old =
     (case j of
        JNum l \<Rightarrow> if list_all (\<lambda>c. is_digit c \<or> c = CHR ''-'') l then atoi l else None
      | JNull \<Rightarrow> Some old
      | _ \<Rightarrow> None)"

fun read_items :: "json list \<Rightarrow> string list option" where
  "read_items [] = Some []"
| "read_items (j # js) =
     (case read_string j [] of None \<Rightarrow> None | Some s \<Rightarrow> map_option ((#) s) (read_items js))"

definition read_strings :: "json \<Rightarrow> string list \<Rightarrow> string list option" where
  "read_strings j old = (case j of JArr js \<Rightarrow> read_items js | JNull \<Rightarrow> Some [] | _ \<Rightarrow> None)"

fun read_fields :: "(string \<Rightarrow> json \<Rightarrow> 'a \<Rightarrow> 'a option) \<Rightarrow> (string \<times> json) list \<Rightarrow> 'a \<Rightarrow> 'a option" where
  "read_fields f [] a = Some a"
| "read_fields f ((k, j) # fs) a =
     (case f k j a of None \<Rightarrow> None | Some b \<Rightarrow> read_fields f fs b)"

definition read_struct :: "(string \<Rightarrow> json \<Rightarrow> 'a \<Rightarrow> 'a option) \<Rightarrow> json \<Rightarrow> 'a \<Rightarrow> 'a option" where
  "read_struct f j a = (case j of JObj fs \<Rightarrow> read_fields f fs a | JNull \<Rightarrow> Some a | _ \<Rightarrow> None)"

lemma read_items_map [simp]: "read_items (map JStr ss) = Some ss"
  by (induction ss) (simp_all add: read_string_def)

lemma read_int_JInt [simp]:
  "- (2 ^ 63) \<le> n \<Longrightarrow> n < 2 ^ 63 \<Longrightarrow> read_int (JInt n) old = Some n"
proof -
  have "list_all (\<lambda>c. is_digit c \<or> c = CHR ''-'') (itoa n)"
    by (auto simp: itoa_def list_all_iff dest: digits_of_digits)
  then show "- (2 ^ 63) \<le> n \<Longrightarrow> n < 2 ^ 63 \<Longrightarrow> read_int (JInt n) old = Some n"
    by (simp add: read_int_def JInt_def atoi_itoa)
qed

end
