(* ===== verification/TaskToken.thy ===== *)
theory TaskToken
  imports Json Ulid TokenEnvelope
begin

text \<open>
  Component \<open>internal/token\<close> (\<open>types.go\<close>, \<open>sign.go\<close>, \<open>validate.go\<close>, \<open>delegation.go\<close>): the JWT
  task tokens CTT-E and CTT-D and the delegation certificates that chain them to the
  signer's root key. \<open>ed_sign\<close> and \<open>ed_verify\<close> stand for Ed25519 and are arguments, and so
  are clock readings and random bytes. A nil slice and an empty one are both \<open>[]\<close> and are
  marshalled as an empty array.
\<close>

section \<open>Data\<close>

record delegation_cert =
  dc_id :: string
  dc_broker_id :: string
  dc_public_key :: bytes
  dc_signature :: bytes
  dc_issued_at :: time
  dc_expires_at :: time

record task_identity =
  ti_id :: string
  ti_root_id :: string
  ti_parent_id :: string
  ti_depth :: int
  ti_lineage :: "string list"
  ti_initiated_by :: string
  ti_description :: string

record task_claims =
  cl_issuer :: string
  cl_subject :: string
  cl_audience :: string
  cl_issued_at :: time
  cl_expires_at :: time
  cl_token_id :: string
  cl_task :: task_identity
  cl_envelope :: envelope

datatype token_type = CTTE | CTTD

definition token_type_text :: "token_type \<Rightarrow> string" where
  "token_type_text ty = (case ty of CTTE \<Rightarrow> ''CTT-E'' | CTTD \<Rightarrow> ''CTT-D'')"

record jwt_header =
  jh_alg :: string
  jh_typ :: string
  jh_kid :: string

record jwt_payload =
  jp_iss :: string
  jp_sub :: string
  jp_aud :: string
  jp_iat :: int
  jp_exp :: int
  jp_jti :: string
  jp_task :: task_identity
  jp_envelope :: envelope

record delegation_payload =
  dp_cert_id :: string
  dp_broker_id :: string
  dp_public_key :: bytes
  dp_issued_at :: int
  dp_expires_at :: int

record issuer =
  is_broker_id :: string
  is_private_key :: "bytes option"
  is_delegation :: "delegation_cert option"

record token_validator =
  tv_root_public_key :: "bytes option"
  tv_delegations :: "(string, delegation_cert) gomap"

datatype token_error =
    NoDelegationKey | ClaimsNil
  | NotThreeParts | BadHeaderEncoding | BadHeaderJson | UnsupportedAlgorithm string
  | UnexpectedTokenType string | MissingKid | UnknownKid string
  | RootKeyNil | CertIdMismatch | BrokerIdMismatch | CertSignatureInvalid | CertExpired
  | BadTokenSignatureEncoding | TokenSignatureInvalid | BadPayloadEncoding | BadPayloadJson
  | TokenExpired | UnexpectedAudience string

section \<open>Delegation certificates\<close>

definition canonical_delegation :: "string \<Rightarrow> string \<Rightarrow> bytes \<Rightarrow> int \<Rightarrow> int \<Rightarrow> json" where
  "canonical_delegation cert_id broker_id pub issued expires =
     JObj [(''cert_id'', JStr cert_id), (''broker_id'', JStr broker_id),
           (''public_key'', JStr (b64_std_encode pub)),
           (''issued_at'', JInt issued), (''expires_at'', JInt expires)]"

definition create_delegation_payload :: "delegation_payload \<Rightarrow> bytes" where
  "create_delegation_payload p =
     json_text (canonical_delegation (dp_cert_id p) (dp_broker_id p) (dp_public_key p)
                  (dp_issued_at p) (dp_expires_at p))"

definition verify_delegation_cert ::
    "(bytes \<Rightarrow> bytes \<Rightarrow> bytes \<Rightarrow> bool) \<Rightarrow> time \<Rightarrow> delegation_cert \<Rightarrow> delegation_payload \<Rightarrow>
     bytes option \<Rightarrow> token_error option"
  where
  "verify_delegation_cert ed_verify now cert payload root_pub =
     (case root_pub of
        None \<Rightarrow> Some RootKeyNil
      | Some root \<Rightarrow>
        if dc_id cert \<noteq> dp_cert_id payload then Some CertIdMismatch
        else if dc_broker_id cert \<noteq> dp_broker_id payload then Some BrokerIdMismatch
        else if \<not> ed_verify root (create_delegation_payload payload) (dc_signature cert)
        then Some CertSignatureInvalid
        else if now > dc_expires_at cert then Some CertExpired
        else None)"

definition sign_delegation_cert ::
    "(bytes \<Rightarrow> bytes \<Rightarrow> bytes) \<Rightarrow> delegation_payload \<Rightarrow> bytes \<Rightarrow> delegation_cert" where
  "sign_delegation_cert ed_sign payload root_priv =
     \<lparr>dc_id = dp_cert_id payload, dc_broker_id = dp_broker_id payload,
      dc_public_key = dp_public_key payload,
      dc_signature = ed_sign root_priv (create_delegation_payload payload),
      dc_issued_at = from_unix (dp_issued_at payload), dc_expires_at = from_unix (dp_expires_at payload)\<rparr>"

section \<open>Issuing\<close>

definition new_issuer :: "string \<Rightarrow> issuer" where
  "new_issuer broker_id = \<lparr>is_broker_id = broker_id, is_private_key = None, is_delegation = None\<rparr>"

definition set_delegation :: "bytes option \<Rightarrow> delegation_cert option \<Rightarrow> issuer \<Rightarrow> issuer" where
  "set_delegation priv cert i = i\<lparr>is_private_key := priv, is_delegation := cert\<rparr>"

definition delegation_key_id :: "issuer \<Rightarrow> string" where
  "delegation_key_id i = (case is_delegation i of None \<Rightarrow> [] | Some d \<Rightarrow> dc_id d)"

definition strs :: "string list \<Rightarrow> json" where
  "strs ss = JArr (map JStr ss)"

definition header_json :: "jwt_header \<Rightarrow> json" where
  "header_json h = JObj [(''alg'', JStr (jh_alg h)), (''typ'', JStr (jh_typ h)), (''kid'', JStr (jh_kid h))]"

definition identity_json :: "task_identity \<Rightarrow> json" where
  "identity_json t =
     JObj [(''id'', JStr (ti_id t)), (''root_id'', JStr (ti_root_id t)), (''parent_id'', JStr (ti_parent_id t)),
           (''depth'', JInt (ti_depth t)), (''lineage'', strs (ti_lineage t)),
           (''initiated_by'', JStr (ti_initiated_by t)), (''description'', JStr (ti_description t))]"

definition envelope_json :: "envelope \<Rightarrow> json" where
  "envelope_json e =
     JObj [(''targets'', strs (te_targets e)), (''roles'', strs (te_roles e)),
           (''services'', strs (te_services e)), (''remotes'', strs (te_remotes e)),
           (''methods'', strs (te_methods e))]"

definition payload_json :: "jwt_payload \<Rightarrow> json" where
  "payload_json p =
     JObj [(''iss'', JStr (jp_iss p)), (''sub'', JStr (jp_sub p)), (''aud'', JStr (jp_aud p)),
           (''iat'', JInt (jp_iat p)), (''exp'', JInt (jp_exp p)), (''jti'', JStr (jp_jti p)),
           (''task'', identity_json (jp_task p)), (''envelope'', envelope_json (jp_envelope p))]"

definition sign_jwt :: "(bytes \<Rightarrow> bytes \<Rightarrow> bytes) \<Rightarrow> task_claims \<Rightarrow> string \<Rightarrow> string \<Rightarrow> bytes \<Rightarrow> string" where
  "sign_jwt ed_sign claims kid typ priv =
     (let header = \<lparr>jh_alg = ''EdDSA'', jh_typ = typ, jh_kid = kid\<rparr>;
          payload = \<lparr>jp_iss = cl_issuer claims, jp_sub = cl_subject claims, jp_aud = cl_audience claims,
             jp_iat = unix_seconds (cl_issued_at claims), jp_exp = unix_seconds (cl_expires_at claims),
             jp_jti = cl_token_id claims, jp_task = cl_task claims, jp_envelope = cl_envelope claims\<rparr>;
          header_b64 = b64_encode (json_text (header_json header));
          payload_b64 = b64_encode (json_text (payload_json payload));
          signing_input = header_b64 @ ''.'' @ payload_b64;
          sig_b64 = b64_encode (ed_sign priv signing_input)
      in header_b64 @ ''.'' @ payload_b64 @ ''.'' @ sig_b64)"

text \<open>The fields that \<open>SignCTTE\<close> and \<open>SignCTTD\<close> fill in when they are not set.\<close>

definition fill_claims :: "time \<Rightarrow> bytes \<Rightarrow> string \<Rightarrow> string \<Rightarrow> task_claims \<Rightarrow> task_claims" where
  "fill_claims now rnd broker_id id_prefix c =
     (let c = (if cl_issuer c = [] then c\<lparr>cl_issuer := ''ephyr:'' @ broker_id\<rparr> else c);
          c = (if cl_audience c = [] then c\<lparr>cl_audience := ''ephyr-broker''\<rparr> else c);
          c = (if cl_issued_at c = 0 then c\<lparr>cl_issued_at := now\<rparr> else c)
      in (if cl_token_id c = [] then c\<lparr>cl_token_id := id_prefix @ new_ulid_at now rnd\<rparr> else c))"

definition sign_token ::
    "(bytes \<Rightarrow> bytes \<Rightarrow> bytes) \<Rightarrow> time \<Rightarrow> bytes \<Rightarrow> token_type \<Rightarrow> string \<Rightarrow> task_claims option \<Rightarrow> issuer \<Rightarrow>
     token_error + string" where
  "sign_token ed_sign now rnd ty id_prefix claims i =
     (case (is_private_key i, is_delegation i) of
        (Some priv, Some deleg) \<Rightarrow>
          (case claims of
             None \<Rightarrow> Inl ClaimsNil
           | Some c \<Rightarrow>
               Inr (sign_jwt ed_sign (fill_claims now rnd (is_broker_id i) id_prefix c) (dc_id deleg)
                      (token_type_text ty) priv))
      | _ \<Rightarrow> Inl NoDelegationKey)"

definition sign_ctte ::
    "(bytes \<Rightarrow> bytes \<Rightarrow> bytes) \<Rightarrow> time \<Rightarrow> bytes \<Rightarrow> task_claims option \<Rightarrow> issuer \<Rightarrow> token_error + string" where
  "sign_ctte ed_sign now rnd claims i = sign_token ed_sign now rnd CTTE ''cte_'' claims i"

definition sign_cttd ::
    "(bytes \<Rightarrow> bytes \<Rightarrow> bytes) \<Rightarrow> time \<Rightarrow> bytes \<Rightarrow> task_claims option \<Rightarrow> issuer \<Rightarrow> token_error + string" where
  "sign_cttd ed_sign now rnd claims i = sign_token ed_sign now rnd CTTD ''ctd_'' claims i"

section \<open>Validating\<close>

definition new_validator :: "bytes option \<Rightarrow> token_validator" where
  "new_validator root = \<lparr>tv_root_public_key = root, tv_delegations = []\<rparr>"

definition add_delegation :: "delegation_cert option \<Rightarrow> token_validator \<Rightarrow> token_validator" where
  "add_delegation cert v =
     (case cert of
        None \<Rightarrow> v
      | Some c \<Rightarrow> v\<lparr>tv_delegations := put (dc_id c) c (tv_delegations v)\<rparr>)"

text \<open>\<open>strings.SplitN(s, ".", 3)\<close> when it yields three parts.\<close>

definition split_at_dot :: "string \<Rightarrow> (string \<times> string) option" where
  "split_at_dot s =
     (case dropWhile (\<lambda>c. c \<noteq> CHR ''.'') s of
        [] \<Rightarrow> None
      | c # r \<Rightarrow> Some (takeWhile (\<lambda>c. c \<noteq> CHR ''.'') s, r))"

definition split3 :: "string \<Rightarrow> (string \<times> string \<times> string) option" where
  "split3 s =
     (case split_at_dot s of
        None \<Rightarrow> None
      | Some (a, r) \<Rightarrow> map_option (\<lambda>(b, c). (a, b, c)) (split_at_dot r))"

definition header_field :: "string \<Rightarrow> json \<Rightarrow> jwt_header \<Rightarrow> jwt_header option" where
  "header_field k j h =
     (if equal_fold k ''alg'' then map_option (\<lambda>s. h\<lparr>jh_alg := s\<rparr>) (read_string j (jh_alg h))
      else if equal_fold k ''typ'' then map_option (\<lambda>s. h\<lparr>jh_typ := s\<rparr>) (read_string j (jh_typ h))
      else if equal_fold k ''kid'' then map_option (\<lambda>s. h\<lparr>jh_kid := s\<rparr>) (read_string j (jh_kid h))
      else Some h)"

definition identity_field :: "string \<Rightarrow> json \<Rightarrow> task_identity \<Rightarrow> task_identity option" where
  "identity_field k j t =
     (if equal_fold k ''id'' then map_option (\<lambda>s. t\<lparr>ti_id := s\<rparr>) (read_string j (ti_id t))
      else if equal_fold k ''root_id'' then map_option (\<lambda>s. t\<lparr>ti_root_id := s\<rparr>) (read_string j (ti_root_id t))
      else if equal_fold k ''parent_id'' then map_option (\<lambda>s. t\<lparr>ti_parent_id := s\<rparr>) (read_string j (ti_parent_id t))
      else if equal_fold k ''depth'' then map_option (\<lambda>n. t\<lparr>ti_depth := n\<rparr>) (read_int j (ti_depth t))
      else if equal_fold k ''lineage'' then map_option (\<lambda>l. t\<lparr>ti_lineage := l\<rparr>) (read_strings j (ti_lineage t))
      else if equal_fold k ''initiated_by'' then map_option (\<lambda>s. t\<lparr>ti_initiated_by := s\<rparr>) (read_string j (ti_initiated_by t))
      else if equal_fold k ''description'' then map_option (\<lambda>s. t\<lparr>ti_description := s\<rparr>) (read_string j (ti_description t))
      else Some t)"

definition envelope_field :: "string \<Rightarrow> json \<Rightarrow> envelope \<Rightarrow> envelope option" where
  "envelope_field k j e =
     (if equal_fold k ''targets'' then map_option (\<lambda>l. e\<lparr>te_targets := l\<rparr>) (read_strings j (te_targets e))
      else if equal_fold k ''roles'' then map_option (\<lambda>l. e\<lparr>te_roles := l\<rparr>) (read_strings j (te_roles e))
      else if equal_fold k ''services'' then map_option (\<lambda>l. e\<lparr>te_services := l\<rparr>) (read_strings j (te_services e))
      else if equal_fold k ''remotes'' then map_option (\<lambda>l. e\<lparr>te_remotes := l\<rparr>) (read_strings j (te_remotes e))
      else if equal_fold k ''methods'' then map_option (\<lambda>l. e\<lparr>te_methods := l\<rparr>) (read_strings j (te_methods e))
      else Some e)"

definition payload_field :: "string \<Rightarrow> json \<Rightarrow> jwt_payload \<Rightarrow> jwt_payload option" where
  "payload_field k j p =
     (if equal_fold k ''iss'' then map_option (\<lambda>s. p\<lparr>jp_iss := s\<rparr>) (read_string j (jp_iss p))
      else if equal_fold k ''sub'' then map_option (\<lambda>s. p\<lparr>jp_sub := s\<rparr>) (read_string j (jp_sub p))
      else if equal_fold k ''aud'' then map_option (\<lambda>s. p\<lparr>jp_aud := s\<rparr>) (read_string j (jp_aud p))
      else if equal_fold k ''iat'' then map_option (\<lambda>n. p\<lparr>jp_iat := n\<rparr>) (read_int j (jp_iat p))
      else if equal_fold k ''exp'' then map_option (\<lambda>n. p\<lparr>jp_exp := n\<rparr>) (read_int j (jp_exp p))
      else if equal_fold k ''jti'' then map_option (\<lambda>s. p\<lparr>jp_jti := s\<rparr>) (read_string j (jp_jti p))
      else if equal_fold k ''task''
      then map_option (\<lambda>t. p\<lparr>jp_task := t\<rparr>) (read_struct identity_field j (jp_task p))
      else if equal_fold k ''envelope''
      then map_option (\<lambda>e. p\<lparr>jp_envelope := e\<rparr>) (read_struct envelope_field j (jp_envelope p))
      else Some p)"

definition no_header :: jwt_header where
  "no_header = \<lparr>jh_alg = [], jh_typ = [], jh_kid = []\<rparr>"

definition no_identity :: task_identity where
  "no_identity = \<lparr>ti_id = [], ti_root_id = [], ti_parent_id = [], ti_depth = 0, ti_lineage = [],
     ti_initiated_by = [], ti_description = []\<rparr>"

definition no_envelope :: envelope where
  "no_envelope = \<lparr>te_targets = [], te_roles = [], te_services = [], te_remotes = [], te_methods = []\<rparr>"

definition no_payload :: jwt_payload where
  "no_payload = \<lparr>jp_iss = [], jp_sub = [], jp_aud = [], jp_iat = 0, jp_exp = 0, jp_jti = [],
     jp_task = no_identity, jp_envelope = no_envelope\<rparr>"

definition read_header :: "bytes \<Rightarrow> jwt_header option" where
  "read_header bs =
     (case json_parse bs of None \<Rightarrow> None | Some j \<Rightarrow> read_struct header_field j no_header)"

definition read_payload :: "bytes \<Rightarrow> jwt_payload option" where
  "read_payload bs =
     (case json_parse bs of None \<Rightarrow> None | Some j \<Rightarrow> read_struct payload_field j no_payload)"

definition payload_claims :: "jwt_payload \<Rightarrow> task_claims" where
  "payload_claims p =
     \<lparr>cl_issuer = jp_iss p, cl_subject = jp_sub p, cl_audience = jp_aud p,
      cl_issued_at = from_unix (jp_iat p), cl_expires_at = from_unix (jp_exp p),
      cl_token_id = jp_jti p, cl_task = jp_task p, cl_envelope = jp_envelope p\<rparr>"

text \<open>
  \<open>validateAt\<close>. The certificate check reads the clock itself (\<open>seen\<close>) after the caller did
  (\<open>now\<close>).
\<close>

definition cert_payload :: "delegation_cert \<Rightarrow> delegation_payload" where
  "cert_payload cert =
     \<lparr>dp_cert_id = dc_id cert, dp_broker_id = dc_broker_id cert, dp_public_key = dc_public_key cert,
      dp_issued_at = unix_seconds (dc_issued_at cert), dp_expires_at = unix_seconds (dc_expires_at cert)\<rparr>"

definition validate_at ::
    "(bytes \<Rightarrow> bytes \<Rightarrow> bytes \<Rightarrow> bool) \<Rightarrow> time \<Rightarrow> time \<Rightarrow> token_type list \<Rightarrow> string \<Rightarrow> token_validator \<Rightarrow>
     token_error + task_claims"
  where
  "validate_at ed_verify now seen allowed tok v =
     (case split3 tok of
        None \<Rightarrow> Inl NotThreeParts
      | Some (header_b64, payload_b64, sig_b64) \<Rightarrow>
     (case b64_decode header_b64 of
        None \<Rightarrow> Inl BadHeaderEncoding
      | Some header_bytes \<Rightarrow>
     (case read_header header_bytes of
        None \<Rightarrow> Inl BadHeaderJson
      | Some header \<Rightarrow>
        if jh_alg header \<noteq> ''EdDSA'' then Inl (UnsupportedAlgorithm (jh_alg header))
        else if \<not> list_ex (\<lambda>ty. jh_typ header = token_type_text ty) allowed
        then Inl (UnexpectedTokenType (jh_typ header))
        else if jh_kid header = [] then Inl MissingKid
        else
     (case get (tv_delegations v) (jh_kid header) of
        None \<Rightarrow> Inl (UnknownKid (jh_kid header))
      | Some cert \<Rightarrow>
     (case verify_delegation_cert ed_verify seen cert (cert_payload cert) (tv_root_public_key v) of
        Some err \<Rightarrow> Inl err
      | None \<Rightarrow>
        if now > dc_expires_at cert then Inl CertExpired
        else
     (case b64_decode sig_b64 of
        None \<Rightarrow> Inl BadTokenSignatureEncoding
      | Some sig \<Rightarrow>
        if \<not> ed_verify (dc_public_key cert) (header_b64 @ ''.'' @ payload_b64) sig
        then Inl TokenSignatureInvalid
        else
     (case b64_decode payload_b64 of
        None \<Rightarrow> Inl BadPayloadEncoding
      | Some payload_bytes \<Rightarrow>
     (case read_payload payload_bytes of
        None \<Rightarrow> Inl BadPayloadJson
      | Some payload \<Rightarrow>
        let claims = payload_claims payload in
        if now > cl_expires_at claims then Inl TokenExpired
        else if cl_audience claims \<noteq> ''ephyr-broker'' then Inl (UnexpectedAudience (cl_audience claims))
        else Inr claims))))))))"

definition validate_token ::
    "(bytes \<Rightarrow> bytes \<Rightarrow> bytes \<Rightarrow> bool) \<Rightarrow> time \<Rightarrow> time \<Rightarrow> string \<Rightarrow> token_validator \<Rightarrow> token_error + task_claims" where
  "validate_token ed_verify now seen tok v = validate_at ed_verify now seen [CTTE, CTTD] tok v"

definition validate_ctte ::
    "(bytes \<Rightarrow> bytes \<Rightarrow> bytes \<Rightarrow> bool) \<Rightarrow> time \<Rightarrow> time \<Rightarrow> string \<Rightarrow> token_validator \<Rightarrow> token_error + task_claims" where
  "validate_ctte ed_verify now seen tok v = validate_at ed_verify now seen [CTTE] tok v"

definition parse_unverified :: "string \<Rightarrow> token_error + task_claims" where
  "parse_unverified tok =
     (case split3 tok of
        None \<Rightarrow> Inl NotThreeParts
      | Some (_, payload_b64, _) \<Rightarrow>
     (case b64_decode payload_b64 of
        None \<Rightarrow> Inl BadPayloadEncoding
      | Some payload_bytes \<Rightarrow>
     (case read_payload payload_bytes of
        None \<Rightarrow> Inl BadPayloadJson
      | Some payload \<Rightarrow> Inr (payload_claims payload))))"

section \<open>Reading what was written\<close>

lemma equal_fold_simps [simp]:
  "equal_fold s s" "equal_fold (a # s) (b # t) \<longleftrightarrow> lower_char a = lower_char b \<and> equal_fold s t"
  "\<not> equal_fold [] (b # t)" "\<not> equal_fold (a # s) []"
  by (auto simp: equal_fold_def to_lower_def)

lemma json_ok_strs [simp]: "json_ok (strs ss)"
  by (auto simp: strs_def)

lemma read_strings_strs [simp]: "read_strings (strs ss) old = Some ss"
  by (simp add: read_strings_def strs_def)

lemma read_string_JStr [simp]: "read_string (JStr s) old = Some s"
  by (simp add: read_string_def)

lemma lower_char_letters [simp]:
  "lower_char CHR ''a'' = CHR ''a''" "lower_char CHR ''b'' = CHR ''b''" "lower_char CHR ''c'' = CHR ''c''"
  "lower_char CHR ''d'' = CHR ''d''" "lower_char CHR ''e'' = CHR ''e''" "lower_char CHR ''g'' = CHR ''g''"
  "lower_char CHR ''h'' = CHR ''h''" "lower_char CHR ''i'' = CHR ''i''" "lower_char CHR ''j'' = CHR ''j''"
  "lower_char CHR ''k'' = CHR ''k''" "lower_char CHR ''l'' = CHR ''l''" "lower_char CHR ''m'' = CHR ''m''"
  "lower_char CHR ''n'' = CHR ''n''" "lower_char CHR ''o'' = CHR ''o''" "lower_char CHR ''p'' = CHR ''p''"
  "lower_char CHR ''r'' = CHR ''r''" "lower_char CHR ''s'' = CHR ''s''" "lower_char CHR ''t'' = CHR ''t''"
  "lower_char CHR ''u'' = CHR ''u''" "lower_char CHR ''v'' = CHR ''v''" "lower_char CHR ''x'' = CHR ''x''"
  "lower_char CHR ''y'' = CHR ''y''" "lower_char CHR ''_'' = CHR ''_''"
  by (simp_all add: lower_char_def)

lemma read_header_text [simp]: "read_header (json_text (header_json h)) = Some h"
proof -
  have "json_ok (header_json h)" by (simp add: header_json_def)
  then have "json_parse (json_text (header_json h)) = Some (header_json h)" by (rule json_parse_text)
  then show ?thesis
    by (simp add: read_header_def header_json_def read_struct_def header_field_def no_header_def del: json_text.simps)
qed

definition int64_range :: "int \<Rightarrow> bool" where
  "int64_range n \<longleftrightarrow> - (2 ^ 63) \<le> n \<and> n < 2 ^ 63"

lemma read_int_range [simp]: "int64_range n \<Longrightarrow> read_int (JInt n) old = Some n"
  by (simp add: int64_range_def)

lemma read_identity [simp]:
  "int64_range (ti_depth t) \<Longrightarrow> read_struct identity_field (identity_json t) old = Some t"
  by (simp add: identity_json_def read_struct_def identity_field_def)

lemma read_envelope [simp]: "read_struct envelope_field (envelope_json e) old = Some e"
  by (simp add: envelope_json_def read_struct_def envelope_field_def)

lemma read_payload_text:
  assumes "int64_range (jp_iat p)" "int64_range (jp_exp p)" "int64_range (ti_depth (jp_task p))"
  shows "read_payload (json_text (payload_json p)) = Some p"
proof -
  have "json_ok (payload_json p)" by (simp add: payload_json_def identity_json_def envelope_json_def)
  then have "json_parse (json_text (payload_json p)) = Some (payload_json p)" by (rule json_parse_text)
  then have "read_payload (json_text (payload_json p)) = read_struct payload_field (payload_json p) no_payload"
    by (simp add: read_payload_def)
  also have "\<dots> = Some p"
    using assms by (simp add: payload_json_def payload_field_def read_struct_def [of payload_field])
  finally show ?thesis .
qed

lemma b64_no_dot: "CHR ''.'' \<notin> set (b64_encode bs)"
proof
  assume "CHR ''.'' \<in> set (b64_encode bs)"
  then have "CHR ''.'' \<in> set b64_alphabet" by (rule b64_encode_chars)
  then show False by (simp add: b64_alphabet_def)
qed

lemma split_at_dot_append: "CHR ''.'' \<notin> set a \<Longrightarrow> split_at_dot (a @ CHR ''.'' # r) = Some (a, r)"
proof -
  assume "CHR ''.'' \<notin> set a"
  then have "\<forall>x \<in> set a. x \<noteq> CHR ''.''" by auto
  then show ?thesis by (simp add: split_at_dot_def dropWhile_append2 takeWhile_append2)
qed

lemma split3_jwt:
  "split3 (b64_encode a @ ''.'' @ b64_encode b @ ''.'' @ c) = Some (b64_encode a, b64_encode b, c)"
  by (simp add: split3_def split_at_dot_append b64_no_dot)

text \<open>What a validator reads back: times are cut to whole seconds.\<close>

definition stored_claims :: "task_claims \<Rightarrow> task_claims" where
  "stored_claims c =
     c\<lparr>cl_issued_at := from_unix (unix_seconds (cl_issued_at c)),
       cl_expires_at := from_unix (unix_seconds (cl_expires_at c))\<rparr>"

definition dated :: "task_claims \<Rightarrow> bool" where
  "dated c \<longleftrightarrow> int64_range (unix_seconds (cl_issued_at c)) \<and> int64_range (unix_seconds (cl_expires_at c)) \<and>
     int64_range (ti_depth (cl_task c))"

lemma sign_jwt_validates:
  assumes "\<forall>m. ed_verify (dc_public_key cert) m (ed_sign priv m)"
    and "dc_id cert \<noteq> []" and "get (tv_delegations v) (dc_id cert) = Some cert"
    and "verify_delegation_cert ed_verify seen cert (cert_payload cert) (tv_root_public_key v) = None"
    and "now \<le> dc_expires_at cert" and "now \<le> from_unix (unix_seconds (cl_expires_at c))"
    and "dated c" and "cl_audience c = ''ephyr-broker''" and "ty \<in> set allowed"
  shows "validate_at ed_verify now seen allowed (sign_jwt ed_sign c (dc_id cert) (token_type_text ty) priv) v =
     Inr (stored_claims c)"
proof -
  define p where "p = \<lparr>jp_iss = cl_issuer c, jp_sub = cl_subject c, jp_aud = cl_audience c,
             jp_iat = unix_seconds (cl_issued_at c), jp_exp = unix_seconds (cl_expires_at c),
             jp_jti = cl_token_id c, jp_task = cl_task c, jp_envelope = cl_envelope c\<rparr>"
  define h where "h = \<lparr>jh_alg = ''EdDSA'', jh_typ = token_type_text ty, jh_kid = dc_id cert\<rparr>"
  have parts: "split3 (sign_jwt ed_sign c (dc_id cert) (token_type_text ty) priv) =
      Some (b64_encode (json_text (header_json h)), b64_encode (json_text (payload_json p)),
        b64_encode (ed_sign priv (b64_encode (json_text (header_json h)) @ ''.'' @ b64_encode (json_text (payload_json p)))))"
    unfolding sign_jwt_def Let_def h_def [symmetric] p_def [symmetric] by (rule split3_jwt)
  have allowed: "list_ex (\<lambda>ty'. token_type_text ty = token_type_text ty') allowed"
    using assms(9) by (auto simp: list_ex_iff)
  have pay: "read_payload (json_text (payload_json p)) = Some p"
    using assms(7) by (intro read_payload_text) (simp_all add: dated_def p_def)
  have claims: "payload_claims p = stored_claims c"
    by (simp add: payload_claims_def p_def stored_claims_def)
  show ?thesis
    unfolding validate_at_def parts
    using assms allowed
    by (simp add: b64_round_trip pay claims h_def not_less stored_claims_def)
qed

lemma fill_claims_audience:
  "cl_audience c \<in> {[], ''ephyr-broker''} \<Longrightarrow> cl_audience (fill_claims now rnd b pre c) = ''ephyr-broker''"
  by (auto simp: fill_claims_def Let_def)

lemma fill_claims_keeps [simp]:
  "cl_expires_at (fill_claims now rnd b pre c) = cl_expires_at c"
  "cl_task (fill_claims now rnd b pre c) = cl_task c"
  "cl_envelope (fill_claims now rnd b pre c) = cl_envelope c"
  "cl_subject (fill_claims now rnd b pre c) = cl_subject c"
  "cl_issued_at (fill_claims now rnd b pre c) = (if cl_issued_at c = 0 then now else cl_issued_at c)"
  by (simp_all add: fill_claims_def Let_def)

end
