(* ===== verification/SignerService.thy ===== *)
theory SignerService
  imports TaskToken RateLimit
begin

text \<open>
  The signer process: \<open>internal/signer/delegation.go\<close> and \<open>sign.go\<close> (what it signs),
  \<open>cmd/signer/main.go\<close> (one request per connection, with the caller check and the rate limit)
  and \<open>internal/signer/ipc.go\<close> (the broker's client). Ed25519, the SSH library (parsing a
  public key, signing and marshalling a certificate), random bytes and the peer's UID are
  arguments. Transport errors of the socket are the value \<open>None\<close> of the transport function.
\<close>

section \<open>Delegation signing\<close>

record signing_ca =
  ca_raw_priv :: bytes
  ca_raw_pub :: bytes

definition max_delegation_ttl :: duration where
  "max_delegation_ttl = 24 * hour"

record delegation_result =
  dr_cert_id :: string
  dr_signature :: bytes
  dr_issued_at :: time
  dr_expires_at :: time

datatype signer_error =
    TtlNotPositive | TtlTooLong duration | BadBrokerKeyLength nat | BrokerIdRequired | RandomFailed
  | BadPublicKey | CertSigningFailed
  | Unauthorized | InvalidRequest | RateLimitExceeded | UnknownAction string
  | PublicKeyRequired | PrincipalRequired | DurationRequired | KeyIdRequired | InvalidDuration string
  | DurationTooLong | DurationNotPositive
  | BrokerPublicKeyRequired | DelegationTtlRequired | BadBrokerKeyEncoding

definition build_canonical_payload :: "string \<Rightarrow> string \<Rightarrow> bytes \<Rightarrow> time \<Rightarrow> time \<Rightarrow> bytes" where
  "build_canonical_payload cert_id broker_id pub issued expires =
     json_text (JObj [(''cert_id'', JStr cert_id), (''broker_id'', JStr broker_id),
       (''public_key'', JStr (b64_std_encode pub)),
       (''issued_at'', JInt (unix_seconds issued)), (''expires_at'', JInt (unix_seconds expires))])"

text \<open>\<open>rnd\<close> is what \<open>rand.Read\<close> delivered, \<open>None\<close> when it failed.\<close>

definition generate_cert_id :: "bytes option \<Rightarrow> signer_error + string" where
  "generate_cert_id rnd = (case rnd of None \<Rightarrow> Inl RandomFailed | Some buf \<Rightarrow> Inr (hex_encode buf))"

definition sign_delegation ::
    "(bytes \<Rightarrow> bytes \<Rightarrow> bytes) \<Rightarrow> time \<Rightarrow> bytes option \<Rightarrow> signing_ca \<Rightarrow> bytes \<Rightarrow> string \<Rightarrow> duration \<Rightarrow>
     signer_error + delegation_result"
  where
  "sign_delegation ed_sign now rnd ca pub broker_id ttl =
     (if ttl \<le> 0 then Inl TtlNotPositive
      else if ttl > max_delegation_ttl then Inl (TtlTooLong ttl)
      else if length pub \<noteq> 32 then Inl (BadBrokerKeyLength (length pub))
      else if broker_id = [] then Inl BrokerIdRequired
      else case generate_cert_id rnd of
        Inl e \<Rightarrow> Inl e
      | Inr cert_id \<Rightarrow>
          let expires = now + ttl;
              payload = build_canonical_payload cert_id broker_id pub now expires
          in Inr \<lparr>dr_cert_id = cert_id, dr_signature = ed_sign (ca_raw_priv ca) payload,
                  dr_issued_at = now, dr_expires_at = expires\<rparr>)"

definition verify_delegation ::
    "(bytes \<Rightarrow> bytes \<Rightarrow> bytes \<Rightarrow> bool) \<Rightarrow> bytes \<Rightarrow> string \<Rightarrow> string \<Rightarrow> bytes \<Rightarrow> time \<Rightarrow> time \<Rightarrow> bytes \<Rightarrow> bool" where
  "verify_delegation ed_verify root cert_id broker_id pub issued expires signature =
     ed_verify root (build_canonical_payload cert_id broker_id pub issued expires) signature"

section \<open>Certificate signing\<close>

record sign_params =
  sp_public_key :: bytes
  sp_principals :: "string list"
  sp_duration :: duration
  sp_key_id :: string
  sp_force_command :: string

record 'k ssh_certificate =
  sc_key :: 'k
  sc_key_id :: string
  sc_serial :: "64 word"
  sc_principals :: "string list"
  sc_valid_after :: "64 word"
  sc_valid_before :: "64 word"
  sc_critical_options :: "(string \<times> string) list"
  sc_extensions :: "(string \<times> string) list"

record sign_result =
  sr_cert_bytes :: bytes
  sr_serial :: "64 word"
  sr_expires_at :: time

text \<open>\<open>%016x\<close> of a serial number.\<close>

definition hex16 :: "64 word \<Rightarrow> string" where
  "hex16 w = map (\<lambda>i. hex_digit (unat (drop_bit (4 * i) w AND 0xF))) (rev [0..<16])"

definition random_serial :: "bytes option \<Rightarrow> signer_error + 64 word" where
  "random_serial rnd = (case rnd of None \<Rightarrow> Inl RandomFailed | Some buf \<Rightarrow> Inr (big_endian (take 8 buf)))"

definition certificate_for :: "time \<Rightarrow> 64 word \<Rightarrow> 'k \<Rightarrow> sign_params \<Rightarrow> 'k ssh_certificate" where
  "certificate_for now serial key p =
     \<lparr>sc_key = key, sc_key_id = ''ephyr:'' @ sp_key_id p @ '':'' @ hex16 serial, sc_serial = serial,
      sc_principals = sp_principals p,
      sc_valid_after = word_of_int (unix_seconds (now - 30 * second)),
      sc_valid_before = word_of_int (unix_seconds (now + sp_duration p)),
      sc_critical_options = (if sp_force_command p \<noteq> [] then [(''force-command'', sp_force_command p)] else []),
      sc_extensions = [(''permit-pty'', []), (''permit-port-forwarding'', []), (''permit-agent-forwarding'', [])]\<rparr>"

definition sign_certificate ::
    "(bytes \<Rightarrow> 'k option) \<Rightarrow> ('k ssh_certificate \<Rightarrow> bytes option) \<Rightarrow> time \<Rightarrow> bytes option \<Rightarrow> sign_params \<Rightarrow>
     signer_error + sign_result"
  where
  "sign_certificate parse_key sign_cert now rnd p =
     (case parse_key (sp_public_key p) of
        None \<Rightarrow> Inl BadPublicKey
      | Some key \<Rightarrow>
     (case random_serial rnd of
        Inl e \<Rightarrow> Inl e
      | Inr serial \<Rightarrow>
     (case sign_cert (certificate_for now serial key p) of
        None \<Rightarrow> Inl CertSigningFailed
      | Some cert_bytes \<Rightarrow>
          Inr \<lparr>sr_cert_bytes = cert_bytes, sr_serial = serial, sr_expires_at = now + sp_duration p\<rparr>)))"

section \<open>Requests and responses\<close>

record sign_request =
  rq_action :: string
  rq_public_key :: string
  rq_principals :: "string list"
  rq_duration :: string
  rq_key_id :: string
  rq_force_command :: string
  rq_broker_public_key :: string
  rq_broker_id :: string
  rq_delegation_ttl :: string

definition no_request :: sign_request where
  "no_request = \<lparr>rq_action = [], rq_public_key = [], rq_principals = [], rq_duration = [], rq_key_id = [],
     rq_force_command = [], rq_broker_public_key = [], rq_broker_id = [], rq_delegation_ttl = []\<rparr>"

record sign_response =
  resp_certificate :: string
  resp_serial :: string
  resp_expires_at :: string
  resp_status :: string
  resp_error :: "signer_error option"
  resp_delegation_cert_id :: string
  resp_delegation_sig :: string
  resp_root_public_key :: string

definition no_response :: sign_response where
  "no_response = \<lparr>resp_certificate = [], resp_serial = [], resp_expires_at = [], resp_status = [], resp_error = None,
     resp_delegation_cert_id = [], resp_delegation_sig = [], resp_root_public_key = []\<rparr>"

definition write_error :: "signer_error \<Rightarrow> sign_response" where
  "write_error e = no_response\<lparr>resp_error := Some e\<rparr>"

definition handle_sign ::
    "(bytes \<Rightarrow> 'k option) \<Rightarrow> ('k ssh_certificate \<Rightarrow> bytes option) \<Rightarrow> time \<Rightarrow> bytes option \<Rightarrow> sign_request \<Rightarrow>
     sign_response"
  where
  "handle_sign parse_key sign_cert now rnd req =
     (if rq_public_key req = [] then write_error PublicKeyRequired
      else if rq_principals req = [] then write_error PrincipalRequired
      else if rq_duration req = [] then write_error DurationRequired
      else if rq_key_id req = [] then write_error KeyIdRequired
      else case parse_duration (rq_duration req) of
        None \<Rightarrow> write_error (InvalidDuration (rq_duration req))
      | Some duration \<Rightarrow>
        if duration > 24 * hour then write_error DurationTooLong
        else if duration \<le> 0 then write_error DurationNotPositive
        else (case sign_certificate parse_key sign_cert now rnd
                \<lparr>sp_public_key = rq_public_key req, sp_principals = rq_principals req,
                 sp_duration = duration, sp_key_id = rq_key_id req, sp_force_command = rq_force_command req\<rparr> of
          Inl e \<Rightarrow> write_error e
        | Inr result \<Rightarrow>
            no_response\<lparr>resp_certificate := b64_std_encode (sr_cert_bytes result),
              resp_serial := hex16 (sr_serial result),
              resp_expires_at := format_rfc3339 0 (sr_expires_at result)\<rparr>))"

definition handle_sign_delegation ::
    "(bytes \<Rightarrow> bytes \<Rightarrow> bytes) \<Rightarrow> time \<Rightarrow> bytes option \<Rightarrow> signing_ca \<Rightarrow> sign_request \<Rightarrow> sign_response" where
  "handle_sign_delegation ed_sign now rnd ca req =
     (if rq_broker_public_key req = [] then write_error BrokerPublicKeyRequired
      else if rq_broker_id req = [] then write_error BrokerIdRequired
      else if rq_delegation_ttl req = [] then write_error DelegationTtlRequired
      else case b64_std_decode (rq_broker_public_key req) of
        None \<Rightarrow> write_error BadBrokerKeyEncoding
      | Some pub \<Rightarrow>
     (case parse_duration (rq_delegation_ttl req) of
        None \<Rightarrow> write_error (InvalidDuration (rq_delegation_ttl req))
      | Some ttl \<Rightarrow>
     (case sign_delegation ed_sign now rnd ca pub (rq_broker_id req) ttl of
        Inl e \<Rightarrow> write_error e
      | Inr result \<Rightarrow>
          no_response\<lparr>resp_delegation_cert_id := dr_cert_id result,
            resp_delegation_sig := b64_std_encode (dr_signature result),
            resp_expires_at := format_rfc3339 0 (dr_expires_at result)\<rparr>)))"

definition handle_root_public_key :: "signing_ca \<Rightarrow> sign_response" where
  "handle_root_public_key ca = no_response\<lparr>resp_root_public_key := b64_std_encode (ca_raw_pub ca)\<rparr>"

text \<open>
  \<open>handleConn\<close>: \<open>peer\<close> is the UID that \<open>SO_PEERCRED\<close> reports (\<open>None\<close> when it cannot be read)
  and \<open>req\<close> the decoded request (\<open>None\<close> when it does not decode).
\<close>

definition handle_conn ::
    "(bytes \<Rightarrow> bytes \<Rightarrow> bytes) \<Rightarrow> (bytes \<Rightarrow> 'k option) \<Rightarrow> ('k ssh_certificate \<Rightarrow> bytes option) \<Rightarrow>
     time \<Rightarrow> bytes option \<Rightarrow> signing_ca \<Rightarrow> int \<Rightarrow> int option \<Rightarrow> sign_request option \<Rightarrow> signer_limiter \<Rightarrow>
     sign_response \<times> signer_limiter"
  where
  "handle_conn ed_sign parse_key sign_cert now rnd ca allowed_uid peer req rl =
     (if allowed_uid \<ge> 0 \<and> peer \<noteq> Some allowed_uid then (write_error Unauthorized, rl)
      else case req of
        None \<Rightarrow> (write_error InvalidRequest, rl)
      | Some r \<Rightarrow>
        let (allowed, rl) =
          (if rq_action r = ''sign'' \<or> rq_action r = ''sign_delegation'' then signer_allow now rl else (True, rl))
        in if \<not> allowed then (write_error RateLimitExceeded, rl)
           else (if rq_action r = ''ping'' then no_response\<lparr>resp_status := ''ok''\<rparr>
                 else if rq_action r = ''sign'' then handle_sign parse_key sign_cert now rnd r
                 else if rq_action r = ''sign_delegation'' then handle_sign_delegation ed_sign now rnd ca r
                 else if rq_action r = ''root_public_key'' then handle_root_public_key ca
                 else write_error (UnknownAction (rq_action r)), rl))"

end
