(* ===== verification/Delegation.thy ===== *)
theory Delegation
  imports SignerService
begin

text \<open>
  The broker's side of the signing chain: the IPC client (\<open>internal/signer/ipc.go\<close>), the
  delegation manager (\<open>internal/broker/delegation.go\<close>) and the wiring of issuer, validator
  and manager (\<open>InitTaskIdentity\<close> in \<open>internal/broker/server.go\<close>). The socket is the
  function \<open>do_ipc\<close> (\<open>None\<close> for a transport error), a generated key pair an argument.
\<close>

section \<open>The client\<close>

datatype client_error =
    IpcFailed
  | SignerRefused signer_error
  | UnexpectedStatus string
  | EmptyResponse
  | BadBase64
  | BadKeySize nat
  | BadExpiry
  | KeypairFailed

definition client_ping :: "(sign_request \<Rightarrow> sign_response option) \<Rightarrow> client_error option" where
  "client_ping do_ipc =
     (case do_ipc (no_request\<lparr>rq_action := ''ping''\<rparr>) of
        None \<Rightarrow> Some IpcFailed
      | Some resp \<Rightarrow>
          (case resp_error resp of
             Some e \<Rightarrow> Some (SignerRefused e)
           | None \<Rightarrow> if resp_status resp \<noteq> ''ok'' then Some (UnexpectedStatus (resp_status resp)) else None))"

definition request_sign :: "(sign_request \<Rightarrow> sign_response option) \<Rightarrow> sign_request \<Rightarrow> client_error + sign_response" where
  "request_sign do_ipc req =
     (case do_ipc (req\<lparr>rq_action := ''sign''\<rparr>) of
        None \<Rightarrow> Inl IpcFailed
      | Some resp \<Rightarrow> (case resp_error resp of Some e \<Rightarrow> Inl (SignerRefused e) | None \<Rightarrow> Inr resp))"

definition request_delegation_ipc ::
    "(sign_request \<Rightarrow> sign_response option) \<Rightarrow> bytes \<Rightarrow> string \<Rightarrow> duration \<Rightarrow> client_error + sign_response" where
  "request_delegation_ipc do_ipc pub broker_id ttl =
     (case do_ipc (no_request\<lparr>rq_action := ''sign_delegation'', rq_broker_public_key := b64_std_encode pub,
                 rq_broker_id := broker_id, rq_delegation_ttl := format_duration ttl\<rparr>) of
        None \<Rightarrow> Inl IpcFailed
      | Some resp \<Rightarrow> (case resp_error resp of Some e \<Rightarrow> Inl (SignerRefused e) | None \<Rightarrow> Inr resp))"

definition root_public_key_ipc :: "(sign_request \<Rightarrow> sign_response option) \<Rightarrow> client_error + bytes" where
  "root_public_key_ipc do_ipc =
     (case do_ipc (no_request\<lparr>rq_action := ''root_public_key''\<rparr>) of
        None \<Rightarrow> Inl IpcFailed
      | Some resp \<Rightarrow>
          (case resp_error resp of
             Some e \<Rightarrow> Inl (SignerRefused e)
           | None \<Rightarrow>
               if resp_root_public_key resp = [] then Inl EmptyResponse
               else (case b64_std_decode (resp_root_public_key resp) of
                  None \<Rightarrow> Inl BadBase64
                | Some key \<Rightarrow> if length key \<noteq> 32 then Inl (BadKeySize (length key)) else Inr key)))"

section \<open>The delegation manager\<close>

record delegation_manager =
  dm_private_key :: "bytes option"
  dm_public_key :: bytes
  dm_cert_id :: string
  dm_cert_expiry :: time
  dm_cert_issued :: time
  dm_signature :: bytes
  dm_prev_private_key :: "bytes option"
  dm_prev_cert_id :: string
  dm_prev_expiry :: time
  dm_broker_id :: string
  dm_ttl :: duration
  dm_refresh_at :: duration
  dm_max_token_ttl :: duration
  dm_root_public_key :: "bytes option"

definition new_delegation_manager :: "string \<Rightarrow> duration \<Rightarrow> duration \<Rightarrow> duration \<Rightarrow> delegation_manager" where
  "new_delegation_manager broker_id ttl refresh_at max_token_ttl =
     \<lparr>dm_private_key = None, dm_public_key = [], dm_cert_id = [], dm_cert_expiry = 0, dm_cert_issued = 0,
      dm_signature = [], dm_prev_private_key = None, dm_prev_cert_id = [], dm_prev_expiry = 0,
      dm_broker_id = broker_id,
      dm_ttl = (if ttl = 0 then hour else ttl),
      dm_refresh_at = (if refresh_at = 0 then 50 * minute else refresh_at),
      dm_max_token_ttl = (if max_token_ttl = 0 then 30 * minute else max_token_ttl),
      dm_root_public_key = None\<rparr>"

text \<open>What \<open>SignerFunc\<close> returns: certificate id, signature, issue and expiry times, root key.\<close>

type_synonym delegation_grant = "string \<times> bytes \<times> time \<times> time \<times> bytes"

definition request_delegation ::
    "(bytes \<times> bytes) option \<Rightarrow> (bytes \<Rightarrow> string \<Rightarrow> duration \<Rightarrow> client_error + delegation_grant) \<Rightarrow>
     delegation_manager \<Rightarrow> client_error option \<times> delegation_manager"
  where
  "request_delegation keypair signer_func dm =
     (case keypair of
        None \<Rightarrow> (Some KeypairFailed, dm)
      | Some (pub, priv) \<Rightarrow>
     (case signer_func pub (dm_broker_id dm) (dm_ttl dm) of
        Inl e \<Rightarrow> (Some e, dm)
      | Inr (cert_id, sig, issued, expires, root) \<Rightarrow>
          let dm = (if dm_private_key dm \<noteq> None
                    then dm\<lparr>dm_prev_private_key := dm_private_key dm, dm_prev_cert_id := dm_cert_id dm,
                            dm_prev_expiry := dm_cert_expiry dm\<rparr>
                    else dm)
          in (None, dm\<lparr>dm_private_key := Some priv, dm_public_key := pub, dm_cert_id := cert_id,
                dm_cert_issued := issued, dm_cert_expiry := expires, dm_signature := sig,
                dm_root_public_key := Some root\<rparr>)))"

definition is_ready :: "time \<Rightarrow> delegation_manager \<Rightarrow> bool" where
  "is_ready now dm \<longleftrightarrow> dm_private_key dm \<noteq> None \<and> now < dm_cert_expiry dm"

datatype manager_sign_error = NotReady | CertHasExpired

definition manager_sign ::
    "(bytes \<Rightarrow> bytes \<Rightarrow> bytes) \<Rightarrow> time \<Rightarrow> bytes \<Rightarrow> delegation_manager \<Rightarrow> manager_sign_error + bytes" where
  "manager_sign ed_sign now data dm =
     (case dm_private_key dm of
        None \<Rightarrow> Inl NotReady
      | Some priv \<Rightarrow> if now > dm_cert_expiry dm then Inl CertHasExpired else Inr (ed_sign priv data))"

definition cert_age :: "time \<Rightarrow> delegation_manager \<Rightarrow> duration" where
  "cert_age now dm = (if dm_cert_issued dm = 0 then 0 else now - dm_cert_issued dm)"

section \<open>The wiring in the broker\<close>

text \<open>The three pointers of the broker's state; all \<open>None\<close> means task identity is disabled.\<close>

record token_backend =
  tb_issuer :: "issuer option"
  tb_validator :: "token_validator option"
  tb_delegation :: "delegation_manager option"

definition no_backend :: token_backend where
  "no_backend = \<lparr>tb_issuer = None, tb_validator = None, tb_delegation = None\<rparr>"

text \<open>The \<open>SignerFunc\<close> that \<open>InitTaskIdentity\<close> passes; \<open>arrived\<close> is its own clock reading.\<close>

definition broker_signer_func ::
    "(sign_request \<Rightarrow> sign_response option) \<Rightarrow> bytes \<Rightarrow> time \<Rightarrow>
     bytes \<Rightarrow> string \<Rightarrow> duration \<Rightarrow> client_error + delegation_grant" where
  "broker_signer_func do_ipc root arrived pub broker_id ttl =
     (case request_delegation_ipc do_ipc pub broker_id ttl of
        Inl e \<Rightarrow> Inl e
      | Inr resp \<Rightarrow>
     (case b64_std_decode (resp_delegation_sig resp) of
        None \<Rightarrow> Inl BadBase64
      | Some sig \<Rightarrow>
     (case parse_rfc3339 (resp_expires_at resp) of
        None \<Rightarrow> Inl BadExpiry
      | Some expiry \<Rightarrow> Inr (resp_delegation_cert_id resp, sig, arrived, expiry, root))))"

definition current_cert :: "string \<Rightarrow> delegation_manager \<Rightarrow> delegation_cert" where
  "current_cert broker_id dm =
     \<lparr>dc_id = dm_cert_id dm, dc_broker_id = broker_id, dc_public_key = dm_public_key dm,
      dc_signature = dm_signature dm, dc_issued_at = dm_cert_issued dm, dc_expires_at = dm_cert_expiry dm\<rparr>"

text \<open>\<open>OnRotation\<close>, which \<open>InitTaskIdentity\<close> also runs once itself.\<close>

definition on_rotation :: "string \<Rightarrow> token_backend \<Rightarrow> token_backend" where
  "on_rotation broker_id tb =
     (case tb_delegation tb of
        None \<Rightarrow> tb
      | Some dm \<Rightarrow>
          let cert = current_cert broker_id dm in
          tb\<lparr>tb_issuer := map_option (set_delegation (dm_private_key dm) (Some cert)) (tb_issuer tb),
             tb_validator := map_option (add_delegation (Some cert)) (tb_validator tb)\<rparr>)"

definition init_task_identity ::
    "(sign_request \<Rightarrow> sign_response option) \<Rightarrow> string \<Rightarrow> (bytes \<times> bytes) option \<Rightarrow> time \<Rightarrow> time \<Rightarrow>
     token_backend"
  where
  "init_task_identity do_ipc broker_id keypair arrived now =
     (case root_public_key_ipc do_ipc of
        Inl _ \<Rightarrow> no_backend
      | Inr root \<Rightarrow>
          let dm = new_delegation_manager broker_id hour (50 * minute) (30 * minute) in
          (case request_delegation keypair (broker_signer_func do_ipc root arrived) dm of
             (Some _, _) \<Rightarrow> no_backend
           | (None, dm) \<Rightarrow>
               let tb = \<lparr>tb_issuer = Some (new_issuer broker_id), tb_validator = Some (new_validator (Some root)),
                         tb_delegation = Some dm\<rparr>
               in if is_ready now dm then on_rotation broker_id tb else tb))"

text \<open>One turn of \<open>rotationLoop\<close>: a failed rotation keeps the old key.\<close>

definition rotate ::
    "(sign_request \<Rightarrow> sign_response option) \<Rightarrow> bytes \<Rightarrow> string \<Rightarrow> (bytes \<times> bytes) option \<Rightarrow> time \<Rightarrow>
     token_backend \<Rightarrow> token_backend"
  where
  "rotate do_ipc root broker_id keypair arrived tb =
     (case tb_delegation tb of
        None \<Rightarrow> tb
      | Some dm \<Rightarrow>
          (case request_delegation keypair (broker_signer_func do_ipc root arrived) dm of
             (Some _, _) \<Rightarrow> tb
           | (None, dm) \<Rightarrow> on_rotation broker_id (tb\<lparr>tb_delegation := Some dm\<rparr>)))"

section \<open>The chain\<close>

lemma digits_of_inj: "digits_of a = digits_of b \<Longrightarrow> a = b"
  by (metis parse_digits_of of_nat_eq_iff option.inject)

lemma digits_of_no_sign: "digits_of k \<noteq> CHR ''-'' # s"
proof
  assume "digits_of k = CHR ''-'' # s"
  then have "is_digit CHR ''-''" using digits_of_digits [of "CHR ''-''" k] by simp
  then show False by (simp add: is_digit_def)
qed

lemma itoa_inj: "itoa n = itoa m \<Longrightarrow> n = m"
proof (cases "n < 0"; cases "m < 0")
  assume "itoa n = itoa m" "n < 0" "m < 0"
  then have "nat (- n) = nat (- m)" by (intro digits_of_inj) (simp add: itoa_def)
  with \<open>n < 0\<close> \<open>m < 0\<close> show ?thesis by simp
next
  assume "itoa n = itoa m" "\<not> n < 0" "\<not> m < 0"
  then have "nat n = nat m" by (intro digits_of_inj) (simp add: itoa_def)
  with \<open>\<not> n < 0\<close> \<open>\<not> m < 0\<close> show ?thesis by simp
next
  assume "itoa n = itoa m" "n < 0" "\<not> m < 0"
  then show ?thesis using digits_of_no_sign [of "nat m"] by (simp add: itoa_def) metis
next
  assume "itoa n = itoa m" "\<not> n < 0" "m < 0"
  then show ?thesis using digits_of_no_sign [of "nat n"] by (simp add: itoa_def)
qed

lemma json_text_inj: "json_ok j \<Longrightarrow> json_ok j' \<Longrightarrow> json_text j = json_text j' \<Longrightarrow> j = j'"
  by (metis json_parse_text option.inject)

text \<open>Signer and broker build the same bytes exactly for the same fields.\<close>

lemma canonical_payload_eq_iff:
  "create_delegation_payload p = build_canonical_payload cert_id broker_id pub issued expires \<longleftrightarrow>
   dp_cert_id p = cert_id \<and> dp_broker_id p = broker_id \<and>
   b64_std_encode (dp_public_key p) = b64_std_encode pub \<and>
   dp_issued_at p = unix_seconds issued \<and> dp_expires_at p = unix_seconds expires"
  (is "?l = ?r \<longleftrightarrow> _")
proof
  assume eq: "?l = ?r"
  have "canonical_delegation (dp_cert_id p) (dp_broker_id p) (dp_public_key p) (dp_issued_at p) (dp_expires_at p) =
      canonical_delegation cert_id broker_id pub (unix_seconds issued) (unix_seconds expires)"
    using eq unfolding create_delegation_payload_def build_canonical_payload_def canonical_delegation_def
    by (intro json_text_inj) simp_all
  then show "dp_cert_id p = cert_id \<and> dp_broker_id p = broker_id \<and>
      b64_std_encode (dp_public_key p) = b64_std_encode pub \<and>
      dp_issued_at p = unix_seconds issued \<and> dp_expires_at p = unix_seconds expires"
    by (auto simp: canonical_delegation_def JInt_def dest: itoa_inj)
next
  assume "dp_cert_id p = cert_id \<and> dp_broker_id p = broker_id \<and>
      b64_std_encode (dp_public_key p) = b64_std_encode pub \<and>
      dp_issued_at p = unix_seconds issued \<and> dp_expires_at p = unix_seconds expires"
  then show "?l = ?r"
    by (simp add: create_delegation_payload_def build_canonical_payload_def canonical_delegation_def)
qed

lemma unix_seconds_whole [simp]: "unix_seconds (whole_seconds t) = unix_seconds t"
proof -
  have "(t - unix_epoch) div second = t div second - 62135596800" for t
    by (simp add: unix_epoch_def)
  then show ?thesis by (simp add: unix_seconds_def whole_seconds_def)
qed

text \<open>The socket when the signer process answers at time \<open>t0\<close> with the random bytes \<open>rnd\<close>.\<close>

definition served_by ::
    "(bytes \<Rightarrow> bytes \<Rightarrow> bytes) \<Rightarrow> time \<Rightarrow> bytes option \<Rightarrow> signing_ca \<Rightarrow> int \<Rightarrow> int option \<Rightarrow> signer_limiter \<Rightarrow>
     sign_request \<Rightarrow> sign_response option" where
  "served_by ed_sign t0 rnd ca allowed_uid peer rl req =
     Some (fst (handle_conn ed_sign (\<lambda>_. None :: unit option) (\<lambda>_. None) t0 rnd ca allowed_uid peer (Some req) rl))"

lemma hour_text: "parse_duration (format_duration hour) = Some hour"
  by code_simp

lemma delegation_response:
  assumes "served_by ed_sign t0 rnd ca allowed_uid peer rl
      (no_request\<lparr>rq_action := ''sign_delegation'', rq_broker_public_key := b64_std_encode pub,
        rq_broker_id := broker_id, rq_delegation_ttl := format_duration hour\<rparr>) = Some resp"
    and "resp_error resp = None"
  shows "\<exists>res. sign_delegation ed_sign t0 rnd ca pub broker_id hour = Inr res \<and>
    resp_delegation_cert_id resp = dr_cert_id res \<and>
    resp_delegation_sig resp = b64_std_encode (dr_signature res) \<and>
    resp_expires_at resp = format_rfc3339 0 (dr_expires_at res)"
  using assms
  by (auto simp: served_by_def handle_conn_def handle_sign_delegation_def write_error_def no_request_def
      no_response_def hour_text Let_def split: if_splits prod.splits sum.splits)

lemma sign_delegation_result:
  assumes "sign_delegation ed_sign t0 rnd ca pub broker_id ttl = Inr res"
  shows "dr_signature res = ed_sign (ca_raw_priv ca)
      (build_canonical_payload (dr_cert_id res) broker_id pub t0 (dr_expires_at res)) \<and>
    dr_expires_at res = t0 + ttl \<and> 0 < ttl \<and> ttl \<le> 24 * hour \<and> length pub = 32 \<and> broker_id \<noteq> []"
  using assms
  by (auto simp: sign_delegation_def max_delegation_ttl_def Let_def split: if_splits sum.splits)

lemma grant_from_signer:
  assumes "broker_signer_func (served_by ed_sign t0 rnd ca allowed_uid peer rl) root t1 pub broker_id hour =
      Inr (cid, sig, issued, expiry, root')"
    and "formattable 0 (t0 + hour)"
  shows "sig = ed_sign (ca_raw_priv ca) (build_canonical_payload cid broker_id pub t0 (t0 + hour)) \<and>
    issued = t1 \<and> expiry = whole_seconds (t0 + hour) \<and> root' = root \<and> length pub = 32 \<and> broker_id \<noteq> []"
proof -
  from assms(1) obtain resp where resp:
    "served_by ed_sign t0 rnd ca allowed_uid peer rl
      (no_request\<lparr>rq_action := ''sign_delegation'', rq_broker_public_key := b64_std_encode pub,
        rq_broker_id := broker_id, rq_delegation_ttl := format_duration hour\<rparr>) = Some resp" "resp_error resp = None"
    and got: "b64_std_decode (resp_delegation_sig resp) = Some sig" "parse_rfc3339 (resp_expires_at resp) = Some expiry"
      "cid = resp_delegation_cert_id resp" "issued = t1" "root' = root"
    by (auto simp: broker_signer_func_def request_delegation_ipc_def split: option.splits sum.splits)
  from delegation_response [OF resp] obtain res where
    res: "sign_delegation ed_sign t0 rnd ca pub broker_id hour = Inr res" "resp_delegation_cert_id resp = dr_cert_id res"
      "resp_delegation_sig resp = b64_std_encode (dr_signature res)" "resp_expires_at resp = format_rfc3339 0 (dr_expires_at res)"
    by blast
  note r = sign_delegation_result [OF res(1)]
  have "expiry = whole_seconds (t0 + hour)"
    using got(2) r rfc3339.parse_fmt [OF assms(2)] by (simp add: res(4))
  moreover have "sig = dr_signature res" using got(1) by (simp add: res(3))
  ultimately show ?thesis using r got(3-5) res(2) by simp
qed

lemma chain_verifies_iff:
  assumes "\<forall>m m'. ed_verify root m (ed_sign (ca_raw_priv ca) m') \<longleftrightarrow> m = m'"
    and "broker_signer_func (served_by ed_sign t0 rnd ca allowed_uid peer rl) root t1 pub broker_id hour =
      Inr (cid, sig, issued, expiry, root')"
    and "formattable 0 (t0 + hour)"
    and "cert = \<lparr>dc_id = cid, dc_broker_id = broker_id, dc_public_key = pub, dc_signature = sig,
      dc_issued_at = issued, dc_expires_at = expiry\<rparr>"
  shows "verify_delegation_cert ed_verify now cert (cert_payload cert) (Some root') = None \<longleftrightarrow>
    unix_seconds t1 = unix_seconds t0 \<and> now \<le> whole_seconds (t0 + hour)"
proof -
  note g = grant_from_signer [OF assms(2,3)]
  have "create_delegation_payload (cert_payload cert) = build_canonical_payload cid broker_id pub t0 (t0 + hour) \<longleftrightarrow>
      unix_seconds t1 = unix_seconds t0"
    using g by (simp add: canonical_payload_eq_iff cert_payload_def assms(4))
  then show ?thesis
    using g assms(1) by (simp add: verify_delegation_cert_def assms(4) cert_payload_def not_less)
qed

text \<open>
  Claim C30. The chain from the signer's root key to the broker's delegated key verifies
  exactly as long as the certificate has not expired and the broker read its clock in the
  same second in which the signer issued the certificate. (The signed payload holds the
  signer's issue time, the broker rebuilds it with its own: a response that crosses a
  second boundary leaves the broker with a certificate that no token can use.)
\<close>

theorem delegation_chain_exact:
  assumes "\<forall>m m'. ed_verify root m (ed_sign (ca_raw_priv ca) m') \<longleftrightarrow> m = m'"
    and "broker_signer_func (served_by ed_sign t0 rnd ca allowed_uid peer rl) root t1 pub broker_id hour =
      Inr (cid, sig, issued, expiry, root')"
    and "formattable 0 (t0 + hour)"
    and "cert = \<lparr>dc_id = cid, dc_broker_id = broker_id, dc_public_key = pub, dc_signature = sig,
      dc_issued_at = issued, dc_expires_at = expiry\<rparr>"
  shows "verify_delegation_cert ed_verify now cert (cert_payload cert) (Some root') = None \<longleftrightarrow>
    unix_seconds t1 = unix_seconds t0 \<and> now \<le> whole_seconds (t0 + hour)"
  using assms by (rule chain_verifies_iff)

definition toy_sign :: "bytes \<Rightarrow> bytes \<Rightarrow> bytes" where
  "toy_sign key m = key @ m"

definition toy_verify :: "bytes \<Rightarrow> bytes \<Rightarrow> bytes \<Rightarrow> bool" where
  "toy_verify key m s \<longleftrightarrow> s = key @ m"

definition sample_ca :: signing_ca where
  "sample_ca = \<lparr>ca_raw_priv = replicate 32 (CHR ''r''), ca_raw_pub = replicate 32 (CHR ''r'')\<rparr>"

definition sample_time :: time where
  "sample_time = unix_epoch + 1700000000 * 1000000000"

lemma sample_formattable: "formattable 0 (sample_time + hour)"
  by code_simp

lemma sample_grant:
  "\<exists>sig. broker_signer_func (served_by toy_sign sample_time (Some ''abc'') sample_ca (-1) None (new_signer_limiter 0 0))
     (ca_raw_pub sample_ca) t1 (replicate 32 (CHR ''b'')) ''b1'' hour =
   Inr (hex_encode ''abc'', sig, t1, whole_seconds (sample_time + hour), ca_raw_pub sample_ca)"
proof -
  have "length (replicate 32 (CHR ''b'')) = 32" by simp
  moreover have "b64_std_encode (replicate 32 (CHR ''b'')) \<noteq> []" by code_simp
  moreover have "format_duration hour \<noteq> []" by code_simp
  ultimately show ?thesis
    using rfc3339.parse_fmt [OF sample_formattable]
    by (simp add: broker_signer_func_def request_delegation_ipc_def served_by_def handle_conn_def no_request_def
        handle_sign_delegation_def hour_text sign_delegation_def max_delegation_ttl_def generate_cert_id_def
        signer_allow_def new_signer_limiter_def no_response_def Let_def)
qed

theorem delegation_chain_exact_witness:
  "\<exists>cert. dc_id cert = hex_encode ''abc'' \<and>
     verify_delegation_cert toy_verify sample_time cert (cert_payload cert) (Some (ca_raw_pub sample_ca)) = None"
proof -
  obtain sig where g: "broker_signer_func (served_by toy_sign sample_time (Some ''abc'') sample_ca (-1) None (new_signer_limiter 0 0))
     (ca_raw_pub sample_ca) sample_time (replicate 32 (CHR ''b'')) ''b1'' hour =
   Inr (hex_encode ''abc'', sig, sample_time, whole_seconds (sample_time + hour), ca_raw_pub sample_ca)"
    using sample_grant by blast
  have ideal: "\<forall>m m'. toy_verify (ca_raw_pub sample_ca) m (toy_sign (ca_raw_priv sample_ca) m') \<longleftrightarrow> m = m'"
    by (auto simp: toy_verify_def toy_sign_def sample_ca_def)
  have "sample_time \<le> whole_seconds (sample_time + hour)" by code_simp
  with delegation_chain_exact [where ed_verify = toy_verify and ed_sign = toy_sign, OF ideal g sample_formattable refl,
      of sample_time] show ?thesis
    by (intro exI [of _ "\<lparr>dc_id = hex_encode ''abc'', dc_broker_id = ''b1'', dc_public_key = replicate 32 (CHR ''b''),
          dc_signature = sig, dc_issued_at = sample_time, dc_expires_at = whole_seconds (sample_time + hour)\<rparr>"]) simp
qed

section \<open>Rotation\<close>

text \<open>States of the backend: initialised, then rotated any number of times.\<close>

inductive backend_run :: "string \<Rightarrow> token_backend \<Rightarrow> bool" for broker_id where
  run_init: "backend_run broker_id (init_task_identity do_ipc broker_id keypair arrived now)"
| run_rotate: "backend_run broker_id tb \<Longrightarrow> backend_run broker_id (rotate do_ipc root broker_id keypair arrived tb)"

text \<open>Rotations after which no new certificate reuses the id \<open>kid\<close>.\<close>

inductive rotations :: "string \<Rightarrow> string \<Rightarrow> token_backend \<Rightarrow> token_backend \<Rightarrow> bool" for broker_id kid where
  no_rotation: "rotations broker_id kid tb tb"
| one_more: "rotations broker_id kid tb tb1 \<Longrightarrow> tb2 = rotate do_ipc root broker_id keypair arrived tb1 \<Longrightarrow>
     tb2 = tb1 \<or> (\<exists>dm. tb_delegation tb2 = Some dm \<and> dm_cert_id dm \<noteq> kid) \<Longrightarrow> rotations broker_id kid tb tb2"

definition backend_ok :: "token_backend \<Rightarrow> bool" where
  "backend_ok tb \<longleftrightarrow>
     (\<forall>i v cert. tb_issuer tb = Some i \<and> tb_validator tb = Some v \<and> is_delegation i = Some cert \<longrightarrow>
        get (tv_delegations v) (dc_id cert) = Some cert)"

lemma backend_ok_on_rotation: "backend_ok tb \<Longrightarrow> backend_ok (on_rotation broker_id tb)"
  by (auto simp: backend_ok_def on_rotation_def Let_def set_delegation_def add_delegation_def split: option.splits)

lemma backend_ok_run: "backend_run broker_id tb \<Longrightarrow> backend_ok tb"
proof (induction rule: backend_run.induct)
  case (run_init do_ipc keypair arrived now)
  show ?case
    by (auto simp: init_task_identity_def Let_def no_backend_def backend_ok_def [of "\<lparr>tb_issuer = _, tb_validator = _, tb_delegation = _\<rparr>"]
        new_issuer_def intro!: backend_ok_on_rotation split: sum.splits prod.splits option.splits)
next
  case (run_rotate tb do_ipc root keypair arrived)
  then show ?case
    by (auto simp: rotate_def backend_ok_def [of "_\<lparr>tb_delegation := _\<rparr>"] backend_ok_def [of tb]
        intro!: backend_ok_on_rotation split: option.splits prod.splits)
qed

lemma rotations_keep_cert:
  "rotations broker_id kid tb tb' \<Longrightarrow> tb_validator tb = Some v \<Longrightarrow>
   \<exists>v'. tb_validator tb' = Some v' \<and> tv_root_public_key v' = tv_root_public_key v \<and>
     get (tv_delegations v') kid = get (tv_delegations v) kid"
proof (induction rule: rotations.induct)
  case (one_more tb tb1 tb2 do_ipc root keypair arrived)
  show ?case
  proof (cases "tb2 = tb1")
    case True
    then show ?thesis using one_more by simp
  next
    case False
    with one_more.hyps(3) obtain dm where "tb_delegation tb2 = Some dm" "dm_cert_id dm \<noteq> kid" by blast
    then show ?thesis
      using one_more.IH [OF one_more.prems] one_more.hyps(2)
      by (auto simp: rotate_def on_rotation_def Let_def add_delegation_def current_cert_def
          split: option.splits prod.splits)
  qed
qed simp


definition sample_backend :: token_backend where
  "sample_backend = init_task_identity
     (served_by toy_sign sample_time (Some ''abc'') sample_ca (-1) None (new_signer_limiter 0 0))
     ''b1'' (Some (replicate 32 (CHR ''b''), replicate 32 (CHR ''b''))) sample_time sample_time"

definition sample_claims :: task_claims where
  "sample_claims = \<lparr>cl_issuer = [], cl_subject = ''claude'', cl_audience = [], cl_issued_at = 0,
     cl_expires_at = sample_time + 10 * minute, cl_token_id = [],
     cl_task = no_identity\<lparr>ti_id := ''t1'', ti_root_id := ''t1'', ti_lineage := [''t1'']\<rparr>,
     cl_envelope = no_envelope\<lparr>te_targets := [''web'']\<rparr>\<rparr>"

lemma sample_root_key:
  "root_public_key_ipc (served_by toy_sign sample_time (Some ''abc'') sample_ca (-1) None (new_signer_limiter 0 0)) =
   Inr (ca_raw_pub sample_ca)"
proof -
  have "b64_std_encode (replicate 32 (CHR ''r'')) \<noteq> []" by code_simp
  then show ?thesis
    by (simp add: root_public_key_ipc_def served_by_def handle_conn_def handle_root_public_key_def no_request_def
        no_response_def sample_ca_def Let_def)
qed

lemma sample_backend_parts:
  "\<exists>sig i v. tb_issuer sample_backend = Some i \<and> tb_validator sample_backend = Some v \<and>
     is_broker_id i = ''b1'' \<and> is_private_key i = Some (replicate 32 (CHR ''b'')) \<and>
     tv_root_public_key v = Some (ca_raw_pub sample_ca) \<and>
     broker_signer_func (served_by toy_sign sample_time (Some ''abc'') sample_ca (-1) None (new_signer_limiter 0 0))
       (ca_raw_pub sample_ca) sample_time (replicate 32 (CHR ''b'')) ''b1'' hour =
       Inr (hex_encode ''abc'', sig, sample_time, whole_seconds (sample_time + hour), ca_raw_pub sample_ca) \<and>
     is_delegation i = Some \<lparr>dc_id = hex_encode ''abc'', dc_broker_id = ''b1'',
       dc_public_key = replicate 32 (CHR ''b''), dc_signature = sig, dc_issued_at = sample_time,
       dc_expires_at = whole_seconds (sample_time + hour)\<rparr>"
proof -
  obtain sig where g: "broker_signer_func (served_by toy_sign sample_time (Some ''abc'') sample_ca (-1) None (new_signer_limiter 0 0))
     (ca_raw_pub sample_ca) sample_time (replicate 32 (CHR ''b'')) ''b1'' hour =
   Inr (hex_encode ''abc'', sig, sample_time, whole_seconds (sample_time + hour), ca_raw_pub sample_ca)"
    using sample_grant by blast
  have "sample_time < whole_seconds (sample_time + hour)" by code_simp
  then show ?thesis
    by (simp add: sample_backend_def init_task_identity_def sample_root_key new_delegation_manager_def
        request_delegation_def g is_ready_def on_rotation_def current_cert_def set_delegation_def
        add_delegation_def new_issuer_def new_validator_def Let_def)
qed


end
