(* ===== verification/McpAuth.thy ===== *)
theory McpAuth
  imports PolicyTypes Macaroon TaskToken
begin

text \<open>
  Component \<open>internal/broker/mcp_auth.go\<close>: API keys of agents, checked against bcrypt hashes
  with a cache of successful checks. \<open>bcrypt\<close> stands for \<open>CompareHashAndPassword\<close> and
  \<open>sha256\<close> for \<open>sha256.Sum256\<close>; the two clock readings are arguments. The theorem says
  that the cache is invisible: it refines a check of the registered agents.
\<close>

section \<open>State and operations\<close>

record mcp_agent =
  ma_name :: string
  ma_roles :: "string list"
  ma_max_concurrent :: int
  ma_auto_approve :: bool
  ma_perms :: "resolved_agent_perms option"
  ma_task_claims :: "task_claims option"
  ma_raw_macaroon :: "macaroon option"

definition has_task_identity :: "mcp_agent \<Rightarrow> bool" where
  "has_task_identity a \<longleftrightarrow> ma_task_claims a \<noteq> None"

definition agent_task_id :: "mcp_agent \<Rightarrow> string" where
  "agent_task_id a = (case ma_task_claims a of None \<Rightarrow> [] | Some c \<Rightarrow> ti_id (cl_task c))"

record mcp_agent_config =
  mc_name :: string
  mc_api_key_hash :: string
  mc_roles :: "string list"
  mc_max_concurrent :: int
  mc_auto_approve :: bool
  mc_perms :: "resolved_agent_perms option"

record auth_cache_entry =
  ac_agent :: mcp_agent
  ac_expires :: time

record mcp_authenticator =
  au_agents :: "(string, mcp_agent_config) gomap"
  au_cache :: "(string, auth_cache_entry) gomap"
  au_cache_ttl :: duration
  au_cache_hits :: int
  au_cache_misses :: int

datatype auth_error = NoAgentsRegistered | InvalidApiKey

definition default_auth_cache_ttl :: duration where
  "default_auth_cache_ttl = 60 * second"

definition new_mcp_authenticator :: mcp_authenticator where
  "new_mcp_authenticator = \<lparr>au_agents = [], au_cache = [], au_cache_ttl = default_auth_cache_ttl,
     au_cache_hits = 0, au_cache_misses = 0\<rparr>"

definition set_cache_ttl :: "duration \<Rightarrow> mcp_authenticator \<Rightarrow> mcp_authenticator" where
  "set_cache_ttl ttl au = au\<lparr>au_cache_ttl := ttl\<rparr>"

definition cache_stats :: "mcp_authenticator \<Rightarrow> int \<times> int" where
  "cache_stats au = (au_cache_hits au, au_cache_misses au)"

definition invalidate_cache :: "mcp_authenticator \<Rightarrow> mcp_authenticator" where
  "invalidate_cache au = au\<lparr>au_cache := []\<rparr>"

definition add_agent :: "mcp_agent_config \<Rightarrow> mcp_authenticator \<Rightarrow> mcp_authenticator" where
  "add_agent cfg au = invalidate_cache (au\<lparr>au_agents := put (mc_name cfg) cfg (au_agents au)\<rparr>)"

definition remove_agent :: "string \<Rightarrow> mcp_authenticator \<Rightarrow> mcp_authenticator" where
  "remove_agent name au = invalidate_cache (au\<lparr>au_agents := del name (au_agents au)\<rparr>)"

definition api_key_fingerprint :: "(bytes \<Rightarrow> bytes) \<Rightarrow> string \<Rightarrow> string" where
  "api_key_fingerprint sha256 key = hex_encode (sha256 key)"

definition agent_for :: "mcp_agent_config \<Rightarrow> mcp_agent" where
  "agent_for cfg =
     \<lparr>ma_name = mc_name cfg, ma_roles = mc_roles cfg, ma_max_concurrent = mc_max_concurrent cfg,
      ma_auto_approve = mc_auto_approve cfg, ma_perms = mc_perms cfg, ma_task_claims = None,
      ma_raw_macaroon = None\<rparr>"

definition cache_result :: "time \<Rightarrow> string \<Rightarrow> mcp_agent \<Rightarrow> mcp_authenticator \<Rightarrow> mcp_authenticator" where
  "cache_result now fp agent au =
     (if au_cache_ttl au \<le> 0 then au
      else au\<lparr>au_cache := put fp \<lparr>ac_agent = agent, ac_expires = now + au_cache_ttl au\<rparr> (au_cache au)\<rparr>)"

definition key_matches :: "(string \<Rightarrow> string \<Rightarrow> bool) \<Rightarrow> string \<Rightarrow> mcp_agent_config \<Rightarrow> bool" where
  "key_matches bcrypt key cfg \<longleftrightarrow> mc_api_key_hash cfg \<noteq> [] \<and> bcrypt (mc_api_key_hash cfg) key"

definition authenticate ::
    "(string \<Rightarrow> string \<Rightarrow> bool) \<Rightarrow> (bytes \<Rightarrow> bytes) \<Rightarrow> time \<Rightarrow> time \<Rightarrow> string \<Rightarrow> mcp_authenticator \<Rightarrow>
     (auth_error + mcp_agent) \<times> mcp_authenticator"
  where
  "authenticate bcrypt sha256 now stored key au =
     (let fp = api_key_fingerprint sha256 key;
          hit = (case get (au_cache au) fp of
                   Some entry \<Rightarrow> if now < ac_expires entry then Some (ac_agent entry) else None
                 | None \<Rightarrow> None)
      in case hit of
        Some agent \<Rightarrow> (Inr agent, au\<lparr>au_cache_hits := au_cache_hits au + 1\<rparr>)
      | None \<Rightarrow>
          let au = au\<lparr>au_cache_misses := au_cache_misses au + 1\<rparr> in
          if au_agents au = [] then (Inl NoAgentsRegistered, au)
          else (case find (\<lambda>(_, cfg). key_matches bcrypt key cfg) (au_agents au) of
            Some (_, cfg) \<Rightarrow> (Inr (agent_for cfg), cache_result stored fp (agent_for cfg) au)
          | None \<Rightarrow> (Inl InvalidApiKey, au)))"

definition generate_key_hash :: "(string \<Rightarrow> string option) \<Rightarrow> string \<Rightarrow> string option" where
  "generate_key_hash bcrypt_hash plaintext = (if plaintext = [] then None else bcrypt_hash plaintext)"

definition agent_count :: "mcp_authenticator \<Rightarrow> nat" where
  "agent_count au = length (au_agents au)"

definition list_agent_names :: "mcp_authenticator \<Rightarrow> string list" where
  "list_agent_names au = map fst (au_agents au)"

section \<open>The abstract specification\<close>

text \<open>An API key is good for an agent that a registered configuration describes and whose hash it matches.\<close>

definition entitled :: "(string \<Rightarrow> string \<Rightarrow> bool) \<Rightarrow> (string, mcp_agent_config) gomap \<Rightarrow> string \<Rightarrow> mcp_agent \<Rightarrow> bool" where
  "entitled bcrypt agents key agent \<longleftrightarrow>
     (\<exists>name cfg. (name, cfg) \<in> set agents \<and> key_matches bcrypt key cfg \<and> agent = agent_for cfg)"

text \<open>Histories of the authenticator, with the keys that were presented to it.\<close>

inductive auth_history ::
    "(string \<Rightarrow> string \<Rightarrow> bool) \<Rightarrow> (bytes \<Rightarrow> bytes) \<Rightarrow> string list \<Rightarrow> mcp_authenticator \<Rightarrow> bool"
  for bcrypt sha256
where
  auth_new: "auth_history bcrypt sha256 [] new_mcp_authenticator"
| auth_add: "auth_history bcrypt sha256 keys au \<Longrightarrow> auth_history bcrypt sha256 keys (add_agent cfg au)"
| auth_remove: "auth_history bcrypt sha256 keys au \<Longrightarrow> auth_history bcrypt sha256 keys (remove_agent name au)"
| auth_ttl: "auth_history bcrypt sha256 keys au \<Longrightarrow> auth_history bcrypt sha256 keys (set_cache_ttl ttl au)"
| auth_key: "auth_history bcrypt sha256 keys au \<Longrightarrow>
     auth_history bcrypt sha256 (key # keys) (snd (authenticate bcrypt sha256 now stored key au))"

inductive_cases auth_historyE: "auth_history bcrypt sha256 keys au"

definition cache_sound :: "(string \<Rightarrow> string \<Rightarrow> bool) \<Rightarrow> (bytes \<Rightarrow> bytes) \<Rightarrow> string list \<Rightarrow> mcp_authenticator \<Rightarrow> bool" where
  "cache_sound bcrypt sha256 keys au \<longleftrightarrow>
     (\<forall>fp entry. get (au_cache au) fp = Some entry \<longrightarrow>
        (\<exists>key \<in> set keys. api_key_fingerprint sha256 key = fp \<and>
           entitled bcrypt (au_agents au) key (ac_agent entry)))"

lemma find_entitled:
  "find (\<lambda>(_, cfg). key_matches bcrypt key cfg) agents = Some (name, cfg) \<Longrightarrow>
   entitled bcrypt agents key (agent_for cfg)"
  by (auto simp: find_Some_iff entitled_def) (metis nth_mem)

lemma find_not_entitled:
  "find (\<lambda>(_, cfg). key_matches bcrypt key cfg) agents = None \<Longrightarrow> \<not> entitled bcrypt agents key agent"
  by (auto simp: find_None_iff entitled_def)

lemma authenticate_cases:
  obtains entry where "get (au_cache au) (api_key_fingerprint sha256 key) = Some entry" "now < ac_expires entry"
    "authenticate bcrypt sha256 now stored key au = (Inr (ac_agent entry), au\<lparr>au_cache_hits := au_cache_hits au + 1\<rparr>)"
  | cfg where "entitled bcrypt (au_agents au) key (agent_for cfg)"
    "authenticate bcrypt sha256 now stored key au =
       (Inr (agent_for cfg), cache_result stored (api_key_fingerprint sha256 key) (agent_for cfg)
          (au\<lparr>au_cache_misses := au_cache_misses au + 1\<rparr>))"
  | err where "\<forall>agent. \<not> entitled bcrypt (au_agents au) key agent"
    "authenticate bcrypt sha256 now stored key au = (Inl err, au\<lparr>au_cache_misses := au_cache_misses au + 1\<rparr>)"
proof (cases "\<exists>entry. get (au_cache au) (api_key_fingerprint sha256 key) = Some entry \<and> now < ac_expires entry")
  case True
  then show thesis using that(1) by (auto simp: authenticate_def Let_def)
next
  case False
  then have miss: "authenticate bcrypt sha256 now stored key au =
      (let au = au\<lparr>au_cache_misses := au_cache_misses au + 1\<rparr> in
          if au_agents au = [] then (Inl NoAgentsRegistered, au)
          else (case find (\<lambda>(_, cfg). key_matches bcrypt key cfg) (au_agents au) of
            Some (_, cfg) \<Rightarrow> (Inr (agent_for cfg), cache_result stored (api_key_fingerprint sha256 key) (agent_for cfg) au)
          | None \<Rightarrow> (Inl InvalidApiKey, au)))"
    by (auto simp: authenticate_def Let_def split: option.splits)
  show thesis
  proof (cases "find (\<lambda>(_, cfg). key_matches bcrypt key cfg) (au_agents au)")
    case None
    have "\<forall>agent. \<not> entitled bcrypt (au_agents au) key agent" using find_not_entitled [OF None] by blast
    then show thesis using that(3) miss None by (auto simp: Let_def split: if_splits)
  next
    case (Some nc)
    obtain name cfg where nc: "nc = (name, cfg)" by (cases nc)
    then have "au_agents au \<noteq> []" using Some by auto
    then show thesis
      using that(2) [OF find_entitled [OF Some [unfolded nc]]] miss Some nc by (simp add: Let_def)
  qed
qed

lemma cache_sound_history: "auth_history bcrypt sha256 keys au \<Longrightarrow> cache_sound bcrypt sha256 keys au"
proof (induction rule: auth_history.induct)
  case (auth_key keys au key now stored)
  then show ?case
    by (cases rule: authenticate_cases [of au sha256 key now bcrypt stored])
       (auto simp: cache_sound_def cache_result_def)
qed (auto simp: cache_sound_def new_mcp_authenticator_def add_agent_def remove_agent_def
      invalidate_cache_def set_cache_ttl_def)

text \<open>
  Claim C32. The authentication cache refines the plain check: in every state the
  authenticator can reach, an API key is accepted exactly when it matches the hash of a
  currently registered agent, and the result describes such an agent with its current
  configuration, so that replacing or removing an agent takes effect at once. The only
  assumption is that no other key presented before has the same SHA-256 fingerprint.
\<close>

theorem auth_cache_refines_check:
  assumes "auth_history bcrypt sha256 keys au"
    and "\<forall>k \<in> set keys. api_key_fingerprint sha256 k = api_key_fingerprint sha256 key \<longrightarrow> k = key"
  shows "case fst (authenticate bcrypt sha256 now stored key au) of
      Inr agent \<Rightarrow> entitled bcrypt (au_agents au) key agent
    | Inl _ \<Rightarrow> \<not> (\<exists>agent. entitled bcrypt (au_agents au) key agent)"
proof (cases rule: authenticate_cases [of au sha256 key now bcrypt stored])
  case (1 entry)
  with cache_sound_history [OF assms(1)] assms(2) show ?thesis by (auto simp: cache_sound_def)
qed auto

definition sample_agent_config :: mcp_agent_config where
  "sample_agent_config = \<lparr>mc_name = ''claude'', mc_api_key_hash = ''h'', mc_roles = [''read''],
     mc_max_concurrent = 3, mc_auto_approve = True, mc_perms = None\<rparr>"

theorem auth_cache_refines_check_witness:
  "let bcrypt = (\<lambda>h k. h = ''h'' \<and> k = ''key''); sha = rev;
       au1 = add_agent sample_agent_config new_mcp_authenticator;
       au2 = snd (authenticate bcrypt sha 10 11 ''key'' au1);
       au3 = remove_agent ''claude'' au2
   in fst (authenticate bcrypt sha 12 13 ''key'' au2) = Inr (agent_for sample_agent_config) \<and>
      (\<forall>agent. fst (authenticate bcrypt sha 12 13 ''key'' au3) \<noteq> Inr agent)"
proof -
  let ?bcrypt = "\<lambda>h k. h = ''h'' \<and> k = ''key''"
  let ?au1 = "add_agent sample_agent_config new_mcp_authenticator"
  let ?au2 = "snd (authenticate ?bcrypt rev 10 11 ''key'' ?au1)"
  have h: "auth_history ?bcrypt rev [''key''] (remove_agent ''claude'' ?au2)"
    by (intro auth_remove auth_key auth_add auth_new)
  have gone: "au_agents (remove_agent ''claude'' ?au2) = []" by code_simp
  have first: "fst (authenticate ?bcrypt rev 12 13 ''key'' ?au2) = Inr (agent_for sample_agent_config)" by code_simp
  from auth_cache_refines_check [OF h, of "''key''" 12 13] gone
  have "\<forall>agent. fst (authenticate ?bcrypt rev 12 13 ''key'' (remove_agent ''claude'' ?au2)) \<noteq> Inr agent"
    by (auto simp: entitled_def)
  with first show ?thesis unfolding Let_def by blast
qed

end
