(* ===== verification/PolicyLoader.thy ===== *)
theory PolicyLoader
  imports PolicyEngine Encoding
begin

text \<open>
  Component \<open>internal/policy/loader.go\<close>: defaults, validation and role resolution of a parsed
  policy. Reading the file and the YAML parser are one argument (\<open>parsed\<close>), parsing an SSH
  host key, its wire form and SHA-256 are others. Loops over maps return at the first error.
\<close>

section \<open>Errors and defaults\<close>

datatype policy_error =
    ReadOrParseFailed
  | InvalidDefaultTtl string | InvalidMaxTtl string | DefaultExceedsMax duration duration
  | NoAgentsDefined | DuplicateUid int string string | UndefinedTemplate string string
  | DuplicateHost string string string | UndefinedRole string string
  | InvalidTargetTtl string string | TargetTtlExceeds string duration duration | EmptyHost string
  | EmptyPrincipal string | InvalidPrincipal string string | InvalidShell string string
  | SudoNotString string nat | SudoEmptyString string nat | InvalidSudo string
  | InvalidHostKey string | FingerprintMismatch string string string | BadFingerprintFormat string string
  | HostKeyMissing string

definition map_values :: "('k \<Rightarrow> 'v \<Rightarrow> 'v) \<Rightarrow> ('k, 'v) gomap \<Rightarrow> ('k, 'v) gomap" where
  "map_values f m = map (\<lambda>(k, v). (k, f k v)) m"

definition apply_defaults :: "config \<Rightarrow> config" where
  "apply_defaults cfg =
     (let g = cfg_global cfg;
          g = (if gp_max_active_certs g = 0 then g\<lparr>gp_max_active_certs := 10\<rparr> else g);
          g = (if gp_default_ttl g = [] then g\<lparr>gp_default_ttl := ''5m''\<rparr> else g);
          g = (if gp_max_ttl g = [] then g\<lparr>gp_max_ttl := ''30m''\<rparr> else g);
          r = gp_rate_limit g;
          r = (if rlc_requests_per_window r = 0 then r\<lparr>rlc_requests_per_window := 10\<rparr> else r);
          r = (if rlc_window_seconds r = 0 then r\<lparr>rlc_window_seconds := 60\<rparr> else r);
          g = g\<lparr>gp_rate_limit := r\<rparr>
      in cfg\<lparr>cfg_global := g,
             cfg_agents := map_values (\<lambda>_ a. if ap_max_concurrent_certs a = 0
               then a\<lparr>ap_max_concurrent_certs := 3\<rparr> else a) (cfg_agents cfg),
             cfg_targets := map_values (\<lambda>_ t. if tg_port t = 0 then t\<lparr>tg_port := 22\<rparr> else t)
               (cfg_targets cfg)\<rparr>)"

section \<open>Validation\<close>

text \<open>\<open>principalRe\<close>: \<open>^[a-z_][a-z0-9_-]{0,31}$\<close>.\<close>

definition principal_ok :: "string \<Rightarrow> bool" where
  "principal_ok s =
     (case s of
        [] \<Rightarrow> False
      | c # cs \<Rightarrow>
          (CHR ''a'' \<le> c \<and> c \<le> CHR ''z'' \<or> c = CHR ''_'') \<and> length cs \<le> 31 \<and>
          list_all (\<lambda>d. CHR ''a'' \<le> d \<and> d \<le> CHR ''z'' \<or> CHR ''0'' \<le> d \<and> d \<le> CHR ''9'' \<or>
                        d = CHR ''_'' \<or> d = CHR ''-'') cs)"

definition check_uid :: "string \<times> agent_policy \<Rightarrow> (int, string) gomap \<Rightarrow> policy_error + (int, string) gomap" where
  "check_uid = (\<lambda>(name, agent) seen.
     case get seen (ap_uid agent) of
       Some prev \<Rightarrow> Inl (DuplicateUid (ap_uid agent) prev name)
     | None \<Rightarrow> Inr (put (ap_uid agent) name seen))"

definition check_inherits :: "config \<Rightarrow> string \<times> agent_policy \<Rightarrow> unit \<Rightarrow> policy_error + unit" where
  "check_inherits cfg = (\<lambda>(name, agent) _.
     case find (\<lambda>t. get (cfg_templates cfg) t = None) (ap_inherits agent) of
       Some t \<Rightarrow> Inl (UndefinedTemplate name t)
     | None \<Rightarrow> Inr ())"

definition host_port :: "target_policy \<Rightarrow> string" where
  "host_port t = tg_host t @ '':'' @ itoa (tg_port t)"

definition check_target ::
    "config \<Rightarrow> duration \<Rightarrow> string \<times> target_policy \<Rightarrow>
     (string, string) gomap \<times> (string, duration) gomap \<Rightarrow>
     policy_error + (string, string) gomap \<times> (string, duration) gomap"
  where
  "check_target cfg global_max = (\<lambda>(name, target) (hosts, ttls).
     case get hosts (host_port target) of
       Some prev \<Rightarrow> Inl (DuplicateHost (host_port target) prev name)
     | None \<Rightarrow>
       let hosts = put (host_port target) name hosts in
       (case find (\<lambda>r. get (cfg_roles cfg) r = None) (tg_allowed_roles target) of
          Some r \<Rightarrow> Inl (UndefinedRole name r)
        | None \<Rightarrow>
       (case (if tg_max_ttl target \<noteq> []
              then (case parse_duration (tg_max_ttl target) of
                      None \<Rightarrow> Inl (InvalidTargetTtl name (tg_max_ttl target))
                    | Some ttl \<Rightarrow>
                        if ttl > global_max then Inl (TargetTtlExceeds name ttl global_max)
                        else Inr (put name ttl ttls))
              else Inr (put name global_max ttls)) of
          Inl e \<Rightarrow> Inl e
        | Inr ttls \<Rightarrow> if tg_host target = [] then Inl (EmptyHost name) else Inr (hosts, ttls))))"

definition check_sudo_item :: "string \<Rightarrow> nat \<times> string option \<Rightarrow> unit \<Rightarrow> policy_error + unit" where
  "check_sudo_item name = (\<lambda>(i, item) _.
     case item of
       None \<Rightarrow> Inl (SudoNotString name i)
     | Some s \<Rightarrow> if s = [] then Inl (SudoEmptyString name i) else Inr ())"

definition check_role :: "string \<times> role_definition \<Rightarrow> unit \<Rightarrow> policy_error + unit" where
  "check_role = (\<lambda>(name, role) _.
     if rd_principal role = [] then Inl (EmptyPrincipal name)
     else if \<not> principal_ok (rd_principal role) then Inl (InvalidPrincipal name (rd_principal role))
     else if rd_shell role \<noteq> [] \<and> \<not> has_prefix ''/'' (rd_shell role) then Inl (InvalidShell name (rd_shell role))
     else (case rd_sudo role of
             SudoNil \<Rightarrow> Inr ()
           | SudoBool _ \<Rightarrow> Inr ()
           | SudoList items \<Rightarrow> run_steps (check_sudo_item name) (zip [0..<length items] items) ()
           | SudoOther \<Rightarrow> Inl (InvalidSudo name)))"

definition resolve_role :: "string \<Rightarrow> role_definition \<Rightarrow> resolved_role" where
  "resolve_role name d =
     \<lparr>rr_name = name, rr_principal = rd_principal d,
      rr_shell = (if rd_shell d = [] then ''/bin/bash'' else rd_shell d),
      rr_sudo_rules =
        (case rd_sudo d of
           SudoNil \<Rightarrow> [] | SudoBool b \<Rightarrow> (if b then [''ALL''] else [])
         | SudoList items \<Rightarrow> map the (filter (\<lambda>i. i \<noteq> None) items) | SudoOther \<Rightarrow> []),
      rr_system = (case rd_system d of None \<Rightarrow> True | Some b \<Rightarrow> b)\<rparr>"

definition resolve_roles :: "config \<Rightarrow> (string, resolved_role) gomap" where
  "resolve_roles cfg = fold (\<lambda>(name, d) m. put name (resolve_role name d) m) (cfg_roles cfg) []"

definition key_fingerprint :: "('k \<Rightarrow> bytes) \<Rightarrow> (bytes \<Rightarrow> bytes) \<Rightarrow> 'k \<Rightarrow> string" where
  "key_fingerprint marshal sha256 key = ''SHA256:'' @ map to_std (b64_encode (sha256 (marshal key)))"

definition check_host_key ::
    "(string \<Rightarrow> 'k option) \<Rightarrow> ('k \<Rightarrow> bytes) \<Rightarrow> (bytes \<Rightarrow> bytes) \<Rightarrow> string \<times> target_policy \<Rightarrow>
     (string, 'k) gomap \<Rightarrow> policy_error + (string, 'k) gomap"
  where
  "check_host_key parse_key marshal sha256 = (\<lambda>(name, target) keys.
     if tg_host_key target \<noteq> [] then
       (case parse_key (tg_host_key target) of
          None \<Rightarrow> Inl (InvalidHostKey name)
        | Some key \<Rightarrow>
            if tg_host_key_fingerprint target \<noteq> [] \<and>
               key_fingerprint marshal sha256 key \<noteq> tg_host_key_fingerprint target
            then Inl (FingerprintMismatch name (tg_host_key_fingerprint target) (key_fingerprint marshal sha256 key))
            else Inr (put name key keys))
     else if tg_host_key_fingerprint target \<noteq> [] \<and> \<not> has_prefix ''SHA256:'' (tg_host_key_fingerprint target)
     then Inl (BadFingerprintFormat name (tg_host_key_fingerprint target))
     else Inr keys)"

definition check_strict :: "string \<times> target_policy \<Rightarrow> unit \<Rightarrow> policy_error + unit" where
  "check_strict = (\<lambda>(name, target) _.
     if tg_host_key target = [] \<and> tg_host_key_fingerprint target = [] then Inl (HostKeyMissing name) else Inr ())"

definition validate_config ::
    "(string \<Rightarrow> 'k option) \<Rightarrow> ('k \<Rightarrow> bytes) \<Rightarrow> (bytes \<Rightarrow> bytes) \<Rightarrow> config \<Rightarrow> policy_error + 'k resolved_config"
  where
  "validate_config parse_key marshal sha256 cfg =
     (case parse_duration (gp_default_ttl (cfg_global cfg)) of
        None \<Rightarrow> Inl (InvalidDefaultTtl (gp_default_ttl (cfg_global cfg)))
      | Some default_ttl \<Rightarrow>
     (case parse_duration (gp_max_ttl (cfg_global cfg)) of
        None \<Rightarrow> Inl (InvalidMaxTtl (gp_max_ttl (cfg_global cfg)))
      | Some max_ttl \<Rightarrow>
        if default_ttl > max_ttl then Inl (DefaultExceedsMax default_ttl max_ttl)
        else if cfg_agents cfg = [] then Inl NoAgentsDefined
        else
     (case run_steps check_uid (cfg_agents cfg) [] of
        Inl e \<Rightarrow> Inl e
      | Inr _ \<Rightarrow>
     (case run_steps (check_inherits cfg) (cfg_agents cfg) () of
        Inl e \<Rightarrow> Inl e
      | Inr _ \<Rightarrow>
     (case run_steps (check_target cfg max_ttl) (cfg_targets cfg) ([], []) of
        Inl e \<Rightarrow> Inl e
      | Inr (_, ttls) \<Rightarrow>
     (case run_steps check_role (cfg_roles cfg) () of
        Inl e \<Rightarrow> Inl e
      | Inr _ \<Rightarrow>
     (case run_steps (check_host_key parse_key marshal sha256) (cfg_targets cfg) [] of
        Inl e \<Rightarrow> Inl e
      | Inr keys \<Rightarrow>
     (case (if gp_host_key_strict (cfg_global cfg) then run_steps check_strict (cfg_targets cfg) () else Inr ()) of
        Inl e \<Rightarrow> Inl e
      | Inr _ \<Rightarrow>
          Inr \<lparr>rc_raw = cfg, rc_global_default_ttl = default_ttl, rc_global_max_ttl = max_ttl,
               rc_target_max_ttls = ttls, rc_agent_perms = resolve_agent_perms cfg,
               rc_target_host_keys = keys, rc_resolved_roles = resolve_roles cfg\<rparr>))))))))"

definition load_policy ::
    "(string \<Rightarrow> 'k option) \<Rightarrow> ('k \<Rightarrow> bytes) \<Rightarrow> (bytes \<Rightarrow> bytes) \<Rightarrow> config option \<Rightarrow> policy_error + 'k resolved_config"
  where
  "load_policy parse_key marshal sha256 parsed =
     (case parsed of
        None \<Rightarrow> Inl ReadOrParseFailed
      | Some cfg \<Rightarrow> validate_config parse_key marshal sha256 (apply_defaults cfg))"

text \<open>The loader keeps the last good configuration.\<close>

definition loader_reload ::
    "(string \<Rightarrow> 'k option) \<Rightarrow> ('k \<Rightarrow> bytes) \<Rightarrow> (bytes \<Rightarrow> bytes) \<Rightarrow> config option \<Rightarrow> 'k resolved_config \<Rightarrow>
     (policy_error + 'k resolved_config) \<times> 'k resolved_config"
  where
  "loader_reload parse_key marshal sha256 parsed current =
     (case load_policy parse_key marshal sha256 parsed of
        Inl e \<Rightarrow> (Inl e, current)
      | Inr rc \<Rightarrow> (Inr rc, rc))"

section \<open>What the loader accepts\<close>

text \<open>The consistency conditions on one agent, target and role, without the order of the checks.\<close>

definition inherits_ok :: "config \<Rightarrow> agent_policy \<Rightarrow> bool" where
  "inherits_ok cfg a \<longleftrightarrow> (\<forall>t \<in> set (ap_inherits a). get (cfg_templates cfg) t \<noteq> None)"

definition target_ttl_of :: "duration \<Rightarrow> target_policy \<Rightarrow> duration option" where
  "target_ttl_of global_max t = (if tg_max_ttl t = [] then Some global_max else parse_duration (tg_max_ttl t))"

definition target_ok :: "config \<Rightarrow> duration \<Rightarrow> target_policy \<Rightarrow> bool" where
  "target_ok cfg global_max t \<longleftrightarrow>
     (\<forall>r \<in> set (tg_allowed_roles t). get (cfg_roles cfg) r \<noteq> None) \<and>
     (\<exists>d. target_ttl_of global_max t = Some d \<and> d \<le> global_max) \<and> tg_host t \<noteq> []"

definition role_ok :: "role_definition \<Rightarrow> bool" where
  "role_ok d \<longleftrightarrow> principal_ok (rd_principal d) \<and> (rd_shell d = [] \<or> has_prefix ''/'' (rd_shell d)) \<and>
     (case rd_sudo d of
        SudoNil \<Rightarrow> True | SudoBool _ \<Rightarrow> True | SudoList items \<Rightarrow> None \<notin> set items \<and> Some [] \<notin> set items
      | SudoOther \<Rightarrow> False)"

definition host_key_ok ::
    "(string \<Rightarrow> 'k option) \<Rightarrow> ('k \<Rightarrow> bytes) \<Rightarrow> (bytes \<Rightarrow> bytes) \<Rightarrow> target_policy \<Rightarrow> bool" where
  "host_key_ok parse_key marshal sha256 t \<longleftrightarrow>
     (if tg_host_key t = []
      then tg_host_key_fingerprint t = [] \<or> has_prefix ''SHA256:'' (tg_host_key_fingerprint t)
      else (\<exists>k. parse_key (tg_host_key t) = Some k \<and>
              tg_host_key_fingerprint t \<in> {[], key_fingerprint marshal sha256 k}))"

lemma run_checks: "run_steps f cs () = Inr () \<longleftrightarrow> (\<forall>c \<in> set cs. f c () = Inr ())"
  by (induction cs) (auto split: sum.splits)

lemma run_fold:
  assumes "\<And>c s s'. f c s = Inr s' \<longleftrightarrow> ok c \<and> s' = g c s"
  shows "run_steps f cs s = Inr s' \<longleftrightarrow> (\<forall>c \<in> set cs. ok c) \<and> s' = fold g cs s"
proof (induction cs arbitrary: s)
  case (Cons c cs)
  show ?case
  proof (cases "f c s")
    case (Inl e)
    then have "\<not> ok c" using assms [of c s "g c s"] by auto
    with Inl show ?thesis by simp
  next
    case (Inr b)
    with assms [of c s b] Cons.IH show ?thesis by simp
  qed
qed (auto simp: eq_commute)

lemma fresh_put:
  "(\<forall>x \<in> S. get (put k v m) (f x) = None) \<longleftrightarrow> k \<notin> f ` S \<and> (\<forall>x \<in> S. get m (f x) = None)"
  by (auto simp: image_iff split: if_splits)

text \<open>A pass that refuses a key it has seen accepts exactly the lists of distinct keys.\<close>

lemma run_unique:
  assumes "\<And>c m. f c m = (case get m (key c) of Some p \<Rightarrow> Inl (err c p) | None \<Rightarrow> Inr (put (key c) (val c) m))"
  shows "(\<exists>m'. run_steps f cs m = Inr m') \<longleftrightarrow> distinct (map key cs) \<and> (\<forall>c \<in> set cs. get m (key c) = None)"
proof (induction cs arbitrary: m)
  case (Cons c cs)
  show ?case
  proof (cases "get m (key c)")
    case None
    then have "(\<exists>m'. run_steps f (c # cs) m = Inr m') \<longleftrightarrow>
        (\<exists>m'. run_steps f cs (put (key c) (val c) m) = Inr m')"
      by (simp add: assms)
    with None Cons.IH [of "put (key c) (val c) m"] fresh_put [of "set cs" "key c" "val c" m key]
    show ?thesis by auto
  next
    case (Some p)
    then show ?thesis by (auto simp: assms)
  qed
qed simp

lemma run_unique_fold:
  assumes step: "\<And>c m s s'. f c (m, s) = Inr s' \<longleftrightarrow>
      get m (key c) = None \<and> ok c \<and> s' = (put (key c) (val c) m, g c s)"
  shows "run_steps f cs (m, s) = Inr s' \<longleftrightarrow>
    distinct (map key cs) \<and> (\<forall>c \<in> set cs. get m (key c) = None) \<and> (\<forall>c \<in> set cs. ok c) \<and>
    s' = (fold (\<lambda>c. put (key c) (val c)) cs m, fold g cs s)"
proof (induction cs arbitrary: m s)
  case (Cons c cs)
  show ?case
  proof (cases "f c (m, s)")
    case (Inl e)
    then have "\<not> (get m (key c) = None \<and> ok c)" using step [of c m s "(put (key c) (val c) m, g c s)"] by auto
    with Inl show ?thesis by auto
  next
    case (Inr b)
    with step have "get m (key c) = None" "ok c" "b = (put (key c) (val c) m, g c s)" by auto
    with Inr Cons.IH [of "put (key c) (val c) m" "g c s"] fresh_put [of "set cs" "key c" "val c" m key]
    show ?thesis by auto
  qed
qed (auto simp: eq_commute)

lemma find_undefined: "find (\<lambda>x. g x = None) xs = None \<longleftrightarrow> (\<forall>x \<in> set xs. g x \<noteq> None)"
  by (auto simp: find_None_iff)

lemma uids_checked: "(\<exists>m. run_steps check_uid as [] = Inr m) \<longleftrightarrow> distinct (map (ap_uid \<circ> snd) as)"
  by (subst run_unique [where key = "ap_uid \<circ> snd" and val = fst and
        err = "\<lambda>c p. DuplicateUid (ap_uid (snd c)) p (fst c)"])
     (auto simp: check_uid_def split: option.splits prod.splits)

lemma check_inherits_iff: "check_inherits cfg c () = Inr () \<longleftrightarrow> inherits_ok cfg (snd c)"
  using find_undefined [of "get (cfg_templates cfg)" "ap_inherits (snd c)"]
  by (auto simp: check_inherits_def inherits_ok_def split: option.splits prod.splits)

lemma check_target_iff:
  "check_target cfg gm (name, t) (hosts, ttls) = Inr s \<longleftrightarrow>
   get hosts (host_port t) = None \<and> target_ok cfg gm t \<and>
   s = (put (host_port t) name hosts, put name (the (target_ttl_of gm t)) ttls)"
proof (cases "get hosts (host_port t) = None \<and> find (\<lambda>r. get (cfg_roles cfg) r = None) (tg_allowed_roles t) = None")
  case True
  then have "\<forall>r \<in> set (tg_allowed_roles t). get (cfg_roles cfg) r \<noteq> None"
    by (simp only: find_undefined) blast
  with True show ?thesis
    by (cases "tg_max_ttl t = []"; cases "parse_duration (tg_max_ttl t)")
       (auto simp: check_target_def target_ok_def target_ttl_of_def Let_def)
next
  case False
  note undefined = find_undefined [of "get (cfg_roles cfg)" "tg_allowed_roles t"]
  show ?thesis
  proof (cases "get hosts (host_port t)")
    case None
    with False have "\<not> target_ok cfg gm t" unfolding target_ok_def using undefined by blast
    with False None show ?thesis by (auto simp: check_target_def Let_def)
  qed (simp add: check_target_def)
qed

lemma targets_checked:
  "run_steps (check_target cfg gm) ts (hosts, ttls) = Inr s \<longleftrightarrow>
   distinct (map (host_port \<circ> snd) ts) \<and> (\<forall>c \<in> set ts. get hosts (host_port (snd c)) = None) \<and>
   (\<forall>c \<in> set ts. target_ok cfg gm (snd c)) \<and>
   s = (fold (\<lambda>c. put (host_port (snd c)) (fst c)) ts hosts,
        fold (\<lambda>c. put (fst c) (the (target_ttl_of gm (snd c)))) ts ttls)"
  by (subst run_unique_fold [where key = "host_port \<circ> snd" and ok = "\<lambda>c. target_ok cfg gm (snd c)" and
        val = fst and g = "\<lambda>c. put (fst c) (the (target_ttl_of gm (snd c)))"])
     (simp_all add: check_target_iff [of cfg gm "fst c" "snd c" for c, simplified] comp_def)

lemma sudo_items_checked:
  "run_steps (check_sudo_item n) (zip [0..<length items] items) () = Inr () \<longleftrightarrow>
   None \<notin> set items \<and> Some [] \<notin> set items"
proof -
  have "check_sudo_item n c () = Inr () \<longleftrightarrow> snd c \<noteq> None \<and> snd c \<noteq> Some []" for c
    by (auto simp: check_sudo_item_def split: option.splits prod.splits)
  moreover have "(\<forall>c \<in> set (zip [0..<length items] items). P (snd c)) \<longleftrightarrow> (\<forall>i \<in> set items. P i)" for P
  proof -
    have "snd ` set (zip [0..<length items] items) = set items"
      by (metis length_upt diff_zero map_snd_zip set_map)
    then show ?thesis by (metis (no_types, lifting) imageE imageI)
  qed
  ultimately have "run_steps (check_sudo_item n) (zip [0..<length items] items) () = Inr () \<longleftrightarrow>
      (\<forall>i \<in> set items. i \<noteq> None \<and> i \<noteq> Some [])"
    by (simp only: run_checks)
  then show ?thesis by (auto simp del: not_None_eq)
qed

lemma check_role_iff: "check_role c () = Inr () \<longleftrightarrow> role_ok (snd c)"
  by (auto simp: check_role_def role_ok_def sudo_items_checked principal_ok_def
      split: prod.splits sudo_value.splits list.splits)

lemma check_host_key_iff:
  "check_host_key parse_key marshal sha256 c keys = Inr s \<longleftrightarrow>
   host_key_ok parse_key marshal sha256 (snd c) \<and>
   s = (if tg_host_key (snd c) = [] then keys
        else put (fst c) (the (parse_key (tg_host_key (snd c)))) keys)"
  by (auto simp: check_host_key_def host_key_ok_def split: prod.splits option.splits if_splits)

lemma get_fold_put_kept:
  assumes "map_wf m"
  shows "get (fold (\<lambda>c acc. if drop_it (snd c) then acc else put (fst c) (f (snd c)) acc) m acc) k =
    (case get m k of None \<Rightarrow> get acc k | Some v \<Rightarrow> if drop_it v then get acc k else Some (f v))"
  using assms
proof (induction m arbitrary: acc)
  case (Cons c m)
  obtain a w where c: "c = (a, w)" by force
  have "map_wf m" "get m a = None" using Cons.prems c
    by (auto simp: map_wf_def get_def map_of_eq_None_iff)
  with Cons.IH c show ?case by (auto split: option.splits)
qed simp

definition policy_consistent ::
    "(string \<Rightarrow> 'k option) \<Rightarrow> ('k \<Rightarrow> bytes) \<Rightarrow> (bytes \<Rightarrow> bytes) \<Rightarrow> config \<Rightarrow> bool" where
  "policy_consistent parse_key marshal sha256 cfg \<longleftrightarrow>
     (\<exists>d m. parse_duration (gp_default_ttl (cfg_global cfg)) = Some d \<and>
        parse_duration (gp_max_ttl (cfg_global cfg)) = Some m \<and> d \<le> m \<and>
        (\<forall>(_, t) \<in> set (cfg_targets cfg). target_ok cfg m t)) \<and>
     cfg_agents cfg \<noteq> [] \<and> distinct (map (ap_uid \<circ> snd) (cfg_agents cfg)) \<and>
     (\<forall>(_, a) \<in> set (cfg_agents cfg). inherits_ok cfg a) \<and>
     distinct (map (host_port \<circ> snd) (cfg_targets cfg)) \<and>
     (\<forall>(_, r) \<in> set (cfg_roles cfg). role_ok r) \<and>
     (\<forall>(_, t) \<in> set (cfg_targets cfg). host_key_ok parse_key marshal sha256 t \<and>
        (gp_host_key_strict (cfg_global cfg) \<longrightarrow> tg_host_key t \<noteq> [] \<or> tg_host_key_fingerprint t \<noteq> []))"

lemma host_keys_checked:
  "run_steps (check_host_key parse_key marshal sha256) ts keys = Inr s \<longleftrightarrow>
   (\<forall>c \<in> set ts. host_key_ok parse_key marshal sha256 (snd c)) \<and>
   s = fold (\<lambda>c keys. if tg_host_key (snd c) = [] then keys
              else put (fst c) (the (parse_key (tg_host_key (snd c)))) keys) ts keys"
  by (rule run_fold [where ok = "\<lambda>c. host_key_ok parse_key marshal sha256 (snd c)"]) (rule check_host_key_iff)

lemma strict_checked:
  "run_steps check_strict ts () = Inr () \<longleftrightarrow>
   (\<forall>c \<in> set ts. tg_host_key (snd c) \<noteq> [] \<or> tg_host_key_fingerprint (snd c) \<noteq> [])"
proof -
  have "check_strict c () = Inr () \<longleftrightarrow> tg_host_key (snd c) \<noteq> [] \<or> tg_host_key_fingerprint (snd c) \<noteq> []" for c
    by (cases c) (simp add: check_strict_def)
  then show ?thesis by (simp add: run_checks)
qed

lemma roles_checked: "run_steps check_role rs () = Inr () \<longleftrightarrow> (\<forall>c \<in> set rs. role_ok (snd c))"
  by (simp add: run_checks check_role_iff)

lemma inherits_checked:
  "run_steps (check_inherits cfg) as () = Inr () \<longleftrightarrow> (\<forall>c \<in> set as. inherits_ok cfg (snd c))"
  by (simp add: run_checks check_inherits_iff)

text \<open>The resolved configuration that an accepted policy gives.\<close>

definition resolved_of ::
    "(string \<Rightarrow> 'k option) \<Rightarrow> duration \<Rightarrow> duration \<Rightarrow> config \<Rightarrow> 'k resolved_config" where
  "resolved_of parse_key d m cfg =
     \<lparr>rc_raw = cfg, rc_global_default_ttl = d, rc_global_max_ttl = m,
      rc_target_max_ttls = fold (\<lambda>c. put (fst c) (the (target_ttl_of m (snd c)))) (cfg_targets cfg) [],
      rc_agent_perms = resolve_agent_perms cfg,
      rc_target_host_keys = fold (\<lambda>c keys. if tg_host_key (snd c) = [] then keys
              else put (fst c) (the (parse_key (tg_host_key (snd c)))) keys) (cfg_targets cfg) [],
      rc_resolved_roles = resolve_roles cfg\<rparr>"

lemma validate_config_iff:
  "validate_config parse_key marshal sha256 cfg = Inr rc \<longleftrightarrow>
   policy_consistent parse_key marshal sha256 cfg \<and>
   (\<exists>d m. parse_duration (gp_default_ttl (cfg_global cfg)) = Some d \<and>
      parse_duration (gp_max_ttl (cfg_global cfg)) = Some m \<and> rc = resolved_of parse_key d m cfg)"
proof (cases "parse_duration (gp_default_ttl (cfg_global cfg))")
  case None
  then show ?thesis by (simp add: validate_config_def policy_consistent_def)
next
  case d: (Some d)
  show ?thesis
  proof (cases "parse_duration (gp_max_ttl (cfg_global cfg))")
    case None
    then show ?thesis using d by (simp add: validate_config_def policy_consistent_def)
  next
    case m: (Some m)
    let ?uids = "run_steps check_uid (cfg_agents cfg) []"
    let ?inh = "run_steps (check_inherits cfg) (cfg_agents cfg) ()"
    let ?targets = "run_steps (check_target cfg m) (cfg_targets cfg) ([], [])"
    let ?roles = "run_steps check_role (cfg_roles cfg) ()"
    let ?keys = "run_steps (check_host_key parse_key marshal sha256) (cfg_targets cfg) []"
    let ?strict = "if gp_host_key_strict (cfg_global cfg) then run_steps check_strict (cfg_targets cfg) () else Inr ()"
    have "validate_config parse_key marshal sha256 cfg = Inr rc \<longleftrightarrow>
        d \<le> m \<and> cfg_agents cfg \<noteq> [] \<and> (\<exists>u. ?uids = Inr u) \<and> ?inh = Inr () \<and>
        (\<exists>hosts ttls keys. ?targets = Inr (hosts, ttls) \<and> ?roles = Inr () \<and> ?keys = Inr keys \<and> ?strict = Inr () \<and>
          rc = \<lparr>rc_raw = cfg, rc_global_default_ttl = d, rc_global_max_ttl = m,
               rc_target_max_ttls = ttls, rc_agent_perms = resolve_agent_perms cfg,
               rc_target_host_keys = keys, rc_resolved_roles = resolve_roles cfg\<rparr>)"
      using d m unfolding validate_config_def
      by (simp split: sum.split prod.split) auto
    then show ?thesis
      by (simp only: uids_checked inherits_checked targets_checked roles_checked host_keys_checked
            if_distrib [where f = "\<lambda>x. x = Inr ()"] strict_checked)
         (auto simp: policy_consistent_def resolved_of_def d m)
  qed
qed

lemma resolved_lookups:
  assumes "map_wf (cfg_targets cfg)"
  shows "get (rc_target_max_ttls (resolved_of parse_key d m cfg)) n =
      map_option (\<lambda>t. the (target_ttl_of m t)) (get (cfg_targets cfg) n)"
    and "get (rc_target_host_keys (resolved_of parse_key d m cfg)) n =
      (case get (cfg_targets cfg) n of None \<Rightarrow> None
       | Some t \<Rightarrow> if tg_host_key t = [] then None else Some (the (parse_key (tg_host_key t))))"
  using get_fold_put_kept [OF assms, where drop_it = "\<lambda>_. False" and acc = "[]" and k = n and f = "\<lambda>t. the (target_ttl_of m t)"]
    get_fold_put_kept [OF assms, where drop_it = "\<lambda>t. tg_host_key t = []" and acc = "[]" and k = n and
      f = "\<lambda>t. the (parse_key (tg_host_key t))"]
  by (simp_all add: resolved_of_def split: option.splits)

lemma defaults_wf: "map_wf (cfg_targets raw) \<Longrightarrow> map_wf (cfg_targets (apply_defaults raw))"
  by (simp add: apply_defaults_def Let_def map_values_def map_wf_def comp_def case_prod_unfold)

lemma target_ttl_bound:
  assumes "policy_consistent parse_key marshal sha256 cfg" "parse_duration (gp_max_ttl (cfg_global cfg)) = Some m"
    and "get (cfg_targets cfg) n = Some t"
  shows "\<exists>ttl. target_ttl_of m t = Some ttl \<and> ttl \<le> m"
  using assms get_Some_in_set [OF assms(3)] by (auto simp: policy_consistent_def target_ok_def)

text \<open>
  Claim C33. The loader accepts a policy file exactly when it parses and the policy with
  its defaults filled in is consistent: durations parse, the default lifetime is within the
  maximum, there is an agent, user ids and host:port pairs are unique, every inherited template
  and allowed role exists, roles and host keys are well formed and, in strict mode, present.
  An accepted policy then has for every target, and only for these, a maximal lifetime
  (its own or the global one, never above the global one) and the key it pins; a refused
  one leaves the configuration in force as it was.
\<close>

theorem loader_accepts_exactly:
  fixes parse_key :: "string \<Rightarrow> 'k option" and marshal :: "'k \<Rightarrow> bytes" and sha256 :: "bytes \<Rightarrow> bytes"
    and current :: "'k resolved_config"
  assumes "map_wf (cfg_targets raw)"
  defines "cfg \<equiv> apply_defaults raw"
  defines "result \<equiv> loader_reload parse_key marshal sha256 (Some raw) current"
  shows "(case fst result of
      Inl e \<Rightarrow> \<not> policy_consistent parse_key marshal sha256 cfg \<and> snd result = current
    | Inr rc \<Rightarrow> policy_consistent parse_key marshal sha256 cfg \<and> snd result = rc \<and> rc_raw rc = cfg \<and>
        parse_duration (gp_default_ttl (cfg_global cfg)) = Some (rc_global_default_ttl rc) \<and>
        parse_duration (gp_max_ttl (cfg_global cfg)) = Some (rc_global_max_ttl rc) \<and>
        rc_agent_perms rc = resolve_agent_perms cfg \<and> rc_resolved_roles rc = resolve_roles cfg \<and>
        (\<forall>n. case get (cfg_targets cfg) n of
               None \<Rightarrow> get (rc_target_max_ttls rc) n = None \<and> get (rc_target_host_keys rc) n = None
             | Some t \<Rightarrow>
                 (\<exists>ttl \<le> rc_global_max_ttl rc. get (rc_target_max_ttls rc) n = Some ttl \<and>
                    (if tg_max_ttl t = [] then ttl = rc_global_max_ttl rc
                     else parse_duration (tg_max_ttl t) = Some ttl)) \<and>
                 get (rc_target_host_keys rc) n =
                   (if tg_host_key t = [] then None else parse_key (tg_host_key t))))"
proof (cases "validate_config parse_key marshal sha256 cfg")
  case (Inl e)
  then have "\<not> policy_consistent parse_key marshal sha256 cfg"
    using validate_config_iff [of parse_key marshal sha256 cfg] by (auto simp: policy_consistent_def)
  with Inl show ?thesis by (simp add: result_def loader_reload_def load_policy_def cfg_def)
next
  case (Inr rc)
  then obtain d m where ok: "policy_consistent parse_key marshal sha256 cfg" and
    ttls: "parse_duration (gp_default_ttl (cfg_global cfg)) = Some d" "parse_duration (gp_max_ttl (cfg_global cfg)) = Some m"
    and rc: "rc = resolved_of parse_key d m cfg"
    by (auto simp: validate_config_iff)
  have wf: "map_wf (cfg_targets cfg)" using assms(1) by (simp add: cfg_def defaults_wf)
  have target: "(\<exists>ttl \<le> m. get (rc_target_max_ttls rc) n = Some ttl \<and>
      (if tg_max_ttl t = [] then ttl = m else parse_duration (tg_max_ttl t) = Some ttl)) \<and>
      get (rc_target_host_keys rc) n = (if tg_host_key t = [] then None else parse_key (tg_host_key t))"
    if t: "get (cfg_targets cfg) n = Some t" for n t
  proof -
    have "host_key_ok parse_key marshal sha256 t"
      using ok get_Some_in_set [OF t] by (auto simp: policy_consistent_def)
    with target_ttl_bound [OF ok ttls(2) t] t show ?thesis
      by (auto simp: rc resolved_lookups [OF wf] target_ttl_of_def host_key_ok_def split: if_splits)
  qed
  have absent: "get (rc_target_max_ttls rc) n = None \<and> get (rc_target_host_keys rc) n = None"
    if "get (cfg_targets cfg) n = None" for n
    using that by (simp add: rc resolved_lookups [OF wf])
  have "\<forall>n. case get (cfg_targets cfg) n of
      None \<Rightarrow> get (rc_target_max_ttls rc) n = None \<and> get (rc_target_host_keys rc) n = None
    | Some t \<Rightarrow> (\<exists>ttl \<le> m. get (rc_target_max_ttls rc) n = Some ttl \<and>
        (if tg_max_ttl t = [] then ttl = m else parse_duration (tg_max_ttl t) = Some ttl)) \<and>
        get (rc_target_host_keys rc) n = (if tg_host_key t = [] then None else parse_key (tg_host_key t))"
    (is "\<forall>n. ?P n")
  proof
    fix n
    show "?P n" by (cases "get (cfg_targets cfg) n") (simp_all only: option.case target absent simp_thms)
  qed
  moreover have "loader_reload parse_key marshal sha256 (Some raw) current = (Inr rc, rc)"
    using Inr by (simp add: loader_reload_def load_policy_def cfg_def)
  moreover have "rc_global_max_ttl rc = m" "rc_global_default_ttl rc = d" "rc_raw rc = cfg"
    "rc_agent_perms rc = resolve_agent_perms cfg" "rc_resolved_roles rc = resolve_roles cfg"
    by (simp_all add: rc resolved_of_def)
  ultimately show ?thesis using ok ttls by (simp only: result_def fst_conv snd_conv sum.case simp_thms)
qed

lemma sample_loads:
  "(case validate_config (\<lambda>_. None :: unit option) (\<lambda>_. []) id (apply_defaults sample_config) of
      Inl _ \<Rightarrow> False | Inr _ \<Rightarrow> True)"
  "get (cfg_targets (apply_defaults sample_config)) ''web'' \<noteq> None"
  "tg_max_ttl (the (get (cfg_targets (apply_defaults sample_config)) ''web'')) = ''10m''"
  "parse_duration ''10m'' = Some 600000000000"
  "map_wf (cfg_targets sample_config)"
  by code_simp+

theorem loader_accepts_exactly_witness:
  "\<exists>rc. fst (loader_reload (\<lambda>_. None :: unit option) (\<lambda>_. []) id (Some sample_config) sample_resolved) = Inr rc \<and>
     get (rc_target_max_ttls rc) ''web'' = Some (10 * minute)"
proof -
  let ?res = "loader_reload (\<lambda>_. None :: unit option) (\<lambda>_. []) id (Some sample_config) sample_resolved"
  obtain rc where rc: "fst ?res = Inr rc"
    using sample_loads(1) by (auto simp: loader_reload_def load_policy_def split: sum.splits)
  from sample_loads(2) obtain t where t: "get (cfg_targets (apply_defaults sample_config)) ''web'' = Some t" by blast
  with sample_loads(3) have "tg_max_ttl t = ''10m''" by simp
  moreover have "\<exists>ttl. get (rc_target_max_ttls rc) ''web'' = Some ttl \<and>
      (if tg_max_ttl t = [] then ttl = rc_global_max_ttl rc else parse_duration (tg_max_ttl t) = Some ttl)"
    using loader_accepts_exactly [OF sample_loads(5), of "\<lambda>_. None :: unit option" "\<lambda>_. []" id sample_resolved,
        unfolded rc sum.case, THEN conjunct2, THEN conjunct2, THEN conjunct2, THEN conjunct2, THEN conjunct2,
        THEN conjunct2, THEN conjunct2, THEN spec, of "''web''", unfolded t option.case]
    by blast
  ultimately have "get (rc_target_max_ttls rc) ''web'' = Some (10 * minute)"
    by (auto simp: sample_loads(4))
  with rc show ?thesis by blast
qed

end
