(* ===== verification/PolicyReport.thy ===== *)
theory PolicyReport
  imports PolicyLoader "HOL-Library.Multiset"
begin

text \<open>
  Component \<open>internal/policy/validate.go\<close> and the \<open>policy validate\<close> command of
  \<open>cmd/ephyr/policy_cmd.go\<close>: the report that collects every finding where the loader stops at
  the first. A message is the list of the names and values that are formatted into it.
\<close>

section \<open>The report\<close>

datatype severity = SeverityOK | SeverityWarn | SeverityError

definition severity_string :: "severity \<Rightarrow> string" where
  "severity_string s = (case s of SeverityOK \<Rightarrow> ''OK'' | SeverityWarn \<Rightarrow> ''WARN'' | SeverityError \<Rightarrow> ''ERROR'')"

record validation_result =
  vr_section :: string
  vr_severity :: severity
  vr_code :: string
  vr_message :: "string list"

record validation_report =
  rpt_results :: "validation_result list"
  rpt_errors :: nat
  rpt_warnings :: nat

definition empty_report :: validation_report where
  "empty_report = \<lparr>rpt_results = [], rpt_errors = 0, rpt_warnings = 0\<rparr>"

definition report_add :: "string \<Rightarrow> severity \<Rightarrow> string \<Rightarrow> string list \<Rightarrow> validation_report \<Rightarrow> validation_report" where
  "report_add section sev code msg r =
     (let r = r\<lparr>rpt_results := rpt_results r @
                  [\<lparr>vr_section = section, vr_severity = sev, vr_code = code, vr_message = msg\<rparr>]\<rparr>
      in case sev of
           SeverityOK \<Rightarrow> r
         | SeverityWarn \<Rightarrow> r\<lparr>rpt_warnings := rpt_warnings r + 1\<rparr>
         | SeverityError \<Rightarrow> r\<lparr>rpt_errors := rpt_errors r + 1\<rparr>)"

definition report_ok :: "string \<Rightarrow> string list \<Rightarrow> validation_report \<Rightarrow> validation_report" where
  "report_ok section msg = report_add section SeverityOK [] msg"

definition report_warn :: "string \<Rightarrow> string \<Rightarrow> string list \<Rightarrow> validation_report \<Rightarrow> validation_report" where
  "report_warn section code msg = report_add section SeverityWarn code msg"

definition report_err :: "string \<Rightarrow> string \<Rightarrow> string list \<Rightarrow> validation_report \<Rightarrow> validation_report" where
  "report_err section code msg = report_add section SeverityError code msg"

definition exit_code :: "validation_report \<Rightarrow> nat" where
  "exit_code r = (if rpt_errors r > 0 then 2 else if rpt_warnings r > 0 then 1 else 0)"

section \<open>The checks\<close>

definition sorted_keys :: "(string, 'v) gomap \<Rightarrow> string list" where
  "sorted_keys m = sort (map fst m)"

text \<open>What a loop over the sorted keys sees: each key with the value the map has for it.\<close>

definition sorted_entries :: "(string, 'v) gomap \<Rightarrow> (string \<times> 'v) list" where
  "sorted_entries m = map (\<lambda>k. (k, the (get m k))) (sorted_keys m)"

definition report_if :: "bool \<Rightarrow> (validation_report \<Rightarrow> validation_report) \<Rightarrow> validation_report \<Rightarrow> validation_report" where
  "report_if b f r = (if b then f r else r)"

definition validate_global :: "config \<Rightarrow> validation_report \<Rightarrow> validation_report" where
  "validate_global cfg rpt =
     (let d = gp_default_ttl (cfg_global cfg); m = gp_max_ttl (cfg_global cfg) in
      case parse_duration d of
        None \<Rightarrow> report_err ''global'' ''E6'' [d] rpt
      | Some default_ttl \<Rightarrow>
     (case parse_duration m of
        None \<Rightarrow> report_err ''global'' ''E6'' [m] rpt
      | Some max_ttl \<Rightarrow>
          if default_ttl > max_ttl
          then report_err ''global'' ''E7'' [format_duration default_ttl, format_duration max_ttl] rpt
          else report_ok ''global'' [d, m] rpt))"

definition validate_role :: "string \<times> role_definition \<Rightarrow> validation_report \<Rightarrow> validation_report" where
  "validate_role = (\<lambda>(name, role) rpt.
     if rd_principal role = [] then report_err ''roles'' ''E4'' [name] rpt
     else report_ok ''roles'' [name, rd_principal role] rpt)"

definition validate_roles :: "config \<Rightarrow> validation_report \<Rightarrow> validation_report" where
  "validate_roles cfg rpt = fold validate_role (sorted_entries (cfg_roles cfg)) rpt"

definition validate_target_ttl :: "duration option \<Rightarrow> string \<Rightarrow> target_policy \<Rightarrow> validation_report \<Rightarrow> validation_report" where
  "validate_target_ttl global_max name t rpt =
     (if tg_max_ttl t = [] then rpt
      else case parse_duration (tg_max_ttl t) of
        None \<Rightarrow> report_err ''targets'' ''E6'' [name, tg_max_ttl t] rpt
      | Some ttl \<Rightarrow>
         (case global_max of
            None \<Rightarrow> rpt
          | Some g \<Rightarrow>
              if ttl > g then report_err ''targets'' ''E8'' [name, format_duration ttl, format_duration g] rpt
              else rpt))"

definition validate_target :: "config \<Rightarrow> string \<times> target_policy \<Rightarrow> validation_report \<Rightarrow> validation_report" where
  "validate_target cfg = (\<lambda>(name, t) rpt.
     if tg_host t = [] then report_err ''targets'' ''E5'' [name] rpt
     else
     (let rpt = report_if (tg_port t \<noteq> 0 \<and> (tg_port t < 1 \<or> tg_port t > 65535))
                  (report_err ''targets'' ''E9'' [name, itoa (tg_port t)]) rpt;
          rpt = fold (\<lambda>role. report_if (get (cfg_roles cfg) role = None)
                  (report_err ''targets'' ''E3'' [name, role])) (tg_allowed_roles t) rpt;
          rpt = validate_target_ttl (parse_duration (gp_max_ttl (cfg_global cfg))) name t rpt;
          rpt = report_if (gp_host_key_strict (cfg_global cfg) \<and> tg_host_key t = [] \<and> tg_host_key_fingerprint t = [])
                  (report_err ''targets'' ''E10'' [name]) rpt;
          rpt = report_if (tg_host_key_fingerprint t \<noteq> [] \<and> \<not> has_prefix ''SHA256:'' (tg_host_key_fingerprint t))
                  (report_err ''targets'' ''E11'' [name, tg_host_key_fingerprint t]) rpt;
          port = (if tg_port t = 0 then 22 else tg_port t);
          rpt = report_ok ''targets'' ([name, tg_host t, itoa port] @ tg_allowed_roles t) rpt
      in report_if (tg_host_key t = [] \<and> tg_host_key_fingerprint t = [])
           (report_warn ''targets'' ''W2'' [name]) rpt))"

definition validate_targets :: "config \<Rightarrow> validation_report \<Rightarrow> validation_report" where
  "validate_targets cfg rpt =
     (if cfg_targets cfg = [] then report_warn ''targets'' ''W1'' [] rpt
      else fold (validate_target cfg) (sorted_entries (cfg_targets cfg)) rpt)"

text \<open>A wildcard of the agent's own section, then of the same section of each template it inherits.\<close>

definition warn_wildcard ::
    "config \<Rightarrow> string \<Rightarrow> string \<Rightarrow> string list \<Rightarrow> bool \<Rightarrow> (template_policy \<Rightarrow> bool) \<Rightarrow>
     validation_report \<Rightarrow> validation_report" where
  "warn_wildcard cfg code name inherits own of_template rpt =
     fold (\<lambda>tmpl. report_if (case get (cfg_templates cfg) tmpl of None \<Rightarrow> False | Some t \<Rightarrow> of_template t)
             (report_warn ''agents'' code [name, tmpl]))
       inherits (report_if own (report_warn ''agents'' code [name]) rpt)"

definition validate_agent ::
    "config \<Rightarrow> string \<times> agent_policy \<Rightarrow> (int, string) gomap \<times> validation_report \<Rightarrow>
     (int, string) gomap \<times> validation_report" where
  "validate_agent cfg = (\<lambda>(name, a) (seen, rpt).
     let rpt = fold (\<lambda>tmpl. report_if (get (cfg_templates cfg) tmpl = None)
                 (report_err ''agents'' ''E2'' [name, tmpl])) (ap_inherits a) rpt;
         rpt = report_if (ap_api_key_hash a \<noteq> [] \<and> \<not> has_prefix ''$2'' (ap_api_key_hash a))
                 (report_err ''agents'' ''E12'' [name]) rpt;
         rpt = (case get seen (ap_uid a) of
                  None \<Rightarrow> rpt
                | Some prev \<Rightarrow> report_err ''agents'' ''E13'' [itoa (ap_uid a), prev, name] rpt);
         seen = put (ap_uid a) name seen;
         rpt = report_ok ''agents'' [name, itoa (ap_uid a)] rpt;
         rpt = warn_wildcard cfg ''W3'' name (ap_inherits a) (get (ap_ssh a) ''*'' \<noteq> None)
                 (\<lambda>t. get (tp_ssh t) ''*'' \<noteq> None) rpt;
         rpt = warn_wildcard cfg ''W4'' name (ap_inherits a) (get (ap_services a) ''*'' \<noteq> None)
                 (\<lambda>t. get (tp_services t) ''*'' \<noteq> None) rpt;
         rpt = warn_wildcard cfg ''W5'' name (ap_inherits a) (get (ap_remotes a) ''*'' \<noteq> None)
                 (\<lambda>t. get (tp_remotes t) ''*'' \<noteq> None) rpt;
         rpt = report_if (ap_uid a = 0) (report_warn ''agents'' ''W6'' [name]) rpt;
         rpt = report_if (ap_api_key_hash a = []) (report_warn ''agents'' ''W8'' [name]) rpt
     in (seen, rpt))"

definition validate_agents :: "config \<Rightarrow> validation_report \<Rightarrow> validation_report" where
  "validate_agents cfg rpt =
     (if cfg_agents cfg = [] then report_err ''agents'' ''E1'' [] rpt
      else snd (fold (validate_agent cfg) (sorted_entries (cfg_agents cfg)) ([], rpt)))"

definition validate_unused_roles :: "config \<Rightarrow> validation_report \<Rightarrow> validation_report" where
  "validate_unused_roles cfg rpt =
     (if cfg_roles cfg = [] \<or> cfg_targets cfg = [] then rpt
      else
        let referenced = concat (map (tg_allowed_roles \<circ> snd) (cfg_targets cfg))
        in fold (\<lambda>name. report_if (name \<notin> set referenced) (report_warn ''roles'' ''W7'' [name]))
             (sorted_keys (cfg_roles cfg)) rpt)"

definition validate_policy :: "config \<Rightarrow> validation_report" where
  "validate_policy cfg =
     validate_unused_roles cfg (validate_agents cfg (validate_targets cfg (validate_roles cfg
       (validate_global cfg empty_report))))"

text \<open>The exit status of \<open>ephyr policy validate\<close>; \<open>None\<close> is a file that cannot be read or parsed.\<close>

definition policy_validate_command :: "bool \<Rightarrow> config option \<Rightarrow> nat" where
  "policy_validate_command strict parsed =
     (case parsed of
        None \<Rightarrow> 2
      | Some cfg \<Rightarrow>
          let rpt = validate_policy (apply_defaults cfg); code = exit_code rpt
          in if strict \<and> rpt_warnings rpt > 0 \<and> code < 2 then 2 else code)"

section \<open>What the report says about the loader\<close>

text \<open>The errors of a report except those with the given codes.\<close>

definition errors_but :: "string list \<Rightarrow> validation_report \<Rightarrow> bool" where
  "errors_but codes r \<longleftrightarrow> (\<exists>v \<in> set (rpt_results r). vr_severity v = SeverityError \<and> vr_code v \<notin> set codes)"

text \<open>The counters count.\<close>

definition counted :: "validation_report \<Rightarrow> bool" where
  "counted r \<longleftrightarrow>
     rpt_errors r = length (filter (\<lambda>v. vr_severity v = SeverityError) (rpt_results r)) \<and>
     rpt_warnings r = length (filter (\<lambda>v. vr_severity v = SeverityWarn) (rpt_results r))"

named_theorems report \<open>effect of the report operations\<close>

lemma errors_add [report]:
  "errors_but codes (report_ok s m r) = errors_but codes r"
  "errors_but codes (report_warn s c m r) = errors_but codes r"
  "errors_but codes (report_err s c m r) \<longleftrightarrow> errors_but codes r \<or> c \<notin> set codes"
  "errors_but codes (report_if b f r) = (if b then errors_but codes (f r) else errors_but codes r)"
  by (auto simp: errors_but_def report_ok_def report_warn_def report_err_def report_add_def report_if_def)

lemma counted_add [report]:
  "counted r \<Longrightarrow> counted (report_ok s m r)"
  "counted r \<Longrightarrow> counted (report_warn s c m r)"
  "counted r \<Longrightarrow> counted (report_err s c m r)"
  by (auto simp: counted_def report_ok_def report_warn_def report_err_def report_add_def)

lemma counted_if [report]: "(\<And>r. counted r \<Longrightarrow> counted (f r)) \<Longrightarrow> counted r \<Longrightarrow> counted (report_if b f r)"
  by (simp add: report_if_def)

lemma counted_fold: "(\<And>x r. counted r \<Longrightarrow> counted (f x r)) \<Longrightarrow> counted r \<Longrightarrow> counted (fold f xs r)"
  by (induction xs arbitrary: r) auto

lemma errors_fold:
  assumes "\<And>x r. errors_but codes (f x r) \<longleftrightarrow> errors_but codes r \<or> bad x"
  shows "errors_but codes (fold f xs r) \<longleftrightarrow> errors_but codes r \<or> (\<exists>x \<in> set xs. bad x)"
  by (induction xs arbitrary: r) (auto simp: assms)

lemma errors_fold_warn: "errors_but codes (fold (\<lambda>x. report_if (b x) (report_warn s c (m x))) xs r) = errors_but codes r"
  by (subst errors_fold [where bad = "\<lambda>_. False"]) (auto simp: report)

lemma set_sorted_keys: "set (sorted_keys m) = fst ` set m"
  by (simp add: sorted_keys_def)

lemma mset_sorted_entries:
  assumes "map_wf m"
  shows "mset (sorted_entries m) = mset m"
proof -
  have "mset (sorted_entries m) = mset (map (\<lambda>k. (k, the (get m k))) (map fst m))"
    unfolding sorted_entries_def sorted_keys_def by (simp only: mset_map mset_sort)
  also have "\<dots> = mset (map (\<lambda>e. (fst e, the (get m (fst e)))) m)" by (simp only: map_map comp_def)
  also have "map (\<lambda>e. (fst e, the (get m (fst e)))) m = m"
  proof (rule map_idI)
    fix e assume "e \<in> set m"
    then have "get m (fst e) = Some (snd e)" using get_in_set [OF assms, of "fst e" "snd e"] by simp
    then show "(fst e, the (get m (fst e))) = e" by simp
  qed
  finally show ?thesis .
qed

lemma set_sorted_entries: "map_wf m \<Longrightarrow> set (sorted_entries m) = set m"
  using mset_sorted_entries mset_eq_setD by blast

lemma distinct_sorted_entries:
  "map_wf m \<Longrightarrow> distinct (map f (sorted_entries m)) \<longleftrightarrow> distinct (map f m)"
  using mset_sorted_entries [of m] by (metis mset_map mset_eq_imp_distinct_iff)

section \<open>The findings\<close>

lemma global_errors [report]:
  "''E6'' \<notin> set codes \<Longrightarrow> ''E7'' \<notin> set codes \<Longrightarrow>
   errors_but codes (validate_global cfg r) \<longleftrightarrow> errors_but codes r \<or>
     \<not> (\<exists>d m. parse_duration (gp_default_ttl (cfg_global cfg)) = Some d \<and>
          parse_duration (gp_max_ttl (cfg_global cfg)) = Some m \<and> d \<le> m)"
  by (auto simp: validate_global_def report Let_def split: option.splits)

lemma role_errors [report]:
  "map_wf (cfg_roles cfg) \<Longrightarrow> ''E4'' \<notin> set codes \<Longrightarrow>
   errors_but codes (validate_roles cfg r) \<longleftrightarrow> errors_but codes r \<or>
     (\<exists>c \<in> set (cfg_roles cfg). rd_principal (snd c) = [])"
  unfolding validate_roles_def
  by (subst errors_fold [where bad = "\<lambda>c. rd_principal (snd c) = []"])
     (auto simp: validate_role_def report set_sorted_entries)

text \<open>The conditions on a target that the report calls errors, apart from the port's range.\<close>

definition target_reported :: "config \<Rightarrow> target_policy \<Rightarrow> bool" where
  "target_reported cfg t \<longleftrightarrow>
     tg_host t = [] \<or> (\<exists>r \<in> set (tg_allowed_roles t). get (cfg_roles cfg) r = None) \<or>
     tg_max_ttl t \<noteq> [] \<and>
       (case parse_duration (tg_max_ttl t) of None \<Rightarrow> True
        | Some ttl \<Rightarrow> (case parse_duration (gp_max_ttl (cfg_global cfg)) of None \<Rightarrow> False | Some g \<Rightarrow> ttl > g)) \<or>
     gp_host_key_strict (cfg_global cfg) \<and> tg_host_key t = [] \<and> tg_host_key_fingerprint t = [] \<or>
     tg_host_key_fingerprint t \<noteq> [] \<and> \<not> has_prefix ''SHA256:'' (tg_host_key_fingerprint t)"

lemma ttl_errors:
  "errors_but [''E9'', ''E12''] (validate_target_ttl g name t r) \<longleftrightarrow> errors_but [''E9'', ''E12''] r \<or>
   tg_max_ttl t \<noteq> [] \<and> (case parse_duration (tg_max_ttl t) of None \<Rightarrow> True
     | Some ttl \<Rightarrow> (case g of None \<Rightarrow> False | Some g \<Rightarrow> ttl > g))"
  by (auto simp: validate_target_ttl_def report split: option.splits)

lemma undefined_errors:
  "c \<notin> set codes \<Longrightarrow>
   errors_but codes (fold (\<lambda>x. report_if (undef x) (report_err s c (m x))) xs r) \<longleftrightarrow>
   errors_but codes r \<or> (\<exists>x \<in> set xs. undef x)"
  by (rule errors_fold) (auto simp: report)

lemma target_errors:
  "errors_but [''E9'', ''E12''] (validate_target cfg c r) \<longleftrightarrow>
   errors_but [''E9'', ''E12''] r \<or> target_reported cfg (snd c)"
  by (cases c) (auto simp: validate_target_def target_reported_def report ttl_errors undefined_errors Let_def)

lemma targets_errors:
  "map_wf (cfg_targets cfg) \<Longrightarrow>
   errors_but [''E9'', ''E12''] (validate_targets cfg r) \<longleftrightarrow>
   errors_but [''E9'', ''E12''] r \<or> (\<exists>c \<in> set (cfg_targets cfg). target_reported cfg (snd c))"
  by (auto simp: validate_targets_def report errors_fold [where bad = "\<lambda>c. target_reported cfg (snd c)", OF target_errors]
      set_sorted_entries)

lemma wildcard_errors [report]: "errors_but codes (warn_wildcard cfg w name inh own f r) = errors_but codes r"
  unfolding warn_wildcard_def by (simp add: errors_fold_warn report)

lemma agent_errors:
  "errors_but [''E9'', ''E12''] (snd (validate_agent cfg c (seen, r))) \<longleftrightarrow>
   errors_but [''E9'', ''E12''] r \<or> \<not> inherits_ok cfg (snd c) \<or> get seen (ap_uid (snd c)) \<noteq> None"
  "fst (validate_agent cfg c (seen, r)) = put (ap_uid (snd c)) (fst c) seen"
  by (cases c; auto simp: validate_agent_def report undefined_errors inherits_ok_def Let_def split: option.splits)+

lemma agents_fold_errors:
  "errors_but [''E9'', ''E12''] (snd (fold (validate_agent cfg) as (seen, r))) \<longleftrightarrow>
   errors_but [''E9'', ''E12''] r \<or> (\<exists>c \<in> set as. \<not> inherits_ok cfg (snd c)) \<or>
   \<not> (distinct (map (ap_uid \<circ> snd) as) \<and> (\<forall>c \<in> set as. get seen (ap_uid (snd c)) = None))"
proof (induction as arbitrary: seen r)
  case (Cons c as)
  obtain seen' r' where step: "validate_agent cfg c (seen, r) = (seen', r')" by force
  have "seen' = put (ap_uid (snd c)) (fst c) seen" using agent_errors(2) [of cfg c seen r] step by simp
  then have fresh: "(\<forall>x \<in> set as. get seen' (ap_uid (snd x)) = None) \<longleftrightarrow>
      ap_uid (snd c) \<notin> (ap_uid \<circ> snd) ` set as \<and> (\<forall>x \<in> set as. get seen (ap_uid (snd x)) = None)"
    using fresh_put [of "set as" "ap_uid (snd c)" "fst c" seen "ap_uid \<circ> snd"] by simp
  have head: "errors_but [''E9'', ''E12''] r' \<longleftrightarrow> errors_but [''E9'', ''E12''] r \<or> \<not> inherits_ok cfg (snd c) \<or>
      get seen (ap_uid (snd c)) \<noteq> None"
    using agent_errors(1) [of cfg c seen r] step by simp
  have "fold (validate_agent cfg) (c # as) (seen, r) = fold (validate_agent cfg) as (seen', r')"
    by (simp add: step)
  then show ?case
    using Cons.IH [of seen' r'] fresh head by (simp only: list.map distinct.simps list.set comp_def ball_simps bex_simps) auto
qed simp

lemma agents_errors:
  "map_wf (cfg_agents cfg) \<Longrightarrow>
   errors_but [''E9'', ''E12''] (validate_agents cfg r) \<longleftrightarrow>
   errors_but [''E9'', ''E12''] r \<or> cfg_agents cfg = [] \<or> (\<exists>c \<in> set (cfg_agents cfg). \<not> inherits_ok cfg (snd c)) \<or>
   \<not> distinct (map (ap_uid \<circ> snd) (cfg_agents cfg))"
  by (auto simp: validate_agents_def report agents_fold_errors set_sorted_entries distinct_sorted_entries)

lemma unused_errors: "errors_but codes (validate_unused_roles cfg r) = errors_but codes r"
  unfolding validate_unused_roles_def Let_def by (simp add: errors_fold_warn)

lemma counted_validate: "counted (validate_policy cfg)"
proof -
  have agents: "counted r \<Longrightarrow> counted (snd (fold (validate_agent cfg) as (seen, r)))" for as seen r
  proof (induction as arbitrary: seen r)
    case (Cons c as)
    have wild: "counted r \<Longrightarrow> counted (warn_wildcard cfg w n i own f r)" for w n i own f r
      unfolding warn_wildcard_def by (intro counted_fold counted_if report)
    have "counted (snd (validate_agent cfg c (seen, r)))"
      using Cons.prems
      by (cases c; cases "get seen (ap_uid (snd c))")
         (auto simp: validate_agent_def Let_def intro!: counted_fold counted_if report wild)
    then show ?case using Cons.IH by (cases "validate_agent cfg c (seen, r)") simp
  qed simp
  have target: "counted r \<Longrightarrow> counted (validate_target cfg c r)" for c r
    by (cases c)
       (auto simp: validate_target_def validate_target_ttl_def Let_def split: option.splits
         intro!: counted_fold counted_if report)
  show ?thesis
    unfolding validate_policy_def validate_global_def validate_roles_def validate_targets_def validate_agents_def
      validate_unused_roles_def validate_role_def Let_def
    by (auto split: option.splits prod.splits intro!: counted_fold counted_if report agents target
        simp: empty_report_def counted_def [of "\<lparr>rpt_results = [], rpt_errors = 0, rpt_warnings = 0\<rparr>"])
qed

lemma no_errors_iff:
  assumes "map_wf (cfg_agents cfg)" "map_wf (cfg_targets cfg)" "map_wf (cfg_roles cfg)"
  shows "\<not> errors_but [''E9'', ''E12''] (validate_policy cfg) \<longleftrightarrow>
    (\<exists>d m. parse_duration (gp_default_ttl (cfg_global cfg)) = Some d \<and>
       parse_duration (gp_max_ttl (cfg_global cfg)) = Some m \<and> d \<le> m) \<and>
    (\<forall>c \<in> set (cfg_roles cfg). rd_principal (snd c) \<noteq> []) \<and>
    (\<forall>c \<in> set (cfg_targets cfg). \<not> target_reported cfg (snd c)) \<and>
    cfg_agents cfg \<noteq> [] \<and> (\<forall>c \<in> set (cfg_agents cfg). inherits_ok cfg (snd c)) \<and>
    distinct (map (ap_uid \<circ> snd) (cfg_agents cfg))"
  using assms
  by (auto simp: validate_policy_def unused_errors agents_errors targets_errors role_errors global_errors)
     (auto simp: errors_but_def empty_report_def)

lemma key_fingerprint_prefix: "has_prefix ''SHA256:'' (key_fingerprint marshal sha256 k)"
  by (simp add: key_fingerprint_def)

lemma target_conditions:
  assumes "parse_duration (gp_max_ttl (cfg_global cfg)) = Some m"
  shows "target_ok cfg m t \<and> host_key_ok parse_key marshal sha256 t \<and>
      (gp_host_key_strict (cfg_global cfg) \<longrightarrow> tg_host_key t \<noteq> [] \<or> tg_host_key_fingerprint t \<noteq> []) \<longleftrightarrow>
    \<not> target_reported cfg t \<and> (tg_host_key t \<noteq> [] \<longrightarrow> host_key_ok parse_key marshal sha256 t)"
proof (cases "tg_host_key t = []")
  case True
  with assms show ?thesis
    by (auto simp: target_ok_def target_reported_def target_ttl_of_def host_key_ok_def split: option.splits)
next
  case False
  then have "host_key_ok parse_key marshal sha256 t \<Longrightarrow>
      tg_host_key_fingerprint t = [] \<or> has_prefix ''SHA256:'' (tg_host_key_fingerprint t)"
    using key_fingerprint_prefix [of marshal sha256] by (auto simp: host_key_ok_def)
  with False assms show ?thesis
    by (auto simp: target_ok_def target_reported_def target_ttl_of_def split: option.splits)
qed

text \<open>
  The report agrees with the loader up to exactly these gaps: its errors on ports
  (E9) and API key hashes (E12) are no obstacle to loading, and it does not look for targets
  with the same host and port, malformed principals, shells and sudo rules, or host keys that
  do not parse or do not have the pinned fingerprint. The exit status is 2 exactly when some
  finding is an error.
\<close>

theorem report_matches_loader:
  assumes "map_wf (cfg_agents raw)" "map_wf (cfg_targets raw)" "map_wf (cfg_roles raw)"
  defines "cfg \<equiv> apply_defaults raw"
  defines "findings \<equiv> rpt_results (validate_policy cfg)"
  shows "((\<exists>rc. load_policy parse_key marshal sha256 (Some raw) = Inr rc) \<longleftrightarrow>
      (\<forall>v \<in> set findings. vr_severity v = SeverityError \<longrightarrow> vr_code v \<in> {''E9'', ''E12''}) \<and>
      distinct (map (host_port \<circ> snd) (cfg_targets cfg)) \<and>
      (\<forall>(_, r) \<in> set (cfg_roles cfg). role_ok r) \<and>
      (\<forall>(_, t) \<in> set (cfg_targets cfg). tg_host_key t \<noteq> [] \<longrightarrow> host_key_ok parse_key marshal sha256 t)) \<and>
    (policy_validate_command False (Some raw) = 2 \<longleftrightarrow> (\<exists>v \<in> set findings. vr_severity v = SeverityError))"
proof -
  have wf: "map_wf (cfg_agents cfg)" "map_wf (cfg_targets cfg)" "map_wf (cfg_roles cfg)"
    using assms(1-3) by (simp_all add: cfg_def apply_defaults_def Let_def map_values_def map_wf_def comp_def case_prod_unfold)
  have role: "role_ok r \<Longrightarrow> rd_principal r \<noteq> []" for r by (auto simp: role_ok_def principal_ok_def)
  have loads: "(\<exists>rc. load_policy parse_key marshal sha256 (Some raw) = Inr rc) \<longleftrightarrow>
      policy_consistent parse_key marshal sha256 cfg"
    by (auto simp: load_policy_def validate_config_iff policy_consistent_def cfg_def)
  have "policy_consistent parse_key marshal sha256 cfg \<longleftrightarrow>
      \<not> errors_but [''E9'', ''E12''] (validate_policy cfg) \<and>
      distinct (map (host_port \<circ> snd) (cfg_targets cfg)) \<and>
      (\<forall>(_, r) \<in> set (cfg_roles cfg). role_ok r) \<and>
      (\<forall>(_, t) \<in> set (cfg_targets cfg). tg_host_key t \<noteq> [] \<longrightarrow> host_key_ok parse_key marshal sha256 t)"
  proof (cases "parse_duration (gp_max_ttl (cfg_global cfg))")
    case None
    then show ?thesis by (simp add: policy_consistent_def no_errors_iff [OF wf])
  next
    case (Some m)
    have "policy_consistent parse_key marshal sha256 cfg \<longleftrightarrow>
      (\<exists>d. parse_duration (gp_default_ttl (cfg_global cfg)) = Some d \<and> d \<le> m) \<and>
      cfg_agents cfg \<noteq> [] \<and> distinct (map (ap_uid \<circ> snd) (cfg_agents cfg)) \<and>
      (\<forall>c \<in> set (cfg_agents cfg). inherits_ok cfg (snd c)) \<and>
      distinct (map (host_port \<circ> snd) (cfg_targets cfg)) \<and> (\<forall>c \<in> set (cfg_roles cfg). role_ok (snd c)) \<and>
      (\<forall>c \<in> set (cfg_targets cfg). target_ok cfg m (snd c) \<and> host_key_ok parse_key marshal sha256 (snd c) \<and>
        (gp_host_key_strict (cfg_global cfg) \<longrightarrow> tg_host_key (snd c) \<noteq> [] \<or> tg_host_key_fingerprint (snd c) \<noteq> []))"
      using Some by (auto simp: policy_consistent_def case_prod_unfold)
    then show ?thesis
      unfolding target_conditions [OF Some] no_errors_iff [OF wf] case_prod_unfold
      using Some role by auto
  qed
  moreover have "policy_validate_command False (Some raw) = 2 \<longleftrightarrow> (\<exists>v \<in> set findings. vr_severity v = SeverityError)"
    using counted_validate [of cfg]
    by (auto simp: policy_validate_command_def exit_code_def Let_def counted_def findings_def filter_empty_conv
        simp flip: cfg_def)
  ultimately show ?thesis using loads by (auto simp: errors_but_def findings_def)
qed

text \<open>Two names for one host and port: a clean report, but the loader refuses.\<close>

definition twin_config :: config where
  "twin_config = sample_config\<lparr>cfg_targets :=
     (''web2'', the (get (cfg_targets sample_config) ''web'')) # cfg_targets sample_config\<rparr>"

lemma twin_facts:
  "map_wf (cfg_agents twin_config)" "map_wf (cfg_targets twin_config)" "map_wf (cfg_roles twin_config)"
  "\<not> distinct (map (host_port \<circ> snd) (cfg_targets (apply_defaults twin_config)))"
  "policy_validate_command False (Some twin_config) = 1"
  by code_simp+

theorem report_matches_loader_witness:
  "(\<nexists>rc. load_policy (\<lambda>_. None :: unit option) (\<lambda>_. []) id (Some twin_config) = Inr rc) \<and>
   filter (\<lambda>v. vr_severity v = SeverityError) (rpt_results (validate_policy (apply_defaults twin_config))) = []"
  using report_matches_loader [OF twin_facts(1-3), of "\<lambda>_. None :: unit option" "\<lambda>_. []" id] twin_facts(4,5)
  by (auto simp: filter_empty_conv)

end
