(* ===== verification/TaskPolicy.thy ===== *)
theory TaskPolicy
  imports PolicyEngine TokenEnvelope
begin

text \<open>
  \<open>BuildEnvelopeFromPolicy\<close> of \<open>internal/broker/task.go\<close>: the capability envelope of a new
  task, computed from the agent's effective permissions. Go's sets (\<open>map[string]bool\<close>) are
  maps to \<open>True\<close> whose keys are then sorted. The theorem compares what the envelope checks
  will permit with what the policy permits.
\<close>

definition all_methods :: "string list" where
  "all_methods = [''GET'', ''POST'', ''PUT'', ''PATCH'', ''DELETE'', ''HEAD'', ''OPTIONS'']"

definition set_add :: "string list \<Rightarrow> (string, bool) gomap \<Rightarrow> (string, bool) gomap" where
  "set_add xs m = fold (\<lambda>x. put x True) xs m"

definition legacy_envelope :: "'k resolved_config \<Rightarrow> envelope" where
  "legacy_envelope rc =
     \<lparr>te_targets = sort (map fst (cfg_targets (rc_raw rc))), te_roles = sort (map fst (cfg_roles (rc_raw rc))),
      te_services = [wildcard], te_remotes = [wildcard], te_methods = all_methods\<rparr>"

text \<open>The two branches of the loop over the services, wildcard or not, add the same.\<close>

definition service_methods :: "service_access \<Rightarrow> string list" where
  "service_methods methods = (if length methods = 0 then all_methods else methods)"

definition build_envelope :: "string \<Rightarrow> 'k resolved_config \<Rightarrow> envelope" where
  "build_envelope agent rc =
     (case get (rc_agent_perms rc) agent of
        None \<Rightarrow> legacy_envelope rc
      | Some perms \<Rightarrow>
          if rp_legacy_mode perms then legacy_envelope rc
          else
            (let targets = filter (can_access_target perms) (map fst (cfg_targets (rc_raw rc)));
                 role_set = fold (\<lambda>t. set_add (get_target_roles perms t)) targets [];
                 services = map fst (rp_service_access perms);
                 method_set = fold (\<lambda>(_, methods). set_add (service_methods methods)) (rp_service_access perms) [];
                 remotes = map fst (rp_remote_access perms)
             in \<lparr>te_targets = sort targets, te_roles = sort (map fst role_set), te_services = sort services,
                 te_remotes = sort remotes, te_methods = sort (map fst method_set)\<rparr>))"

lemma keys_set_add: "fst ` set (set_add xs m) = set xs \<union> fst ` set m"
proof (induction xs arbitrary: m)
  case (Cons x xs)
  have "fst ` set (put x True m) = insert x (fst ` set m)"
    by (auto simp add: set_eq_iff get_key_mem [symmetric])
  with Cons.IH [of "put x True m"] show ?case by (simp add: set_add_def)
qed (simp add: set_add_def)

lemma keys_fold_set_add: "fst ` set (fold (\<lambda>t. set_add (f t)) ts m) = (\<Union>t \<in> set ts. set (f t)) \<union> fst ` set m"
  by (induction ts arbitrary: m) (auto simp: keys_set_add)

lemma wf_set_add: "map_wf m \<Longrightarrow> map_wf (set_add xs m)"
  by (induction xs arbitrary: m) (simp_all add: set_add_def)

lemma wf_fold_set_add: "map_wf m \<Longrightarrow> map_wf (fold (\<lambda>t. set_add (f t)) ts m)"
  by (induction ts arbitrary: m) (simp_all add: wf_set_add)

text \<open>
  For an agent with permissions the envelope of a new task permits exactly the
  configured targets the agent may reach, the services and remotes it has access to, and the
  roles and methods it has on some of them. (Roles are not tied to a target nor methods to a
  service; the tools check the pairs against the policy again.) Every list is sorted and
  without duplicates.
\<close>

theorem policy_envelope_exact:
  assumes perms: "get (rc_agent_perms rc) agent = Some p" "\<not> rp_legacy_mode p"
    and wf: "map_wf (cfg_targets (rc_raw rc))" "map_wf (rp_service_access p)" "map_wf (rp_remote_access p)"
    and literal: "get (cfg_targets (rc_raw rc)) wildcard = None"
  shows "(\<forall>t. contains_target (build_envelope agent rc) t \<longleftrightarrow>
        get (cfg_targets (rc_raw rc)) t \<noteq> None \<and> can_access_target p t) \<and>
    (\<forall>r. r \<in> set (te_roles (build_envelope agent rc)) \<longleftrightarrow>
        (\<exists>t. get (cfg_targets (rc_raw rc)) t \<noteq> None \<and> can_access_target p t \<and> r \<in> set (get_target_roles p t))) \<and>
    (\<forall>s. contains_service (build_envelope agent rc) s \<longleftrightarrow> get_service_access p s \<noteq> None) \<and>
    (\<forall>m. m \<in> set (te_methods (build_envelope agent rc)) \<longleftrightarrow>
        (\<exists>s ms. get (rp_service_access p) s = Some ms \<and> m \<in> set (if ms = [] then all_methods else ms))) \<and>
    (\<forall>r. contains_remote (build_envelope agent rc) r \<longleftrightarrow> get_remote_access p r \<noteq> None) \<and>
    list_all (\<lambda>xs. sorted xs \<and> distinct xs)
      [te_targets (build_envelope agent rc), te_roles (build_envelope agent rc), te_services (build_envelope agent rc),
       te_remotes (build_envelope agent rc), te_methods (build_envelope agent rc)]"
proof -
  let ?targets = "filter (can_access_target p) (map fst (cfg_targets (rc_raw rc)))"
  let ?roles = "fold (\<lambda>t. set_add (get_target_roles p t)) ?targets []"
  let ?methods = "fold (\<lambda>e. set_add (service_methods (snd e))) (rp_service_access p) []"
  have env: "build_envelope agent rc =
      \<lparr>te_targets = sort ?targets, te_roles = sort (map fst ?roles), te_services = sort (map fst (rp_service_access p)),
       te_remotes = sort (map fst (rp_remote_access p)), te_methods = sort (map fst ?methods)\<rparr>"
    using perms by (simp add: build_envelope_def Let_def case_prod_unfold)
  have targets: "t \<in> set ?targets \<longleftrightarrow> get (cfg_targets (rc_raw rc)) t \<noteq> None \<and> can_access_target p t" for t
    using get_key_mem [of "cfg_targets (rc_raw rc)" t] by auto
  have "wildcard \<notin> set ?targets" using targets literal by blast
  then have t: "\<forall>t. contains_target (build_envelope agent rc) t \<longleftrightarrow>
      get (cfg_targets (rc_raw rc)) t \<noteq> None \<and> can_access_target p t"
    using targets literal by (simp add: env contains_target_def contains_string_iff)
  have "r \<in> set (te_roles (build_envelope agent rc)) \<longleftrightarrow> (\<exists>t \<in> set ?targets. r \<in> set (get_target_roles p t))" for r
    by (simp add: env keys_fold_set_add)
  then have r: "\<forall>r. r \<in> set (te_roles (build_envelope agent rc)) \<longleftrightarrow>
      (\<exists>t. get (cfg_targets (rc_raw rc)) t \<noteq> None \<and> can_access_target p t \<and> r \<in> set (get_target_roles p t))"
    using targets by blast
  have s: "\<forall>s. contains_service (build_envelope agent rc) s \<longleftrightarrow> get_service_access p s \<noteq> None"
    by (auto simp: env contains_service_def contains_string_iff get_service_access_def get_key_mem [symmetric]
        split: option.splits)
  have rem: "\<forall>r. contains_remote (build_envelope agent rc) r \<longleftrightarrow> get_remote_access p r \<noteq> None"
    by (auto simp: env contains_remote_def contains_string_iff get_remote_access_def get_key_mem [symmetric]
        split: option.splits)
  have "m \<in> set (te_methods (build_envelope agent rc)) \<longleftrightarrow>
      (\<exists>e \<in> set (rp_service_access p). m \<in> set (service_methods (snd e)))" for m
    by (simp add: env keys_fold_set_add)
  then have m: "\<forall>m. m \<in> set (te_methods (build_envelope agent rc)) \<longleftrightarrow>
      (\<exists>s ms. get (rp_service_access p) s = Some ms \<and> m \<in> set (if ms = [] then all_methods else ms))"
    unfolding get_in_set [OF wf(2)]
    by (simp add: service_methods_def del: if_split cong: if_cong) (metis prod.collapse snd_conv)
  have "map_wf ?roles" "map_wf ?methods" by (rule wf_fold_set_add; simp)+
  then have "distinct (map fst ?roles)" "distinct (map fst ?methods)" "distinct ?targets"
    using wf by (simp_all add: map_wf_def)
  with wf(2,3) have d: "list_all (\<lambda>xs. sorted xs \<and> distinct xs)
      [te_targets (build_envelope agent rc), te_roles (build_envelope agent rc), te_services (build_envelope agent rc),
       te_remotes (build_envelope agent rc), te_methods (build_envelope agent rc)]"
    by (simp add: env map_wf_def)
  from t r s m rem d show ?thesis by blast
qed

lemma sample_perms:
  "(case get (rc_agent_perms sample_resolved) ''claude'' of None \<Rightarrow> False
    | Some p \<Rightarrow> \<not> rp_legacy_mode p \<and> map_wf (rp_service_access p) \<and> map_wf (rp_remote_access p) \<and>
        can_access_target p ''web'' \<and> get_service_access p ''db'' = None)"
  "map_wf (cfg_targets (rc_raw sample_resolved))" "get (cfg_targets (rc_raw sample_resolved)) wildcard = None"
  "get (cfg_targets (rc_raw sample_resolved)) ''web'' \<noteq> None"
  by code_simp+

theorem policy_envelope_exact_witness:
  "contains_target (build_envelope ''claude'' sample_resolved) ''web'' \<and>
   \<not> contains_service (build_envelope ''claude'' sample_resolved) ''db''"
proof -
  from sample_perms(1) obtain p where p: "get (rc_agent_perms sample_resolved) ''claude'' = Some p" "\<not> rp_legacy_mode p"
    "map_wf (rp_service_access p)" "map_wf (rp_remote_access p)" "can_access_target p ''web''"
    "get_service_access p ''db'' = None" by (auto split: option.splits)
  from policy_envelope_exact [OF p(1,2) sample_perms(2) p(3,4) sample_perms(3)] p(5,6) sample_perms(4)
  show ?thesis by blast
qed

end
