(* ===== verification/BrokerAuth.thy ===== *)
theory BrokerAuth
  imports Verifier Tasks Revocation Delegation McpAuth Pop
begin

text \<open>
  Authentication of an MCP request: \<open>authenticateRequest\<close> of \<open>internal/broker/mcp.go\<close> and the
  macaroon and token paths of \<open>internal/broker/mcp_token_auth.go\<close>, on the part of the broker's
  state that the task tools share. The record \<open>primitives\<close> holds the library functions
  (HMAC, SHA-256, Ed25519, bcrypt and \<open>json.Marshal\<close> of an argument map, whose number format
  is not modelled). A request reads its clock once. Metrics and the audit log are left out.
\<close>

section \<open>State\<close>

record primitives =
  pr_hmac :: "bytes \<Rightarrow> bytes \<Rightarrow> bytes"
  pr_sha256 :: "bytes \<Rightarrow> bytes"
  pr_ed_sign :: "bytes \<Rightarrow> bytes \<Rightarrow> bytes"
  pr_ed_verify :: "bytes \<Rightarrow> bytes \<Rightarrow> bytes \<Rightarrow> bool"
  pr_bcrypt :: "string \<Rightarrow> string \<Rightarrow> bool"
  pr_marshal :: "(string, json) gomap \<Rightarrow> bytes"

text \<open>
  \<open>bk_keys\<close> is \<open>None\<close> when macaroons are disabled: the store, the minter and the verifier are
  created together.
\<close>

record 'k broker =
  bk_policy :: "'k resolved_config"
  bk_tasks :: task_manager
  bk_revocation :: revocation_map
  bk_keys :: "root_keys option"
  bk_tokens :: token_backend
  bk_auth :: mcp_authenticator
  bk_nonces :: nonce_cache
  bk_pop_skew :: duration

datatype login_error =
    MacaroonsDisabled
  | BadTokenEncoding
  | MacaroonRejected mac_error
  | NoTaskForToken
  | LineageRevoked string
  | TokensDisabled
  | TokenRejected token_error
  | TokenRevoked revocation_error
  | NoAuthorization
  | NotBearer
  | EmptyBearer
  | KeyRejected auth_error

definition jwt_ready :: "time \<Rightarrow> token_backend \<Rightarrow> bool" where
  "jwt_ready now tb \<longleftrightarrow> tb_issuer tb \<noteq> None \<and>
     (case tb_delegation tb of None \<Rightarrow> False | Some dm \<Rightarrow> is_ready now dm)"

definition task_identity_enabled :: "time \<Rightarrow> 'k broker \<Rightarrow> bool" where
  "task_identity_enabled now bk \<longleftrightarrow> jwt_ready now (bk_tokens bk) \<or> bk_keys bk \<noteq> None"

section \<open>Tokens\<close>

definition sha256_hex :: "primitives \<Rightarrow> bytes \<Rightarrow> string" where
  "sha256_hex cr sig = hex_encode (pr_sha256 cr sig)"

definition identity_of :: "task \<Rightarrow> task_identity" where
  "identity_of t =
     \<lparr>ti_id = tk_id t, ti_root_id = tk_root_id t, ti_parent_id = tk_parent_id t, ti_depth = tk_depth t,
      ti_lineage = tk_lineage t, ti_initiated_by = tk_initiated_by t, ti_description = tk_description t\<rparr>"

definition envelope_of :: "effective_envelope \<Rightarrow> envelope" where
  "envelope_of e =
     \<lparr>te_targets = ee_targets e, te_roles = ee_roles e, te_services = ee_services e,
      te_remotes = ee_remotes e, te_methods = ee_methods e\<rparr>"

text \<open>The agent that a verified macaroon of a task stands for.\<close>

definition macaroon_agent :: "macaroon \<Rightarrow> verify_result \<Rightarrow> task \<Rightarrow> mcp_agent" where
  "macaroon_agent mac res t =
     \<lparr>ma_name = md_agent (vr_metadata res), ma_roles = ee_roles (vr_envelope res), ma_max_concurrent = 0,
      ma_auto_approve = True, ma_perms = None,
      ma_task_claims = Some
        \<lparr>cl_issuer = [], cl_subject = md_agent (vr_metadata res), cl_audience = [],
         cl_issued_at = tk_created_at t, cl_expires_at = ee_expires_at (vr_envelope res), cl_token_id = [],
         cl_task = identity_of t, cl_envelope = envelope_of (vr_envelope res)\<rparr>,
      ma_raw_macaroon = Some mac\<rparr>"

text \<open>The task of a signature digest, else the task named by the macaroon's identifier.\<close>

definition token_task :: "time \<Rightarrow> string \<Rightarrow> string \<Rightarrow> task_manager \<Rightarrow> task option" where
  "token_task now digest ident tm =
     (case lookup_by_signature now tm digest of Some t \<Rightarrow> Some t | None \<Rightarrow> get_task now tm ident)"

definition authenticate_with_macaroon ::
    "primitives \<Rightarrow> time \<Rightarrow> string \<Rightarrow> 'k broker \<Rightarrow> login_error + mcp_agent" where
  "authenticate_with_macaroon cr now tok bk =
     (case bk_keys bk of
        None \<Rightarrow> Inl MacaroonsDisabled
      | Some keys \<Rightarrow>
     (case b64_decode tok of
        None \<Rightarrow> Inl BadTokenEncoding
      | Some data \<Rightarrow>
     (case unmarshal_binary data of
        Inl e \<Rightarrow> Inl (MacaroonRejected e)
      | Inr mac \<Rightarrow>
     (case verifier_verify (pr_hmac cr) (pr_sha256 cr) now keys mac of
        Inl e \<Rightarrow> Inl (MacaroonRejected e)
      | Inr res \<Rightarrow>
     (case token_task now (vr_sig_digest res) (m_id mac) (bk_tasks bk) of
        None \<Rightarrow> Inl NoTaskForToken
      | Some t \<Rightarrow>
     (case find (is_revoked (bk_revocation bk)) (tk_lineage t) of
        Some tid \<Rightarrow> Inl (LineageRevoked tid)
      | None \<Rightarrow> Inr (macaroon_agent mac res t)))))))"

definition authenticate_with_ctte ::
    "primitives \<Rightarrow> time \<Rightarrow> string \<Rightarrow> 'k broker \<Rightarrow> login_error + mcp_agent option" where
  "authenticate_with_ctte cr now tok bk =
     (if length (filter (\<lambda>c. c = CHR ''.'') tok) \<noteq> 2 then Inr None
      else
     (case (tb_validator (bk_tokens bk), tb_delegation (bk_tokens bk)) of
        (Some v, Some dm) \<Rightarrow>
          if \<not> is_ready now dm then Inl TokensDisabled
          else
         (case validate_token (pr_ed_verify cr) now now tok v of
            Inl e \<Rightarrow> Inl (TokenRejected e)
          | Inr claims \<Rightarrow>
         (case check_lineage (bk_revocation bk) (ti_lineage (cl_task claims)) (cl_issued_at claims) of
            Some e \<Rightarrow> Inl (TokenRevoked e)
          | None \<Rightarrow>
         (case get_task now (bk_tasks bk) (ti_id (cl_task claims)) of
            None \<Rightarrow> Inl NoTaskForToken
          | Some t \<Rightarrow>
              Inr (Some \<lparr>ma_name = cl_subject claims, ma_roles = te_roles (tk_envelope t), ma_max_concurrent = 0,
                ma_auto_approve = True, ma_perms = None, ma_task_claims = Some claims, ma_raw_macaroon = None\<rparr>))))
      | _ \<Rightarrow> Inl TokensDisabled))"

definition authenticate_request ::
    "primitives \<Rightarrow> time \<Rightarrow> string \<Rightarrow> 'k broker \<Rightarrow> (login_error + mcp_agent) \<times> 'k broker" where
  "authenticate_request cr now header bk =
     (if header = [] then (Inl NoAuthorization, bk)
      else if \<not> has_prefix ''Bearer '' header then (Inl NotBearer, bk)
      else
        let bearer = drop 7 header in
        if bearer = [] then (Inl EmptyBearer, bk)
        else if has_prefix ''mac_'' bearer then (authenticate_with_macaroon cr now (drop 4 bearer) bk, bk)
        else
       (case authenticate_with_ctte cr now bearer bk of
          Inl e \<Rightarrow> (Inl e, bk)
        | Inr (Some agent) \<Rightarrow> (Inr agent, bk)
        | Inr None \<Rightarrow>
           (case authenticate (pr_bcrypt cr) (pr_sha256 cr) now now bearer (bk_auth bk) of
              (Inl e, au) \<Rightarrow> (Inl (KeyRejected e), bk\<lparr>bk_auth := au\<rparr>)
            | (Inr agent, au) \<Rightarrow> (Inr agent, bk\<lparr>bk_auth := au\<rparr>))))"

section \<open>Proof of possession\<close>

text \<open>A missing field of the proof is the empty string; a field of another type is an error.\<close>

definition payload_member :: "string \<Rightarrow> json \<Rightarrow> proof_payload \<Rightarrow> proof_payload option" where
  "payload_member k v p =
     (if equal_fold k ''task_id'' then map_option (\<lambda>s. p\<lparr>pp_task_id := s\<rparr>) (read_string v (pp_task_id p))
      else if equal_fold k ''req_type'' then map_option (\<lambda>s. p\<lparr>pp_req_type := s\<rparr>) (read_string v (pp_req_type p))
      else if equal_fold k ''resource'' then map_option (\<lambda>s. p\<lparr>pp_resource := s\<rparr>) (read_string v (pp_resource p))
      else if equal_fold k ''method'' then map_option (\<lambda>s. p\<lparr>pp_method := s\<rparr>) (read_string v (pp_method p))
      else if equal_fold k ''body_hash'' then map_option (\<lambda>s. p\<lparr>pp_body_hash := s\<rparr>) (read_string v (pp_body_hash p))
      else if equal_fold k ''mac_digest'' then map_option (\<lambda>s. p\<lparr>pp_mac_digest := s\<rparr>) (read_string v (pp_mac_digest p))
      else if equal_fold k ''nonce'' then map_option (\<lambda>s. p\<lparr>pp_nonce := s\<rparr>) (read_string v (pp_nonce p))
      else if equal_fold k ''ts'' then map_option (\<lambda>s. p\<lparr>pp_ts := s\<rparr>) (read_string v (pp_ts p))
      else Some p)"

definition proof_member :: "string \<Rightarrow> json \<Rightarrow> pop_proof \<Rightarrow> pop_proof option" where
  "proof_member k v p =
     (if equal_fold k ''sig'' then map_option (\<lambda>s. p\<lparr>pf_sig := s\<rparr>) (read_string v (pf_sig p))
      else if equal_fold k ''payload''
      then map_option (\<lambda>q. p\<lparr>pf_payload := q\<rparr>) (read_struct payload_member v (pf_payload p))
      else Some p)"

definition no_proof :: pop_proof where
  "no_proof = \<lparr>pf_sig = [], pf_payload = \<lparr>pp_task_id = [], pp_req_type = [], pp_resource = [], pp_method = [],
     pp_body_hash = [], pp_mac_digest = [], pp_nonce = [], pp_ts = []\<rparr>\<rparr>"

datatype gate_error =
    Locked
  | PopMissing
  | PopMalformed
  | PopUnserializable mac_error
  | PopFailed pop_error

definition verify_pop_from_args ::
    "primitives \<Rightarrow> time \<Rightarrow> mcp_agent \<Rightarrow> bytes \<Rightarrow> (string, json) gomap \<Rightarrow> 'k broker \<Rightarrow>
     gate_error option \<times> 'k broker" where
  "verify_pop_from_args cr now agent holder_key args bk =
     (case get args ''_pop'' of
        None \<Rightarrow> (Some PopMissing, bk)
      | Some raw \<Rightarrow>
     (case read_struct proof_member raw no_proof of
        None \<Rightarrow> (Some PopMalformed, bk)
      | Some prf \<Rightarrow>
        let body = pr_marshal cr (del ''_pop'' args) in
     (case (case ma_raw_macaroon agent of None \<Rightarrow> Inr [] | Some mac \<Rightarrow> marshal_binary mac) of
        Inl e \<Rightarrow> (Some (PopUnserializable e), bk)
      | Inr mac_binary \<Rightarrow>
         (case verify_pop (pr_ed_verify cr) (pr_sha256 cr) now now (Some prf) holder_key mac_binary body
                 (bk_pop_skew bk) (Some (bk_nonces bk)) of
            (e, cache) \<Rightarrow>
              (map_option PopFailed e, bk\<lparr>bk_nonces := (case cache of None \<Rightarrow> bk_nonces bk | Some nc \<Rightarrow> nc)\<rparr>)))))"

text \<open>
  What \<open>handleToolsCall\<close> checks before it dispatches: an unbound task with a deadline may only
  call \<open>task_bind\<close>, a bound task must present a proof. An API key passes.
\<close>

definition tools_call_gate ::
    "primitives \<Rightarrow> time \<Rightarrow> mcp_agent \<Rightarrow> string \<Rightarrow> (string, json) gomap \<Rightarrow> 'k broker \<Rightarrow>
     gate_error option \<times> 'k broker" where
  "tools_call_gate cr now agent tool args bk =
     (if \<not> has_task_identity agent then (None, bk)
      else
     (case get_task now (bk_tasks bk) (agent_task_id agent) of
        None \<Rightarrow> (None, bk)
      | Some t \<Rightarrow>
          if \<not> tk_holder_bound t \<and> tk_bind_deadline t \<noteq> 0 \<and> tool \<noteq> ''task_bind'' then (Some Locked, bk)
          else if tk_holder_bound t
          then (case tk_holder_pub_key t of
                  None \<Rightarrow> (None, bk)
                | Some key \<Rightarrow> verify_pop_from_args cr now agent key args bk)
          else (None, bk)))"

end
