(* ===== verification/Durations.thy ===== *)
theory Durations
  imports GoTime
begin

text \<open>
  \<open>Duration.String\<close> and \<open>ParseDuration\<close> are inverse to each other on every 64 bit duration: the
  broker sends lifetimes to the signer as text.
\<close>

section \<open>Digits\<close>

lemma digit_val_nonneg: "digit_val c = Some d \<Longrightarrow> 0 \<le> d"
  by (auto simp: digit_val_def Let_def split: if_splits)

lemma parse_digits_ge: "0 \<le> x \<Longrightarrow> parse_digits x ds = Some v \<Longrightarrow> x \<le> v"
proof (induction ds arbitrary: x)
  case (Cons c ds)
  then obtain d where "digit_val c = Some d" "parse_digits (10 * x + d) ds = Some v"
    by (auto split: option.splits)
  with Cons.IH [of "10 * x + d"] Cons.prems(1) digit_val_nonneg show ?case by fastforce
qed simp

abbreviation no_digit :: "string \<Rightarrow> bool" where
  "no_digit s \<equiv> s = [] \<or> digit_val (hd s) = None"

lemma leading_int_digits:
  assumes "0 \<le> x" "parse_digits x ds = Some v" "v \<le> 2 ^ 63" "no_digit rest"
  shows "leading_int x (ds @ rest) = Some (v, rest)"
  using assms
proof (induction ds arbitrary: x)
  case Nil
  then show ?case by (cases rest) auto
next
  case (Cons c ds)
  then obtain d where d: "digit_val c = Some d" "parse_digits (10 * x + d) ds = Some v"
    by (auto split: option.splits)
  have "0 \<le> d" by (rule digit_val_nonneg [OF d(1)])
  then have "10 * x + d \<le> v" using parse_digits_ge [OF _ d(2)] Cons.prems(1) by simp
  with Cons.prems(3) \<open>0 \<le> d\<close> have "\<not> x > 2 ^ 63 div 10" "\<not> x * 10 + d > 2 ^ 63" by simp_all
  moreover have "leading_int (x * 10 + d) (ds @ rest) = Some (v, rest)"
    using Cons.IH [of "x * 10 + d"] Cons.prems d \<open>0 \<le> d\<close> by (simp add: mult.commute)
  ultimately show ?case using d(1) by (simp add: Let_def)
qed

lemma leading_fraction_digits:
  assumes "0 \<le> x" "parse_digits x ds = Some v" "v < 10 ^ 9" "no_digit rest"
  shows "leading_fraction x scale False (ds @ rest) = (v, scale * 10 ^ length ds, rest)"
  using assms
proof (induction ds arbitrary: x scale)
  case Nil
  then show ?case by (cases rest) auto
next
  case (Cons c ds)
  then obtain d where d: "digit_val c = Some d" "parse_digits (10 * x + d) ds = Some v"
    by (auto split: option.splits)
  have "0 \<le> d" by (rule digit_val_nonneg [OF d(1)])
  then have "10 * x + d \<le> v" using parse_digits_ge [OF _ d(2)] Cons.prems(1) by simp
  with Cons.prems(3) \<open>0 \<le> d\<close> have "\<not> x > (2 ^ 63 - 1) div 10" by simp
  moreover have "leading_fraction (x * 10 + d) (scale * 10) False (ds @ rest) = (v, scale * 10 * 10 ^ length ds, rest)"
    using Cons.IH [of "x * 10 + d"] Cons.prems d \<open>0 \<le> d\<close> by (simp add: mult.commute)
  ultimately show ?case using d(1) by simp
qed

lemma parse_low_digits:
  "parse_digits a (map (\<lambda>i. digit (v div 10 ^ i mod 10)) (rev [0..<n])) = Some (a * 10 ^ n + v mod 10 ^ n)"
proof (induction n arbitrary: a)
  case (Suc n)
  have "v mod 10 ^ Suc n = 10 ^ n * (v div 10 ^ n mod 10) + v mod 10 ^ n"
    using zmod_zmult2_eq [of 10 v "10 ^ n"] by (simp add: mult.commute)
  then show ?case using Suc by (simp add: algebra_simps)
qed simp

lemma parse_zeros_after: "parse_digits a (replicate k (CHR ''0'')) = Some (a * 10 ^ k)"
proof (induction k arbitrary: a)
  case (Suc k)
  have "digit_val (CHR ''0'') = Some 0" by code_simp
  with Suc show ?case by (simp add: algebra_simps)
qed simp

lemma fraction_text_cases:
  obtains (none) "fraction_text v n = []" and "v mod 10 ^ n = 0"
  | (some) ds f where "fraction_text v n = CHR ''.'' # ds" and "ds \<noteq> []" and "length ds \<le> n"
      and "parse_digits 0 ds = Some f" and "f * 10 ^ (n - length ds) = v mod 10 ^ n"
proof -
  define full where "full = map (\<lambda>i. digit (v div 10 ^ i mod 10)) (rev [0..<n])"
  define ds where "ds = rev (dropWhile (\<lambda>c. c = CHR ''0'') (rev full))"
  define zs where "zs = rev (takeWhile (\<lambda>c. c = CHR ''0'') (rev full))"
  have printed: "fraction_text v n = (if ds = [] then [] else CHR ''.'' # ds)"
    by (simp add: fraction_text_def ds_def full_def Let_def)
  have full: "full = ds @ zs"
    unfolding ds_def zs_def by (metis rev_append rev_rev_ident takeWhile_dropWhile_id)
  have "zs = replicate (length zs) (CHR ''0'')"
    unfolding zs_def by (intro replicate_eqI) (auto dest: set_takeWhileD)
  then obtain k where zs: "zs = replicate k (CHR ''0'')" by blast
  have len: "length ds + k = n" using arg_cong [OF full, of length] by (simp add: zs full_def)
  have "parse_digits 0 full = Some (v mod 10 ^ n)"
    using parse_low_digits [of 0 v n] by (simp add: full_def)
  then obtain f where f: "parse_digits 0 ds = Some f" "f * 10 ^ k = v mod 10 ^ n"
    by (auto simp: full zs parse_digits_append parse_zeros_after split: option.splits)
  show ?thesis
  proof (cases "ds = []")
    case True
    then show ?thesis using none printed f by simp
  next
    case False
    moreover have "n - length ds = k" "length ds \<le> n" using len by simp_all
    ultimately show ?thesis using some [of ds f] printed f by simp
  qed
qed

section \<open>One number with its unit\<close>

lemma itoa_nonneg: "0 \<le> n \<Longrightarrow> itoa n = digits_of (nat n)"
  by (simp add: itoa_def)

lemma parse_itoa: "0 \<le> n \<Longrightarrow> parse_digits 0 (itoa n) = Some n"
  by (simp add: itoa_nonneg parse_digits_of)

lemma itoa_starts: "0 \<le> n \<Longrightarrow> \<exists>c cs. itoa n = c # cs \<and> digit_val c \<noteq> None"
  using parse_itoa [of n] digits_of_nonempty [of "nat n"]
  by (cases "itoa n") (auto simp: itoa_nonneg split: option.splits)

definition unit_name :: "string \<Rightarrow> bool" where
  "unit_name u \<longleftrightarrow> u \<noteq> [] \<and> (\<forall>c \<in> set u. \<not> number_char c)"

lemma unit_names:
  "unit_name ''ns''" "unit_name [CHR 0xC2, CHR 0xB5, CHR ''s'']" "unit_name ''ms''" "unit_name ''s''"
  "unit_name ''m''" "unit_name ''h''"
  unfolding unit_name_def by code_simp+

lemma take_unit:
  assumes "unit_name u" "rest = [] \<or> number_char (hd rest)"
  shows "takeWhile (\<lambda>c. \<not> number_char c) (u @ rest) = u" "dropWhile (\<lambda>c. \<not> number_char c) (u @ rest) = rest"
proof -
  have "takeWhile (\<lambda>c. \<not> number_char c) rest = []" "dropWhile (\<lambda>c. \<not> number_char c) rest = rest"
    using assms(2) by (cases rest; simp)+
  then show "takeWhile (\<lambda>c. \<not> number_char c) (u @ rest) = u" "dropWhile (\<lambda>c. \<not> number_char c) (u @ rest) = rest"
    using assms(1) by (simp_all add: unit_name_def takeWhile_append2 dropWhile_append2)
qed

lemma duration_part_text:
  assumes "0 \<le> n" "n * unit + v mod unit \<le> 2 ^ 63" "unit_of u = Some unit" "unit_name u" "unit = 10 ^ k" "k \<le> 9"
    "rest = [] \<or> number_char (hd rest)"
  shows "duration_part (itoa n @ fraction_text v k @ u @ rest) = Some (n * unit + v mod unit, rest)"
proof -
  obtain c cs where c: "itoa n = c # cs" "digit_val c \<noteq> None" using itoa_starts [OF assms(1)] by blast
  have u: "u \<noteq> []" "\<not> number_char (hd u)" using assms(4) by (auto simp: unit_name_def)
  have unit: "0 < unit" "0 \<le> v mod unit" using assms(5) by simp_all
  have "n \<le> n * unit" using assms(1) unit(1) by (simp add: mult_le_cancel_left1)
  then have n: "n \<le> 2 ^ 63" "n * unit \<le> 2 ^ 63" using assms(2) unit(2) by simp_all
  then have fits: "n \<le> 2 ^ 63 div unit" using zdiv_mono1 [OF n(2) unit(1)] unit(1) by simp
  show ?thesis
  proof (cases rule: fraction_text_cases [of v k])
    case none
    have "leading_int 0 (itoa n @ u @ rest) = Some (n, u @ rest)"
      using assms(1) n u by (intro leading_int_digits) (auto simp: parse_itoa number_char_def)
    then show ?thesis
      using c u n fits none assms(3,5) take_unit [OF assms(4,7)]
      by (simp add: duration_part_def number_char_def Let_def)
  next
    case (some ds f)
    have "no_digit (CHR ''.'' # ds @ u @ rest)" by (simp add: digit_val_def)
    then have int: "leading_int 0 (itoa n @ CHR ''.'' # ds @ u @ rest) = Some (n, CHR ''.'' # ds @ u @ rest)"
      using assms(1) n by (intro leading_int_digits) (auto simp: parse_itoa)
    have "0 \<le> f" using parse_digits_ge [OF _ some(4)] by simp
    then have "f \<le> f * 10 ^ (k - length ds)" by (simp add: mult_le_cancel_left1)
    also have "\<dots> < 10 ^ k" using some(5) by simp
    also have "\<dots> \<le> (10 :: int) ^ 9" by (rule power_increasing) (use assms(6) in simp_all)
    finally have frac: "leading_fraction 0 1 False (ds @ u @ rest) = (f, 10 ^ length ds, u @ rest)"
      using leading_fraction_digits [of 0 ds f "u @ rest" 1] some(4) u by (auto simp: number_char_def)
    have "(10 :: int) ^ k = 10 ^ (k - length ds) * 10 ^ length ds"
      using some(3) by (simp flip: power_add)
    then have exact: "f * unit div 10 ^ length ds = v mod unit"
      using some(5) assms(5) by (simp add: mult.assoc [symmetric])
    show ?thesis
      using c u n fits int frac exact some assms(2,3) take_unit [OF assms(4,7)]
      by (simp add: duration_part_def number_char_def Let_def)
  qed
qed

text \<open>Minutes and hours never carry a fraction.\<close>

lemma duration_part_whole:
  assumes "0 \<le> n" "n * unit \<le> 2 ^ 63" "0 < unit" "unit_of u = Some unit" "unit_name u"
    "rest = [] \<or> number_char (hd rest)"
  shows "duration_part (itoa n @ u @ rest) = Some (n * unit, rest)"
proof -
  obtain c cs where c: "itoa n = c # cs" "digit_val c \<noteq> None" using itoa_starts [OF assms(1)] by blast
  have u: "u \<noteq> []" "\<not> number_char (hd u)" using assms(5) by (auto simp: unit_name_def)
  have "n \<le> n * unit" using assms(1,3) by (simp add: mult_le_cancel_left1)
  then have "leading_int 0 (itoa n @ u @ rest) = Some (n, u @ rest)"
    using assms u by (intro leading_int_digits) (auto simp: parse_itoa number_char_def)
  moreover have "n \<le> 2 ^ 63 div unit" using zdiv_mono1 [OF assms(2,3)] assms(3) by simp
  ultimately show ?thesis
    using c u assms(2,4) take_unit [OF assms(5,6)]
    by (simp add: duration_part_def number_char_def Let_def)
qed

section \<open>The whole text\<close>

lemma parts_step:
  assumes "duration_part s = Some (v, s')" "d + v \<le> 2 ^ 63"
  shows "duration_parts d s = duration_parts (d + v) s'"
proof -
  have "length s' < length s" by (rule duration_part_shorter [OF assms(1)])
  then show ?thesis using assms by (subst duration_parts.simps) (auto simp: not_less)
qed

lemma parts_done: "duration_parts d [] = Some d"
  by (simp add: duration_parts.simps)

lemma itoa_number_char: "0 \<le> n \<Longrightarrow> number_char (hd (itoa n @ s))"
  using itoa_starts [of n] by (auto simp: number_char_def)

lemma seconds_text:
  assumes "0 \<le> d" "0 \<le> s" "d + s * second + v mod second \<le> 2 ^ 63"
  shows "duration_parts d (itoa s @ fraction_text v 9 @ ''s'') = Some (d + (s * second + v mod second))"
proof -
  have "duration_part (itoa s @ fraction_text v 9 @ ''s'' @ []) = Some (s * second + v mod second, [])"
    using assms by (intro duration_part_text) (simp_all add: unit_of_def unit_names)
  then show ?thesis using assms parts_step parts_done by simp
qed

lemma clock_text:
  assumes "0 \<le> u" "u \<le> 2 ^ 63"
  defines "s \<equiv> u div second" and "m \<equiv> u div second div 60" and "h \<equiv> u div second div 60 div 60"
  shows "duration_parts 0 ((if h > 0 then itoa h @ ''h'' else []) @ (if m > 0 then itoa (m mod 60) @ ''m'' else []) @
      itoa (s mod 60) @ fraction_text u 9 @ ''s'') = Some u"
proof -
  have nonneg: "0 \<le> h" "0 \<le> m" "0 \<le> s" using assms(1) by (simp_all add: s_def m_def h_def)
  have total: "h * hour + (m mod 60) * minute + ((s mod 60) * second + u mod second) = u"
    unfolding s_def m_def h_def by presburger
  have m0: "h = 0" "m mod 60 = 0" if "\<not> m > 0" using that nonneg(2) by (simp_all add: h_def m_def)
  have h0: "h = 0" if "\<not> h > 0" using that nonneg(1) by simp
  have bounds: "h * hour \<le> 2 ^ 63" "h * hour + (m mod 60) * minute \<le> 2 ^ 63"
    using total nonneg assms(2) by simp_all
  let ?secs = "itoa (s mod 60) @ fraction_text u 9 @ ''s''"
  have secs: "duration_parts d ?secs = Some (d + ((s mod 60) * second + u mod second))"
    if "0 \<le> d" "d + ((s mod 60) * second + u mod second) \<le> 2 ^ 63" for d
    using that by (intro seconds_text) simp_all
  have starts: "number_char (hd ?secs)" "number_char (hd (itoa (m mod 60) @ ''m'' @ ?secs))"
    by (simp_all only: append_assoc itoa_number_char pos_mod_sign zero_less_numeral)
  have mins: "duration_parts d ((if m > 0 then itoa (m mod 60) @ ''m'' else []) @ ?secs) =
      Some (d + ((m mod 60) * minute + ((s mod 60) * second + u mod second)))"
    if d: "0 \<le> d" "d + ((m mod 60) * minute + ((s mod 60) * second + u mod second)) \<le> 2 ^ 63" for d
  proof (cases "m > 0")
    case True
    have "0 \<le> (s mod 60) * second + u mod second" by simp
    then have part: "duration_part (itoa (m mod 60) @ ''m'' @ ?secs) = Some ((m mod 60) * minute, ?secs)"
      using d starts by (intro duration_part_whole) (simp_all add: unit_of_def unit_names)
    show ?thesis
      using parts_step [OF part, of d] secs [of "d + (m mod 60) * minute"] d True by (simp add: add.assoc)
  next
    case False
    then show ?thesis using m0 secs d by simp
  qed
  show ?thesis
  proof (cases "h > 0")
    case True
    have "h = m div 60" by (simp add: h_def m_def)
    then have "m > 0" using True nonneg(2) by (cases "m = 0") auto
    have part: "duration_part (itoa h @ ''h'' @ itoa (m mod 60) @ ''m'' @ ?secs) =
        Some (h * hour, itoa (m mod 60) @ ''m'' @ ?secs)"
      using nonneg bounds starts by (intro duration_part_whole) (simp_all add: unit_of_def unit_names)
    show ?thesis
      using parts_step [OF part, of 0] mins [of "h * hour"] total bounds nonneg assms(2) True \<open>m > 0\<close> by simp
  next
    case False
    then show ?thesis using h0 mins [of 0] total assms(2) by simp
  qed
qed

lemma unsigned_duration:
  assumes "0 \<le> u" "u \<le> 2 ^ 63"
  shows "duration_parts 0 (format_duration u) = Some u \<and> (\<exists>c cs. format_duration u = c # cs \<and> digit_val c \<noteq> None)"
proof -
  consider "u = 0" | "0 < u" "u < 1000" | "1000 \<le> u" "u < 1000000" | "1000000 \<le> u" "u < second" | "second \<le> u"
    using assms(1) by linarith
  then show ?thesis
  proof cases
    case 1
    have "duration_parts 0 ''0s'' = Some 0" "digit_val (CHR ''0'') = Some 0" by code_simp+
    with 1 show ?thesis by (simp add: format_duration_def)
  next
    case 2
    then have "duration_part (itoa u @ ''ns'' @ []) = Some (u * 1, [])"
      by (intro duration_part_whole) (simp_all add: unit_of_def unit_names)
    then have "duration_parts 0 (itoa u @ ''ns'') = Some u"
      using parts_step [of "itoa u @ ''ns''" u "[]" 0] 2 by (simp add: parts_done)
    with 2 itoa_starts [of u] show ?thesis by (auto simp: format_duration_def)
  next
    case 3
    have "duration_part (itoa (u div 1000) @ fraction_text u 3 @ [CHR 0xC2, CHR 0xB5, CHR ''s''] @ []) = Some (u div 1000 * 1000 + u mod 1000, [])"
      by (rule duration_part_text) (use assms 3 in \<open>simp_all add: unit_of_def unit_names\<close>)
    then have "duration_part (itoa (u div 1000) @ fraction_text u 3 @ [CHR 0xC2, CHR 0xB5, CHR ''s'']) = Some (u, [])"
      by (simp only: append_Nil2 div_mult_mod_eq)
    then have "duration_parts 0 (itoa (u div 1000) @ fraction_text u 3 @ [CHR 0xC2, CHR 0xB5, CHR ''s'']) = Some u"
      by (rule trans [OF parts_step]) (use assms in \<open>simp_all add: parts_done\<close>)
    moreover have "0 \<le> u div 1000" using assms(1) by simp
    ultimately show ?thesis using itoa_starts [of "u div 1000"] 3 by (auto simp: format_duration_def)
  next
    case 4
    have "duration_part (itoa (u div 1000000) @ fraction_text u 6 @ ''ms'' @ []) = Some (u div 1000000 * 1000000 + u mod 1000000, [])"
      by (rule duration_part_text) (use assms 4 in \<open>simp_all add: unit_of_def unit_names\<close>)
    then have "duration_part (itoa (u div 1000000) @ fraction_text u 6 @ ''ms'') = Some (u, [])"
      by (simp only: append_Nil2 div_mult_mod_eq)
    then have "duration_parts 0 (itoa (u div 1000000) @ fraction_text u 6 @ ''ms'') = Some u"
      by (rule trans [OF parts_step]) (use assms in \<open>simp_all add: parts_done\<close>)
    moreover have "0 \<le> u div 1000000" using assms(1) by simp
    ultimately show ?thesis using itoa_starts [of "u div 1000000"] 4 by (auto simp: format_duration_def)
  next
    case 5
    let ?h = "u div second div 60 div 60" and ?m = "u div second div 60"
    let ?clock = "(if ?h > 0 then itoa ?h @ ''h'' else []) @ (if ?m > 0 then itoa (?m mod 60) @ ''m'' else []) @
      itoa (u div second mod 60) @ fraction_text u 9 @ ''s''"
    have printed: "format_duration u = ?clock" using 5 by (simp add: format_duration_def Let_def)
    have "0 \<le> ?h" "0 \<le> ?m mod 60" "0 \<le> u div second mod 60" using assms(1) by simp_all
    then obtain a b c as bs cs where first: "itoa ?h = a # as" "digit_val a \<noteq> None"
        "itoa (?m mod 60) = b # bs" "digit_val b \<noteq> None" "itoa (u div second mod 60) = c # cs" "digit_val c \<noteq> None"
      using itoa_starts by metis
    have "\<exists>c cs. ?clock = c # cs \<and> digit_val c \<noteq> None"
      unfolding first(1,3,5) using first(2,4,6) by (simp split: if_split)
    then show ?thesis using clock_text [OF assms] unfolding printed by blast
  qed
qed

theorem parse_format_duration:
  assumes "- (2 ^ 63) \<le> d" "d < 2 ^ 63"
  shows "parse_duration (format_duration d) = Some d"
proof -
  have u: "0 \<le> \<bar>d\<bar>" "\<bar>d\<bar> \<le> 2 ^ 63" using assms by auto
  obtain c cs where c: "format_duration \<bar>d\<bar> = c # cs" "digit_val c \<noteq> None"
    using unsigned_duration [OF u] by blast
  have parts: "duration_parts 0 (c # cs) = Some \<bar>d\<bar>" using unsigned_duration [OF u] c(1) by simp
  have not_sign: "c \<noteq> CHR ''-''" "c \<noteq> CHR ''+''" using c(2) by (auto simp: digit_val_def)
  have zero: "c # cs \<noteq> ''0''"
  proof
    assume "c # cs = ''0''"
    moreover have "duration_parts 0 ''0'' = None" by code_simp
    ultimately show False using parts by simp
  qed
  show ?thesis
  proof (cases "d < 0")
    case True
    then have "format_duration d = CHR ''-'' # c # cs" using c(1) by (simp add: format_duration_def Let_def)
    then show ?thesis using parts zero True by (simp add: parse_duration_def Let_def)
  next
    case False
    then show ?thesis using parts zero c(1) not_sign assms(2) by (auto simp: parse_duration_def Let_def)
  qed
qed

section \<open>Rounding\<close>

text \<open>\<open>Duration.Round(time.Second)\<close>: to the nearest second, halves away from zero.\<close>

definition round_second :: "duration \<Rightarrow> duration" where
  "round_second d =
     (let r = \<bar>d\<bar> mod second; up = (if r + r < second then \<bar>d\<bar> - r else \<bar>d\<bar> - r + second)
      in if d < 0 then - up else up)"

end
