(* ===== verification/TaskTools.thy ===== *)
theory TaskTools
  imports BrokerAuth Minter TaskPolicy Durations
begin

text \<open>
  Component \<open>internal/broker/mcp_task.go\<close>: the task tools. Each handler is one function on the
  broker's state that composes minter, root key store, task manager, revocation map and
  issuer the way the code does; its early returns are the constructors of \<open>tool_error\<close>, and a
  result holds the values the JSON answer is made of. Metrics, audit events and broadcasts
  are left out. \<open>call_env\<close> holds what a call draws from its environment: the clock (read once),
  the local time zone, a fresh ULID, a fresh root key (\<open>None\<close> if the random source fails) and
  the random bytes of a token id.
\<close>

section \<open>Arguments\<close>

type_synonym tool_args = "(string, json) gomap"

record call_env =
  ce_now :: time
  ce_tz :: int
  ce_ulid :: string
  ce_key :: "bytes option"
  ce_rnd :: bytes

datatype tool_error =
    IdentityUnavailable
  | ArgRequired string
  | InvalidTtl string
  | TtlTooLong
  | TtlNotPositive
  | InvalidEnvelopeArg string
  | KeyNotBase64
  | KeyNot32Bytes nat
  | MintFailed mac_error
  | SerializeFailed mac_error
  | SignFailed token_error
  | NoMintingBackend
  | TaskMissing
  | TaskOfOtherAgent
  | OnlyOwnOrDescendants
  | OnlyOwnTask
  | DelegationFailed task_error
  | BindFailed task_error

definition get_string_arg :: "tool_args \<Rightarrow> string \<Rightarrow> string option" where
  "get_string_arg args key = (case get args key of Some (JStr s) \<Rightarrow> Some s | _ \<Rightarrow> None)"

definition get_bool_arg :: "tool_args \<Rightarrow> string \<Rightarrow> bool \<Rightarrow> bool" where
  "get_bool_arg args key dflt = (case get args key of Some (JBool b) \<Rightarrow> b | _ \<Rightarrow> dflt)"

text \<open>The pattern \<open>if !ok || s == ""\<close>, and the argument \<open>ttl\<close> with its default.\<close>

definition required_arg :: "tool_args \<Rightarrow> string \<Rightarrow> tool_error + string" where
  "required_arg args key =
     (case get_string_arg args key of None \<Rightarrow> Inl (ArgRequired key)
      | Some s \<Rightarrow> if s = [] then Inl (ArgRequired key) else Inr s)"

definition ttl_arg :: "tool_args \<Rightarrow> string \<Rightarrow> tool_error + duration" where
  "ttl_arg args dflt =
     (let s = (case get_string_arg args ''ttl'' of None \<Rightarrow> [] | Some s \<Rightarrow> s);
          s = (if s = [] then dflt else s)
      in case parse_duration s of None \<Rightarrow> Inl (InvalidTtl s) | Some d \<Rightarrow> Inr d)"

definition decode_holder_pub_key :: "tool_args \<Rightarrow> tool_error + bytes" where
  "decode_holder_pub_key args =
     (case get_string_arg args ''holder_pub_key'' of
        None \<Rightarrow> Inr []
      | Some s \<Rightarrow>
          if s = [] then Inr []
          else (case b64_decode s of
                  None \<Rightarrow> Inl KeyNotBase64
                | Some key \<Rightarrow> if length key \<noteq> 32 then Inl (KeyNot32Bytes (length key)) else Inr key))"

fun json_strings :: "json list \<Rightarrow> string list option" where
  "json_strings [] = Some []"
| "json_strings (j # js) =
     (case j of JStr s \<Rightarrow> map_option ((#) s) (json_strings js) | _ \<Rightarrow> None)"

text \<open>One of the five dimensions of an envelope argument.\<close>

definition string_list_arg :: "(string \<times> json) list \<Rightarrow> string \<Rightarrow> tool_error + string list" where
  "string_list_arg m key =
     (case get m key of
        None \<Rightarrow> Inr []
      | Some (JArr js) \<Rightarrow> (case json_strings js of None \<Rightarrow> Inl (InvalidEnvelopeArg key) | Some ss \<Rightarrow> Inr ss)
      | Some _ \<Rightarrow> Inl (InvalidEnvelopeArg key))"

definition parse_envelope_arg :: "tool_args \<Rightarrow> string \<Rightarrow> tool_error + envelope option" where
  "parse_envelope_arg args key =
     (case get args key of
        None \<Rightarrow> Inr None
      | Some JNull \<Rightarrow> Inr None
      | Some (JObj m) \<Rightarrow>
         (case string_list_arg m ''targets'' of Inl e \<Rightarrow> Inl e | Inr targets \<Rightarrow>
         (case string_list_arg m ''roles'' of Inl e \<Rightarrow> Inl e | Inr roles \<Rightarrow>
         (case string_list_arg m ''services'' of Inl e \<Rightarrow> Inl e | Inr services \<Rightarrow>
         (case string_list_arg m ''remotes'' of Inl e \<Rightarrow> Inl e | Inr remotes \<Rightarrow>
         (case string_list_arg m ''methods'' of Inl e \<Rightarrow> Inl e | Inr methods \<Rightarrow>
            Inr (Some \<lparr>te_targets = targets, te_roles = roles, te_services = services,
                       te_remotes = remotes, te_methods = methods\<rparr>))))))
      | Some _ \<Rightarrow> Inl (InvalidEnvelopeArg key))"

definition is_ancestor :: "string \<Rightarrow> string list \<Rightarrow> bool" where
  "is_ancestor tid lineage \<longleftrightarrow> list_ex (\<lambda>i. i = tid) lineage"

definition filter_to_subtree :: "task list \<Rightarrow> string \<Rightarrow> task list" where
  "filter_to_subtree tasks caller = filter (\<lambda>t. tk_id t = caller \<or> is_ancestor caller (tk_lineage t)) tasks"

section \<open>Minting for a task\<close>

definition drop_task :: "string \<Rightarrow> 'k broker \<Rightarrow> 'k broker" where
  "drop_task tid bk = bk\<lparr>bk_tasks := snd (revoke_task tid (bk_tasks bk))\<rparr>"

definition mint_envelope :: "envelope \<Rightarrow> bool \<Rightarrow> int \<Rightarrow> time \<Rightarrow> effective_envelope" where
  "mint_envelope e can_delegate depth expires =
     \<lparr>ee_targets = te_targets e, ee_roles = te_roles e, ee_services = te_services e, ee_remotes = te_remotes e,
      ee_methods = te_methods e, ee_can_delegate = can_delegate, ee_delegation_depth = depth,
      ee_expires_at = expires\<rparr>"

text \<open>
  Serializing a minted macaroon and registering its signature digest; when it does not
  serialize the task is dropped again.
\<close>

definition finish_macaroon ::
    "primitives \<Rightarrow> string \<Rightarrow> macaroon \<Rightarrow> 'k broker \<Rightarrow> (tool_error + string \<times> string) \<times> 'k broker" where
  "finish_macaroon cr tid mac bk =
     (case marshal_binary mac of
        Inl e \<Rightarrow> (Inl (SerializeFailed e), drop_task tid bk)
      | Inr mac_bytes \<Rightarrow>
          let digest = sha256_hex cr (m_signature mac) in
          (Inr (''mac_'' @ b64_encode mac_bytes, ''macaroon''),
           bk\<lparr>bk_tasks := register_signature digest tid (set_sig_digest tid digest (bk_tasks bk))\<rparr>))"

definition mint_root_for ::
    "primitives \<Rightarrow> call_env \<Rightarrow> string \<Rightarrow> string \<Rightarrow> string \<Rightarrow> effective_envelope \<Rightarrow> string \<Rightarrow> root_keys \<Rightarrow>
     'k broker \<Rightarrow> (tool_error + string \<times> string) \<times> 'k broker" where
  "mint_root_for cr ce root agent initiated_by env tid keys bk =
     (case mint_root (pr_hmac cr) (ce_tz ce) (ce_now ce) (ce_key ce) root agent initiated_by env keys of
        (Inl e, keys) \<Rightarrow> (Inl (MintFailed e), drop_task tid (bk\<lparr>bk_keys := Some keys\<rparr>))
      | (Inr mac, keys) \<Rightarrow> finish_macaroon cr tid mac (bk\<lparr>bk_keys := Some keys\<rparr>))"

definition task_token_claims :: "string \<Rightarrow> task \<Rightarrow> envelope \<Rightarrow> task_claims" where
  "task_token_claims agent t e =
     \<lparr>cl_issuer = [], cl_subject = agent, cl_audience = [], cl_issued_at = 0, cl_expires_at = tk_expires_at t,
      cl_token_id = [], cl_task = identity_of t, cl_envelope = e\<rparr>"

definition finish_jwt ::
    "string \<Rightarrow> token_error + string \<Rightarrow> 'k broker \<Rightarrow> (tool_error + string \<times> string) \<times> 'k broker" where
  "finish_jwt tid sres bk =
     (case sres of
        Inl e \<Rightarrow> (Inl (SignFailed e), drop_task tid bk)
      | Inr tok \<Rightarrow> (Inr (tok, ''jwt''), bk))"

section \<open>The tools\<close>

record issued_task =
  it_task_id :: string
  it_parent_task_id :: string
  it_token :: string
  it_token_type :: string
  it_expires_at :: string
  it_ttl :: duration
  it_depth :: int
  it_can_delegate :: bool
  it_holder_bound :: bool
  it_envelope :: envelope

definition issued_for :: "call_env \<Rightarrow> task \<Rightarrow> string \<times> string \<Rightarrow> duration \<Rightarrow> bool \<Rightarrow> issued_task" where
  "issued_for ce t tok ttl can_delegate =
     \<lparr>it_task_id = tk_id t, it_parent_task_id = tk_parent_id t, it_token = fst tok, it_token_type = snd tok,
      it_expires_at = format_rfc3339 (ce_tz ce) (tk_expires_at t), it_ttl = ttl, it_depth = tk_depth t,
      it_can_delegate = can_delegate, it_holder_bound = tk_holder_bound t, it_envelope = tk_envelope t\<rparr>"

definition create_envelope :: "mcp_agent \<Rightarrow> 'k broker \<Rightarrow> envelope" where
  "create_envelope agent bk =
     (let env = build_envelope (ma_name agent) (bk_policy bk) in
      case ma_task_claims agent of
        None \<Rightarrow> env
      | Some claims \<Rightarrow> intersect_envelopes env (cl_envelope claims))"

text \<open>
  The three ways of \<open>toolTaskCreate\<close> to a token: a root macaroon, a token of the issuer when
  macaroons are disabled, or none.
\<close>

definition mint_for_new ::
    "primitives \<Rightarrow> call_env \<Rightarrow> mcp_agent \<Rightarrow> task \<Rightarrow> bool \<Rightarrow> string \<Rightarrow> 'k broker \<Rightarrow>
     (tool_error + string \<times> string) \<times> 'k broker" where
  "mint_for_new cr ce agent t can_delegate initiated_by bk =
     (let depth = (if can_delegate then default_max_child_depth else 0);
          env = mint_envelope (tk_envelope t) can_delegate depth (tk_expires_at t)
      in case bk_keys bk of
           Some keys \<Rightarrow> mint_root_for cr ce (tk_id t) (ma_name agent) initiated_by env (tk_id t) keys bk
         | None \<Rightarrow>
             (case tb_issuer (bk_tokens bk) of
                Some issuer \<Rightarrow>
                  finish_jwt (tk_id t)
                    (sign_ctte (pr_ed_sign cr) (ce_now ce) (ce_rnd ce)
                       (Some (task_token_claims (ma_name agent) t (tk_envelope t))) issuer) bk
              | None \<Rightarrow> (Inl NoMintingBackend, drop_task (tk_id t) bk)))"

definition tool_task_create ::
    "primitives \<Rightarrow> call_env \<Rightarrow> mcp_agent \<Rightarrow> tool_args \<Rightarrow> 'k broker \<Rightarrow> (tool_error + issued_task) \<times> 'k broker"
  where
  "tool_task_create cr ce agent args bk =
     (if \<not> task_identity_enabled (ce_now ce) bk then (Inl IdentityUnavailable, bk) else
     (case required_arg args ''description'' of Inl e \<Rightarrow> (Inl e, bk) | Inr description \<Rightarrow>
     (case ttl_arg args ''30m'' of Inl e \<Rightarrow> (Inl e, bk) | Inr ttl \<Rightarrow>
      if ttl > hour then (Inl TtlTooLong, bk)
      else if ttl \<le> 0 then (Inl TtlNotPositive, bk)
      else
        let envelope = create_envelope agent bk;
            can_delegate = get_bool_arg args ''can_delegate'' False
        in
     (case decode_holder_pub_key args of Inl e \<Rightarrow> (Inl e, bk) | Inr holder \<Rightarrow>
        let initiated_by = ''ephyr:apikey:ak_'' @ take 6 (ma_name agent);
            (t, tm) = create_task (ce_now ce) (ce_ulid ce)
              \<lparr>cp_agent_name = ma_name agent, cp_description = description, cp_ttl = ttl,
               cp_initiated_by = initiated_by, cp_envelope = envelope, cp_can_delegate = can_delegate,
               cp_holder_pub_key = holder\<rparr> (bk_tasks bk);
            bk = bk\<lparr>bk_tasks := tm\<rparr>
        in
         (case mint_for_new cr ce agent t can_delegate initiated_by bk of
            (Inl e, bk) \<Rightarrow> (Inl e, bk)
          | (Inr tok, bk) \<Rightarrow> (Inr (issued_for ce t tok ttl can_delegate), bk))))))"

text \<open>With a token, a child's envelope is first cut down to what the token itself permits.\<close>

definition delegate_envelope :: "mcp_agent \<Rightarrow> envelope option \<Rightarrow> envelope option" where
  "delegate_envelope agent requested =
     (case (requested, ma_task_claims agent) of
        (Some e, Some claims) \<Rightarrow> Some (intersect_envelopes e (cl_envelope claims))
      | _ \<Rightarrow> requested)"

text \<open>
  The ways of \<open>toolTaskDelegate\<close> to a token: caveats on the presented macaroon, a root
  macaroon under the root task's identifier, a token of the issuer, or none.
\<close>

definition mint_for_child ::
    "primitives \<Rightarrow> call_env \<Rightarrow> mcp_agent \<Rightarrow> task \<Rightarrow> bool \<Rightarrow> 'k broker \<Rightarrow>
     (tool_error + string \<times> string) \<times> 'k broker" where
  "mint_for_child cr ce agent child can_delegate bk =
     (let depth = (if can_delegate then max 0 (default_max_child_depth - tk_depth child) else 0);
          env = mint_envelope (tk_envelope child) can_delegate depth (tk_expires_at child)
      in case (bk_keys bk, ma_raw_macaroon agent) of
           (Some keys, Some mac) \<Rightarrow>
             (case mint_delegated (pr_hmac cr) (ce_tz ce) mac env of
                Inl e \<Rightarrow> (Inl (MintFailed e), drop_task (tk_id child) bk)
              | Inr child_mac \<Rightarrow> finish_macaroon cr (tk_id child) child_mac bk)
         | (Some keys, None) \<Rightarrow>
             mint_root_for cr ce (tk_root_id child) (ma_name agent) (tk_initiated_by child) env
               (tk_id child) keys bk
         | (None, _) \<Rightarrow>
             (case tb_issuer (bk_tokens bk) of
                Some issuer \<Rightarrow>
                  finish_jwt (tk_id child)
                    (sign_cttd (pr_ed_sign cr) (ce_now ce) (ce_rnd ce)
                       (Some (task_token_claims (ma_name agent) child (tk_envelope child))) issuer) bk
              | None \<Rightarrow> (Inl NoMintingBackend, drop_task (tk_id child) bk)))"

definition tool_task_delegate ::
    "primitives \<Rightarrow> call_env \<Rightarrow> mcp_agent \<Rightarrow> tool_args \<Rightarrow> 'k broker \<Rightarrow> (tool_error + issued_task) \<times> 'k broker"
  where
  "tool_task_delegate cr ce agent args bk =
     (if \<not> task_identity_enabled (ce_now ce) bk then (Inl IdentityUnavailable, bk) else
     (case required_arg args ''parent_task_id'' of Inl e \<Rightarrow> (Inl e, bk) | Inr parent_id \<Rightarrow>
     (case required_arg args ''description'' of Inl e \<Rightarrow> (Inl e, bk) | Inr description \<Rightarrow>
     (case ttl_arg args ''10m'' of Inl e \<Rightarrow> (Inl e, bk) | Inr ttl \<Rightarrow>
      if ttl \<le> 0 then (Inl TtlNotPositive, bk) else
     (case parse_envelope_arg args ''envelope'' of Inl e \<Rightarrow> (Inl e, bk) | Inr requested \<Rightarrow>
        let can_delegate = get_bool_arg args ''can_delegate'' False in
        if has_task_identity agent \<and> parent_id \<noteq> agent_task_id agent then (Inl OnlyOwnTask, bk)
        else
     (case create_child_task (ce_now ce) (ce_ulid ce)
             \<lparr>cc_parent_id = parent_id, cc_agent_name = ma_name agent, cc_description = description,
              cc_ttl = ttl, cc_envelope = delegate_envelope agent requested, cc_can_delegate = can_delegate\<rparr>
             (bk_tasks bk) of
        (Inl e, _) \<Rightarrow> (Inl (DelegationFailed e), bk)
      | (Inr child, tm) \<Rightarrow>
        let bk = bk\<lparr>bk_tasks := tm\<rparr>
        in
         (case mint_for_child cr ce agent child can_delegate bk of
            (Inl e, bk) \<Rightarrow> (Inl e, bk)
          | (Inr tok, bk) \<Rightarrow> (Inr (issued_for ce child tok ttl can_delegate), bk))))))))"

record task_info =
  tf_task :: task
  tf_remaining :: string
  tf_is_revoked :: bool
  tf_holder_bound :: bool
  tf_bind_deadline :: "string option"

definition tool_task_info ::
    "call_env \<Rightarrow> mcp_agent \<Rightarrow> tool_args \<Rightarrow> 'k broker \<Rightarrow> tool_error + (task_info + task list)" where
  "tool_task_info ce agent args bk =
     (if \<not> task_identity_enabled (ce_now ce) bk then Inl IdentityUnavailable
      else
        let tid = (case get_string_arg args ''task_id'' of None \<Rightarrow> [] | Some s \<Rightarrow> s) in
        if tid \<noteq> [] then
         (case get_task (ce_now ce) (bk_tasks bk) tid of
            None \<Rightarrow> Inl TaskMissing
          | Some t \<Rightarrow>
              if tk_agent_name t \<noteq> ma_name agent then Inl TaskOfOtherAgent
              else Inr (Inl
                \<lparr>tf_task = t, tf_remaining = format_duration (round_second (tk_expires_at t - ce_now ce)),
                 tf_is_revoked = is_revoked (bk_revocation bk) (tk_id t), tf_holder_bound = tk_holder_bound t,
                 tf_bind_deadline = (if tk_bind_deadline t \<noteq> 0
                   then Some (format_rfc3339 (ce_tz ce) (tk_bind_deadline t)) else None)\<rparr>))
        else Inr (Inr (list_tasks_by_agent (ce_now ce) (bk_tasks bk) (ma_name agent))))"

text \<open>One turn of the cascade: a child below the revoked task is revoked and removed.\<close>

definition revoke_child :: "time \<Rightarrow> string \<Rightarrow> task \<Rightarrow> nat \<times> 'k broker \<Rightarrow> nat \<times> 'k broker" where
  "revoke_child now tid child = (\<lambda>(n, bk).
     if tk_id child \<noteq> tid \<and> list_ex (\<lambda>a. a = tid) (tk_lineage child)
     then (n + 1, drop_task (tk_id child)
                    (bk\<lparr>bk_revocation := revoke now (tk_id child) (bk_revocation bk)\<rparr>))
     else (n, bk))"

definition tool_task_revoke ::
    "call_env \<Rightarrow> mcp_agent \<Rightarrow> tool_args \<Rightarrow> 'k broker \<Rightarrow> (tool_error + string \<times> nat) \<times> 'k broker" where
  "tool_task_revoke ce agent args bk =
     (if \<not> task_identity_enabled (ce_now ce) bk then (Inl IdentityUnavailable, bk) else
     (case required_arg args ''task_id'' of Inl e \<Rightarrow> (Inl e, bk) | Inr tid \<Rightarrow>
     (case get_task (ce_now ce) (bk_tasks bk) tid of
        None \<Rightarrow> (Inl TaskMissing, bk)
      | Some t \<Rightarrow>
          if tk_agent_name t \<noteq> ma_name agent then (Inl TaskOfOtherAgent, bk)
          else if has_task_identity agent \<and> tid \<noteq> agent_task_id agent \<and>
                  \<not> is_ancestor (agent_task_id agent) (tk_lineage t)
          then (Inl OnlyOwnOrDescendants, bk)
          else
            let bk = bk\<lparr>bk_revocation := revoke (ce_now ce) tid (bk_revocation bk)\<rparr>;
                bk = (if tid = tk_root_id t
                      then bk\<lparr>bk_keys := map_option (root_delete (tk_root_id t)) (bk_keys bk)\<rparr> else bk);
                children = get_task_tree (ce_now ce) (bk_tasks bk) (tk_root_id t);
                (n, bk) = fold (revoke_child (ce_now ce) tid) children (0, bk)
            in (Inr (tid, n), drop_task tid bk))))"

definition tool_task_bind ::
    "call_env \<Rightarrow> mcp_agent \<Rightarrow> tool_args \<Rightarrow> 'k broker \<Rightarrow> (tool_error + string) \<times> 'k broker" where
  "tool_task_bind ce agent args bk =
     (case required_arg args ''task_id'' of Inl e \<Rightarrow> (Inl e, bk) | Inr tid \<Rightarrow>
     (case decode_holder_pub_key args of Inl e \<Rightarrow> (Inl e, bk) | Inr key \<Rightarrow>
      if key = [] then (Inl (ArgRequired ''holder_pub_key''), bk)
      else
     (case get_task (ce_now ce) (bk_tasks bk) tid of
        None \<Rightarrow> (Inl TaskMissing, bk)
      | Some t \<Rightarrow>
          if tk_agent_name t \<noteq> ma_name agent then (Inl TaskOfOtherAgent, bk)
          else
         (case bind_holder_key (ce_now ce) tid key (bk_tasks bk) of
            (Some e, tm) \<Rightarrow> (Inl (BindFailed e), bk\<lparr>bk_tasks := tm\<rparr>)
          | (None, tm) \<Rightarrow> (Inr tid, bk\<lparr>bk_tasks := tm\<rparr>)))))"

record task_summary =
  ts_id :: string
  ts_description :: string
  ts_created_at :: string
  ts_expires_at :: string
  ts_remaining :: string
  ts_is_revoked :: bool

definition tool_task_list ::
    "call_env \<Rightarrow> mcp_agent \<Rightarrow> 'k broker \<Rightarrow> tool_error + task_summary list" where
  "tool_task_list ce agent bk =
     (if \<not> task_identity_enabled (ce_now ce) bk then Inl IdentityUnavailable
      else
        let tasks = list_tasks_by_agent (ce_now ce) (bk_tasks bk) (ma_name agent);
            tasks = (if has_task_identity agent then filter_to_subtree tasks (agent_task_id agent) else tasks)
        in Inr (map (\<lambda>t.
             \<lparr>ts_id = tk_id t, ts_description = tk_description t,
              ts_created_at = format_rfc3339 (ce_tz ce) (tk_created_at t),
              ts_expires_at = format_rfc3339 (ce_tz ce) (tk_expires_at t),
              ts_remaining = format_duration (round_second (tk_expires_at t - ce_now ce)),
              ts_is_revoked = is_revoked (bk_revocation bk) (tk_id t)\<rparr>) tasks))"

end
