(* ===== verification/TaskSafety.thy ===== *)
theory TaskSafety
  imports TaskTools
begin

text \<open>
  What the task tools guarantee together: revocation through \<open>task_revoke\<close> locks out a whole
  subtree, delegation through \<open>task_delegate\<close> cannot exceed parent or token, and the gate before
  every tool call enforces the holder binding.
\<close>

section \<open>A sample broker\<close>

text \<open>A broker with the sample tree of tasks, and library functions that are easy to compute.\<close>

definition sample_prims :: primitives where
  "sample_prims =
     \<lparr>pr_hmac = (\<lambda>k x. take 32 (rev x @ k @ replicate 32 (CHR ''z''))), pr_sha256 = (\<lambda>_. ''d''),
      pr_ed_sign = (\<lambda>k m. k @ m), pr_ed_verify = (\<lambda>_ _ _. True), pr_bcrypt = (=), pr_marshal = (\<lambda>_. [])\<rparr>"

definition sample_broker :: "unit broker" where
  "sample_broker =
     \<lparr>bk_policy = sample_resolved, bk_tasks = sample_tree, bk_revocation = new_revocation_map (30 * minute),
      bk_keys = Some [(''R'', \<lparr>rk_key = ''k'', rk_created_at = 10, rk_max_expiry = 1010\<rparr>)],
      bk_tokens = no_backend, bk_auth = new_mcp_authenticator, bk_nonces = new_nonce_cache (5 * minute),
      bk_pop_skew = 30 * second\<rparr>"

definition sample_env :: call_env where
  "sample_env = \<lparr>ce_now = 30, ce_tz = 0, ce_ulid = ''N'', ce_key = Some ''q'', ce_rnd = []\<rparr>"

definition sample_agent :: mcp_agent where
  "sample_agent = \<lparr>ma_name = ''claude'', ma_roles = [], ma_max_concurrent = 0, ma_auto_approve = True,
     ma_perms = None, ma_task_claims = None, ma_raw_macaroon = None\<rparr>"

lemma sample_revoke:
  "fst (tool_task_revoke sample_env sample_agent [(''task_id'', JStr ''R'')] sample_broker) = Inr (''R'', 1)"
  "fst (tool_task_revoke sample_env sample_agent [(''task_id'', JStr ''C'')] sample_broker) = Inr (''C'', 0)"
  by code_simp+

definition sample_mac :: macaroon where
  "sample_mac = add_caveat (pr_hmac sample_prims) ''target IN [db]''
     (new_macaroon (pr_hmac sample_prims) broker_location ''R'' ''k'')"

section \<open>Revocation\<close>

lemma get_task_active: "get_task now tm i = Some t \<longleftrightarrow> get (tm_tasks tm) i = Some t \<and> now \<le> tk_expires_at t"
  by (auto simp: get_task_def split: option.splits)

lemma lookup_active:
  "lookup_by_signature now tm d = Some t \<longleftrightarrow> (\<exists>i. get (tm_sig_index tm) d = Some i \<and> get_task now tm i = Some t)"
  by (auto simp: lookup_by_signature_def get_task_def split: option.splits)

lemma revoke_task_lookups:
  "get (tm_tasks (snd (revoke_task i tm))) j = (if j = i then None else get (tm_tasks tm) j)"
  "get (tm_sig_index (snd (revoke_task i tm))) d = Some j \<Longrightarrow> get (tm_sig_index tm) d = Some j"
  by (auto simp: revoke_task_def remove_task_def split: option.splits if_splits)

definition below_task :: "string \<Rightarrow> task \<Rightarrow> bool" where
  "below_task tid t \<longleftrightarrow> tk_id t \<noteq> tid \<and> tid \<in> set (tk_lineage t)"

lemma revoke_child_eq:
  "revoke_child now tid c (n, bk) =
     (if below_task tid c
      then (n + 1, drop_task (tk_id c) (bk\<lparr>bk_revocation := revoke now (tk_id c) (bk_revocation bk)\<rparr>))
      else (n, bk))"
  by (auto simp: revoke_child_def below_task_def list_ex_iff)

text \<open>What a run of the cascade changes.\<close>

lemma cascade:
  assumes "fold (revoke_child now tid) cs (n, bk) = (m, bk')"
  shows "bk_keys bk' = bk_keys bk" "bk_tokens bk' = bk_tokens bk"
    and "get (tm_tasks (bk_tasks bk')) i =
      (if \<exists>c \<in> set cs. below_task tid c \<and> tk_id c = i then None else get (tm_tasks (bk_tasks bk)) i)"
    and "get (tm_sig_index (bk_tasks bk')) d = Some j \<Longrightarrow> get (tm_sig_index (bk_tasks bk)) d = Some j"
    and "get (rv_watermarks (bk_revocation bk')) i =
      (if \<exists>c \<in> set cs. below_task tid c \<and> tk_id c = i then Some now else get (rv_watermarks (bk_revocation bk)) i)"
    and "m = n + length (filter (below_task tid) cs)"
proof -
  have "bk_keys bk' = bk_keys bk \<and> bk_tokens bk' = bk_tokens bk \<and>
    (\<forall>i. get (tm_tasks (bk_tasks bk')) i =
      (if \<exists>c \<in> set cs. below_task tid c \<and> tk_id c = i then None else get (tm_tasks (bk_tasks bk)) i)) \<and>
    (\<forall>d j. get (tm_sig_index (bk_tasks bk')) d = Some j \<longrightarrow> get (tm_sig_index (bk_tasks bk)) d = Some j) \<and>
    (\<forall>i. get (rv_watermarks (bk_revocation bk')) i =
      (if \<exists>c \<in> set cs. below_task tid c \<and> tk_id c = i then Some now else get (rv_watermarks (bk_revocation bk)) i)) \<and>
    m = n + length (filter (below_task tid) cs)"
    using assms
  proof (induction cs arbitrary: n bk)
    case (Cons c cs)
    show ?case
    proof (cases "below_task tid c")
      case False
      then have "fold (revoke_child now tid) cs (n, bk) = (m, bk')" using Cons.prems by (simp add: revoke_child_eq)
      from Cons.IH [OF this] False show ?thesis by auto
    next
      case True
      let ?bk = "drop_task (tk_id c) (bk\<lparr>bk_revocation := revoke now (tk_id c) (bk_revocation bk)\<rparr>)"
      have "fold (revoke_child now tid) cs (n + 1, ?bk) = (m, bk')" using Cons.prems True by (simp add: revoke_child_eq)
      from Cons.IH [OF this] True show ?thesis
        by (auto simp: drop_task_def revoke_def revoke_at_def revoke_task_lookups(1)
            intro: revoke_task_lookups(2))
    qed
  qed simp
  then show "bk_keys bk' = bk_keys bk" "bk_tokens bk' = bk_tokens bk"
    and "get (tm_tasks (bk_tasks bk')) i =
      (if \<exists>c \<in> set cs. below_task tid c \<and> tk_id c = i then None else get (tm_tasks (bk_tasks bk)) i)"
    and "get (tm_sig_index (bk_tasks bk')) d = Some j \<Longrightarrow> get (tm_sig_index (bk_tasks bk)) d = Some j"
    and "get (rv_watermarks (bk_revocation bk')) i =
      (if \<exists>c \<in> set cs. below_task tid c \<and> tk_id c = i then Some now else get (rv_watermarks (bk_revocation bk)) i)"
    and "m = n + length (filter (below_task tid) cs)"
    by blast+
qed

lemma task_tree:
  assumes "map_wf (tm_tasks tm)"
  shows "t \<in> set (get_task_tree now tm root) \<longleftrightarrow>
    (\<exists>i. get (tm_tasks tm) i = Some t \<and> now < tk_expires_at t \<and> tk_root_id t = root)"
  by (force simp: get_task_tree_def active_tasks_def get_in_set [OF assms])

lemma root_in_lineage:
  assumes "manager_ok tm" "get (tm_tasks tm) i = Some t" "get (tm_tasks tm) j = Some a" "j \<in> set (tk_lineage t)"
  shows "tk_root_id t = tk_root_id a"
  using assms by (auto simp: manager_ok_def tasks_ok_def below_def)

lemma revoke_success:
  assumes "tool_task_revoke ce agent args bk = (Inr (tid, n), bk')"
  obtains t m bk1 where "get_task (ce_now ce) (bk_tasks bk) tid = Some t" "tk_agent_name t = ma_name agent"
    "has_task_identity agent \<longrightarrow> tid = agent_task_id agent \<or> agent_task_id agent \<in> set (tk_lineage t)"
    "fold (revoke_child (ce_now ce) tid) (get_task_tree (ce_now ce) (bk_tasks bk) (tk_root_id t))
       (0, bk\<lparr>bk_revocation := revoke (ce_now ce) tid (bk_revocation bk),
              bk_keys := (if tid = tk_root_id t then map_option (root_delete (tk_root_id t)) (bk_keys bk)
                          else bk_keys bk)\<rparr>) = (n, bk1)"
    "bk' = drop_task tid bk1"
proof -
  have enabled: "task_identity_enabled (ce_now ce) bk"
    using assms by (simp add: tool_task_revoke_def split: if_splits)
  obtain tid0 where arg: "required_arg args ''task_id'' = Inr tid0"
    using assms enabled by (cases "required_arg args ''task_id''") (simp_all add: tool_task_revoke_def)
  obtain t where t: "get_task (ce_now ce) (bk_tasks bk) tid0 = Some t"
    using assms enabled arg by (cases "get_task (ce_now ce) (bk_tasks bk) tid0") (simp_all add: tool_task_revoke_def)
  have owner: "tk_agent_name t = ma_name agent"
    using assms enabled arg t by (simp add: tool_task_revoke_def split: if_splits)
  have own: "\<not> (has_task_identity agent \<and> tid0 \<noteq> agent_task_id agent \<and> \<not> is_ancestor (agent_task_id agent) (tk_lineage t))"
    using assms enabled arg t owner by (auto simp: tool_task_revoke_def split: if_splits)
  let ?bk0 = "bk\<lparr>bk_revocation := revoke (ce_now ce) tid0 (bk_revocation bk),
              bk_keys := (if tid0 = tk_root_id t then map_option (root_delete (tk_root_id t)) (bk_keys bk)
                          else bk_keys bk)\<rparr>"
  obtain m bk1 where run: "fold (revoke_child (ce_now ce) tid0) (get_task_tree (ce_now ce) (bk_tasks bk) (tk_root_id t))
       (0, ?bk0) = (m, bk1)" by force
  have "tool_task_revoke ce agent args bk = (Inr (tid0, m), drop_task tid0 bk1)"
  proof (cases "tid0 = tk_root_id t")
    case True
    with enabled owner run show ?thesis
      unfolding tool_task_revoke_def arg t sum.case option.case if_not_P [OF own] Let_def by simp
  next
    case False
    with enabled owner run show ?thesis
      unfolding tool_task_revoke_def arg t sum.case option.case if_not_P [OF own] Let_def by simp
  qed
  with assms have "tid0 = tid" "m = n" "bk' = drop_task tid bk1" by auto
  moreover have "has_task_identity agent \<longrightarrow> tid0 = agent_task_id agent \<or> agent_task_id agent \<in> set (tk_lineage t)"
    using own by (auto simp: is_ancestor_def list_ex_iff)
  ultimately show thesis using t owner run that by blast
qed

lemma macaroon_login:
  assumes "authenticate_with_macaroon cr now tok bk = Inr ag"
  obtains keys data mac res t where "bk_keys bk = Some keys" "b64_decode tok = Some data"
    "unmarshal_binary data = Inr mac" "verifier_verify (pr_hmac cr) (pr_sha256 cr) now keys mac = Inr res"
    "token_task now (vr_sig_digest res) (m_id mac) (bk_tasks bk) = Some t"
    "\<forall>i \<in> set (tk_lineage t). \<not> is_revoked (bk_revocation bk) i" "ag = macaroon_agent mac res t"
  using assms
  by (auto simp: authenticate_with_macaroon_def find_None_iff split: option.splits sum.splits)

lemma ctte_login:
  assumes "authenticate_with_ctte cr now tok bk = Inr (Some ag)"
  obtains claims t where "ma_task_claims ag = Some claims" "ma_raw_macaroon ag = None"
    "check_lineage (bk_revocation bk) (ti_lineage (cl_task claims)) (cl_issued_at claims) = None"
    "get_task now (bk_tasks bk) (ti_id (cl_task claims)) = Some t"
  using assms
  by (auto simp: authenticate_with_ctte_def split: option.splits sum.splits if_splits)

text \<open>
  Claim C6. Revoking a task through the tool locks out its whole subtree: every active task
  of the subtree is removed and every other active task stays; from then on no macaroon
  authenticates as a task of the subtree and no token issued up to the revocation does; the
  answer counts the active proper descendants. The root key goes exactly with the root task.
\<close>

theorem revoked_subtree_locked_out:
  assumes "reachable (bk_tasks bk)" and "tool_task_revoke ce agent args bk = (Inr (tid, n), bk')"
  shows "(\<forall>i t. get (tm_tasks (bk_tasks bk)) i = Some t \<longrightarrow> ce_now ce < tk_expires_at t \<longrightarrow>
        get (tm_tasks (bk_tasks bk')) i = (if tid \<in> set (tk_lineage t) then None else Some t)) \<and>
    (\<forall>cr later tok ag. authenticate_with_macaroon cr later tok bk' = Inr ag \<longrightarrow>
        (\<exists>c. ma_task_claims ag = Some c \<and> tid \<notin> set (ti_lineage (cl_task c)))) \<and>
    (\<forall>cr later tok ag. authenticate_with_ctte cr later tok bk' = Inr (Some ag) \<longrightarrow>
        (\<exists>c. ma_task_claims ag = Some c \<and>
           (tid \<in> set (ti_lineage (cl_task c)) \<longrightarrow> ce_now ce < cl_issued_at c))) \<and>
    n = card {i. \<exists>t. get (tm_tasks (bk_tasks bk)) i = Some t \<and> ce_now ce < tk_expires_at t \<and>
                     i \<noteq> tid \<and> tid \<in> set (tk_lineage t)} \<and>
    (\<forall>root. map_option (\<lambda>ks. root_get ks root) (bk_keys bk') =
        (if root = tid \<and> (\<exists>t. get (tm_tasks (bk_tasks bk)) tid = Some t \<and> tk_root_id t = tid)
         then map_option (\<lambda>_. None) (bk_keys bk) else map_option (\<lambda>ks. root_get ks root) (bk_keys bk)))"
proof -
  note ok = reachable_ok [OF assms(1)]
  note wf = reachable_wf [OF assms(1)]
  from revoke_success [OF assms(2)] obtain t bk1 where
    t: "get_task (ce_now ce) (bk_tasks bk) tid = Some t" and
    run: "fold (revoke_child (ce_now ce) tid) (get_task_tree (ce_now ce) (bk_tasks bk) (tk_root_id t))
       (0, bk\<lparr>bk_revocation := revoke (ce_now ce) tid (bk_revocation bk),
              bk_keys := (if tid = tk_root_id t then map_option (root_delete (tk_root_id t)) (bk_keys bk)
                          else bk_keys bk)\<rparr>) = (n, bk1)" and bk': "bk' = drop_task tid bk1"
    by metis
  note c = cascade [OF run]
  from t have t': "get (tm_tasks (bk_tasks bk)) tid = Some t" by (simp add: get_task_active)
  have ident: "tk_id x = i" if "get (tm_tasks (bk_tasks bk)) i = Some x" for i x
    using ok that by (simp add: manager_ok_def tasks_ok_def)
  have doomed: "(\<exists>x \<in> set (get_task_tree (ce_now ce) (bk_tasks bk) (tk_root_id t)). below_task tid x \<and> tk_id x = i) \<longleftrightarrow>
      (\<exists>x. get (tm_tasks (bk_tasks bk)) i = Some x \<and> ce_now ce < tk_expires_at x \<and> i \<noteq> tid \<and> tid \<in> set (tk_lineage x))" for i
  proof
    assume "\<exists>x \<in> set (get_task_tree (ce_now ce) (bk_tasks bk) (tk_root_id t)). below_task tid x \<and> tk_id x = i"
    then show "\<exists>x. get (tm_tasks (bk_tasks bk)) i = Some x \<and> ce_now ce < tk_expires_at x \<and> i \<noteq> tid \<and>
        tid \<in> set (tk_lineage x)"
      using ident by (auto simp: task_tree [OF wf] below_task_def)
  next
    assume "\<exists>x. get (tm_tasks (bk_tasks bk)) i = Some x \<and> ce_now ce < tk_expires_at x \<and> i \<noteq> tid \<and>
        tid \<in> set (tk_lineage x)"
    then obtain x where x: "get (tm_tasks (bk_tasks bk)) i = Some x" "ce_now ce < tk_expires_at x" "i \<noteq> tid"
      "tid \<in> set (tk_lineage x)" by blast
    with root_in_lineage [OF ok x(1) t' x(4)]
    have "x \<in> set (get_task_tree (ce_now ce) (bk_tasks bk) (tk_root_id t))" by (auto simp: task_tree [OF wf])
    with x ident [OF x(1)] show "\<exists>x \<in> set (get_task_tree (ce_now ce) (bk_tasks bk) (tk_root_id t)).
        below_task tid x \<and> tk_id x = i" by (auto simp: below_task_def)
  qed
  have self: "tid \<in> set (tk_lineage t)"
    using ok t' unfolding manager_ok_def tasks_ok_def task_ok_def by (metis last_in_set)
  have tasks: "get (tm_tasks (bk_tasks bk')) i = (if tid \<in> set (tk_lineage x) then None else Some x)"
    if x: "get (tm_tasks (bk_tasks bk)) i = Some x" "ce_now ce < tk_expires_at x" for i x
    using x self t' by (auto simp: bk' drop_task_def revoke_task_lookups(1) c(3) doomed)
  have marked: "get (rv_watermarks (bk_revocation bk')) tid = Some (ce_now ce)"
    by (simp add: bk' drop_task_def c(5) doomed revoke_def revoke_at_def)
  have mac: "\<exists>c. ma_task_claims ag = Some c \<and> tid \<notin> set (ti_lineage (cl_task c))"
    if "authenticate_with_macaroon cr later tok bk' = Inr ag" for cr later tok ag
    using that by (rule macaroon_login)
      (auto simp: macaroon_agent_def identity_of_def is_revoked_def marked)
  have jwt: "\<exists>c. ma_task_claims ag = Some c \<and> (tid \<in> set (ti_lineage (cl_task c)) \<longrightarrow> ce_now ce < cl_issued_at c)"
    if "authenticate_with_ctte cr later tok bk' = Inr (Some ag)" for cr later tok ag
    using that by (rule ctte_login) (auto simp: check_lineage_None marked)
  let ?tree = "filter (below_task tid) (get_task_tree (ce_now ce) (bk_tasks bk) (tk_root_id t))"
  have count: "n = card {i. \<exists>t. get (tm_tasks (bk_tasks bk)) i = Some t \<and> ce_now ce < tk_expires_at t \<and>
                     i \<noteq> tid \<and> tid \<in> set (tk_lineage t)}"
  proof -
    have "inj_on snd (set (tm_tasks (bk_tasks bk)))"
      by (auto simp: inj_on_def get_in_set [OF wf, symmetric] dest!: ident)
    then have "distinct (map snd (tm_tasks (bk_tasks bk)))"
      using wf by (simp add: map_wf_def distinct_map)
    then have "distinct ?tree" by (simp add: get_task_tree_def active_tasks_def)
    moreover have "inj_on tk_id (set ?tree)"
      using ident by (auto simp: inj_on_def task_tree [OF wf])
    ultimately have "n = card (tk_id ` set ?tree)"
      using c(6) by (simp only: card_image distinct_card add_0)
    moreover have "tk_id ` set ?tree = {i. \<exists>x \<in> set (get_task_tree (ce_now ce) (bk_tasks bk) (tk_root_id t)).
        below_task tid x \<and> tk_id x = i}" by auto
    ultimately show ?thesis by (simp only: doomed)
  qed
  have keys: "map_option (\<lambda>ks. root_get ks root) (bk_keys bk') =
        (if root = tid \<and> (\<exists>t. get (tm_tasks (bk_tasks bk)) tid = Some t \<and> tk_root_id t = tid)
         then map_option (\<lambda>_. None) (bk_keys bk) else map_option (\<lambda>ks. root_get ks root) (bk_keys bk))" for root
    using t' by (cases "bk_keys bk") (auto simp: bk' drop_task_def c(1) root_get_def root_delete_def)
  from tasks mac jwt count keys show ?thesis by blast
qed

theorem revoked_subtree_locked_out_witness:
  "\<exists>bk'. tool_task_revoke sample_env sample_agent [(''task_id'', JStr ''R'')] sample_broker = (Inr (''R'', 1), bk') \<and>
     get (tm_tasks (bk_tasks bk')) ''C'' = None"
proof -
  obtain bk' where r: "tool_task_revoke sample_env sample_agent [(''task_id'', JStr ''R'')] sample_broker =
      (Inr (''R'', 1), bk')"
    using sample_revoke(1) by (metis prod.collapse)
  have tree: "reachable (bk_tasks sample_broker)" "bk_tasks sample_broker = sample_tree"
    using sample_reachable by (simp_all add: sample_broker_def)
  have c: "ce_now sample_env < tk_expires_at (sample_task ''C'')" "''R'' \<in> set (tk_lineage (sample_task ''C''))"
    by code_simp+
  have "get (tm_tasks (bk_tasks sample_broker)) ''C'' = Some (sample_task ''C'')" using sample_gets(2) by (simp add: tree(2))
  from conjunct1 [OF revoked_subtree_locked_out [OF tree(1) r], rule_format, OF this c(1)] c(2)
  have "get (tm_tasks (bk_tasks bk')) ''C'' = None" by simp
  with r show ?thesis by blast
qed

lemma root_lineage:
  assumes "manager_ok tm" "get (tm_tasks tm) i = Some t" "tk_root_id t = i"
  shows "tk_lineage t = [i]"
proof -
  have ok: "tk_id t = i" "tk_lineage t \<noteq> []" "last (tk_lineage t) = tk_id t" "hd (tk_lineage t) = tk_root_id t"
    "distinct (tk_lineage t)"
    using assms unfolding manager_ok_def tasks_ok_def task_ok_def by blast+
  then obtain x xs where "tk_lineage t = x # xs" by (cases "tk_lineage t") auto
  with ok assms(3) show ?thesis by (cases xs rule: rev_cases) auto
qed

lemma macaroon_login_iff:
  assumes "bk_keys bk = Some keys" "b64_decode tok = Some data" "unmarshal_binary data = Inr mac"
    "verifier_verify (pr_hmac cr) (pr_sha256 cr) now keys mac = Inr res"
    "token_task now (vr_sig_digest res) (m_id mac) (bk_tasks bk) = Some t"
    "\<forall>i \<in> set (tk_lineage t). \<not> is_revoked (bk_revocation bk) i"
  shows "authenticate_with_macaroon cr now tok bk = Inr (macaroon_agent mac res t)"
proof -
  have "find (is_revoked (bk_revocation bk)) (tk_lineage t) = None" using assms(6) by (simp add: find_None_iff)
  with assms show ?thesis by (simp add: authenticate_with_macaroon_def)
qed

text \<open>
  Claim C38. Revoking a delegated task does not invalidate its token: when the token's
  macaroon is in the tree of a root task that is itself active and not revoked, the token that
  authenticated as the delegated task before the revocation authenticates as the root task
  after it, with the same envelope as before. (The digest of the token is gone with the task, and the
  lookup falls back to the identifier of the macaroon, which names the root.)
\<close>

theorem revoked_child_speaks_for_root:
  assumes "reachable (bk_tasks bk)"
    and login: "authenticate_with_macaroon cr now tok bk = Inr ag" "ma_task_claims ag = Some c"
      "ma_raw_macaroon ag = Some mac"
    and child: "ti_id (cl_task c) = tid" "ti_root_id (cl_task c) = m_id mac" "tid \<noteq> m_id mac"
    and root: "get_task now (bk_tasks bk) (m_id mac) = Some root" "tk_root_id root = m_id mac"
      "ce_now ce < tk_expires_at root" "\<not> is_revoked (bk_revocation bk) (m_id mac)"
    and revoked: "tool_task_revoke ce agent args bk = (Inr (tid, n), bk')"
  shows "\<exists>ag' c'. authenticate_with_macaroon cr now tok bk' = Inr ag' \<and> ma_task_claims ag' = Some c' \<and>
    ti_id (cl_task c') = m_id mac \<and> cl_envelope c' = cl_envelope c"
proof -
  note ok = reachable_ok [OF assms(1)]
  note wf = reachable_wf [OF assms(1)]
  from macaroon_login [OF login(1)] obtain keys data mac0 res t where
    m: "bk_keys bk = Some keys" "b64_decode tok = Some data" "unmarshal_binary data = Inr mac0"
      "verifier_verify (pr_hmac cr) (pr_sha256 cr) now keys mac0 = Inr res"
      "token_task now (vr_sig_digest res) (m_id mac0) (bk_tasks bk) = Some t" "ag = macaroon_agent mac0 res t"
    by metis
  with login(2,3) have mac0: "mac0 = mac" and c: "cl_task c = identity_of t"
    "cl_envelope c = envelope_of (vr_envelope res)" by (auto simp: macaroon_agent_def)
  have tid: "tk_id t = tid" "tk_root_id t = m_id mac" using child c by (simp_all add: identity_of_def)
  have ident: "tk_id x = i" if "get (tm_tasks (bk_tasks bk)) i = Some x" for i x
    using ok that by (simp add: manager_ok_def tasks_ok_def)
  have look: "lookup_by_signature now (bk_tasks bk) (vr_sig_digest res) = Some t"
  proof (rule ccontr)
    assume "lookup_by_signature now (bk_tasks bk) (vr_sig_digest res) \<noteq> Some t"
    then have "get_task now (bk_tasks bk) (m_id mac) = Some t"
      using m(5) by (auto simp: token_task_def mac0 split: option.splits)
    then show False using ident tid(1) child(3) by (auto simp: get_task_active)
  qed
  then obtain i where "get (tm_sig_index (bk_tasks bk)) (vr_sig_digest res) = Some i" "get_task now (bk_tasks bk) i = Some t"
    by (auto simp: lookup_active)
  then have i: "get (tm_sig_index (bk_tasks bk)) (vr_sig_digest res) = Some tid"
    using ident tid(1) by (auto simp: get_task_active)
  from revoke_success [OF revoked] obtain t' bk1 where
    t': "get_task (ce_now ce) (bk_tasks bk) tid = Some t'" and
    run: "fold (revoke_child (ce_now ce) tid) (get_task_tree (ce_now ce) (bk_tasks bk) (tk_root_id t'))
       (0, bk\<lparr>bk_revocation := revoke (ce_now ce) tid (bk_revocation bk),
              bk_keys := (if tid = tk_root_id t' then map_option (root_delete (tk_root_id t')) (bk_keys bk)
                          else bk_keys bk)\<rparr>) = (n, bk1)" and bk': "bk' = drop_task tid bk1"
    by metis
  note cas = cascade [OF run]
  have "t' = t" using t' look i by (auto simp: get_task_active lookup_active)
  then have keys: "bk_keys bk' = Some keys"
    using tid(2) child(3) m(1) by (simp add: bk' drop_task_def cas(1))
  have rl: "tk_lineage root = [m_id mac]" and rid: "tk_id root = m_id mac"
    using root_lineage [OF ok _ root(2)] ident root(1) by (auto simp: get_task_active)
  have spared: "\<not> (\<exists>x \<in> set (get_task_tree (ce_now ce) (bk_tasks bk) (tk_root_id t')). below_task tid x \<and> tk_id x = m_id mac)"
  proof
    assume "\<exists>x \<in> set (get_task_tree (ce_now ce) (bk_tasks bk) (tk_root_id t')). below_task tid x \<and> tk_id x = m_id mac"
    then obtain x where x: "get (tm_tasks (bk_tasks bk)) (tk_id x) = Some x" "tid \<in> set (tk_lineage x)" "tk_id x = m_id mac"
      using ident by (auto simp: task_tree [OF wf] below_task_def)
    then have "x = root" using root(1) by (simp add: get_task_active)
    with x(2) rl child(3) show False by simp
  qed
  have "get (tm_tasks (bk_tasks bk')) (m_id mac) = get (tm_tasks (bk_tasks bk)) (m_id mac)"
    using spared child(3) by (auto simp: bk' drop_task_def revoke_task_lookups(1) cas(3))
  then have root': "get_task now (bk_tasks bk') (m_id mac) = Some root" using root(1) by (simp add: get_task_active)
  have "lookup_by_signature now (bk_tasks bk') (vr_sig_digest res) = None"
  proof (cases "get (tm_sig_index (bk_tasks bk')) (vr_sig_digest res)")
    case (Some j)
    have "get (tm_sig_index (bk_tasks bk1)) (vr_sig_digest res) = Some j"
      by (rule revoke_task_lookups(2) [of tid]) (use Some in \<open>simp add: bk' drop_task_def\<close>)
    from cas(4) [OF this] i have "j = tid" by simp
    with Some show ?thesis
      by (simp add: lookup_by_signature_def bk' drop_task_def revoke_task_lookups(1))
  qed (simp add: lookup_by_signature_def)
  then have tok: "token_task now (vr_sig_digest res) (m_id mac0) (bk_tasks bk') = Some root"
    by (simp add: token_task_def mac0 root')
  have "\<not> is_revoked (bk_revocation bk') (m_id mac)"
    using root(4) spared child(3) by (simp add: is_revoked_def bk' drop_task_def cas(5) revoke_def revoke_at_def)
  then have "authenticate_with_macaroon cr now tok bk' = Inr (macaroon_agent mac0 res root)"
    using macaroon_login_iff [OF keys m(2,3,4) tok] rl by simp
  then show ?thesis using rid c(2) by (simp add: macaroon_agent_def identity_of_def)
qed

text \<open>The sample child with a macaroon whose digest is registered for it.\<close>

definition child_broker :: "unit broker" where
  "child_broker = sample_broker\<lparr>bk_tasks := register_signature ''64'' ''C'' sample_tree\<rparr>"

lemma child_login:
  "marshal_size sample_mac \<le> max_token_size" "length (m_signature sample_mac) = 32" "m_id sample_mac = ''R''"
  "(case bk_keys child_broker of None \<Rightarrow> False
    | Some ks \<Rightarrow> (case verifier_verify (pr_hmac sample_prims) (pr_sha256 sample_prims) 40 ks sample_mac of
        Inl _ \<Rightarrow> False | Inr r \<Rightarrow> vr_sig_digest r = ''64''))"
  "token_task 40 ''64'' ''R'' (bk_tasks child_broker) = Some (sample_task ''C'')"
  "list_all (\<lambda>i. \<not> is_revoked (bk_revocation child_broker) i) (tk_lineage (sample_task ''C''))"
  "tk_id (sample_task ''C'') = ''C''" "tk_root_id (sample_task ''C'') = ''R''"
  "get_task 40 (bk_tasks child_broker) ''R'' = Some (sample_task ''R'')" "tk_root_id (sample_task ''R'') = ''R''"
  "ce_now sample_env < tk_expires_at (sample_task ''R'')" "\<not> is_revoked (bk_revocation child_broker) ''R''"
  "fst (tool_task_revoke sample_env sample_agent [(''task_id'', JStr ''C'')] child_broker) = Inr (''C'', 0)"
  by code_simp+

theorem revoked_child_speaks_for_root_witness:
  "\<exists>tok bk' ag c. tool_task_revoke sample_env sample_agent [(''task_id'', JStr ''C'')] child_broker = (Inr (''C'', 0), bk') \<and>
     authenticate_with_macaroon sample_prims 40 tok bk' = Inr ag \<and> ma_task_claims ag = Some c \<and>
     ti_id (cl_task c) = ''R''"
proof -
  obtain bk' where r: "tool_task_revoke sample_env sample_agent [(''task_id'', JStr ''C'')] child_broker =
      (Inr (''C'', 0), bk')"
    using child_login(13) by (metis prod.collapse)
  obtain data where data: "marshal_binary sample_mac = Inr data"
    using child_login(1) by (auto simp: marshal_binary_def)
  obtain ks res where v: "bk_keys child_broker = Some ks" "vr_sig_digest res = ''64''"
    "verifier_verify (pr_hmac sample_prims) (pr_sha256 sample_prims) 40 ks sample_mac = Inr res"
    using child_login(4) by (auto split: option.splits sum.splits)
  have login: "authenticate_with_macaroon sample_prims 40 (b64_encode data) child_broker =
      Inr (macaroon_agent sample_mac res (sample_task ''C''))"
    using macaroon_login_iff [OF v(1) b64_round_trip unmarshal_marshal [OF data child_login(2)] v(3)]
      child_login(3,5,6) v(2) by (simp add: list_all_iff)
  have reach: "reachable (bk_tasks child_broker)"
    using rtranclp.rtrancl_into_rtrancl [OF sample_reachable Register] by (simp add: child_broker_def)
  obtain c where c: "ma_task_claims (macaroon_agent sample_mac res (sample_task ''C'')) = Some c"
    "ti_id (cl_task c) = ''C''" "ti_root_id (cl_task c) = ''R''"
    by (simp add: macaroon_agent_def identity_of_def child_login(7,8))
  have "\<exists>ag' c'. authenticate_with_macaroon sample_prims 40 (b64_encode data) bk' = Inr ag' \<and>
      ma_task_claims ag' = Some c' \<and> ti_id (cl_task c') = m_id sample_mac \<and> cl_envelope c' = cl_envelope c"
    by (rule revoked_child_speaks_for_root [OF reach login c(1), where mac = sample_mac and root = "sample_task ''R''"
          and tid = "''C''", OF _ _ _ _ _ _ _ _ r])
       (simp_all add: c child_login(3,9-12), simp add: macaroon_agent_def)
  with r child_login(3) show ?thesis by auto
qed

end
