(* ===== verification/TaskGate.thy ===== *)
theory TaskGate
  imports TaskSafety
begin

section \<open>The gate before a tool call\<close>

lemma pop_from_args_iff:
  "fst (verify_pop_from_args cr now agent key args bk) = None \<longleftrightarrow>
   (\<exists>raw pq mac_binary sig ts. get args ''_pop'' = Some raw \<and> read_struct proof_member raw no_proof = Some pq \<and>
      (case ma_raw_macaroon agent of None \<Rightarrow> mac_binary = [] | Some mac \<Rightarrow> marshal_binary mac = Inr mac_binary) \<and>
      length key = 32 \<and> b64_decode (pf_sig pq) = Some sig \<and> length sig = 64 \<and>
      pr_ed_verify cr key (canonicalize_payload (pf_payload pq)) sig \<and>
      pp_mac_digest (pf_payload pq) = hex_encode (pr_sha256 cr mac_binary) \<and>
      pp_body_hash (pf_payload pq) = hex_encode (pr_sha256 cr (pr_marshal cr (del ''_pop'' args))) \<and>
      get (nc_entries (bk_nonces bk)) (nonce_key (pp_task_id (pf_payload pq)) (pp_nonce (pf_payload pq))) = None \<and>
      parse_rfc3339 (pp_ts (pf_payload pq)) = Some ts \<and> \<bar>now - ts\<bar> \<le> bk_pop_skew bk)"
proof (cases "get args ''_pop''")
  case None
  then show ?thesis by (simp add: verify_pop_from_args_def)
next
  case raw: (Some raw)
  show ?thesis
  proof (cases "read_struct proof_member raw no_proof")
    case None
    with raw show ?thesis by (simp add: verify_pop_from_args_def)
  next
    case pf: (Some pq)
    let ?mac = "case ma_raw_macaroon agent of None \<Rightarrow> Inr [] | Some mac \<Rightarrow> marshal_binary mac"
    show ?thesis
    proof (cases ?mac)
      case (Inl e)
      then have "\<not> (case ma_raw_macaroon agent of None \<Rightarrow> b = [] | Some mac \<Rightarrow> marshal_binary mac = Inr b)" for b
        by (auto split: option.splits)
      with raw pf Inl show ?thesis by (simp add: verify_pop_from_args_def Let_def)
    next
      case (Inr b)
      then have b: "(case ma_raw_macaroon agent of None \<Rightarrow> b' = [] | Some mac \<Rightarrow> marshal_binary mac = Inr b') \<longleftrightarrow> b' = b" for b'
        by (auto split: option.splits)
      have "fst (verify_pop_from_args cr now agent key args bk) =
          map_option PopFailed (fst (verify_pop (pr_ed_verify cr) (pr_sha256 cr) now now (Some pq) key b
            (pr_marshal cr (del ''_pop'' args)) (bk_pop_skew bk) (Some (bk_nonces bk))))"
        using raw pf Inr by (simp add: verify_pop_from_args_def Let_def split: prod.split)
      then show ?thesis using raw pf unfolding b by (simp add: pop_accepts_iff abs_le_iff) force
    qed
  qed
qed

lemma pop_stores_nonce:
  assumes "verify_pop_from_args cr now agent key args bk = (None, bk')"
    and "get args ''_pop'' = Some raw" "read_struct proof_member raw no_proof = Some pq"
  shows "bk' = bk\<lparr>bk_nonces := bk_nonces bk'\<rparr>"
    and "get (nc_entries (bk_nonces bk')) (nonce_key (pp_task_id (pf_payload pq)) (pp_nonce (pf_payload pq))) = Some now"
proof -
  obtain b where "(case ma_raw_macaroon agent of None \<Rightarrow> Inr [] | Some mac \<Rightarrow> marshal_binary mac) = Inr b"
    using assms by (cases "case ma_raw_macaroon agent of None \<Rightarrow> Inr [] | Some mac \<Rightarrow> marshal_binary mac")
      (simp_all add: verify_pop_from_args_def Let_def)
  moreover obtain e cache where v: "verify_pop (pr_ed_verify cr) (pr_sha256 cr) now now (Some pq) key b
            (pr_marshal cr (del ''_pop'' args)) (bk_pop_skew bk) (Some (bk_nonces bk)) = (e, cache)" by force
  ultimately have e: "e = None" and bk': "bk' = bk\<lparr>bk_nonces := (case cache of None \<Rightarrow> bk_nonces bk | Some nc \<Rightarrow> nc)\<rparr>"
    using assms by (simp_all add: verify_pop_from_args_def Let_def)
  from bk' show "bk' = bk\<lparr>bk_nonces := bk_nonces bk'\<rparr>" by simp
  obtain nc where nc: "cache = Some nc"
    using v by (auto simp: verify_pop_def Let_def split: option.splits prod.splits if_splits)
  have "check_and_store now (pp_task_id (pf_payload pq)) (pp_nonce (pf_payload pq)) (bk_nonces bk) = (True, nc)"
    using v unfolding e nc verify_pop_accepts by blast
  then have "get (nc_entries nc) (nonce_key (pp_task_id (pf_payload pq)) (pp_nonce (pf_payload pq))) = Some now"
    by (auto simp: check_and_store_def Let_def split: option.splits)
  then show "get (nc_entries (bk_nonces bk')) (nonce_key (pp_task_id (pf_payload pq)) (pp_nonce (pf_payload pq))) = Some now"
    by (simp add: bk' nc)
qed


definition sample_proof :: json where
  "sample_proof = JObj [(''sig'', JStr (replicate 86 (CHR ''A''))),
     (''payload'', JObj [(''task_id'', JStr ''R''), (''body_hash'', JStr ''64''), (''mac_digest'', JStr ''64''),
        (''nonce'', JStr ''n''), (''ts'', JStr ''0001-01-01T00:00:00Z'')])]"

definition root_agent :: mcp_agent where
  "root_agent = sample_agent\<lparr>ma_task_claims := Some \<lparr>cl_issuer = [], cl_subject = ''claude'', cl_audience = [],
     cl_issued_at = 10, cl_expires_at = 1010, cl_token_id = [], cl_task = identity_of (sample_task ''R''),
     cl_envelope = tk_envelope (sample_task ''R'')\<rparr>\<rparr>"

lemma sample_gate:
  "fst (tools_call_gate sample_prims 30 root_agent ''exec'' [(''_pop'', sample_proof)] sample_broker) = None"
  "get_task 30 (bk_tasks sample_broker) (agent_task_id root_agent) = Some (sample_task ''R'')"
  "get_task 31 (bk_tasks sample_broker) (agent_task_id root_agent) = Some (sample_task ''R'')"
  "has_task_identity root_agent" "tk_holder_bound (sample_task ''R'')"
  by code_simp+


end
