(* ===== verification/TaskDelegate.thy ===== *)
theory TaskDelegate
  imports TaskSafety
begin

section \<open>Delegation\<close>

lemma reachable_step: "reachable tm \<Longrightarrow> task_step tm tm' \<Longrightarrow> reachable tm'"
  by (rule rtranclp.rtrancl_into_rtrancl)

lemma finish_cases:
  assumes "finish_macaroon cr tid mac bk = (r, bk')"
  shows "(\<exists>e. r = Inl e \<and> bk' = drop_task tid bk) \<or>
    (\<exists>mac_bytes d. marshal_binary mac = Inr mac_bytes \<and> d = sha256_hex cr (m_signature mac) \<and>
       r = Inr (''mac_'' @ b64_encode mac_bytes, ''macaroon'') \<and>
       bk' = bk\<lparr>bk_tasks := register_signature d tid (set_sig_digest tid d (bk_tasks bk))\<rparr>)"
  using assms by (auto simp: finish_macaroon_def Let_def split: sum.splits)

text \<open>How the state looks after minting a token for a task: unchanged, registered, or dropped again.\<close>

definition minted_state :: "string \<Rightarrow> bool \<Rightarrow> 'k broker \<Rightarrow> 'k broker \<Rightarrow> bool" where
  "minted_state tid good bk bk' \<longleftrightarrow>
     bk_revocation bk' = bk_revocation bk \<and> bk_tokens bk' = bk_tokens bk \<and>
     (if good then bk_tasks bk' = bk_tasks bk \<or>
        (\<exists>d. bk_tasks bk' = register_signature d tid (set_sig_digest tid d (bk_tasks bk)))
      else bk_tasks bk' = snd (revoke_task tid (bk_tasks bk)))"

lemma minted_finish:
  "finish_macaroon cr tid mac bk = (r, bk') \<Longrightarrow> minted_state tid (\<exists>tok. r = Inr tok) bk bk'"
  by (drule finish_cases) (auto simp: minted_state_def drop_task_def)

lemma minted_root_for:
  "mint_root_for cr ce root agent init env tid keys bk = (r, bk') \<Longrightarrow> minted_state tid (\<exists>tok. r = Inr tok) bk bk'"
  using minted_finish [of cr tid _ _ r bk']
  by (fastforce simp: mint_root_for_def minted_state_def drop_task_def split: prod.splits sum.splits)

lemma minted_jwt:
  "finish_jwt tid s bk = (r, bk') \<Longrightarrow> minted_state tid (\<exists>tok. r = Inr tok) bk bk'"
  by (auto simp: finish_jwt_def minted_state_def drop_task_def split: sum.splits)

lemma minted_none: "minted_state tid False bk (drop_task tid bk)"
  by (simp add: minted_state_def drop_task_def)

lemma minted_lookups:
  assumes "minted_state tid good bk bk'" "get (tm_tasks (bk_tasks bk)) tid = Some t"
  shows "get (tm_tasks (bk_tasks bk')) i =
    (if i = tid then (if good then get (tm_tasks (bk_tasks bk')) tid else None) else get (tm_tasks (bk_tasks bk)) i)"
    and "good \<Longrightarrow> \<exists>d. get (tm_tasks (bk_tasks bk')) tid = Some (t\<lparr>tk_sig_digest := d\<rparr>)"
proof -
  show "get (tm_tasks (bk_tasks bk')) i =
    (if i = tid then (if good then get (tm_tasks (bk_tasks bk')) tid else None) else get (tm_tasks (bk_tasks bk)) i)"
    using assms by (auto simp: minted_state_def register_signature_def set_sig_digest_def revoke_task_lookups(1)
        split: if_splits)
  have "\<exists>d. t = t\<lparr>tk_sig_digest := d\<rparr>" by (rule exI [of _ "tk_sig_digest t"]) simp
  then show "good \<Longrightarrow> \<exists>d. get (tm_tasks (bk_tasks bk')) tid = Some (t\<lparr>tk_sig_digest := d\<rparr>)"
    using assms by (auto simp: minted_state_def register_signature_def set_sig_digest_def)
qed

lemma minted_reachable:
  assumes "minted_state tid good bk bk'" "reachable (bk_tasks bk)"
  shows "reachable (bk_tasks bk')"
proof -
  have "reachable (register_signature d tid (set_sig_digest tid d (bk_tasks bk)))" for d
    by (rule reachable_step [OF reachable_step [OF assms(2) SetDigest] Register])
  moreover have "reachable (snd (revoke_task tid (bk_tasks bk)))" by (rule reachable_step [OF assms(2) Revoke])
  ultimately show ?thesis using assms by (auto simp: minted_state_def split: if_splits)
qed

lemma minted_child:
  assumes "mint_for_child cr ce agent child can_delegate bk = (r, bk')"
  shows "minted_state (tk_id child) (\<exists>tok. r = Inr tok) bk bk'"
  using assms unfolding mint_for_child_def Let_def
  by (auto split: option.splits sum.splits dest: minted_finish minted_root_for minted_jwt intro: minted_none)

lemma minted_new:
  assumes "mint_for_new cr ce agent t can_delegate init bk = (r, bk')"
  shows "minted_state (tk_id t) (\<exists>tok. r = Inr tok) bk bk'"
  using assms unfolding mint_for_new_def Let_def
  by (auto split: option.splits dest: minted_root_for minted_jwt intro: minted_none)

text \<open>A successful or failed delegation, reduced to the child and the state after minting.\<close>

lemma delegate_cases:
  assumes "tool_task_delegate cr ce agent args bk = (r, bk')"
  shows "(bk' = bk \<and> (\<exists>e. r = Inl e)) \<or>
    (\<exists>parent_id description ttl requested child tm.
       required_arg args ''parent_task_id'' = Inr parent_id \<and> parse_envelope_arg args ''envelope'' = Inr requested \<and>
       (has_task_identity agent \<longrightarrow> parent_id = agent_task_id agent) \<and>
       create_child_task (ce_now ce) (ce_ulid ce)
         \<lparr>cc_parent_id = parent_id, cc_agent_name = ma_name agent, cc_description = description,
          cc_ttl = ttl, cc_envelope = delegate_envelope agent requested,
          cc_can_delegate = get_bool_arg args ''can_delegate'' False\<rparr> (bk_tasks bk) = (Inr child, tm) \<and>
       minted_state (tk_id child) (\<exists>i. r = Inr i) (bk\<lparr>bk_tasks := tm\<rparr>) bk' \<and>
       (\<forall>i. r = Inr i \<longrightarrow> it_task_id i = tk_id child \<and> it_envelope i = tk_envelope child))"
proof (cases "task_identity_enabled (ce_now ce) bk")
  case False
  with assms show ?thesis by (auto simp: tool_task_delegate_def)
next
  case enabled: True
  note def = assms [unfolded tool_task_delegate_def if_not_P [OF not_not [THEN iffD2, OF enabled]]]
  show ?thesis
  proof (cases "required_arg args ''parent_task_id''")
    case (Inl e) with def show ?thesis by auto
  next
    case p: (Inr parent_id)
    note def = def [unfolded p sum.case]
    show ?thesis
    proof (cases "required_arg args ''description''")
      case (Inl e) with def show ?thesis by auto
    next
      case d: (Inr description)
      note def = def [unfolded d sum.case]
      show ?thesis
      proof (cases "ttl_arg args ''10m''")
        case (Inl e) with def show ?thesis by auto
      next
        case ttl: (Inr ttl)
        note def = def [unfolded ttl sum.case]
        show ?thesis
        proof (cases "ttl \<le> 0 \<or> (\<exists>e. parse_envelope_arg args ''envelope'' = Inl e) \<or>
            has_task_identity agent \<and> parent_id \<noteq> agent_task_id agent")
          case True
          with def show ?thesis by (auto simp: Let_def split: sum.splits if_splits)
        next
          case False
          then obtain requested where req: "parse_envelope_arg args ''envelope'' = Inr requested"
            by (cases "parse_envelope_arg args ''envelope''") auto
          from False have ok: "\<not> ttl \<le> 0" "\<not> (has_task_identity agent \<and> parent_id \<noteq> agent_task_id agent)" by auto
          note def = def [unfolded if_not_P [OF ok(1)] req sum.case Let_def if_not_P [OF ok(2)]]
          let ?params = "\<lparr>cc_parent_id = parent_id, cc_agent_name = ma_name agent, cc_description = description,
            cc_ttl = ttl, cc_envelope = delegate_envelope agent requested,
            cc_can_delegate = get_bool_arg args ''can_delegate'' False\<rparr>"
          obtain c tm where c: "create_child_task (ce_now ce) (ce_ulid ce) ?params (bk_tasks bk) = (c, tm)" by force
          show ?thesis
          proof (cases c)
            case (Inl e) with def c show ?thesis by auto
          next
            case (Inr child)
            note def = def [unfolded c Inr prod.case sum.case]
            obtain tok bk2 where mint: "mint_for_child cr ce agent child (get_bool_arg args ''can_delegate'' False)
                (bk\<lparr>bk_tasks := tm\<rparr>) = (tok, bk2)" by force
            note def = def [unfolded mint prod.case]
            have "minted_state (tk_id child) (\<exists>i. r = Inr i) (bk\<lparr>bk_tasks := tm\<rparr>) bk' \<and>
                (\<forall>i. r = Inr i \<longrightarrow> it_task_id i = tk_id child \<and> it_envelope i = tk_envelope child)"
              using def minted_child [OF mint] by (cases tok) (auto simp: issued_for_def)
            with p req ok(2) c Inr show ?thesis by blast
          qed
        qed
      qed
    qed
  qed
qed


definition sample_delegate_args :: tool_args where
  "sample_delegate_args = [(''parent_task_id'', JStr ''R''), (''description'', JStr ''d''), (''ttl'', JStr ''100ns''),
     (''envelope'', JObj [(''targets'', JArr [JStr ''db''])])]"
lemma mint_root_for_fits:
  assumes "45 + length root + length broker_location + sum_list (map (\<lambda>c. 4 + length c)
      ([''agent = '' @ agent, ''initiated_by = '' @ init] @ envelope_texts (ce_tz ce) env)) \<le> max_token_size"
    and "ce_key ce = Some key"
  shows "\<exists>tok bk'. mint_root_for cr ce root agent init env tid keys bk = (Inr tok, bk')"
proof -
  obtain mac ks where m: "mint_root (pr_hmac cr) (ce_tz ce) (ce_now ce) (Some key) root agent init env keys = (Inr mac, ks)"
    using mint_root_fits [OF assms(1)] by blast
  then have "check_size mac = None"
    by (auto simp: mint_root_def root_generate_def Let_def split: option.splits)
  then obtain b where "marshal_binary mac = Inr b" by (auto simp: check_size_def split: sum.splits)
  with m assms(2) show ?thesis by (auto simp: mint_root_for_def finish_macaroon_def Let_def)
qed

definition sample_delegate_child :: task where
  "sample_delegate_child = (case fst (create_child_task 30 ''N''
     \<lparr>cc_parent_id = ''R'', cc_agent_name = ''claude'', cc_description = ''d'', cc_ttl = 100,
      cc_envelope = Some \<lparr>te_targets = [''db''], te_roles = [], te_services = [], te_remotes = [], te_methods = []\<rparr>,
      cc_can_delegate = False\<rparr> sample_tree) of Inr t \<Rightarrow> t)"

lemma sample_delegate_parts:
  "required_arg sample_delegate_args ''parent_task_id'' = Inr ''R''"
  "required_arg sample_delegate_args ''description'' = Inr ''d''"
  "ttl_arg sample_delegate_args ''10m'' = Inr 100"
  "parse_envelope_arg sample_delegate_args ''envelope'' =
     Inr (Some \<lparr>te_targets = [''db''], te_roles = [], te_services = [], te_remotes = [], te_methods = []\<rparr>)"
  "get_bool_arg sample_delegate_args ''can_delegate'' False = False"
  "task_identity_enabled 30 sample_broker" "has_task_identity sample_agent = False"
  "envelope_texts 0 (mint_envelope (tk_envelope sample_delegate_child) False 0 (tk_expires_at sample_delegate_child)) =
    [''expires_before = 0001-01-01T00:00:00Z'', ''target IN [db]'', ''can_delegate = false'']"
  "tk_root_id sample_delegate_child = ''R''" "tk_initiated_by sample_delegate_child = ''ben''"
  "(case create_child_task 30 ''N''
     \<lparr>cc_parent_id = ''R'', cc_agent_name = ''claude'', cc_description = ''d'', cc_ttl = 100,
      cc_envelope = Some \<lparr>te_targets = [''db''], te_roles = [], te_services = [], te_remotes = [], te_methods = []\<rparr>,
      cc_can_delegate = False\<rparr> sample_tree of (Inl _, _) \<Rightarrow> False | (Inr _, _) \<Rightarrow> True)"
  by code_simp+

lemma sample_delegation:
  "\<exists>res bk'. tool_task_delegate sample_prims sample_env sample_agent sample_delegate_args sample_broker = (Inr res, bk')"
proof -
  have size: "45 + length ''R'' + length broker_location + sum_list (map (\<lambda>c. 4 + length c)
      ([''agent = '' @ ''claude'', ''initiated_by = '' @ ''ben''] @
        envelope_texts (ce_tz sample_env) (mint_envelope (tk_envelope sample_delegate_child) False 0
          (tk_expires_at sample_delegate_child)))) \<le> max_token_size"
    by (simp add: sample_delegate_parts(8) sample_env_def broker_location_def max_token_size_def)
  have env: "ce_now sample_env = 30" "ce_key sample_env = Some ''q''" "ce_ulid sample_env = ''N''" "ma_name sample_agent = ''claude''"
    "ma_raw_macaroon sample_agent = None" "ma_task_claims sample_agent = None" "bk_tasks sample_broker = sample_tree"
    by (simp_all add: sample_env_def sample_agent_def sample_broker_def)
  obtain ks where ks: "bk_keys sample_broker = Some ks" by (simp add: sample_broker_def)
  obtain tm where child: "create_child_task 30 ''N'' \<lparr>cc_parent_id = ''R'', cc_agent_name = ''claude'',
      cc_description = ''d'', cc_ttl = 100, cc_envelope = Some \<lparr>te_targets = [''db''], te_roles = [],
      te_services = [], te_remotes = [], te_methods = []\<rparr>, cc_can_delegate = False\<rparr> sample_tree =
      (Inr sample_delegate_child, tm)"
    using sample_delegate_parts(11) by (auto simp: sample_delegate_child_def split: sum.splits prod.splits)
  obtain tok bk' where "mint_for_child sample_prims sample_env sample_agent sample_delegate_child False
      (sample_broker\<lparr>bk_tasks := tm\<rparr>) = (Inr tok, bk')"
    using mint_root_for_fits [OF size env(2), of sample_prims "tk_id sample_delegate_child" ks "sample_broker\<lparr>bk_tasks := tm\<rparr>"]
      env ks by (auto simp: mint_for_child_def sample_delegate_parts)
  then show ?thesis
    using child by (simp add: tool_task_delegate_def sample_delegate_parts env delegate_envelope_def Let_def)
qed


end
