(* ===== verification/TaskCreate.thy ===== *)
theory TaskCreate
  imports TaskDelegate
begin

section \<open>Creation\<close>

lemma create_cases:
  assumes "tool_task_create cr ce agent args bk = (Inr res, bk')"
  obtains description ttl holder t tm tok bk2 where "0 < ttl" "ttl \<le> hour"
    "create_task (ce_now ce) (ce_ulid ce)
       \<lparr>cp_agent_name = ma_name agent, cp_description = description, cp_ttl = ttl,
        cp_initiated_by = ''ephyr:apikey:ak_'' @ take 6 (ma_name agent),
        cp_envelope = create_envelope agent bk, cp_can_delegate = get_bool_arg args ''can_delegate'' False,
        cp_holder_pub_key = holder\<rparr> (bk_tasks bk) = (t, tm)"
    "mint_for_new cr ce agent t (get_bool_arg args ''can_delegate'' False)
       (''ephyr:apikey:ak_'' @ take 6 (ma_name agent)) (bk\<lparr>bk_tasks := tm\<rparr>) = (Inr tok, bk')"
    "res = issued_for ce t tok ttl (get_bool_arg args ''can_delegate'' False)"
proof -
  have enabled: "task_identity_enabled (ce_now ce) bk"
    using assms by (simp add: tool_task_create_def split: if_splits)
  note def = assms [unfolded tool_task_create_def if_not_P [OF not_not [THEN iffD2, OF enabled]]]
  obtain description where d: "required_arg args ''description'' = Inr description"
    using def by (cases "required_arg args ''description''") auto
  note def = def [unfolded d sum.case]
  obtain ttl where ttl: "ttl_arg args ''30m'' = Inr ttl" using def by (cases "ttl_arg args ''30m''") auto
  note def = def [unfolded ttl sum.case]
  have bounds: "\<not> ttl > hour" "\<not> ttl \<le> 0" using def by (auto split: if_splits)
  note def = def [unfolded if_not_P [OF bounds(1)] if_not_P [OF bounds(2)] Let_def]
  obtain holder where holder: "decode_holder_pub_key args = Inr holder"
    using def by (cases "decode_holder_pub_key args") auto
  note def = def [unfolded holder sum.case]
  let ?params = "\<lparr>cp_agent_name = ma_name agent, cp_description = description, cp_ttl = ttl,
        cp_initiated_by = ''ephyr:apikey:ak_'' @ take 6 (ma_name agent),
        cp_envelope = create_envelope agent bk, cp_can_delegate = get_bool_arg args ''can_delegate'' False,
        cp_holder_pub_key = holder\<rparr>"
  obtain t tm where c: "create_task (ce_now ce) (ce_ulid ce) ?params (bk_tasks bk) = (t, tm)" by force
  note def = def [unfolded c prod.case]
  obtain tok bk2 where mint: "mint_for_new cr ce agent t (get_bool_arg args ''can_delegate'' False)
       (''ephyr:apikey:ak_'' @ take 6 (ma_name agent)) (bk\<lparr>bk_tasks := tm\<rparr>) = (tok, bk2)" by force
  note def = def [unfolded mint prod.case]
  obtain tk where "tok = Inr tk" using def by (cases tok) auto
  with def bounds c mint that [of ttl description holder t tm tk] show thesis by simp
qed

lemma mint_new_macaroon:
  assumes "mint_for_new cr ce agent t can_delegate init bk = (Inr tok, bk')" "bk_keys bk = Some keys"
  obtains mac ks mac_bytes where
    "mint_root (pr_hmac cr) (ce_tz ce) (ce_now ce) (ce_key ce) (tk_id t) (ma_name agent) init
       (mint_envelope (tk_envelope t) can_delegate (if can_delegate then default_max_child_depth else 0) (tk_expires_at t)) keys = (Inr mac, ks)"
    "marshal_binary mac = Inr mac_bytes" "tok = (''mac_'' @ b64_encode mac_bytes, ''macaroon'')"
    "bk' = bk\<lparr>bk_keys := Some ks,
       bk_tasks := register_signature (sha256_hex cr (m_signature mac)) (tk_id t)
         (set_sig_digest (tk_id t) (sha256_hex cr (m_signature mac)) (bk_tasks bk))\<rparr>"
  using assms
  by (auto simp: mint_for_new_def mint_root_for_def finish_macaroon_def Let_def
      split: prod.splits sum.splits)

lemma chain_length:
  "\<forall>k x. length (hmac k x) = 32 \<Longrightarrow> length (hmac_chain hmac key ident cs) = 32"
  by (induction cs rule: rev_induct) (simp_all add: hmac_chain_def)

lemma bearer_macaroon:
  "fst (authenticate_request cr now (''Bearer '' @ ''mac_'' @ tok) bk) = authenticate_with_macaroon cr now tok bk"
  by (simp add: authenticate_request_def Let_def)


definition sample_create_args :: tool_args where
  "sample_create_args = [(''description'', JStr ''d''), (''ttl'', JStr ''2s'')]"

definition sample_new_task :: task where
  "sample_new_task = fst (create_task 30 ''N''
     \<lparr>cp_agent_name = ''claude'', cp_description = ''d'', cp_ttl = 2000000000, cp_initiated_by = ''ephyr:apikey:ak_claude'',
      cp_envelope = create_envelope sample_agent sample_broker, cp_can_delegate = False, cp_holder_pub_key = []\<rparr> sample_tree)"

lemma sample_create_parts:
  "required_arg sample_create_args ''description'' = Inr ''d''"
  "ttl_arg sample_create_args ''30m'' = Inr 2000000000"
  "decode_holder_pub_key sample_create_args = Inr []"
  "get_bool_arg sample_create_args ''can_delegate'' False = False"
  "envelope_texts 0 (mint_envelope (tk_envelope sample_new_task) False 0 (tk_expires_at sample_new_task)) =
    [''expires_before = 0001-01-01T00:00:02Z'', ''target IN [web]'', ''role IN [read]'', ''service IN [git]'',
     ''method IN [GET]'', ''can_delegate = false'']"
  "tk_id sample_new_task = ''N''" "tk_envelope sample_new_task = create_envelope sample_agent sample_broker"
  "formattable 0 (30 + 2000000000)" "plain ''claude''"
  "(let e = create_envelope sample_agent sample_broker in
    list_all plain (te_targets e @ te_roles e @ te_services e @ te_remotes e @ te_methods e))"
  by code_simp+

lemma sample_creation:
  "\<exists>res bk'. tool_task_create sample_prims sample_env sample_agent sample_create_args sample_broker = (Inr res, bk') \<and>
     it_ttl res = 2000000000 \<and> it_envelope res = create_envelope sample_agent sample_broker"
proof -
  have size: "45 + length ''N'' + length broker_location + sum_list (map (\<lambda>c. 4 + length c)
      ([''agent = '' @ ''claude'', ''initiated_by = '' @ ''ephyr:apikey:ak_claude''] @
        envelope_texts (ce_tz sample_env) (mint_envelope (tk_envelope sample_new_task) False 0
          (tk_expires_at sample_new_task)))) \<le> max_token_size"
    by (simp add: sample_create_parts(5) sample_env_def broker_location_def max_token_size_def)
  have env: "ce_now sample_env = 30" "ce_key sample_env = Some ''q''" "ce_ulid sample_env = ''N''" "ma_name sample_agent = ''claude''"
    "bk_tasks sample_broker = sample_tree"
    by (simp_all add: sample_env_def sample_agent_def sample_broker_def)
  obtain ks where ks: "bk_keys sample_broker = Some ks" by (simp add: sample_broker_def)
  obtain tm where new: "create_task 30 ''N''
     \<lparr>cp_agent_name = ''claude'', cp_description = ''d'', cp_ttl = 2000000000, cp_initiated_by = ''ephyr:apikey:ak_claude'',
      cp_envelope = create_envelope sample_agent sample_broker, cp_can_delegate = False, cp_holder_pub_key = []\<rparr> sample_tree =
      (sample_new_task, tm)"
    unfolding sample_new_task_def by (metis prod.collapse)
  obtain tok bk' where "mint_for_new sample_prims sample_env sample_agent sample_new_task False ''ephyr:apikey:ak_claude''
      (sample_broker\<lparr>bk_tasks := tm\<rparr>) = (Inr tok, bk')"
    using mint_root_for_fits [OF size env(2), of sample_prims "''N''" ks "sample_broker\<lparr>bk_tasks := tm\<rparr>"] env ks
    by (auto simp: mint_for_new_def sample_create_parts)
  then show ?thesis
    using new
    by (simp add: tool_task_create_def sample_create_parts sample_delegate_parts env Let_def issued_for_def)
qed


end
