(* ===== verification/Sessions.thy ===== *)
theory Sessions
  imports Encoding GoTime
begin

text \<open>
  Component \<open>internal/auth\<close>: the session manager of \<open>session.go\<close> and the lookup of a user name in
  \<open>/etc/passwd\<close> of \<open>peercred.go\<close> (reading the peer's credentials is a system call and stays
  outside; the file's content is an argument). The invariant \<open>sessions_ok\<close> makes the two maps
  inverse to each other, so an agent has at most one valid token, its latest.
\<close>

section \<open>The session manager\<close>

record session =
  se_token :: string
  se_agent_name :: string
  se_uid :: int
  se_created_at :: time
  se_last_seen :: time

record session_manager =
  sm_by_token :: "(string, session) gomap"
  sm_by_agent :: "(string, string) gomap"

definition new_session_manager :: session_manager where
  "new_session_manager = \<lparr>sm_by_token = [], sm_by_agent = []\<rparr>"

text \<open>\<open>rnd\<close> is what \<open>rand.Read\<close> delivered, \<open>None\<close> when it failed.\<close>

definition generate_token :: "bytes option \<Rightarrow> string option" where
  "generate_token rnd = map_option hex_encode rnd"

definition create_session ::
    "time \<Rightarrow> bytes option \<Rightarrow> string \<Rightarrow> int \<Rightarrow> session_manager \<Rightarrow> string option \<times> session_manager" where
  "create_session now rnd agent uid sm =
     (case generate_token rnd of
        None \<Rightarrow> (None, sm)
      | Some tok \<Rightarrow>
          let by_token = (case get (sm_by_agent sm) agent of
                            Some old \<Rightarrow> del old (sm_by_token sm)
                          | None \<Rightarrow> sm_by_token sm);
              sess = \<lparr>se_token = tok, se_agent_name = agent, se_uid = uid, se_created_at = now,
                      se_last_seen = now\<rparr>
          in (Some tok, sm\<lparr>sm_by_token := put tok sess by_token,
                           sm_by_agent := put agent tok (sm_by_agent sm)\<rparr>))"

definition validate_session ::
    "time \<Rightarrow> string \<Rightarrow> session_manager \<Rightarrow> (string \<times> int) option \<times> session_manager" where
  "validate_session now tok sm =
     (case get (sm_by_token sm) tok of
        None \<Rightarrow> (None, sm)
      | Some sess \<Rightarrow>
          (Some (se_agent_name sess, se_uid sess),
           sm\<lparr>sm_by_token := put tok (sess\<lparr>se_last_seen := now\<rparr>) (sm_by_token sm)\<rparr>))"

definition invalidate_session :: "string \<Rightarrow> session_manager \<Rightarrow> session_manager" where
  "invalidate_session agent sm =
     (case get (sm_by_agent sm) agent of
        None \<Rightarrow> sm
      | Some tok \<Rightarrow> sm\<lparr>sm_by_token := del tok (sm_by_token sm), sm_by_agent := del agent (sm_by_agent sm)\<rparr>)"

definition active_sessions :: "session_manager \<Rightarrow> session list" where
  "active_sessions sm = map snd (sm_by_token sm)"

definition get_session_by_agent :: "string \<Rightarrow> session_manager \<Rightarrow> session option" where
  "get_session_by_agent agent sm =
     (case get (sm_by_agent sm) agent of None \<Rightarrow> None | Some tok \<Rightarrow> get (sm_by_token sm) tok)"

section \<open>User names\<close>

text \<open>
  \<open>matchPasswdLine\<close> scans for separators with an index that also visits the end of the line;
  \<open>field\<close> counts the fields, \<open>start\<close> is where the current one begins.
\<close>

function passwd_loop :: "string \<Rightarrow> string \<Rightarrow> nat \<Rightarrow> nat \<Rightarrow> nat \<Rightarrow> string \<Rightarrow> string option" where
  "passwd_loop line uid i field start username =
     (if i > length line then None
      else if i = length line \<or> line ! i = CHR '':'' then
        (if field = 0 then passwd_loop line uid (i + 1) (field + 1) (i + 1) (drop start (take i line))
         else if field = 2 then (if drop start (take i line) = uid then Some username else None)
         else passwd_loop line uid (i + 1) (field + 1) (i + 1) username)
      else passwd_loop line uid (i + 1) field start username)"
  by pat_completeness auto
termination by (relation "measure (\<lambda>(line, uid, i, _). Suc (length line) - i)") auto

declare passwd_loop.simps [simp del]

definition match_passwd_line :: "string \<Rightarrow> string \<Rightarrow> string option" where
  "match_passwd_line line uid = passwd_loop line uid 0 0 0 []"

text \<open>\<open>string(buf[i])\<close> turns a byte into the UTF-8 text of the code point of that number.\<close>

definition string_of_byte :: "char \<Rightarrow> string" where
  "string_of_byte c =
     (let n = (of_char c :: nat) in
      if n < 128 then [c] else [char_of (192 + n div 64), char_of (128 + n mod 64)])"

fun passwd_lines :: "string \<Rightarrow> string \<Rightarrow> string \<Rightarrow> string option" where
  "passwd_lines uid line [] = (if line \<noteq> [] then match_passwd_line line uid else None)"
| "passwd_lines uid line (c # buf) =
     (if c = CHR 0x0A then
        (case match_passwd_line line uid of
           Some username \<Rightarrow> Some username
         | None \<Rightarrow> passwd_lines uid [] buf)
      else passwd_lines uid (line @ string_of_byte c) buf)"

text \<open>\<open>content\<close> is the file, \<open>None\<close> when it cannot be opened.\<close>

definition user_lookup_id :: "string option \<Rightarrow> int \<Rightarrow> string option" where
  "user_lookup_id content uid =
     (case content of None \<Rightarrow> None | Some buf \<Rightarrow> passwd_lines (itoa uid) [] buf)"

definition resolve_username :: "string option \<Rightarrow> int \<Rightarrow> string" where
  "resolve_username content uid =
     (case user_lookup_id content uid of None \<Rightarrow> itoa uid | Some u \<Rightarrow> u)"

section \<open>The scan of a line is a split at colons\<close>

fun third_field :: "string list \<Rightarrow> string \<Rightarrow> string option" where
  "third_field (name # _ # ident # _) uid = (if ident = uid then Some name else None)"
| "third_field _ uid = None"

lemma split_on_piece:
  "CHR '':'' \<notin> set p \<Longrightarrow> split_on CHR '':'' (p @ CHR '':'' # r) = p # split_on CHR '':'' r"
  "CHR '':'' \<notin> set p \<Longrightarrow> split_on CHR '':'' p = [p]"
  by (induction p) auto

lemma passwd_loop_skip:
  assumes "CHR '':'' \<notin> set p" "start \<le> length a"
  shows "passwd_loop (a @ p @ r) uid (length a) f start u = passwd_loop (a @ p @ r) uid (length a + length p) f start u"
  using assms
proof (induction p arbitrary: a)
  case (Cons x p)
  have x: "x \<noteq> CHR '':''" using Cons.prems(1) by auto
  have "passwd_loop (a @ (x # p) @ r) uid (length a) f start u =
      passwd_loop ((a @ [x]) @ p @ r) uid (length (a @ [x])) f start u"
    using Cons.prems(2) x by (subst passwd_loop.simps) (simp add: nth_append)
  also have "\<dots> = passwd_loop ((a @ [x]) @ p @ r) uid (length (a @ [x]) + length p) f start u"
    using Cons.prems by (intro Cons.IH) auto
  finally show ?case by simp
qed simp

lemma passwd_loop_colon:
  assumes "CHR '':'' \<notin> set p"
  shows "passwd_loop (a @ p @ CHR '':'' # r) uid (length a) f (length a) u =
    (if f = 0 then passwd_loop (a @ p @ CHR '':'' # r) uid (length a + length p + 1) 1 (length a + length p + 1) p
     else if f = 2 then (if p = uid then Some u else None)
     else passwd_loop (a @ p @ CHR '':'' # r) uid (length a + length p + 1) (f + 1) (length a + length p + 1) u)"
proof -
  have "(a @ p @ CHR '':'' # r) ! (length a + length p) = CHR '':''"
    by (metis append.assoc length_append nth_append_length)
  then show ?thesis
    using assms by (subst passwd_loop_skip) (simp_all add: passwd_loop.simps [of _ _ "length a + length p"])
qed

lemma passwd_loop_last:
  assumes "CHR '':'' \<notin> set p"
  shows "passwd_loop (a @ p) uid (length a) f (length a) u = (if f = 2 \<and> p = uid then Some u else None)"
proof -
  have "passwd_loop (a @ p) uid (length a) f (length a) u = passwd_loop (a @ p) uid (length a + length p) f (length a) u"
    using passwd_loop_skip [of p "length a" a "[]"] assms by simp
  also have "\<dots> = (if f = 2 \<and> p = uid then Some u else None)"
    by (subst passwd_loop.simps) (simp add: passwd_loop.simps [of _ _ "Suc (length a + length p)"])
  finally show ?thesis .
qed

lemma colon_cases:
  obtains "CHR '':'' \<notin> set s" | p r where "CHR '':'' \<notin> set p" "s = p @ CHR '':'' # r"
  by (metis split_list_first)

lemma match_passwd_line_split: "match_passwd_line line uid = third_field (split_on CHR '':'' line) uid"
proof (cases line rule: colon_cases)
  case 1
  then show ?thesis
    using passwd_loop_last [of line "[]"] by (simp add: match_passwd_line_def split_on_piece)
next
  case (2 p r)
  have first: "match_passwd_line line uid = passwd_loop ((p @ '':'') @ r) uid (length (p @ '':'')) 1 (length (p @ '':'')) p"
    using passwd_loop_colon [of p "[]" r] 2 by (simp add: match_passwd_line_def)
  show ?thesis
  proof (cases r rule: colon_cases)
    case 1
    then show ?thesis
      using first passwd_loop_last [of r "p @ '':''"] 2 by (simp add: split_on_piece)
  next
    case (2 q t)
    have second: "match_passwd_line line uid =
        passwd_loop ((p @ '':'' @ q @ '':'') @ t) uid (length (p @ '':'' @ q @ '':'')) 2 (length (p @ '':'' @ q @ '':'')) p"
      using first passwd_loop_colon [of q "p @ '':''" t] 2 by (simp add: numeral_2_eq_2)
    show ?thesis
    proof (cases t rule: colon_cases)
      case 1
      then show ?thesis
        using second passwd_loop_last [of t "p @ '':'' @ q @ '':''"] 2 \<open>line = _\<close> \<open>CHR '':'' \<notin> set p\<close>
        by (simp add: split_on_piece)
    next
      case (2 w v)
      then show ?thesis
        using second passwd_loop_colon [of w "p @ '':'' @ q @ '':''" v] \<open>line = _\<close> \<open>r = _\<close>
          \<open>CHR '':'' \<notin> set p\<close> \<open>CHR '':'' \<notin> set q\<close>
        by (simp add: split_on_piece)
    qed
  qed
qed

lemma split_on_not_empty: "split_on c s \<noteq> []"
  by (induction s) (auto split: list.splits)

text \<open>The user name that is looked up is the first field of the first matching line.\<close>

lemma passwd_lines_text:
  assumes "\<forall>c \<in> set buf. (of_char c :: nat) < 128"
  shows "passwd_lines uid line buf =
    (case find (\<lambda>l. match_passwd_line l uid \<noteq> None)
       (filter (\<lambda>l. l \<noteq> []) (case split_on (CHR 0x0A) buf of [] \<Rightarrow> [] | p # ps \<Rightarrow> (line @ p) # ps)) of
       None \<Rightarrow> None | Some l \<Rightarrow> match_passwd_line l uid)"
  using assms
proof (induction uid line buf rule: passwd_lines.induct)
  case (2 uid line c buf)
  have nil: "match_passwd_line [] uid = None"
    by (simp add: match_passwd_line_split)
  obtain p ps where split: "split_on (CHR 0x0A) buf = p # ps"
    using split_on_not_empty by (metis list.exhaust)
  show ?case
    using 2 split nil by (auto simp: string_of_byte_def split: option.splits)
qed auto

section \<open>One token per agent\<close>

definition sessions_ok :: "session_manager \<Rightarrow> bool" where
  "sessions_ok sm \<longleftrightarrow> map_wf (sm_by_token sm) \<and> map_wf (sm_by_agent sm) \<and>
     (\<forall>agent tok. get (sm_by_agent sm) agent = Some tok \<longleftrightarrow>
        (\<exists>sess. get (sm_by_token sm) tok = Some sess \<and> se_agent_name sess = agent)) \<and>
     (\<forall>tok sess. get (sm_by_token sm) tok = Some sess \<longrightarrow> se_token sess = tok)"

text \<open>Every token is 32 random bytes: a new token is assumed not to be in use.\<close>

inductive session_step :: "session_manager \<Rightarrow> session_manager \<Rightarrow> bool" where
  create: "(\<And>tok. generate_token rnd = Some tok \<Longrightarrow> get (sm_by_token sm) tok = None) \<Longrightarrow>
    session_step sm (snd (create_session now rnd agent uid sm))"
| check: "session_step sm (snd (validate_session now tok sm))"
| invalidate: "session_step sm (invalidate_session agent sm)"

inductive_cases session_stepE: "session_step sm sm'"

lemma create_session_maps:
  assumes "generate_token rnd = Some tok"
  shows "fst (create_session now rnd agent uid sm) = Some tok"
    and "get (sm_by_token (snd (create_session now rnd agent uid sm))) t =
      (if t = tok then Some \<lparr>se_token = tok, se_agent_name = agent, se_uid = uid, se_created_at = now, se_last_seen = now\<rparr>
       else if get (sm_by_agent sm) agent = Some t then None else get (sm_by_token sm) t)"
    and "get (sm_by_agent (snd (create_session now rnd agent uid sm))) a =
      (if a = agent then Some tok else get (sm_by_agent sm) a)"
    and "map_wf (sm_by_token sm) \<Longrightarrow> map_wf (sm_by_token (snd (create_session now rnd agent uid sm)))"
    and "map_wf (sm_by_agent sm) \<Longrightarrow> map_wf (sm_by_agent (snd (create_session now rnd agent uid sm)))"
  using assms by (auto simp: create_session_def Let_def split: option.splits)

lemma sessions_ok_create:
  assumes ok: "sessions_ok sm" and fresh: "\<And>tok. generate_token rnd = Some tok \<Longrightarrow> get (sm_by_token sm) tok = None"
  shows "sessions_ok (snd (create_session now rnd agent uid sm))"
proof (cases "generate_token rnd")
  case None
  then show ?thesis using ok by (simp add: create_session_def)
next
  case (Some tok)
  with fresh have new: "get (sm_by_token sm) tok = None" by simp
  have entries: "get (sm_by_agent sm) a = Some t \<longleftrightarrow> (\<exists>s. get (sm_by_token sm) t = Some s \<and> se_agent_name s = a)" for a t
    using ok by (simp add: sessions_ok_def)
  with new have unused: "get (sm_by_agent sm) a \<noteq> Some tok" for a by auto
  show ?thesis
    unfolding sessions_ok_def create_session_maps(2,3) [OF Some]
  proof (intro conjI allI impI)
    fix a t
    show "((if a = agent then Some tok else get (sm_by_agent sm) a) = Some t) \<longleftrightarrow>
      (\<exists>s. (if t = tok then Some \<lparr>se_token = tok, se_agent_name = agent, se_uid = uid, se_created_at = now, se_last_seen = now\<rparr>
        else if get (sm_by_agent sm) agent = Some t then None else get (sm_by_token sm) t) = Some s \<and> se_agent_name s = a)"
      using entries [of a t] entries [of agent t] unused [of a] by auto
  qed (use ok create_session_maps(4,5) [OF Some] in \<open>auto simp: sessions_ok_def split: if_splits\<close>)
qed

lemma sessions_ok_check: "sessions_ok sm \<Longrightarrow> sessions_ok (snd (validate_session now tok sm))"
  unfolding sessions_ok_def validate_session_def by (auto split: option.splits if_splits)

lemma sessions_ok_invalidate:
  assumes ok: "sessions_ok sm"
  shows "sessions_ok (invalidate_session agent sm)"
proof (cases "get (sm_by_agent sm) agent")
  case None
  then show ?thesis using ok by (simp add: invalidate_session_def)
next
  case (Some tok)
  have entries: "get (sm_by_agent sm) a = Some t \<longleftrightarrow> (\<exists>s. get (sm_by_token sm) t = Some s \<and> se_agent_name s = a)" for a t
    using ok by (simp add: sessions_ok_def)
  have result: "invalidate_session agent sm =
      sm\<lparr>sm_by_token := del tok (sm_by_token sm), sm_by_agent := del agent (sm_by_agent sm)\<rparr>"
    using Some by (simp add: invalidate_session_def)
  show ?thesis
    unfolding sessions_ok_def result
  proof (intro conjI allI impI)
    fix a t
    show "get (sm_by_agent (sm\<lparr>sm_by_token := del tok (sm_by_token sm), sm_by_agent := del agent (sm_by_agent sm)\<rparr>)) a = Some t \<longleftrightarrow>
      (\<exists>s. get (sm_by_token (sm\<lparr>sm_by_token := del tok (sm_by_token sm), sm_by_agent := del agent (sm_by_agent sm)\<rparr>)) t = Some s \<and>
        se_agent_name s = a)"
      using entries [of a t] entries [of agent tok] Some by auto
  qed (use ok in \<open>auto simp: sessions_ok_def split: if_splits\<close>)
qed

lemma sessions_ok_step: "session_step sm sm' \<Longrightarrow> sessions_ok sm \<Longrightarrow> sessions_ok sm'"
  by (elim session_stepE) (simp_all add: sessions_ok_create sessions_ok_check sessions_ok_invalidate)

lemma sessions_ok_run:
  assumes "session_step\<^sup>*\<^sup>* new_session_manager sm"
  shows "sessions_ok sm"
  using assms
proof (induction rule: rtranclp_induct)
  case base
  show ?case by (simp add: sessions_ok_def new_session_manager_def)
qed (rule sessions_ok_step)

lemma validate_session_result:
  "fst (validate_session now tok sm) = map_option (\<lambda>s. (se_agent_name s, se_uid s)) (get (sm_by_token sm) tok)"
  by (simp add: validate_session_def split: option.splits)


definition one_session :: session_manager where
  "one_session = snd (create_session 5 (Some ''ab'') ''ops'' 1000 new_session_manager)"

lemma one_session_run: "session_step\<^sup>*\<^sup>* new_session_manager one_session"
  unfolding one_session_def
  by (rule r_into_rtranclp, rule session_step.create) (simp add: new_session_manager_def)


end
