(* ===== verification/CertState.thy ===== *)
theory CertState
  imports Sessions SignerService
begin

text \<open>
  Component \<open>internal/broker/state.go\<close>: the active certificates and the requests that wait for
  approval, with \<open>parseSerial\<close> of \<open>handler.go\<close>, which ties a certificate's text serial to the
  number under which the policy engine tracks it.
\<close>

section \<open>State and operations\<close>

record active_cert =
  av_serial :: string
  av_agent_name :: string
  av_agent_uid :: int
  av_target :: string
  av_role :: string
  av_principal :: string
  av_issued_at :: time
  av_expires_at :: time
  av_certificate :: string

record pending_request =
  pq_id :: string
  pq_agent_name :: string
  pq_agent_uid :: int
  pq_target :: string
  pq_role :: string
  pq_duration :: duration
  pq_requested_at :: time
  pq_public_key :: string

record cert_state =
  cs_certs :: "(string, active_cert) gomap"
  cs_pending :: "(string, pending_request) gomap"

definition new_cert_state :: cert_state where
  "new_cert_state = \<lparr>cs_certs = [], cs_pending = []\<rparr>"

definition add_cert :: "active_cert \<Rightarrow> cert_state \<Rightarrow> cert_state" where
  "add_cert cert cs = cs\<lparr>cs_certs := put (av_serial cert) cert (cs_certs cs)\<rparr>"

definition state_remove_cert :: "string \<Rightarrow> cert_state \<Rightarrow> bool \<times> cert_state" where
  "state_remove_cert serial cs =
     (case get (cs_certs cs) serial of
        None \<Rightarrow> (False, cs)
      | Some _ \<Rightarrow> (True, cs\<lparr>cs_certs := del serial (cs_certs cs)\<rparr>))"

definition get_cert :: "string \<Rightarrow> cert_state \<Rightarrow> active_cert option" where
  "get_cert serial cs = get (cs_certs cs) serial"

definition list_certs_for_agent :: "int \<Rightarrow> cert_state \<Rightarrow> active_cert list" where
  "list_certs_for_agent uid cs = filter (\<lambda>c. av_agent_uid c = uid) (map snd (cs_certs cs))"

definition list_all_certs :: "cert_state \<Rightarrow> active_cert list" where
  "list_all_certs cs = map snd (cs_certs cs)"

definition cert_grace :: duration where
  "cert_grace = 30 * second"

definition state_clean_expired :: "time \<Rightarrow> cert_state \<Rightarrow> nat \<times> cert_state" where
  "state_clean_expired now cs =
     (let stale = (\<lambda>c. av_expires_at c + cert_grace < now)
      in (length (filter (\<lambda>(_, c). stale c) (cs_certs cs)),
          cs\<lparr>cs_certs := drop_if (\<lambda>_ c. stale c) (cs_certs cs)\<rparr>))"

definition cert_count_for_agent :: "int \<Rightarrow> cert_state \<Rightarrow> nat" where
  "cert_count_for_agent uid cs = length (filter (\<lambda>c. av_agent_uid c = uid) (map snd (cs_certs cs)))"

text \<open>\<open>rnd\<close> are the 16 bytes that \<open>generateRequestID\<close> draws.\<close>

definition generate_request_id :: "bytes \<Rightarrow> string" where
  "generate_request_id rnd = hex_encode rnd"

definition add_pending :: "bytes \<Rightarrow> pending_request \<Rightarrow> cert_state \<Rightarrow> string \<times> cert_state" where
  "add_pending rnd req cs =
     (let req = (if pq_id req = [] then req\<lparr>pq_id := generate_request_id rnd\<rparr> else req)
      in (pq_id req, cs\<lparr>cs_pending := put (pq_id req) req (cs_pending cs)\<rparr>))"

definition get_pending :: "string \<Rightarrow> cert_state \<Rightarrow> pending_request option" where
  "get_pending rid cs = get (cs_pending cs) rid"

definition remove_pending :: "string \<Rightarrow> cert_state \<Rightarrow> bool \<times> cert_state" where
  "remove_pending rid cs =
     (case get (cs_pending cs) rid of
        None \<Rightarrow> (False, cs)
      | Some _ \<Rightarrow> (True, cs\<lparr>cs_pending := del rid (cs_pending cs)\<rparr>))"

definition list_pending :: "cert_state \<Rightarrow> pending_request list" where
  "list_pending cs = map snd (cs_pending cs)"

interpretation listed_certs: expiring_store "\<lambda>cs. map_wf (cs_certs cs)" "\<lambda>cs. get (cs_certs cs)"
  "\<lambda>now c. av_expires_at c + cert_grace < now" "\<lambda>now cs. snd (state_clean_expired now cs)"
  by unfold_locales (auto simp: state_clean_expired_def Let_def get_drop_if split: option.splits)

section \<open>Serial numbers\<close>

text \<open>
  \<open>fmt.Sscanf(s, "%x", &serial)\<close>: spaces before the number are skipped (a line break is an
  error), then come hexadecimal digits of either case. No digit, or a value that does not fit
  64 bits, leaves the zero.
\<close>

definition hex_char_value :: "char \<Rightarrow> nat option" where
  "hex_char_value c =
     (let n = (of_char c :: nat) in
      if 48 \<le> n \<and> n \<le> 57 then Some (n - 48)
      else if 65 \<le> n \<and> n \<le> 70 then Some (n - 55)
      else if 97 \<le> n \<and> n \<le> 102 then Some (n - 87)
      else None)"

definition hex_value :: "string \<Rightarrow> nat" where
  "hex_value s = foldl (\<lambda>n c. 16 * n + the (hex_char_value c)) 0 s"

definition parse_serial :: "string \<Rightarrow> nat" where
  "parse_serial s =
     (let ds = takeWhile (\<lambda>c. hex_char_value c \<noteq> None) (strip (filter (\<lambda>p. p \<noteq> [CHR 0x0A]) space_codes) s);
          n = hex_value ds
      in if ds = [] \<or> n \<ge> 2 ^ 64 then 0 else n)"

lemma hex_digit_value [simp]: "n < 16 \<Longrightarrow> hex_char_value (hex_digit n) = Some n"
  by (simp add: hex_char_value_def hex_digit_def Let_def)

lemma hex_value_snoc: "hex_value (s @ [c]) = 16 * hex_value s + the (hex_char_value c)"
  by (simp add: hex_value_def)

lemma hex_value_Cons: "hex_value (c # s) = the (hex_char_value c) * 16 ^ length s + hex_value s"
proof (induction s rule: rev_induct)
  case (snoc d s)
  show ?case
    unfolding hex_value_snoc append_Cons [symmetric] snoc by (simp add: algebra_simps)
qed (simp add: hex_value_def)

abbreviation nibble :: "64 word \<Rightarrow> nat \<Rightarrow> nat" where
  "nibble w i \<equiv> unat (drop_bit (4 * i) w AND 0xF)"

lemma nibble_eq: "nibble w i = unat w div 16 ^ i mod 16"
proof -
  have "unat w < 2 ^ LENGTH(64)" by (rule unsigned_less)
  then have fits: "unat w mod 18446744073709551616 = unat w" by simp
  have "(0xF :: 64 word) = mask 4" by (simp add: mask_eq_exp_minus_1)
  then have "drop_bit (4 * i) w AND 0xF = take_bit 4 (drop_bit (4 * i) w)"
    by (simp only: take_bit_eq_mask)
  then have "nibble w i = take_bit 4 (unat (drop_bit (4 * i) w))"
    by (simp only: unsigned_take_bit_eq)
  also have "\<dots> = take_bit 4 (drop_bit (4 * i) (unat w))"
    by (simp only: unsigned_drop_bit_eq) (simp add: take_bit_eq_mod fits)
  also have "\<dots> = unat w div 16 ^ i mod 16"
    by (simp add: take_bit_eq_mod drop_bit_eq_div power_mult)
  finally show ?thesis .
qed

lemma hex_value_nibbles: "hex_value (map (\<lambda>i. hex_digit (nibble w i)) (rev [0..<n])) = unat w mod 16 ^ n"
proof (induction n)
  case (Suc n)
  have "nibble w n < 16" by (simp add: nibble_eq)
  then have "hex_value (map (\<lambda>i. hex_digit (nibble w i)) (rev [0..<Suc n])) =
      nibble w n * 16 ^ n + unat w mod 16 ^ n"
    using Suc by (simp add: hex_value_Cons)
  also have "\<dots> = unat w mod (16 ^ n * 16)"
    by (simp add: nibble_eq mod_mult2_eq)
  finally show ?case by (simp add: mult.commute)
qed (simp add: hex_value_def)

lemma space_code_numbers:
  "c \<in> set (concat space_codes) \<Longrightarrow> (of_char c :: nat) < 48 \<or> 102 < (of_char c :: nat)"
  by (auto simp: space_codes_def)

lemma hex16_chars:
  assumes "c \<in> set (hex16 w)"
  shows "hex_char_value c \<noteq> None" "c \<notin> set (concat space_codes)"
proof -
  obtain i where c: "c = hex_digit (nibble w i)" using assms by (auto simp: hex16_def)
  have n: "nibble w i < 16" by (simp add: nibble_eq)
  then show "hex_char_value c \<noteq> None" using c by simp
  have "48 \<le> (of_char c :: nat) \<and> (of_char c :: nat) \<le> 102"
    using n unfolding c hex_digit_def by simp
  then show "c \<notin> set (concat space_codes)" using space_code_numbers [of c] by auto
qed

theorem parse_serial_hex16: "parse_serial (hex16 w) = unat w"
proof -
  have no_space: "find (\<lambda>p. p \<noteq> [] \<and> has_prefix p (hex16 w)) (filter (\<lambda>p. p \<noteq> [CHR 0x0A]) space_codes) = None"
  proof (unfold find_None_iff, intro notI, elim exE conjE)
    fix p
    assume p: "p \<in> set (filter (\<lambda>p. p \<noteq> [CHR 0x0A]) space_codes)" "p \<noteq> []" "has_prefix p (hex16 w)"
    then obtain c q t where c: "p = c # q" and t: "hex16 w = p @ t" unfolding has_prefix_iff by (metis list.exhaust)
    have "c \<in> set (hex16 w)" unfolding t c by simp
    moreover have "c \<in> set (concat space_codes)" using p(1) c by force
    ultimately
    show False using hex16_chars by blast
  qed
  have digits: "takeWhile (\<lambda>c. hex_char_value c \<noteq> None) (hex16 w) = hex16 w"
    using hex16_chars by (simp add: takeWhile_eq_all_conv del: not_None_eq)
  have "unat w < 2 ^ LENGTH(64)" by (rule unsigned_less)
  then have "hex_value (hex16 w) = unat w" "\<not> 2 ^ 64 \<le> unat w"
    unfolding hex16_def hex_value_nibbles by simp_all
  moreover have "hex16 w \<noteq> []" by (simp add: hex16_def)
  ultimately show ?thesis
    by (simp add: parse_serial_def Let_def strip.simps no_space digits del: not_None_eq)
qed

end
