(* ===== verification/CertBroker.thy ===== *)
theory CertBroker
  imports CertState Durations PolicyEngine HostControl Grants Delegation
begin

text \<open>
  Component \<open>internal/broker/handler.go\<close>: the certificate API on the broker's Unix socket. Every
  handler is one function on the part of the broker's state it touches. The request is given by
  the values the handler reads from it: the UID of the peer (\<open>None\<close> when the middleware set none),
  the two token headers, the path value and the decoded body (\<open>None\<close> when it does not decode).
  A handler reads its clock once. The signer is the function \<open>do_ipc\<close> behind the client. The audit
  log and the broadcasts are left out; the HTTP status follows from the constructor of the answer.
\<close>

section \<open>State and answers\<close>

record 'k cert_broker =
  cb_policy :: "'k resolved_config"
  cb_engine :: "'k policy_engine"
  cb_sessions :: session_manager
  cb_state :: cert_state
  cb_hosts :: host_states
  cb_grants :: "grant_store option"
  cb_admins :: "int list"
  cb_grant_count :: "64 word"
  cb_deny_count :: "64 word"

record cert_request =
  ct_target :: string
  ct_role :: string
  ct_duration :: string
  ct_public_key :: string

datatype sign_failure = PublicKeyMissing | SignerFailed client_error

datatype http_error =
    NoCaller
  | MissingToken
  | InvalidSession
  | UidMismatch
  | InvalidBody
  | TargetAndRoleRequired
  | BadDuration string
  | SigningFailed sign_failure
  | AdminRequired
  | RequestIdRequired
  | PendingNotFound
  | SerialRequired
  | CertNotFound
  | NotYourCertificate
  | UidNotRegistered int
  | NotRegisteredAs int string
  | SessionNotCreated
  | SessionNotFound
  | HostNameRequired
  | HostNotInPolicy string

datatype denial = HostAccessDisabled | PolicyDenied eval_reason | AdminDenied

record granted_cert =
  gc_certificate :: string
  gc_serial :: string
  gc_expires_at :: string
  gc_request_id :: string
  gc_principal :: string
  gc_host :: string
  gc_port :: int

datatype cert_answer =
    Failed http_error
  | Denied denial string
  | PendingApproval eval_reason string
  | Granted granted_cert

section \<open>Helpers\<close>

definition is_known_agent :: "string \<Rightarrow> int \<Rightarrow> 'k cert_broker \<Rightarrow> bool" where
  "is_known_agent name uid bs =
     (case get (cfg_agents (rc_raw (cb_policy bs))) name of
        None \<Rightarrow> False
      | Some agent \<Rightarrow> ap_uid agent = uid)"

definition is_admin :: "int \<Rightarrow> 'k cert_broker \<Rightarrow> bool" where
  "is_admin uid bs = list_ex (\<lambda>a. a = uid) (cb_admins bs)"

text \<open>\<open>passwd\<close> is the content of \<open>/etc/passwd\<close>.\<close>

definition resolve_agent_by_uid :: "string option \<Rightarrow> int \<Rightarrow> 'k cert_broker \<Rightarrow> string \<times> bool" where
  "resolve_agent_by_uid passwd uid bs =
     (case find_agent_by_uid (cfg_agents (rc_raw (cb_policy bs))) uid of
        Some (name, _) \<Rightarrow> (name, True)
      | None \<Rightarrow> (resolve_username passwd uid, False))"

definition parse_rfc3339_or_zero :: "string \<Rightarrow> time" where
  "parse_rfc3339_or_zero s = (case parse_rfc3339 s of None \<Rightarrow> 0 | Some t \<Rightarrow> t)"

definition strip_bearer :: "string \<Rightarrow> string" where
  "strip_bearer tok = (if length tok > 7 \<and> take 7 tok = ''Bearer '' then drop 7 tok else tok)"

text \<open>The token of a request: the \<open>Authorization\<close> header, else \<open>X-Session-Token\<close>.\<close>

definition session_token :: "string \<Rightarrow> string \<Rightarrow> string option" where
  "session_token authorization x_session =
     (let tok = (if authorization = [] then x_session else authorization)
      in if tok = [] then None else Some (strip_bearer tok))"

definition issue_cert ::
    "(sign_request \<Rightarrow> sign_response option) \<Rightarrow> string \<Rightarrow> string \<Rightarrow> string \<Rightarrow> string \<Rightarrow> duration \<Rightarrow> string \<Rightarrow>
     'k cert_broker \<Rightarrow> sign_failure + sign_response" where
  "issue_cert do_ipc agent target prin key dur role bs =
     (if key = [] then Inl PublicKeyMissing
      else
        let force = (case get (cfg_targets (rc_raw (cb_policy bs))) target of None \<Rightarrow> [] | Some t \<Rightarrow> tg_force_command t)
        in (case request_sign do_ipc (no_request\<lparr>rq_public_key := key, rq_principals := [prin],
                   rq_duration := format_duration dur, rq_key_id := agent @ ''@'' @ target @ ''/'' @ role,
                   rq_force_command := force\<rparr>) of
              Inl e \<Rightarrow> Inl (SignerFailed e)
            | Inr resp \<Rightarrow> Inr resp))"

text \<open>Host and port of a target for the answer.\<close>

definition target_address :: "string \<Rightarrow> 'k cert_broker \<Rightarrow> string \<times> int" where
  "target_address target bs =
     (case get (cfg_targets (rc_raw (cb_policy bs))) target of
        None \<Rightarrow> ([], 22)
      | Some t \<Rightarrow> (tg_host t, if tg_port t > 0 then tg_port t else 22))"

section \<open>Sessions\<close>

text \<open>\<open>name\<close> is the agent name of the body, empty when the body is absent or does not decode.\<close>

definition handle_create_session ::
    "time \<Rightarrow> bytes option \<Rightarrow> string option \<Rightarrow> int option \<Rightarrow> string \<Rightarrow> 'k cert_broker \<Rightarrow>
     (http_error + string \<times> string \<times> int) \<times> 'k cert_broker" where
  "handle_create_session now rnd passwd peer name bs =
     (case peer of
        None \<Rightarrow> (Inl NoCaller, bs)
      | Some uid \<Rightarrow>
         (case (if name = [] then
                  (case resolve_agent_by_uid passwd uid bs of (n, found) \<Rightarrow>
                     if found then Inr n else Inl (UidNotRegistered uid))
                else if \<not> is_known_agent name uid bs then Inl (NotRegisteredAs uid name)
                else Inr name) of
            Inl e \<Rightarrow> (Inl e, bs)
          | Inr agent \<Rightarrow>
             (case create_session now rnd agent uid (cb_sessions bs) of
                (None, sm) \<Rightarrow> (Inl SessionNotCreated, bs\<lparr>cb_sessions := sm\<rparr>)
              | (Some tok, sm) \<Rightarrow> (Inr (tok, agent, uid), bs\<lparr>cb_sessions := sm\<rparr>))))"

text \<open>
  \<open>whoami\<close>: here \<open>X-Session-Token\<close> comes first and is taken as it is. The answer holds the
  token, of which the text only shows both ends, and the session.
\<close>

definition handle_get_session ::
    "time \<Rightarrow> int option \<Rightarrow> string \<Rightarrow> string \<Rightarrow> 'k cert_broker \<Rightarrow> (http_error + string \<times> session) \<times> 'k cert_broker" where
  "handle_get_session now peer authorization x_session bs =
     (case peer of
        None \<Rightarrow> (Inl NoCaller, bs)
      | Some uid \<Rightarrow>
          let tok = (if x_session = [] then strip_bearer authorization else x_session) in
          if tok = [] then (Inl MissingToken, bs)
          else
           (case validate_session now tok (cb_sessions bs) of
              (None, sm) \<Rightarrow> (Inl InvalidSession, bs\<lparr>cb_sessions := sm\<rparr>)
            | (Some (agent, sess_uid), sm) \<Rightarrow>
                if sess_uid \<noteq> uid then (Inl InvalidSession, bs\<lparr>cb_sessions := sm\<rparr>)
                else (case get_session_by_agent agent sm of
                        None \<Rightarrow> (Inl SessionNotFound, bs\<lparr>cb_sessions := sm\<rparr>)
                      | Some sess \<Rightarrow> (Inr (tok, sess), bs\<lparr>cb_sessions := sm\<rparr>))))"

section \<open>The certificate pipeline\<close>

text \<open>
  What \<open>handleRequest\<close> and \<open>handleApprove\<close> do once the signer has answered: record the
  certificate in the state and, by its number, in the policy engine.
\<close>

definition record_cert ::
    "time \<Rightarrow> string \<Rightarrow> int \<Rightarrow> string \<Rightarrow> string \<Rightarrow> string \<Rightarrow> sign_response \<Rightarrow> 'k cert_broker \<Rightarrow> 'k cert_broker" where
  "record_cert now agent uid target role prin resp bs =
     (let expires = parse_rfc3339_or_zero (resp_expires_at resp);
          cert = \<lparr>av_serial = resp_serial resp, av_agent_name = agent, av_agent_uid = uid, av_target = target,
                  av_role = role, av_principal = prin, av_issued_at = now, av_expires_at = expires,
                  av_certificate = resp_certificate resp\<rparr>
      in bs\<lparr>cb_state := add_cert cert (cb_state bs),
            cb_engine := track_cert (parse_serial (resp_serial resp)) uid target role expires (cb_engine bs),
            cb_grant_count := cb_grant_count bs + 1\<rparr>)"

definition grant_answer :: "string \<Rightarrow> string \<Rightarrow> string \<Rightarrow> sign_response \<Rightarrow> 'k cert_broker \<Rightarrow> cert_answer" where
  "grant_answer request_id target prin resp bs =
     Granted \<lparr>gc_certificate = resp_certificate resp, gc_serial = resp_serial resp,
       gc_expires_at = resp_expires_at resp, gc_request_id = request_id, gc_principal = prin,
       gc_host = fst (target_address target bs), gc_port = snd (target_address target bs)\<rparr>"

text \<open>\<open>rnd\<close> and \<open>gid\<close> are the random bytes of a request id and a fresh grant id.\<close>

definition handle_request ::
    "(sign_request \<Rightarrow> sign_response option) \<Rightarrow> time \<Rightarrow> bytes \<Rightarrow> string \<Rightarrow> int option \<Rightarrow> string \<Rightarrow> string \<Rightarrow>
     cert_request option \<Rightarrow> 'k cert_broker \<Rightarrow> cert_answer \<times> 'k cert_broker" where
  "handle_request do_ipc now rnd gid peer authorization x_session body bs =
     (case peer of
        None \<Rightarrow> (Failed NoCaller, bs)
      | Some uid \<Rightarrow>
     (case session_token authorization x_session of
        None \<Rightarrow> (Failed MissingToken, bs)
      | Some tok \<Rightarrow>
     (case validate_session now tok (cb_sessions bs) of
        (None, sm) \<Rightarrow> (Failed InvalidSession, bs\<lparr>cb_sessions := sm\<rparr>)
      | (Some (agent, sess_uid), sm) \<Rightarrow>
        let bs = bs\<lparr>cb_sessions := sm\<rparr> in
        if sess_uid \<noteq> uid then (Failed UidMismatch, bs)
        else
     (case body of
        None \<Rightarrow> (Failed InvalidBody, bs)
      | Some req \<Rightarrow>
        if ct_target req = [] \<or> ct_role req = [] then (Failed TargetAndRoleRequired, bs)
        else if \<not> host_is_enabled (cb_hosts bs) (ct_target req) then
          (Denied HostAccessDisabled [], bs\<lparr>cb_deny_count := cb_deny_count bs + 1\<rparr>)
        else
     (case (if ct_duration req = [] then Some 0 else parse_duration (ct_duration req)) of
        None \<Rightarrow> (Failed (BadDuration (ct_duration req)), bs)
      | Some duration \<Rightarrow>
     (case evaluate now \<lparr>er_agent_uid = uid, er_target_name = ct_target req, er_role_name = ct_role req,
             er_duration = duration\<rparr> (cb_engine bs) of
        (res, engine) \<Rightarrow>
        let bs = bs\<lparr>cb_engine := engine\<rparr> in
       (case ev_decision res of
          Deny \<Rightarrow> (Denied (PolicyDenied (ev_reason res)) [], bs\<lparr>cb_deny_count := cb_deny_count bs + 1\<rparr>)
        | Pending \<Rightarrow>
           (case add_pending rnd
                  \<lparr>pq_id = [], pq_agent_name = agent, pq_agent_uid = uid, pq_target = ct_target req,
                   pq_role = ct_role req, pq_duration = ev_clamped_duration res, pq_requested_at = now,
                   pq_public_key = ct_public_key req\<rparr> (cb_state bs) of
              (rid, cs) \<Rightarrow> (PendingApproval (ev_reason res) rid, bs\<lparr>cb_state := cs\<rparr>))
        | Approve \<Rightarrow>
           (case issue_cert do_ipc agent (ct_target req) (ev_principal res) (ct_public_key req)
                   (ev_clamped_duration res) (ct_role req) bs of
              Inl e \<Rightarrow> (Failed (SigningFailed e), bs)
            | Inr resp \<Rightarrow>
                let bs = bs\<lparr>cb_grants := map_option (\<lambda>gs. snd (issue_grant now gid SSHCert agent (ct_target req)
                             (ev_clamped_duration res)
                             [(''role'', ct_role req), (''principal'', ev_principal res), (''serial'', resp_serial resp)] gs))
                             (cb_grants bs)\<rparr>;
                    bs = record_cert now agent uid (ct_target req) (ct_role req) (ev_principal res) resp bs
                in (grant_answer [] (ct_target req) (ev_principal res) resp bs, bs)))))))))"

section \<open>Approval and denial\<close>

text \<open>
  \<open>handleApprove\<close> in two parts: the checks that end with a copy of the pending request, and what
  happens with that copy. Two administrators' requests may interleave between them.
\<close>

definition approve_lookup :: "int option \<Rightarrow> string \<Rightarrow> 'k cert_broker \<Rightarrow> http_error + pending_request" where
  "approve_lookup peer request_id bs =
     (case peer of
        None \<Rightarrow> Inl NoCaller
      | Some uid \<Rightarrow>
          if \<not> is_admin uid bs then Inl AdminRequired
          else if request_id = [] then Inl RequestIdRequired
          else (case get_pending request_id (cb_state bs) of None \<Rightarrow> Inl PendingNotFound | Some p \<Rightarrow> Inr p))"

definition pending_principal :: "pending_request \<Rightarrow> 'k cert_broker \<Rightarrow> string" where
  "pending_principal p bs =
     (let prin = (case get (cfg_roles (rc_raw (cb_policy bs))) (pq_role p) of None \<Rightarrow> [] | Some r \<Rightarrow> rd_principal r)
      in if prin = [] then pq_role p else prin)"

definition approve_issue ::
    "(sign_request \<Rightarrow> sign_response option) \<Rightarrow> time \<Rightarrow> string \<Rightarrow> pending_request \<Rightarrow> 'k cert_broker \<Rightarrow>
     cert_answer \<times> 'k cert_broker" where
  "approve_issue do_ipc now request_id p bs =
     (let prin = pending_principal p bs in
      case issue_cert do_ipc (pq_agent_name p) (pq_target p) prin (pq_public_key p) (pq_duration p) (pq_role p) bs of
        Inl e \<Rightarrow> (Failed (SigningFailed e), bs)
      | Inr resp \<Rightarrow>
          let bs = record_cert now (pq_agent_name p) (pq_agent_uid p) (pq_target p) (pq_role p) prin resp bs;
              bs = bs\<lparr>cb_state := snd (remove_pending request_id (cb_state bs))\<rparr>
          in (grant_answer request_id (pq_target p) prin resp bs, bs))"

definition handle_approve ::
    "(sign_request \<Rightarrow> sign_response option) \<Rightarrow> time \<Rightarrow> int option \<Rightarrow> string \<Rightarrow> 'k cert_broker \<Rightarrow>
     cert_answer \<times> 'k cert_broker" where
  "handle_approve do_ipc now peer request_id bs =
     (case approve_lookup peer request_id bs of
        Inl e \<Rightarrow> (Failed e, bs)
      | Inr p \<Rightarrow> approve_issue do_ipc now request_id p bs)"

definition handle_deny :: "int option \<Rightarrow> string \<Rightarrow> 'k cert_broker \<Rightarrow> cert_answer \<times> 'k cert_broker" where
  "handle_deny peer request_id bs =
     (case peer of
        None \<Rightarrow> (Failed NoCaller, bs)
      | Some uid \<Rightarrow>
          if \<not> is_admin uid bs then (Failed AdminRequired, bs)
          else if request_id = [] then (Failed RequestIdRequired, bs)
          else (case get_pending request_id (cb_state bs) of
                  None \<Rightarrow> (Failed PendingNotFound, bs)
                | Some p \<Rightarrow>
                    (Denied AdminDenied request_id,
                     bs\<lparr>cb_state := snd (remove_pending request_id (cb_state bs)),
                        cb_deny_count := cb_deny_count bs + 1\<rparr>)))"

section \<open>Certificates and hosts\<close>

definition handle_list_certs :: "int option \<Rightarrow> 'k cert_broker \<Rightarrow> active_cert list" where
  "handle_list_certs peer bs =
     (case peer of
        None \<Rightarrow> list_all_certs (cb_state bs)
      | Some uid \<Rightarrow> if is_admin uid bs then list_all_certs (cb_state bs) else list_certs_for_agent uid (cb_state bs))"

definition handle_revoke_cert :: "int option \<Rightarrow> string \<Rightarrow> 'k cert_broker \<Rightarrow> http_error option \<times> 'k cert_broker" where
  "handle_revoke_cert peer serial bs =
     (case peer of
        None \<Rightarrow> (Some NoCaller, bs)
      | Some uid \<Rightarrow>
          if serial = [] then (Some SerialRequired, bs)
          else (case get_cert serial (cb_state bs) of
                  None \<Rightarrow> (Some CertNotFound, bs)
                | Some cert \<Rightarrow>
                    if av_agent_uid cert \<noteq> uid \<and> \<not> is_admin uid bs then (Some NotYourCertificate, bs)
                    else (None, bs\<lparr>cb_state := snd (state_remove_cert serial (cb_state bs)),
                                   cb_engine := remove_cert (parse_serial serial) (cb_engine bs)\<rparr>)))"

text \<open>One entry of the list of targets: name, host, port, roles and whether it approves by itself.\<close>

definition handle_list_targets ::
    "time \<Rightarrow> int option \<Rightarrow> string \<Rightarrow> string \<Rightarrow> 'k cert_broker \<Rightarrow>
     (http_error + (string \<times> string \<times> int \<times> string list \<times> bool \<times> string) list) \<times> 'k cert_broker" where
  "handle_list_targets now peer authorization x_session bs =
     (let listing = map (\<lambda>(name, t). (name, tg_host t, (if tg_port t = 0 then 22 else tg_port t), tg_allowed_roles t,
                      tg_auto_approve t, tg_description t)) (cfg_targets (rc_raw (cb_policy bs)))
      in case peer of
        None \<Rightarrow> (Inr listing, bs)
      | Some uid \<Rightarrow>
     (case session_token authorization x_session of
        None \<Rightarrow> (Inl MissingToken, bs)
      | Some tok \<Rightarrow>
         (case validate_session now tok (cb_sessions bs) of
            (None, sm) \<Rightarrow> (Inl InvalidSession, bs\<lparr>cb_sessions := sm\<rparr>)
          | (Some (agent, sess_uid), sm) \<Rightarrow>
              (if sess_uid \<noteq> uid then Inl InvalidSession else Inr listing, bs\<lparr>cb_sessions := sm\<rparr>))))"

definition handle_admin_toggle_host ::
    "int option \<Rightarrow> string \<Rightarrow> 'k cert_broker \<Rightarrow> (http_error + bool) \<times> 'k cert_broker" where
  "handle_admin_toggle_host peer name bs =
     (case peer of
        None \<Rightarrow> (Inl NoCaller, bs)
      | Some uid \<Rightarrow>
          if \<not> is_admin uid bs then (Inl AdminRequired, bs)
          else if name = [] then (Inl HostNameRequired, bs)
          else if get (cfg_targets (rc_raw (cb_policy bs))) name = None then (Inl (HostNotInPolicy name), bs)
          else (case host_toggle name (cb_hosts bs) of (enabled, st) \<Rightarrow> (Inr enabled, bs\<lparr>cb_hosts := st\<rparr>)))"

text \<open>Whether the signer answers and the numbers of certificates and pending requests.\<close>

definition handle_health ::
    "(sign_request \<Rightarrow> sign_response option) \<Rightarrow> time \<Rightarrow> time \<Rightarrow> 'k cert_broker \<Rightarrow> string \<times> nat \<times> nat \<times> bool" where
  "handle_health do_ipc now start bs =
     (format_duration (round_second (now - start)), length (list_all_certs (cb_state bs)),
      length (list_pending (cb_state bs)), client_ping do_ipc = None)"

section \<open>Start and policy reload\<close>

definition new_cert_broker :: "int list \<Rightarrow> grant_store option \<Rightarrow> 'k resolved_config \<Rightarrow> 'k cert_broker" where
  "new_cert_broker admins grants rc =
     \<lparr>cb_policy = rc, cb_engine = new_engine rc, cb_sessions = new_session_manager, cb_state = new_cert_state,
      cb_hosts = new_host_controller, cb_grants = grants, cb_admins = admins, cb_grant_count = 0, cb_deny_count = 0\<rparr>"

text \<open>\<open>ReloadPolicy\<close> swaps in a new engine, which tracks no certificate.\<close>

definition reload_policy :: "('e + 'k resolved_config) \<Rightarrow> 'k cert_broker \<Rightarrow> 'e option \<times> 'k cert_broker" where
  "reload_policy loaded bs =
     (case loaded of
        Inl e \<Rightarrow> (Some e, bs)
      | Inr rc \<Rightarrow> (None, bs\<lparr>cb_policy := rc, cb_engine := new_engine rc\<rparr>))"

end
