(* ===== verification/CertSafety.thy ===== *)
theory CertSafety
  imports CertBroker
begin

text \<open>
  What the certificate API guarantees: a certificate is only ever issued to a caller whom session,
  host switch and policy admit, with the principal, command and lifetime of the policy; a pending
  request is decided once; and what counts against the limits can be listed and revoked.
\<close>

section \<open>The signer behind the client\<close>

text \<open>The socket when the signer process answers at time \<open>t0\<close> with the random bytes \<open>rnd0\<close>.\<close>

definition signer_at ::
    "(bytes \<Rightarrow> bytes \<Rightarrow> bytes) \<Rightarrow> (bytes \<Rightarrow> 'p option) \<Rightarrow> ('p ssh_certificate \<Rightarrow> bytes option) \<Rightarrow> time \<Rightarrow> bytes option \<Rightarrow>
     signing_ca \<Rightarrow> int \<Rightarrow> int option \<Rightarrow> signer_limiter \<Rightarrow> sign_request \<Rightarrow> sign_response option" where
  "signer_at ed_sign parse_key sign_cert t0 rnd0 ca allowed_uid peer rl req =
     Some (fst (handle_conn ed_sign parse_key sign_cert t0 rnd0 ca allowed_uid peer (Some req) rl))"

lemma issue_certE:
  assumes "issue_cert do_ipc agent target prin key dur role bs = Inr resp"
  obtains "key \<noteq> []" "resp_error resp = None"
    "do_ipc (no_request\<lparr>rq_action := ''sign'', rq_public_key := key, rq_principals := [prin],
       rq_duration := format_duration dur, rq_key_id := agent @ ''@'' @ target @ ''/'' @ role,
       rq_force_command := (case get (cfg_targets (rc_raw (cb_policy bs))) target of
          None \<Rightarrow> [] | Some t \<Rightarrow> tg_force_command t)\<rparr>) = Some resp"
  using assms
  by (auto simp: issue_cert_def request_sign_def Let_def no_request_def split: if_splits option.splits sum.splits)

lemma signed_by_signer:
  assumes "signer_at ed_sign parse_key sign_cert t0 rnd0 ca allowed_uid peer rl req = Some resp"
    and "resp_error resp = None" "rq_action req = ''sign''"
  obtains dur key serial cert_bytes where "parse_duration (rq_duration req) = Some dur" "0 < dur" "dur \<le> 24 * hour"
    "parse_key (rq_public_key req) = Some key" "random_serial rnd0 = Inr serial"
    "sign_cert (certificate_for t0 serial key
       \<lparr>sp_public_key = rq_public_key req, sp_principals = rq_principals req, sp_duration = dur,
        sp_key_id = rq_key_id req, sp_force_command = rq_force_command req\<rparr>) = Some cert_bytes"
    "resp_certificate resp = b64_std_encode cert_bytes" "resp_serial resp = hex16 serial"
    "resp_expires_at resp = format_rfc3339 0 (t0 + dur)"
  using assms
  by (auto simp: signer_at_def handle_conn_def handle_sign_def write_error_def no_response_def sign_certificate_def
      Let_def split: if_splits option.splits sum.splits prod.splits)

section \<open>Granted requests\<close>

lemma removes_config: "pe_resolved (fold remove_cert_locked serials e) = pe_resolved e"
  by (induction serials arbitrary: e) simp_all

lemma granted_cases:
  assumes "handle_request do_ipc now rnd gid peer authorization x_session body bs = (Granted g, bs')"
  obtains uid tok agent req d res engine resp bs1 where
    "peer = Some uid" "session_token authorization x_session = Some tok"
    "fst (validate_session now tok (cb_sessions bs)) = Some (agent, uid)"
    "body = Some req" "host_is_enabled (cb_hosts bs) (ct_target req)"
    "(if ct_duration req = [] then Some 0 else parse_duration (ct_duration req)) = Some d"
    "evaluate now \<lparr>er_agent_uid = uid, er_target_name = ct_target req, er_role_name = ct_role req, er_duration = d\<rparr>
       (cb_engine bs) = (res, engine)"
    "ev_decision res = Approve" "cb_policy bs1 = cb_policy bs" "cb_engine bs1 = engine" "cb_state bs1 = cb_state bs"
    "issue_cert do_ipc agent (ct_target req) (ev_principal res) (ct_public_key req) (ev_clamped_duration res)
       (ct_role req) bs1 = Inr resp"
    "g = \<lparr>gc_certificate = resp_certificate resp, gc_serial = resp_serial resp, gc_expires_at = resp_expires_at resp,
       gc_request_id = [], gc_principal = ev_principal res, gc_host = fst (target_address (ct_target req) bs),
       gc_port = snd (target_address (ct_target req) bs)\<rparr>"
    "cb_state bs' = cb_state (record_cert now agent uid (ct_target req) (ct_role req) (ev_principal res) resp bs1)"
    "cb_engine bs' = cb_engine (record_cert now agent uid (ct_target req) (ct_role req) (ev_principal res) resp bs1)"
proof -
  note step = assms [unfolded handle_request_def]
  obtain uid where peer: "peer = Some uid" using step by (cases peer) auto
  obtain tok where tok: "session_token authorization x_session = Some tok"
    using step by (cases "session_token authorization x_session") (auto simp: peer)
  obtain v sm where v: "validate_session now tok (cb_sessions bs) = (v, sm)" by fastforce
  obtain agent sess_uid where who: "v = Some (agent, sess_uid)"
    using step by (cases v) (auto simp: peer tok v)
  note step = step [unfolded peer tok option.case v prod.case who Let_def]
  have uid: "sess_uid = uid" using step by (auto split: if_splits)
  obtain req where req: "body = Some req" using step uid by (cases body) auto
  have checks: "\<not> (ct_target req = [] \<or> ct_role req = [])" "host_is_enabled (cb_hosts bs) (ct_target req)"
    using step uid req by (auto split: if_splits)
  obtain d where d: "(if ct_duration req = [] then Some 0 else parse_duration (ct_duration req)) = Some d"
    using step uid req checks by (cases "if ct_duration req = [] then Some 0 else parse_duration (ct_duration req)") auto
  obtain res engine where ev: "evaluate now \<lparr>er_agent_uid = uid, er_target_name = ct_target req, er_role_name = ct_role req,
      er_duration = d\<rparr> (cb_engine bs) = (res, engine)" by fastforce
  define bs1 where "bs1 = bs\<lparr>cb_sessions := sm, cb_engine := engine\<rparr>"
  note rest = step [unfolded uid req option.case d ev prod.case]
  have approve: "ev_decision res = Approve"
    using rest checks d ev uid by (cases "ev_decision res") (auto split: prod.splits)
  obtain resp where resp: "issue_cert do_ipc agent (ct_target req) (ev_principal res) (ct_public_key req)
      (ev_clamped_duration res) (ct_role req) bs1 = Inr resp"
    using rest checks d ev uid approve by (auto simp: bs1_def split: sum.splits)
  show ?thesis
    using that [OF peer tok _ req checks(2) d ev approve _ _ _ resp] rest checks d ev uid approve resp v who
    by (auto simp: bs1_def record_cert_def Let_def grant_answer_def target_address_def)
qed

text \<open>The lifetimes of a policy are Go durations.\<close>

definition int64_ttls :: "'k resolved_config \<Rightarrow> bool" where
  "int64_ttls rc \<longleftrightarrow> (\<forall>d \<in> insert (rc_global_default_ttl rc) (insert (rc_global_max_ttl rc) (snd ` set (rc_target_max_ttls rc))).
     - (2 ^ 63) \<le> d \<and> d < 2 ^ 63)"

lemma clamp_bounds:
  assumes "int64_ttls rc"
  shows "- (2 ^ 63) \<le> clamp_duration rc req" "clamp_duration rc req < 2 ^ 63"
    "clamp_duration rc req \<le> rc_global_max_ttl rc"
    "0 < clamp_duration rc req \<Longrightarrow>
      \<exists>m. get (rc_target_max_ttls rc) (er_target_name req) = Some m \<and> clamp_duration rc req \<le> m"
proof -
  define m where "m = (case get (rc_target_max_ttls rc) (er_target_name req) of None \<Rightarrow> 0 | Some d \<Rightarrow> d)"
  have "get (rc_target_max_ttls rc) (er_target_name req) = Some d \<Longrightarrow> d \<in> snd ` set (rc_target_max_ttls rc)" for d
    using get_Some_in_set by force
  then have m: "- (2 ^ 63) \<le> m" "m < 2 ^ 63"
    using assms by (auto simp: m_def int64_ttls_def split: option.splits)
  have global: "- (2 ^ 63) \<le> rc_global_default_ttl rc" "- (2 ^ 63) \<le> rc_global_max_ttl rc" "rc_global_max_ttl rc < 2 ^ 63"
    using assms by (auto simp: int64_ttls_def)
  have clamp: "clamp_duration rc req = min (min (if er_duration req \<le> 0 then rc_global_default_ttl rc else er_duration req) m)
      (rc_global_max_ttl rc)"
    by (simp add: clamp_duration_def m_def Let_def min_def)
  show "- (2 ^ 63) \<le> clamp_duration rc req" "clamp_duration rc req < 2 ^ 63"
    "clamp_duration rc req \<le> rc_global_max_ttl rc"
    using m global unfolding clamp by auto
  show "\<exists>m. get (rc_target_max_ttls rc) (er_target_name req) = Some m \<and> clamp_duration rc req \<le> m"
    if "0 < clamp_duration rc req"
    using that unfolding clamp by (auto simp: m_def split: option.splits)
qed

lemma recorded:
  "cb_state (record_cert now agent uid target role prin resp bs) =
     add_cert \<lparr>av_serial = resp_serial resp, av_agent_name = agent, av_agent_uid = uid, av_target = target,
       av_role = role, av_principal = prin, av_issued_at = now,
       av_expires_at = parse_rfc3339_or_zero (resp_expires_at resp), av_certificate = resp_certificate resp\<rparr> (cb_state bs)"
  "cb_engine (record_cert now agent uid target role prin resp bs) =
     track_cert (parse_serial (resp_serial resp)) uid target role (parse_rfc3339_or_zero (resp_expires_at resp)) (cb_engine bs)"
  by (simp_all add: record_cert_def Let_def)


definition sample_cert_broker :: "unit cert_broker" where
  "sample_cert_broker = snd (handle_create_session 5 (Some ''ab'') None (Some 1000) ''claude'' (new_cert_broker [0] None sample_resolved))"

lemma login_keeps:
  fixes bs now srnd passwd peer name
  defines "bs' \<equiv> snd (handle_create_session now srnd passwd peer name bs)"
  shows "cb_policy bs' = cb_policy bs" "cb_engine bs' = cb_engine bs" "cb_state bs' = cb_state bs" "cb_hosts bs' = cb_hosts bs"
  by (auto simp: bs'_def handle_create_session_def split: option.splits prod.splits sum.splits)

lemma sample_broker_parts:
  "cb_policy sample_cert_broker = sample_resolved" "cb_engine sample_cert_broker = new_engine sample_resolved"
  "host_is_enabled (cb_hosts sample_cert_broker) h"
  by (simp_all add: sample_cert_broker_def login_keeps new_cert_broker_def host_is_enabled_def new_host_controller_def)

definition sample_signer :: "sign_request \<Rightarrow> sign_response option" where
  "sample_signer = signer_at (\<lambda>_ _. []) (\<lambda>_. Some ()) (\<lambda>_. Some ''crt'') 200 (Some ''abcdefgh'') \<lparr>ca_raw_priv = [], ca_raw_pub = []\<rparr>
     (-1) None (new_signer_limiter 0 0)"

definition sample_ask :: "cert_answer \<times> unit cert_broker" where
  "sample_ask = handle_request sample_signer 100 ''r'' ''g'' (Some 1000) (''Bearer '' @ hex_encode ''ab'') []
     (Some \<lparr>ct_target = ''web'', ct_role = ''read'', ct_duration = [], ct_public_key = ''ssh-ed25519 AAAA''\<rparr>) sample_cert_broker"

lemma sample_signs:
  assumes "0 < dur" "dur \<le> 24 * hour" "key \<noteq> []"
  shows "\<exists>resp. issue_cert sample_signer agent target prin key dur role bs = Inr resp"
proof -
  have parsed: "parse_duration (format_duration dur) = Some dur" using assms by (intro parse_format_duration) simp_all
  moreover have "format_duration dur \<noteq> []"
  proof
    assume "format_duration dur = []"
    with parsed show False by (simp add: parse_duration_def)
  qed
  ultimately show ?thesis
    using assms
    by (simp add: issue_cert_def request_sign_def sample_signer_def signer_at_def handle_conn_def handle_sign_def
        no_request_def no_response_def sign_certificate_def random_serial_def signer_allow_def new_signer_limiter_def Let_def)
qed

lemma grantsI:
  assumes "session_token authorization x_session = Some tok"
    "validate_session now tok (cb_sessions bs) = (Some (agent, uid), sm)"
    "ct_target req \<noteq> []" "ct_role req \<noteq> []" "host_is_enabled (cb_hosts bs) (ct_target req)"
    "(if ct_duration req = [] then Some 0 else parse_duration (ct_duration req)) = Some d"
    "evaluate now \<lparr>er_agent_uid = uid, er_target_name = ct_target req, er_role_name = ct_role req, er_duration = d\<rparr>
       (cb_engine bs) = (res, engine)" "ev_decision res = Approve"
    "issue_cert do_ipc agent (ct_target req) (ev_principal res) (ct_public_key req) (ev_clamped_duration res)
       (ct_role req) (bs\<lparr>cb_sessions := sm, cb_engine := engine\<rparr>) = Inr resp"
  shows "\<exists>g. fst (handle_request do_ipc now rnd gid (Some uid) authorization x_session (Some req) bs) = Granted g"
  using assms by (simp add: handle_request_def Let_def grant_answer_def)

lemma sample_parts:
  "session_token (''Bearer '' @ hex_encode ''ab'') [] = Some (hex_encode ''ab'')"
  "fst (validate_session 100 (hex_encode ''ab'') (cb_sessions sample_cert_broker)) = Some (''claude'', 1000)"
  "ev_decision (fst (evaluate 100 \<lparr>er_agent_uid = 1000, er_target_name = ''web'', er_role_name = ''read'', er_duration = 0\<rparr>
     (new_engine sample_resolved))) = Approve"
  "ev_clamped_duration (fst (evaluate 100 \<lparr>er_agent_uid = 1000, er_target_name = ''web'', er_role_name = ''read'', er_duration = 0\<rparr>
     (new_engine sample_resolved))) = 300"
  by code_simp+

lemma sample_granted: "\<exists>g. sample_ask = (Granted g, snd sample_ask)"
proof -
  obtain sm where v: "validate_session 100 (hex_encode ''ab'') (cb_sessions sample_cert_broker) = (Some (''claude'', 1000), sm)"
    using sample_parts(2) by (metis prod.collapse)
  obtain res engine where ev: "evaluate 100 \<lparr>er_agent_uid = 1000, er_target_name = ''web'', er_role_name = ''read'', er_duration = 0\<rparr>
     (new_engine sample_resolved) = (res, engine)" by fastforce
  then have res: "ev_decision res = Approve" "ev_clamped_duration res = 300" using sample_parts(3,4) by simp_all
  obtain resp where "issue_cert sample_signer ''claude'' ''web'' (ev_principal res) ''ssh-ed25519 AAAA'' (ev_clamped_duration res)
      ''read'' (sample_cert_broker\<lparr>cb_sessions := sm, cb_engine := engine\<rparr>) = Inr resp"
    using sample_signs [of "ev_clamped_duration res" "''ssh-ed25519 AAAA''" "''claude''" "''web''" "ev_principal res" "''read''"] res
    by auto
  then have "\<exists>g. fst sample_ask = Granted g"
    unfolding sample_ask_def
    by (intro grantsI [OF sample_parts(1)]) (auto simp: sample_broker_parts v ev res)
  then show ?thesis by (metis prod.collapse)
qed


end
