(* ===== verification/CertRuns.thy ===== *)
theory CertRuns
  imports CertSafety
begin

section \<open>Runs of the certificate API\<close>

text \<open>Every serial the signer hands out is printed with \<open>%016x\<close>.\<close>

definition hex_serials :: "(sign_request \<Rightarrow> sign_response option) \<Rightarrow> bool" where
  "hex_serials do_ipc \<longleftrightarrow> (\<forall>req resp. rq_action req = ''sign'' \<longrightarrow> do_ipc req = Some resp \<longrightarrow> resp_error resp = None \<longrightarrow>
     (\<exists>w. resp_serial resp = hex16 w))"

lemma signer_hex_serials: "hex_serials (signer_at ed_sign parse_key sign_cert t0 rnd0 ca allowed_uid peer rl)"
  unfolding hex_serials_def
proof (intro allI impI)
  fix req resp
  assume "rq_action req = ''sign''" "signer_at ed_sign parse_key sign_cert t0 rnd0 ca allowed_uid peer rl req = Some resp"
    "resp_error resp = None"
  from signed_by_signer [OF this(2,3,1)] show "\<exists>w. resp_serial resp = hex16 w" by blast
qed

lemma issued_serial:
  assumes "issue_cert do_ipc agent target prin key dur role bs = Inr resp" "hex_serials do_ipc"
  obtains w where "resp_serial resp = hex16 w"
proof (rule issue_certE [OF assms(1)])
  let ?req = "no_request\<lparr>rq_action := ''sign'', rq_public_key := key, rq_principals := [prin],
       rq_duration := format_duration dur, rq_key_id := agent @ ''@'' @ target @ ''/'' @ role,
       rq_force_command := (case get (cfg_targets (rc_raw (cb_policy bs))) target of
          None \<Rightarrow> [] | Some t \<Rightarrow> tg_force_command t)\<rparr>"
  assume "resp_error resp = None" "do_ipc ?req = Some resp"
  moreover have "rq_action ?req = ''sign''" by simp
  ultimately obtain w where "resp_serial resp = hex16 w"
    using assms(2) unfolding hex_serials_def by blast
  then show thesis by (rule that)
qed

text \<open>One step is one handler call at the current time, a sweep, or a reload of the policy.\<close>

inductive cert_run :: "time \<Rightarrow> 'k cert_broker \<Rightarrow> bool" where
  start: "cert_run t (new_cert_broker admins grants rc)"
| later: "cert_run t bs \<Longrightarrow> t \<le> t' \<Longrightarrow> cert_run t' bs"
| request: "cert_run now bs \<Longrightarrow> hex_serials do_ipc \<Longrightarrow>
    cert_run now (snd (handle_request do_ipc now rnd gid peer authorization x_session body bs))"
| approve: "cert_run now bs \<Longrightarrow> hex_serials do_ipc \<Longrightarrow> cert_run now (snd (handle_approve do_ipc now peer rid bs))"
| refuse: "cert_run now bs \<Longrightarrow> cert_run now (snd (handle_deny peer rid bs))"
| revoke: "cert_run now bs \<Longrightarrow> cert_run now (snd (handle_revoke_cert peer serial bs))"
| login: "cert_run now bs \<Longrightarrow> cert_run now (snd (handle_create_session now srnd passwd peer name bs))"
| toggle: "cert_run now bs \<Longrightarrow> cert_run now (snd (handle_admin_toggle_host peer host bs))"
| sweep: "cert_run now bs \<Longrightarrow> cert_run now (bs\<lparr>cb_state := snd (state_clean_expired now (cb_state bs))\<rparr>)"
| reload: "cert_run now bs \<Longrightarrow> cert_run now (snd (reload_policy (loaded :: string + 'k resolved_config) bs))"

definition listed :: "time \<Rightarrow> cert_state \<Rightarrow> 'k policy_engine \<Rightarrow> bool" where
  "listed now cs e \<longleftrightarrow> (\<forall>n tc. get (pe_certs e) n = Some tc \<longrightarrow> tc_expires_at tc + cert_grace < now \<or>
     (\<exists>w cert. n = unat w \<and> get (cs_certs cs) (hex16 w) = Some cert \<and> av_agent_uid cert = tc_agent_uid tc \<and>
        av_target cert = tc_target tc \<and> av_role cert = tc_role tc \<and> av_expires_at cert = tc_expires_at tc))"

definition broker_ok :: "time \<Rightarrow> 'k cert_broker \<Rightarrow> bool" where
  "broker_ok now bs \<longleftrightarrow> cb_policy bs = pe_resolved (cb_engine bs) \<and> map_wf (cs_certs (cb_state bs)) \<and>
     fst ` set (cs_certs (cb_state bs)) \<subseteq> range hex16 \<and> listed now (cb_state bs) (cb_engine bs)"

lemma get_removed: "get (pe_certs (remove_cert_locked s e)) n = (if n = s then None else get (pe_certs e) n)"
  by (auto simp: remove_cert_locked_def Let_def split: option.splits)

lemma get_removes: "get (pe_certs (fold remove_cert_locked ss e)) n = (if n \<in> set ss then None else get (pe_certs e) n)"
  by (induction ss arbitrary: e) (auto simp: get_removed)

lemma evaluate_only_removes:
  assumes "evaluate now req e0 = (res, e)"
  shows "get (pe_certs e) n = Some tc \<Longrightarrow> get (pe_certs e0) n = Some tc" and "pe_resolved e = pe_resolved e0"
proof -
  let ?e1 = "snd (clean_expired_certs now e0)"
  have e: "e = ?e1 \<or> e = superseded req ?e1" using evaluate_outcomes [OF assms refl] by blast
  have "get (pe_certs ?e1) n = Some tc \<Longrightarrow> get (pe_certs e0) n = Some tc"
    by (simp add: clean_expired_certs_def Let_def get_removes split: if_splits)
  moreover have "get (pe_certs (superseded req ?e1)) n = Some tc \<Longrightarrow> get (pe_certs ?e1) n = Some tc"
    by (auto simp: superseded_def get_removed split: option.splits if_splits)
  ultimately show "get (pe_certs e) n = Some tc \<Longrightarrow> get (pe_certs e0) n = Some tc" using e by blast
  have "pe_resolved ?e1 = pe_resolved e0" by (simp add: clean_expired_certs_def Let_def removes_config)
  then show "pe_resolved e = pe_resolved e0" using e superseded_ok(2) by metis
qed

lemma listed_fewer:
  "listed now cs e \<Longrightarrow> (\<And>n tc. get (pe_certs e') n = Some tc \<Longrightarrow> get (pe_certs e) n = Some tc) \<Longrightarrow> listed now cs e'"
  by (auto simp: listed_def)

lemma listed_later: "listed now cs e \<Longrightarrow> now \<le> t \<Longrightarrow> listed t cs e"
  unfolding listed_def by fastforce

lemma hex16_inj [simp]: "hex16 v = hex16 w \<longleftrightarrow> v = w"
  using parse_serial_hex16 by (metis word_unat_eq_iff)

lemma broker_ok_record:
  assumes ok: "broker_ok now bs" and serial: "resp_serial resp = hex16 w"
  shows "broker_ok now (record_cert t agent uid target role prin resp bs)"
proof -
  have policy: "cb_policy (record_cert t agent uid target role prin resp bs) = cb_policy bs"
    "pe_resolved (cb_engine (record_cert t agent uid target role prin resp bs)) = pe_resolved (cb_engine bs)"
    by (simp_all add: record_cert_def track_cert_def Let_def)
  have keys: "fst ` set (put k v m) = insert k (fst ` set m)" for k v and m :: "(string, active_cert) gomap"
    by (auto simp add: set_eq_iff get_key_mem [symmetric])
  have "listed now (cb_state (record_cert t agent uid target role prin resp bs)) (cb_engine (record_cert t agent uid target role prin resp bs))"
    unfolding listed_def recorded serial parse_serial_hex16
  proof (intro allI impI)
    fix n tc
    assume tc: "get (pe_certs (track_cert (unat w) uid target role (parse_rfc3339_or_zero (resp_expires_at resp)) (cb_engine bs))) n =
      Some tc"
    show "tc_expires_at tc + cert_grace < now \<or> (\<exists>v cert. n = unat v \<and>
      get (cs_certs (add_cert \<lparr>av_serial = hex16 w, av_agent_name = agent, av_agent_uid = uid, av_target = target,
        av_role = role, av_principal = prin, av_issued_at = t,
        av_expires_at = parse_rfc3339_or_zero (resp_expires_at resp), av_certificate = resp_certificate resp\<rparr> (cb_state bs)))
        (hex16 v) = Some cert \<and> av_agent_uid cert = tc_agent_uid tc \<and>
        av_target cert = tc_target tc \<and> av_role cert = tc_role tc \<and> av_expires_at cert = tc_expires_at tc)"
    proof (cases "n = unat w")
      case True
      with tc show ?thesis by (auto simp: track_cert_def add_cert_def)
    next
      case False
      then have "get (pe_certs (cb_engine bs)) n = Some tc" using tc by (simp add: track_cert_def)
      then consider "tc_expires_at tc + cert_grace < now" | v cert where "n = unat v"
          "get (cs_certs (cb_state bs)) (hex16 v) = Some cert" "av_agent_uid cert = tc_agent_uid tc"
          "av_target cert = tc_target tc" "av_role cert = tc_role tc" "av_expires_at cert = tc_expires_at tc"
        using ok unfolding broker_ok_def listed_def by blast
      then show ?thesis
      proof cases
        case (2 v cert)
        then have "v \<noteq> w" using False by auto
        with 2 show ?thesis by (auto simp: add_cert_def)
      qed simp
    qed
  qed
  then show ?thesis
    using ok by (simp add: broker_ok_def policy recorded serial) (auto simp: add_cert_def keys track_cert_def)
qed

lemma broker_ok_same:
  "broker_ok now bs \<Longrightarrow> cb_policy bs' = cb_policy bs \<Longrightarrow> cs_certs (cb_state bs') = cs_certs (cb_state bs) \<Longrightarrow>
   pe_resolved (cb_engine bs') = pe_resolved (cb_engine bs) \<Longrightarrow>
   (\<And>n tc. get (pe_certs (cb_engine bs')) n = Some tc \<Longrightarrow> get (pe_certs (cb_engine bs)) n = Some tc) \<Longrightarrow> broker_ok now bs'"
  unfolding broker_ok_def listed_def by auto

lemma request_cases:
  fixes bs :: "'k cert_broker"
  assumes "handle_request do_ipc now rnd gid peer authorization x_session body bs = (a, bs')"
  obtains (same) "cb_policy bs' = cb_policy bs" "cs_certs (cb_state bs') = cs_certs (cb_state bs)" "cb_engine bs' = cb_engine bs"
  | (evaluated) er res where "cb_policy bs' = cb_policy bs" "cs_certs (cb_state bs') = cs_certs (cb_state bs)"
      "evaluate now er (cb_engine bs) = (res, cb_engine bs')"
  | (granted) g where "a = Granted g"
proof -
  note step = assms [unfolded handle_request_def]
  show ?thesis
  proof (cases "\<exists>g. a = Granted g")
    case True
    then show ?thesis using granted by blast
  next
    case False
    then show ?thesis
      using step same evaluated
      by (auto simp: Let_def add_pending_def grant_answer_def split: option.splits prod.splits if_splits decision.splits sum.splits)
  qed
qed

lemma broker_ok_request:
  assumes ok: "broker_ok now bs" and hex: "hex_serials do_ipc"
  shows "broker_ok now (snd (handle_request do_ipc now rnd gid peer authorization x_session body bs))"
proof -
  obtain a bs' where r: "handle_request do_ipc now rnd gid peer authorization x_session body bs = (a, bs')" by fastforce
  from r show ?thesis
  proof (cases rule: request_cases)
    case same
    then show ?thesis using r broker_ok_same [OF ok, of bs'] by simp
  next
    case (evaluated er res)
    then show ?thesis using r broker_ok_same [OF ok, of bs'] evaluate_only_removes [OF evaluated(3)] by simp
  next
    case (granted g)
    show ?thesis
    proof (rule granted_cases [OF r [unfolded granted]])
    fix uid tok agent req d res engine resp bs1
    assume g: "evaluate now \<lparr>er_agent_uid = uid, er_target_name = ct_target req, er_role_name = ct_role req, er_duration = d\<rparr>
         (cb_engine bs) = (res, engine)"
      "cb_policy bs1 = cb_policy bs" "cb_engine bs1 = engine" "cb_state bs1 = cb_state bs"
      and issue: "issue_cert do_ipc agent (ct_target req) (ev_principal res) (ct_public_key req) (ev_clamped_duration res)
         (ct_role req) bs1 = Inr resp"
      and after: "cb_state bs' = cb_state (record_cert now agent uid (ct_target req) (ct_role req) (ev_principal res) resp bs1)"
        "cb_engine bs' = cb_engine (record_cert now agent uid (ct_target req) (ct_role req) (ev_principal res) resp bs1)"
    obtain w where w: "resp_serial resp = hex16 w" by (rule issued_serial [OF issue hex])
    have "broker_ok now bs1"
      using broker_ok_same [OF ok, of bs1] evaluate_only_removes [OF g(1)] g by simp
    then have "broker_ok now (record_cert now agent uid (ct_target req) (ct_role req) (ev_principal res) resp bs1)"
      using w by (rule broker_ok_record)
    moreover have "cb_policy bs' = cb_policy bs"
      using r by (auto simp: handle_request_def record_cert_def add_pending_def grant_answer_def Let_def
          split: option.splits prod.splits if_splits decision.splits sum.splits)
    moreover have "cb_policy (record_cert now agent uid (ct_target req) (ct_role req) (ev_principal res) resp bs1) = cb_policy bs"
      using g(2) by (simp add: record_cert_def Let_def)
    ultimately show "broker_ok now (snd (handle_request do_ipc now rnd gid peer authorization x_session body bs))"
      unfolding r snd_conv broker_ok_def after by simp
    qed
  qed
qed

lemma broker_ok_approve:
  assumes ok: "broker_ok now bs" and hex: "hex_serials do_ipc"
  shows "broker_ok now (snd (handle_approve do_ipc now peer rid bs))"
proof (cases "approve_lookup peer rid bs")
  case (Inl e)
  then show ?thesis using ok by (simp add: handle_approve_def)
next
  case (Inr p)
  show ?thesis
  proof (cases "issue_cert do_ipc (pq_agent_name p) (pq_target p) (pending_principal p bs) (pq_public_key p) (pq_duration p) (pq_role p) bs")
    case (Inl e)
    then show ?thesis using ok \<open>approve_lookup peer rid bs = _\<close> by (simp add: handle_approve_def approve_issue_def Let_def)
  next
    case (Inr resp)
    obtain w where w: "resp_serial resp = hex16 w" by (rule issued_serial [OF Inr hex])
    let ?bs = "record_cert now (pq_agent_name p) (pq_agent_uid p) (pq_target p) (pq_role p) (pending_principal p bs) resp bs"
    have "broker_ok now ?bs" using ok w by (rule broker_ok_record)
    moreover have "snd (handle_approve do_ipc now peer rid bs) = ?bs\<lparr>cb_state := snd (remove_pending rid (cb_state ?bs))\<rparr>"
      using \<open>approve_lookup peer rid bs = _\<close> Inr by (simp add: handle_approve_def approve_issue_def Let_def)
    ultimately show ?thesis
      using broker_ok_same [of now ?bs "?bs\<lparr>cb_state := snd (remove_pending rid (cb_state ?bs))\<rparr>"]
      by (simp add: remove_pending_def split: option.splits)
  qed
qed

lemma broker_ok_revoke:
  assumes ok: "broker_ok now bs"
  shows "broker_ok now (snd (handle_revoke_cert peer serial bs))"
proof (cases "snd (handle_revoke_cert peer serial bs) = bs")
  case False
  then obtain cert where cert: "get (cs_certs (cb_state bs)) serial = Some cert"
    and after: "snd (handle_revoke_cert peer serial bs) = bs\<lparr>cb_state := (cb_state bs)\<lparr>cs_certs := del serial (cs_certs (cb_state bs))\<rparr>,
      cb_engine := remove_cert_locked (parse_serial serial) (cb_engine bs)\<rparr>"
    by (auto simp: handle_revoke_cert_def get_cert_def state_remove_cert_def remove_cert_def split: option.splits if_splits)
  have "serial \<in> fst ` set (cs_certs (cb_state bs))" using get_key_mem [of "cs_certs (cb_state bs)" serial] cert by simp
  then obtain w where w: "serial = hex16 w" using ok unfolding broker_ok_def by blast
  have "listed now (cb_state bs\<lparr>cs_certs := del serial (cs_certs (cb_state bs))\<rparr>) (remove_cert_locked (parse_serial serial) (cb_engine bs))"
    unfolding listed_def w parse_serial_hex16 get_removed
  proof (intro allI impI)
    fix n tc
    assume "(if n = unat w then None else get (pe_certs (cb_engine bs)) n) = Some tc"
    then have n: "n \<noteq> unat w" "get (pe_certs (cb_engine bs)) n = Some tc" by (auto split: if_splits)
    from n(2) ok consider "tc_expires_at tc + cert_grace < now" | v cert where "n = unat v"
        "get (cs_certs (cb_state bs)) (hex16 v) = Some cert" "av_agent_uid cert = tc_agent_uid tc"
        "av_target cert = tc_target tc" "av_role cert = tc_role tc" "av_expires_at cert = tc_expires_at tc"
      unfolding broker_ok_def listed_def by blast
    then show "tc_expires_at tc + cert_grace < now \<or> (\<exists>v cert. n = unat v \<and>
        get (cs_certs (cb_state bs\<lparr>cs_certs := del (hex16 w) (cs_certs (cb_state bs))\<rparr>)) (hex16 v) = Some cert \<and>
        av_agent_uid cert = tc_agent_uid tc \<and> av_target cert = tc_target tc \<and> av_role cert = tc_role tc \<and>
        av_expires_at cert = tc_expires_at tc)"
    proof cases
      case (2 v cert)
      then have "v \<noteq> w" using n(1) by auto
      with 2 show ?thesis by auto
    qed simp
  qed
  moreover have "fst ` set (del serial (cs_certs (cb_state bs))) \<subseteq> fst ` set (cs_certs (cb_state bs))"
    by (auto simp: del_filter)
  ultimately show ?thesis using ok unfolding after broker_ok_def by auto
qed (use ok in simp)

lemma broker_ok_sweep:
  assumes ok: "broker_ok now bs"
  shows "broker_ok now (bs\<lparr>cb_state := snd (state_clean_expired now (cb_state bs))\<rparr>)"
proof -
  have wf: "map_wf (cs_certs (cb_state bs))" using ok by (simp add: broker_ok_def)
  have "listed now (snd (state_clean_expired now (cb_state bs))) (cb_engine bs)"
    unfolding listed_def
  proof (intro allI impI)
    fix n tc
    assume "get (pe_certs (cb_engine bs)) n = Some tc"
    with ok consider "tc_expires_at tc + cert_grace < now" | v cert where "n = unat v"
        "get (cs_certs (cb_state bs)) (hex16 v) = Some cert" "av_agent_uid cert = tc_agent_uid tc"
        "av_target cert = tc_target tc" "av_role cert = tc_role tc" "av_expires_at cert = tc_expires_at tc"
      unfolding broker_ok_def listed_def by blast
    then show "tc_expires_at tc + cert_grace < now \<or> (\<exists>v cert. n = unat v \<and>
        get (cs_certs (snd (state_clean_expired now (cb_state bs)))) (hex16 v) = Some cert \<and>
        av_agent_uid cert = tc_agent_uid tc \<and> av_target cert = tc_target tc \<and> av_role cert = tc_role tc \<and>
        av_expires_at cert = tc_expires_at tc)"
    proof cases
      case (2 v cert)
      then show ?thesis using listed_certs.sweep_keeps_live [OF wf 2(2), of now] by fastforce
    qed simp
  qed
  moreover have "fst ` set (cs_certs (snd (state_clean_expired now (cb_state bs)))) \<subseteq> fst ` set (cs_certs (cb_state bs))"
    by (auto simp: state_clean_expired_def drop_if_def Let_def)
  ultimately show ?thesis
    using ok listed_certs.inv_sweep [OF wf, of now] unfolding broker_ok_def by auto
qed

lemma broker_ok_run: "cert_run now bs \<Longrightarrow> broker_ok now bs"
proof (induction rule: cert_run.induct)
  case (start t admins grants rc)
  show ?case by (simp add: broker_ok_def new_cert_broker_def new_engine_def new_cert_state_def listed_def)
next
  case (later t bs t')
  then show ?case using listed_later by (auto simp: broker_ok_def)
next
  case (refuse now bs peer rid)
  have "cs_certs (cb_state (snd (handle_deny peer rid bs))) = cs_certs (cb_state bs)"
    "cb_policy (snd (handle_deny peer rid bs)) = cb_policy bs" "cb_engine (snd (handle_deny peer rid bs)) = cb_engine bs"
    by (auto simp: handle_deny_def remove_pending_def split: option.splits)
  then show ?case using refuse.IH broker_ok_same by metis
next
  case (login now bs srnd passwd peer name)
  then show ?case by (simp add: broker_ok_def login_keeps)
next
  case (toggle now bs peer host)
  have "cb_state (snd (handle_admin_toggle_host peer host bs)) = cb_state bs"
    "cb_policy (snd (handle_admin_toggle_host peer host bs)) = cb_policy bs"
    "cb_engine (snd (handle_admin_toggle_host peer host bs)) = cb_engine bs"
    by (auto simp: handle_admin_toggle_host_def split: option.splits prod.splits)
  then show ?case using toggle.IH by (simp add: broker_ok_def)
next
  case (reload now bs loaded)
  then show ?case by (auto simp: broker_ok_def reload_policy_def new_engine_def listed_def split: sum.splits)
qed (simp_all add: broker_ok_request broker_ok_approve broker_ok_revoke broker_ok_sweep)

text \<open>
  Claim C18. In every run of the certificate API the handlers and the engine work on the same
  policy, and every certificate that still counts against a limit, unless it expired more than the
  grace period ago, is listed in the state with the same owner, target, role and expiry under its
  serial, where its owner can revoke it: the revocation ends both the listing and the counting.
\<close>

theorem counted_certs_are_listed:
  assumes run: "cert_run now bs" and counted: "get (pe_certs (cb_engine bs)) n = Some tc"
    and live: "now \<le> tc_expires_at tc + cert_grace"
  shows "cb_policy bs = pe_resolved (cb_engine bs) \<and>
    (\<exists>w cert. n = unat w \<and> get_cert (hex16 w) (cb_state bs) = Some cert \<and>
       av_agent_uid cert = tc_agent_uid tc \<and> av_target cert = tc_target tc \<and> av_role cert = tc_role tc \<and>
       av_expires_at cert = tc_expires_at tc \<and>
       (case handle_revoke_cert (Some (tc_agent_uid tc)) (hex16 w) bs of
          (e, bs') \<Rightarrow> e = None \<and> get_cert (hex16 w) (cb_state bs') = None \<and> get (pe_certs (cb_engine bs')) n = None))"
proof -
  have ok: "broker_ok now bs" by (rule broker_ok_run [OF run])
  then have "listed now (cb_state bs) (cb_engine bs)" by (simp add: broker_ok_def)
  then have "\<exists>w cert. n = unat w \<and> get (cs_certs (cb_state bs)) (hex16 w) = Some cert \<and> av_agent_uid cert = tc_agent_uid tc \<and>
      av_target cert = tc_target tc \<and> av_role cert = tc_role tc \<and> av_expires_at cert = tc_expires_at tc"
    using counted live unfolding listed_def by (metis not_less)
  then obtain w cert where c: "n = unat w" "get (cs_certs (cb_state bs)) (hex16 w) = Some cert"
      "av_agent_uid cert = tc_agent_uid tc" "av_target cert = tc_target tc" "av_role cert = tc_role tc"
      "av_expires_at cert = tc_expires_at tc"
    by (elim exE conjE) (rule that, assumption+)
  have "hex16 w \<noteq> []" by (simp add: hex16_def)
  then have revoke: "handle_revoke_cert (Some (tc_agent_uid tc)) (hex16 w) bs =
      (None, bs\<lparr>cb_state := (cb_state bs)\<lparr>cs_certs := del (hex16 w) (cs_certs (cb_state bs))\<rparr>,
        cb_engine := remove_cert_locked n (cb_engine bs)\<rparr>)"
    by (simp add: handle_revoke_cert_def get_cert_def c(1-3) state_remove_cert_def remove_cert_def parse_serial_hex16)
  have "cb_policy bs = pe_resolved (cb_engine bs)" using ok by (simp add: broker_ok_def)
  moreover have "get_cert (hex16 w) (cb_state bs) = Some cert" by (simp add: get_cert_def c(2))
  ultimately show ?thesis
    using c revoke
    by (intro conjI exI [of _ w] exI [of _ cert]) (simp_all add: get_cert_def get_removed)
qed

definition sample_reply :: "sign_request \<Rightarrow> sign_response option" where
  "sample_reply req = Some (no_response\<lparr>resp_serial := ''0000000000000007''\<rparr>)"

definition sample_after :: "unit cert_broker" where
  "sample_after = snd (handle_request sample_reply 100 ''r'' ''g'' (Some 1000) (''Bearer '' @ hex_encode ''ab'') []
     (Some \<lparr>ct_target = ''web'', ct_role = ''read'', ct_duration = [], ct_public_key = ''ssh-ed25519 AAAA''\<rparr>) sample_cert_broker)"

lemma hex16_sample: "hex16 7 = ''0000000000000007''" by code_simp

lemma sample_run: "cert_run 100 sample_after"
proof -
  have "hex_serials sample_reply"
    by (auto simp: hex_serials_def sample_reply_def hex16_sample intro: exI [of _ 7])
  moreover have "cert_run 5 sample_cert_broker" unfolding sample_cert_broker_def by (intro cert_run.login cert_run.start)
  ultimately show ?thesis
    unfolding sample_after_def by (intro cert_run.request) (auto intro: cert_run.later)
qed

lemma sample_counted: "\<exists>tc. get (pe_certs (cb_engine sample_after)) 7 = Some tc \<and> tc_role tc = ''read'' \<and> tc_expires_at tc = 0"
proof -
  let ?req = "\<lparr>ct_target = ''web'', ct_role = ''read'', ct_duration = [], ct_public_key = ''ssh-ed25519 AAAA''\<rparr>"
  obtain sm where v: "validate_session 100 (hex_encode ''ab'') (cb_sessions sample_cert_broker) = (Some (''claude'', 1000), sm)"
    using sample_parts(2) by (metis prod.collapse)
  obtain res engine where ev: "evaluate 100 \<lparr>er_agent_uid = 1000, er_target_name = ''web'', er_role_name = ''read'', er_duration = 0\<rparr>
     (new_engine sample_resolved) = (res, engine)" by fastforce
  then have res: "ev_decision res = Approve" using sample_parts(3) by simp
  have "parse_serial ''0000000000000007'' = 7" using parse_serial_hex16 [of 7] by (simp add: hex16_sample)
  moreover have "parse_rfc3339_or_zero [] = 0" by code_simp
  ultimately show ?thesis
    unfolding sample_after_def handle_request_def
    using v ev res sample_parts(1)
    by (simp add: sample_broker_parts Let_def issue_cert_def request_sign_def sample_reply_def grant_answer_def no_response_def
        recorded track_cert_def)
qed

theorem counted_certs_are_listed_witness:
  "cb_policy sample_after = pe_resolved (cb_engine sample_after) \<and>
   (\<exists>w. (7 :: nat) = unat w \<and> map_option av_role (get_cert (hex16 w) (cb_state sample_after)) = Some ''read'')"
proof -
  obtain tc where tc: "get (pe_certs (cb_engine sample_after)) 7 = Some tc" "tc_role tc = ''read''"
      "tc_expires_at tc = 0" using sample_counted by blast
  show ?thesis
    using counted_certs_are_listed [OF sample_run tc(1)] tc by (fastforce simp: cert_grace_def)
qed

end
