(* ===== verification/ExecPool.thy ===== *)
theory ExecPool
  imports CertRuns PolicyLoader McpAuth
begin

text \<open>
  Component \<open>internal/broker/mcp_exec.go\<close> with \<open>hostkey.go\<close>: the pool of SSH sessions behind the
  tools of an agent. What the SSH library and the network do is the record \<open>ssh_env\<close>: the fresh
  key pair, the parser of certificates, dialling a host with a host key check, and running a command
  on a connection. The pool keeps its sessions; \<open>xb_open\<close> lists the connections that are open.
  \<open>xb_ready\<close> tells whether the pool has been set. The broker's certificate state and policy are those of the certificate API. Audit log, broadcasts,
  the activity store and the measured latencies are left out.
\<close>

section \<open>State\<close>

text \<open>\<open>'k\<close> is the type of parsed host keys, \<open>'c\<close> the type of connections.\<close>

datatype parsed_cert = Unparsable | OtherKey | SshCertificate bytes

datatype run_outcome =
    NoChannel
  | TimedOut string string
  | Exited int string string
  | RunBroke string string string

record ('k, 'c) ssh_env =
  sx_do_ipc :: "sign_request \<Rightarrow> sign_response option"
  sx_new_key :: "string option"
  sx_parse_cert :: "bytes \<Rightarrow> parsed_cert"
  sx_cert_matches_key :: "bytes \<Rightarrow> bool"
  sx_marshal :: "'k \<Rightarrow> bytes"
  sx_sha256 :: "bytes \<Rightarrow> bytes"
  sx_dial :: "string \<Rightarrow> string \<Rightarrow> bytes \<Rightarrow> ('k \<Rightarrow> bool) \<Rightarrow> 'c option"
  sx_run :: "'c \<Rightarrow> string \<Rightarrow> int \<Rightarrow> run_outcome"

record 'c exec_session =
  xs_id :: string
  xs_agent_name :: string
  xs_target :: string
  xs_role :: string
  xs_principal :: string
  xs_cert_serial :: string
  xs_client :: "'c option"
  xs_created_at :: time
  xs_last_used :: time

record ('k, 'c) exec_broker =
  xb_broker :: "'k cert_broker"
  xb_sessions :: "(string, 'c exec_session) gomap"
  xb_max_per_agent :: int
  xb_open :: "'c list"
  xb_ready :: bool

record exec_result =
  xr_stdout :: string
  xr_stderr :: string
  xr_exit_code :: int
  xr_target :: string
  xr_role :: string
  xr_session :: bool

datatype exec_error =
    UnknownTarget string
  | UnknownRole string
  | KeyPairFailed
  | SignerRequestFailed client_error
  | CertNotBase64
  | CertUnparsable
  | NotACertificate
  | CertSignerFailed
  | HostKeyRequired string
  | DialFailed string
  | TooManySessions string int
  | SessionIdFailed
  | NoSuchSession string
  | SessionOfOtherAgent string
  | SessionClosed string
  | ChannelFailed

definition new_exec_pool :: "int \<Rightarrow> 'k cert_broker \<Rightarrow> ('k, 'c) exec_broker" where
  "new_exec_pool max_per_agent bs =
     \<lparr>xb_broker = bs, xb_sessions = [], xb_max_per_agent = (if max_per_agent \<le> 0 then 5 else max_per_agent),
      xb_open = [], xb_ready = True\<rparr>"

section \<open>Host keys\<close>

text \<open>A pinned key decides alone, else a pinned fingerprint, else every key is accepted.\<close>

definition host_key_callback :: "('k, 'c) ssh_env \<Rightarrow> 'k option \<Rightarrow> string \<Rightarrow> 'k \<Rightarrow> bool" where
  "host_key_callback env pinned_key pinned_fp key =
     (case pinned_key of
        Some k \<Rightarrow> sx_marshal env key = sx_marshal env k
      | None \<Rightarrow>
          if pinned_fp \<noteq> [] then key_fingerprint (sx_marshal env) (sx_sha256 env) key = pinned_fp
          else True)"

section \<open>Signing and connecting\<close>

record 'c ssh_connection =
  cn_client :: 'c
  cn_serial :: string
  cn_expires_at :: string
  cn_certificate :: string
  cn_principal :: string

definition join_host_port :: "string \<Rightarrow> int \<Rightarrow> string" where
  "join_host_port host port =
     (if CHR '':'' \<in> set host then ''['' @ host @ '']:'' @ itoa port else host @ '':'' @ itoa port)"

definition exec_duration :: "'k resolved_config \<Rightarrow> duration" where
  "exec_duration rc = (if rc_global_default_ttl rc < 5 * minute then rc_global_default_ttl rc else 5 * minute)"

definition parse_ssh_cert :: "('k, 'c) ssh_env \<Rightarrow> string \<Rightarrow> exec_error + bytes" where
  "parse_ssh_cert env text =
     (case b64_std_decode text of
        None \<Rightarrow> Inl CertNotBase64
      | Some cert_ak \<Rightarrow>
          (case sx_parse_cert env cert_ak of
             Unparsable \<Rightarrow> Inl CertUnparsable
           | OtherKey \<Rightarrow> Inl NotACertificate
           | SshCertificate cert \<Rightarrow> if sx_cert_matches_key env cert then Inr cert else Inl CertSignerFailed))"

definition sign_and_connect ::
    "('k, 'c) ssh_env \<Rightarrow> string \<Rightarrow> string \<Rightarrow> string \<Rightarrow> ('k, 'c) exec_broker \<Rightarrow>
     (exec_error + 'c ssh_connection) \<times> ('k, 'c) exec_broker" where
  "sign_and_connect env agent target role xb =
     (let rc = cb_policy (xb_broker xb) in
      case get (cfg_targets (rc_raw rc)) target of
        None \<Rightarrow> (Inl (UnknownTarget target), xb)
      | Some target_cfg \<Rightarrow>
     (case get (cfg_roles (rc_raw rc)) role of
        None \<Rightarrow> (Inl (UnknownRole role), xb)
      | Some role_cfg \<Rightarrow>
        let prin = rd_principal role_cfg in
     (case sx_new_key env of
        None \<Rightarrow> (Inl KeyPairFailed, xb)
      | Some pub_key \<Rightarrow>
     (case request_sign (sx_do_ipc env)
             (no_request\<lparr>rq_public_key := pub_key, rq_principals := [prin],
                rq_duration := format_duration (exec_duration rc),
                rq_key_id := ''mcp-'' @ agent @ ''@'' @ target @ ''/'' @ role\<rparr>) of
        Inl e \<Rightarrow> (Inl (SignerRequestFailed e), xb)
      | Inr resp \<Rightarrow>
     (case parse_ssh_cert env (resp_certificate resp) of
        Inl e \<Rightarrow> (Inl e, xb)
      | Inr cert \<Rightarrow>
        let pinned_key = get (rc_target_host_keys rc) target;
            pinned_fp = (if pinned_key = None then tg_host_key_fingerprint target_cfg else [])
        in if gp_host_key_strict (cfg_global (rc_raw rc)) \<and> pinned_key = None \<and> pinned_fp = [] then
             (Inl (HostKeyRequired target), xb)
           else
             let port = (if tg_port target_cfg = 0 then 22 else tg_port target_cfg);
                 addr = join_host_port (tg_host target_cfg) port
             in case sx_dial env prin addr cert (host_key_callback env pinned_key pinned_fp) of
                  None \<Rightarrow> (Inl (DialFailed addr), xb)
                | Some client \<Rightarrow>
                    (Inr \<lparr>cn_client = client, cn_serial = resp_serial resp, cn_expires_at = resp_expires_at resp,
                          cn_certificate = resp_certificate resp, cn_principal = prin\<rparr>,
                     xb\<lparr>xb_open := client # xb_open xb\<rparr>))))))"

definition close_client :: "'c \<Rightarrow> ('k, 'c) exec_broker \<Rightarrow> ('k, 'c) exec_broker" where
  "close_client client xb = xb\<lparr>xb_open := remove1 client (xb_open xb)\<rparr>"

text \<open>The certificate is listed with no UID, which is 0.\<close>

definition exec_cert :: "time \<Rightarrow> string \<Rightarrow> string \<Rightarrow> string \<Rightarrow> 'c ssh_connection \<Rightarrow> active_cert" where
  "exec_cert now agent target role sr =
     \<lparr>av_serial = cn_serial sr, av_agent_name = agent, av_agent_uid = 0, av_target = target, av_role = role,
      av_principal = cn_principal sr, av_issued_at = now, av_expires_at = parse_rfc3339_or_zero (cn_expires_at sr),
      av_certificate = cn_certificate sr\<rparr>"

definition update_state :: "(cert_state \<Rightarrow> cert_state) \<Rightarrow> ('k, 'c) exec_broker \<Rightarrow> ('k, 'c) exec_broker" where
  "update_state f xb = xb\<lparr>xb_broker := (xb_broker xb)\<lparr>cb_state := f (cb_state (xb_broker xb))\<rparr>\<rparr>"

definition forget_cert :: "string \<Rightarrow> ('k, 'c) exec_broker \<Rightarrow> ('k, 'c) exec_broker" where
  "forget_cert serial = update_state (\<lambda>cs. snd (state_remove_cert serial cs))"

section \<open>Sessions\<close>

definition sessions_of :: "string \<Rightarrow> ('k, 'c) exec_broker \<Rightarrow> nat" where
  "sessions_of agent xb = length (filter (\<lambda>(_, s). xs_agent_name s = agent) (xb_sessions xb))"

text \<open>\<open>rnd\<close> is the 16 random bytes of the session id, \<open>None\<close> when reading them fails.\<close>

definition open_session ::
    "('k, 'c) ssh_env \<Rightarrow> time \<Rightarrow> bytes option \<Rightarrow> string \<Rightarrow> string \<Rightarrow> string \<Rightarrow> ('k, 'c) exec_broker \<Rightarrow>
     (exec_error + 'c exec_session) \<times> ('k, 'c) exec_broker" where
  "open_session env now rnd agent target role xb =
     (if int (sessions_of agent xb) \<ge> xb_max_per_agent xb then
        (Inl (TooManySessions agent (xb_max_per_agent xb)), xb)
      else case get (cfg_roles (rc_raw (cb_policy (xb_broker xb)))) role of
        None \<Rightarrow> (Inl (UnknownRole role), xb)
      | Some role_cfg \<Rightarrow>
     (case sign_and_connect env agent target role xb of
        (Inl e, xb) \<Rightarrow> (Inl e, xb)
      | (Inr sr, xb) \<Rightarrow>
        let xb = update_state (add_cert (exec_cert now agent target role sr)) xb in
        case rnd of
          None \<Rightarrow> (Inl SessionIdFailed, forget_cert (cn_serial sr) (close_client (cn_client sr) xb))
        | Some b \<Rightarrow>
            let sid = hex_encode b;
                session = \<lparr>xs_id = sid, xs_agent_name = agent, xs_target = target, xs_role = role,
                           xs_principal = rd_principal role_cfg, xs_cert_serial = cn_serial sr,
                           xs_client = Some (cn_client sr), xs_created_at = now, xs_last_used = now\<rparr>
            in (Inr session, xb\<lparr>xb_sessions := put sid session (xb_sessions xb)\<rparr>)))"

definition exec_command ::
    "('k, 'c) ssh_env \<Rightarrow> 'c \<Rightarrow> string \<Rightarrow> string \<Rightarrow> string \<Rightarrow> int \<Rightarrow> exec_error + exec_result" where
  "exec_command env client target role command timeout =
     (let timeout = (if timeout \<le> 0 then 30 else timeout);
          result = (\<lambda>code out err. Inr \<lparr>xr_stdout = out, xr_stderr = err, xr_exit_code = code, xr_target = target,
                      xr_role = role, xr_session = False\<rparr>)
      in case sx_run env client command timeout of
           NoChannel \<Rightarrow> Inl ChannelFailed
         | TimedOut out err \<Rightarrow> result (-1) out (err @ CHR 0x0A # ''[timeout after '' @ itoa timeout @ ''s]'')
         | Exited code out err \<Rightarrow> result code out err
         | RunBroke out err msg \<Rightarrow> result (-1) out (err @ CHR 0x0A # msg))"

definition exec_in_session ::
    "('k, 'c) ssh_env \<Rightarrow> time \<Rightarrow> string \<Rightarrow> string \<Rightarrow> string \<Rightarrow> int \<Rightarrow> ('k, 'c) exec_broker \<Rightarrow>
     (exec_error + exec_result) \<times> ('k, 'c) exec_broker" where
  "exec_in_session env now agent sid command timeout xb =
     (case get (xb_sessions xb) sid of
        None \<Rightarrow> (Inl (NoSuchSession sid), xb)
      | Some s \<Rightarrow>
          if xs_agent_name s \<noteq> agent then (Inl (SessionOfOtherAgent sid), xb)
          else (case xs_client s of
                  None \<Rightarrow> (Inl (SessionClosed sid), xb)
                | Some client \<Rightarrow>
                    let res = exec_command env client (xs_target s) (xs_role s) command timeout;
                        xb = xb\<lparr>xb_sessions := put sid (s\<lparr>xs_last_used := now\<rparr>) (xb_sessions xb)\<rparr>
                    in (case res of Inl e \<Rightarrow> Inl e | Inr r \<Rightarrow> Inr (r\<lparr>xr_session := True\<rparr>), xb)))"

definition exec_one_shot ::
    "('k, 'c) ssh_env \<Rightarrow> time \<Rightarrow> string \<Rightarrow> string \<Rightarrow> string \<Rightarrow> string \<Rightarrow> int \<Rightarrow> ('k, 'c) exec_broker \<Rightarrow>
     (exec_error + exec_result) \<times> ('k, 'c) exec_broker" where
  "exec_one_shot env now agent target role command timeout xb =
     (case sign_and_connect env agent target role xb of
        (Inl e, xb) \<Rightarrow> (Inl e, xb)
      | (Inr sr, xb) \<Rightarrow>
          let xb = update_state (add_cert (exec_cert now agent target role sr)) xb;
              res = exec_command env (cn_client sr) target role command timeout
          in (res, close_client (cn_client sr) (forget_cert (cn_serial sr) xb)))"

definition close_session :: "string \<Rightarrow> string \<Rightarrow> ('k, 'c) exec_broker \<Rightarrow> exec_error option \<times> ('k, 'c) exec_broker" where
  "close_session agent sid xb =
     (case get (xb_sessions xb) sid of
        None \<Rightarrow> (Some (NoSuchSession sid), xb)
      | Some s \<Rightarrow>
          if xs_agent_name s \<noteq> agent then (Some (SessionOfOtherAgent sid), xb)
          else
            let xb = xb\<lparr>xb_sessions := del sid (xb_sessions xb)\<rparr>;
                xb = (case xs_client s of None \<Rightarrow> xb | Some client \<Rightarrow> close_client client xb);
                xb = (if xs_cert_serial s \<noteq> [] then forget_cert (xs_cert_serial s) xb else xb)
            in (None, xb))"

record exec_session_info =
  xi_id :: string
  xi_target :: string
  xi_role :: string
  xi_created_at :: time
  xi_last_used :: time

definition list_sessions :: "string \<Rightarrow> ('k, 'c) exec_broker \<Rightarrow> exec_session_info list" where
  "list_sessions agent xb =
     map (\<lambda>(_, s). \<lparr>xi_id = xs_id s, xi_target = xs_target s, xi_role = xs_role s, xi_created_at = xs_created_at s,
            xi_last_used = xs_last_used s\<rparr>)
       (filter (\<lambda>(_, s). \<not> (agent \<noteq> [] \<and> xs_agent_name s \<noteq> agent)) (xb_sessions xb))"

definition idle_sessions :: "time \<Rightarrow> ('k, 'c) exec_broker \<Rightarrow> (string \<times> string) list" where
  "idle_sessions now xb =
     map (\<lambda>(sid, s). (sid, xs_agent_name s)) (filter (\<lambda>(_, s). now - xs_last_used s > 5 * minute) (xb_sessions xb))"

definition close_idle :: "time \<Rightarrow> ('k, 'c) exec_broker \<Rightarrow> ('k, 'c) exec_broker" where
  "close_idle now xb = fold (\<lambda>(sid, agent) xb. snd (close_session agent sid xb)) (idle_sessions now xb) xb"

definition truncate_text :: "string \<Rightarrow> nat \<Rightarrow> string" where
  "truncate_text s max_len =
     (if length s \<le> max_len then s else if max_len \<le> 3 then take max_len s else take (max_len - 3) s @ ''...'')"

lemma truncate_text_fits: "length (truncate_text s n) \<le> n" "n > 3 \<Longrightarrow> take (n - 3) (truncate_text s n) = take (n - 3) s"
  by (auto simp: truncate_text_def)

end
