(* ===== verification/ExecTools.thy ===== *)
theory ExecTools
  imports ExecPool TaskTools CommandFilter
begin

text \<open>
  Component \<open>internal/broker/mcp_tools.go\<close>, the tools of an agent that work on SSH targets:
  \<open>list_targets\<close>, \<open>exec\<close>, the session tools and \<open>list_certs\<close>. The conversion of a JSON number
  to an integer, \<open>int(float64)\<close>, is the argument \<open>float_int\<close> on the number's text. Metrics, audit
  log, broadcasts and the printing of the answers are left out.
\<close>

datatype exec_tool_error =
    MissingArg string
  | TargetNotInPolicy string
  | TargetAccessDenied string
  | RoleNotForAgentOnTarget string string
  | RoleNotYours string
  | RoleNotOnTarget string string
  | TargetDisabled string
  | EnvelopeViolation envelope_error
  | CommandBlocked deny_reason
  | CommandBlockedSuspended deny_reason string
  | ExecUnavailable
  | ExecFailed exec_error
  | SessionCreateFailed exec_error
  | SessionCloseFailed exec_error

definition get_int_arg :: "(string \<Rightarrow> int) \<Rightarrow> tool_args \<Rightarrow> string \<Rightarrow> int \<Rightarrow> int" where
  "get_int_arg float_int args key dflt = (case get args key of Some (JNum s) \<Rightarrow> float_int s | _ \<Rightarrow> dflt)"

definition clamp_arg :: "int \<Rightarrow> int \<Rightarrow> int" where
  "clamp_arg limit n = (let n = (if n < 1 then 1 else n) in if n > limit then limit else n)"

text \<open>The pattern \<open>if !ok || s == ""\<close> of a required argument.\<close>

definition needed :: "tool_args \<Rightarrow> string \<Rightarrow> exec_tool_error + string" where
  "needed args key =
     (case get_string_arg args key of
        None \<Rightarrow> Inl (MissingArg key)
      | Some s \<Rightarrow> if s = [] then Inl (MissingArg key) else Inr s)"

definition optional_text :: "tool_args \<Rightarrow> string \<Rightarrow> string" where
  "optional_text args key = (case get_string_arg args key of None \<Rightarrow> [] | Some s \<Rightarrow> s)"

definition get_agent_perms :: "mcp_agent \<Rightarrow> resolved_agent_perms" where
  "get_agent_perms agent =
     (case ma_perms agent of
        Some p \<Rightarrow> p
      | None \<Rightarrow> \<lparr>rp_ssh_access = [], rp_service_access = [], rp_remote_access = [], rp_dashboard = DashboardAdmin,
                 rp_legacy_mode = True\<rparr>)"

text \<open>The checks that \<open>exec\<close> and \<open>session_create\<close> share, in their order.\<close>

definition check_access ::
    "mcp_agent \<Rightarrow> string \<Rightarrow> string \<Rightarrow> 'k cert_broker \<Rightarrow> exec_tool_error + target_policy" where
  "check_access agent target role bs =
     (case get (cfg_targets (rc_raw (cb_policy bs))) target of
        None \<Rightarrow> Inl (TargetNotInPolicy target)
      | Some tgt \<Rightarrow>
          let perms = get_agent_perms agent;
              target_roles = get_target_roles perms target
          in if \<not> can_access_target perms target then Inl (TargetAccessDenied target)
             else if length target_roles > 0 \<and> \<not> list_ex (\<lambda>r. r = role) target_roles then
               Inl (RoleNotForAgentOnTarget role target)
             else if \<not> list_ex (\<lambda>r. r = role) (ma_roles agent) then Inl (RoleNotYours role)
             else if \<not> list_ex (\<lambda>r. r = role) (tg_allowed_roles tgt) then Inl (RoleNotOnTarget role target)
             else if \<not> host_is_enabled (cb_hosts bs) target then Inl (TargetDisabled target)
             else Inr tgt)"

text \<open>
  The command filter: an error and whether the host is switched off for everyone
  (\<open>auto_revoke_on_deny\<close>).
\<close>

definition filter_command :: "target_policy \<Rightarrow> string \<Rightarrow> string \<Rightarrow> exec_tool_error option \<times> bool" where
  "filter_command tgt target command =
     (if \<not> tg_command_filter tgt then (None, False)
      else
        let res = check_command command (tg_command_deny tgt) (tg_command_allow tgt) True
        in if cf_allowed res then (None, False)
           else if tg_auto_revoke_on_deny tgt then (Some (CommandBlockedSuspended (cf_reason res) target), True)
           else (Some (CommandBlocked (cf_reason res)), False))"

definition disable_host :: "string \<Rightarrow> ('k, 'c) exec_broker \<Rightarrow> ('k, 'c) exec_broker" where
  "disable_host target xb =
     xb\<lparr>xb_broker := (xb_broker xb)\<lparr>cb_hosts := host_set_enabled target False (cb_hosts (xb_broker xb))\<rparr>\<rparr>"

definition tool_exec ::
    "('k, 'c) ssh_env \<Rightarrow> (string \<Rightarrow> int) \<Rightarrow> time \<Rightarrow> mcp_agent \<Rightarrow> tool_args \<Rightarrow> ('k, 'c) exec_broker \<Rightarrow>
     (exec_tool_error + exec_result) \<times> ('k, 'c) exec_broker" where
  "tool_exec env float_int now agent args xb =
     (case needed args ''target'' of Inl e \<Rightarrow> (Inl e, xb) | Inr target \<Rightarrow>
     (case needed args ''role'' of Inl e \<Rightarrow> (Inl e, xb) | Inr role \<Rightarrow>
     (case needed args ''command'' of Inl e \<Rightarrow> (Inl e, xb) | Inr command \<Rightarrow>
        let timeout = clamp_arg 300 (get_int_arg float_int args ''timeout'' 30);
            sid = optional_text args ''session_id''
        in
     (case check_access agent target role (xb_broker xb) of Inl e \<Rightarrow> (Inl e, xb) | Inr tgt \<Rightarrow>
     (case enforce_exec_envelope (map_option cl_envelope (ma_task_claims agent)) target role of
        Some e \<Rightarrow> (Inl (EnvelopeViolation e), xb)
      | None \<Rightarrow>
     (case filter_command tgt target command of
        (Some e, suspend) \<Rightarrow> (Inl e, if suspend then disable_host target xb else xb)
      | (None, _) \<Rightarrow>
          if \<not> xb_ready xb then (Inl ExecUnavailable, xb)
          else
            (case (if sid \<noteq> [] then exec_in_session env now (ma_name agent) sid command timeout xb
                   else exec_one_shot env now (ma_name agent) target role command timeout xb) of
               (Inl e, xb) \<Rightarrow> (Inl (ExecFailed e), xb)
             | (Inr r, xb) \<Rightarrow> (Inr r, xb))))))))"

text \<open>\<open>session_create\<close> has no envelope check and no command filter.\<close>

definition tool_session_create ::
    "('k, 'c) ssh_env \<Rightarrow> time \<Rightarrow> bytes option \<Rightarrow> mcp_agent \<Rightarrow> tool_args \<Rightarrow> ('k, 'c) exec_broker \<Rightarrow>
     (exec_tool_error + string \<times> string \<times> string) \<times> ('k, 'c) exec_broker" where
  "tool_session_create env now rnd agent args xb =
     (case needed args ''target'' of Inl e \<Rightarrow> (Inl e, xb) | Inr target \<Rightarrow>
     (case needed args ''role'' of Inl e \<Rightarrow> (Inl e, xb) | Inr role \<Rightarrow>
     (case check_access agent target role (xb_broker xb) of Inl e \<Rightarrow> (Inl e, xb) | Inr tgt \<Rightarrow>
        if \<not> xb_ready xb then (Inl ExecUnavailable, xb)
        else
          (case open_session env now rnd (ma_name agent) target role xb of
             (Inl e, xb) \<Rightarrow> (Inl (SessionCreateFailed e), xb)
           | (Inr s, xb) \<Rightarrow> (Inr (xs_id s, target, role), xb)))))"

definition tool_session_close ::
    "mcp_agent \<Rightarrow> tool_args \<Rightarrow> ('k, 'c) exec_broker \<Rightarrow> (exec_tool_error + string) \<times> ('k, 'c) exec_broker" where
  "tool_session_close agent args xb =
     (case needed args ''session_id'' of Inl e \<Rightarrow> (Inl e, xb) | Inr sid \<Rightarrow>
        if \<not> xb_ready xb then (Inl ExecUnavailable, xb)
        else (case close_session (ma_name agent) sid xb of
                (Some e, xb) \<Rightarrow> (Inl (SessionCloseFailed e), xb)
              | (None, xb) \<Rightarrow> (Inr sid, xb)))"

definition tool_list_sessions ::
    "mcp_agent \<Rightarrow> ('k, 'c) exec_broker \<Rightarrow> exec_tool_error + exec_session_info list" where
  "tool_list_sessions agent xb =
     (if \<not> xb_ready xb then Inl ExecUnavailable else Inr (list_sessions (ma_name agent) xb))"

record target_info =
  lt_name :: string
  lt_host :: string
  lt_port :: int
  lt_vlan :: int
  lt_roles :: "string list"
  lt_description :: string
  lt_enabled :: bool

definition tool_list_targets :: "mcp_agent \<Rightarrow> ('k, 'c) exec_broker \<Rightarrow> target_info list" where
  "tool_list_targets agent xb =
     concat (map (\<lambda>(name, t).
         let matched = filter (\<lambda>r. list_ex (\<lambda>a. a = r) (ma_roles agent)) (tg_allowed_roles t)
         in if length matched = 0 then []
            else [\<lparr>lt_name = name, lt_host = tg_host t, lt_port = (if tg_port t = 0 then 22 else tg_port t),
                   lt_vlan = tg_vlan t, lt_roles = matched, lt_description = tg_description t,
                   lt_enabled = host_is_enabled (cb_hosts (xb_broker xb)) name\<rparr>])
       (cfg_targets (rc_raw (cb_policy (xb_broker xb)))))"

record cert_info =
  ci_serial :: string
  ci_target :: string
  ci_role :: string
  ci_principal :: string
  ci_expires_at :: string

definition tool_list_certs :: "int \<Rightarrow> mcp_agent \<Rightarrow> ('k, 'c) exec_broker \<Rightarrow> cert_info list" where
  "tool_list_certs tz agent xb =
     map (\<lambda>c. \<lparr>ci_serial = av_serial c, ci_target = av_target c, ci_role = av_role c, ci_principal = av_principal c,
            ci_expires_at = format_rfc3339 tz (av_expires_at c)\<rparr>)
       (filter (\<lambda>c. av_agent_name c = ma_name agent) (list_all_certs (cb_state (xb_broker xb))))"

end
