(* ===== verification/ExecSafety.thy ===== *)
theory ExecSafety
  imports ExecTools "HOL-Library.Multiset"
begin

text \<open>
  What the exec tools guarantee: which commands run where, that no connection is lost and no agent
  holds more sessions than the pool allows, and what a session id leaves unchecked.
\<close>

section \<open>One command\<close>

definition exec_request :: "string \<Rightarrow> string \<Rightarrow> string \<Rightarrow> string \<Rightarrow> string \<Rightarrow> 'k resolved_config \<Rightarrow> sign_request" where
  "exec_request agent target role prin key rc =
     no_request\<lparr>rq_public_key := key, rq_principals := [prin], rq_duration := format_duration (exec_duration rc),
       rq_key_id := ''mcp-'' @ agent @ ''@'' @ target @ ''/'' @ role, rq_action := ''sign''\<rparr>"

text \<open>A connection that \<open>signAndConnect\<close> opens: what was signed and where it leads.\<close>

definition connected ::
    "('k, 'c) ssh_env \<Rightarrow> string \<Rightarrow> string \<Rightarrow> string \<Rightarrow> 'k resolved_config \<Rightarrow> 'c ssh_connection \<Rightarrow> bool" where
  "connected env agent target role rc sr \<longleftrightarrow>
     (\<exists>tgt role_def key resp cert. get (cfg_targets (rc_raw rc)) target = Some tgt \<and>
        get (cfg_roles (rc_raw rc)) role = Some role_def \<and> sx_new_key env = Some key \<and>
        sx_do_ipc env (exec_request agent target role (rd_principal role_def) key rc) = Some resp \<and>
        resp_error resp = None \<and> parse_ssh_cert env (resp_certificate resp) = Inr cert \<and>
        (gp_host_key_strict (cfg_global (rc_raw rc)) \<longrightarrow>
           get (rc_target_host_keys rc) target \<noteq> None \<or> tg_host_key_fingerprint tgt \<noteq> []) \<and>
        sx_dial env (rd_principal role_def)
          (join_host_port (tg_host tgt) (if tg_port tgt = 0 then 22 else tg_port tgt)) cert
          (host_key_callback env (get (rc_target_host_keys rc) target)
             (if get (rc_target_host_keys rc) target = None then tg_host_key_fingerprint tgt else [])) = Some (cn_client sr) \<and>
        cn_serial sr = resp_serial resp \<and> cn_principal sr = rd_principal role_def)"

lemma sign_and_connect_cases:
  assumes "sign_and_connect env agent target role xb = (res, xb')"
  obtains (failed) e where "res = Inl e" "xb' = xb"
  | (opened) sr where "res = Inr sr" "xb' = xb\<lparr>xb_open := cn_client sr # xb_open xb\<rparr>"
      "connected env agent target role (cb_policy (xb_broker xb)) sr"
proof -
  note step = assms [unfolded sign_and_connect_def Let_def]
  show ?thesis
  proof (cases res)
    case (Inl e)
    then have "xb' = xb" using step by (simp split: option.splits sum.splits if_splits)
    with Inl show ?thesis by (rule failed)
  next
    case (Inr sr)
    obtain tgt where tgt: "get (cfg_targets (rc_raw (cb_policy (xb_broker xb)))) target = Some tgt"
      using step Inr by (cases "get (cfg_targets (rc_raw (cb_policy (xb_broker xb)))) target") auto
    obtain rd where rd: "get (cfg_roles (rc_raw (cb_policy (xb_broker xb)))) role = Some rd"
      using step Inr tgt by (cases "get (cfg_roles (rc_raw (cb_policy (xb_broker xb)))) role") auto
    obtain key where key: "sx_new_key env = Some key" using step Inr tgt rd by (cases "sx_new_key env") auto
    note step = step [unfolded tgt rd key option.case]
    obtain resp where signed: "request_sign (sx_do_ipc env)
        (no_request\<lparr>rq_public_key := key, rq_principals := [rd_principal rd],
           rq_duration := format_duration (exec_duration (cb_policy (xb_broker xb))),
           rq_key_id := ''mcp-'' @ agent @ ''@'' @ target @ ''/'' @ role\<rparr>) = Inr resp"
      using step Inr by (auto split: sum.splits)
    note step = step [unfolded signed sum.case]
    have resp: "sx_do_ipc env (exec_request agent target role (rd_principal rd) key (cb_policy (xb_broker xb))) = Some resp"
        "resp_error resp = None"
      using signed by (auto simp: request_sign_def exec_request_def split: option.splits)
    obtain cert where cert: "parse_ssh_cert env (resp_certificate resp) = Inr cert"
      using step Inr by (auto split: sum.splits)
    note step = step [unfolded cert sum.case]
    show ?thesis
      using step Inr tgt rd key resp cert
      by (intro opened [of sr]) (auto simp: connected_def split: option.splits if_splits)
  qed
qed

lemma check_access_Inr:
  "check_access agent target role bs = Inr tgt \<longleftrightarrow>
     get (cfg_targets (rc_raw (cb_policy bs))) target = Some tgt \<and> can_access_target (get_agent_perms agent) target \<and>
     (get_target_roles (get_agent_perms agent) target = [] \<or> role \<in> set (get_target_roles (get_agent_perms agent) target)) \<and>
     role \<in> set (ma_roles agent) \<and> role \<in> set (tg_allowed_roles tgt) \<and> host_is_enabled (cb_hosts bs) target"
  by (auto simp: check_access_def Let_def list_ex_iff split: option.splits)

lemma tool_exec_checked:
  assumes "tool_exec env float_int now agent args xb = (Inr r, xb')"
  obtains target role command tgt where
    "needed args ''target'' = Inr target" "needed args ''role'' = Inr role" "needed args ''command'' = Inr command"
    "check_access agent target role (xb_broker xb) = Inr tgt"
    "enforce_exec_envelope (map_option cl_envelope (ma_task_claims agent)) target role = None"
    "fst (filter_command tgt target command) = None"
    "(if optional_text args ''session_id'' \<noteq> [] then
        exec_in_session env now (ma_name agent) (optional_text args ''session_id'') command
          (clamp_arg 300 (get_int_arg float_int args ''timeout'' 30)) xb
      else exec_one_shot env now (ma_name agent) target role command
          (clamp_arg 300 (get_int_arg float_int args ''timeout'' 30)) xb) = (Inr r, xb')"
proof -
  note step = assms [unfolded tool_exec_def Let_def]
  obtain target where target: "needed args ''target'' = Inr target" using step by (cases "needed args ''target''") auto
  obtain role where role: "needed args ''role'' = Inr role" using step target by (cases "needed args ''role''") auto
  obtain command where command: "needed args ''command'' = Inr command"
    using step target role by (cases "needed args ''command''") auto
  note step = step [unfolded target role command sum.case]
  obtain tgt where tgt: "check_access agent target role (xb_broker xb) = Inr tgt"
    using step by (cases "check_access agent target role (xb_broker xb)") auto
  have env: "enforce_exec_envelope (map_option cl_envelope (ma_task_claims agent)) target role = None"
    using step tgt by (cases "enforce_exec_envelope (map_option cl_envelope (ma_task_claims agent)) target role") auto
  note step = step [unfolded tgt env sum.case option.case]
  have ok: "fst (filter_command tgt target command) = None" using step by (auto split: prod.splits option.splits)
  then obtain b where "filter_command tgt target command = (None, b)" by (metis prod.collapse)
  with step have run: "(if optional_text args ''session_id'' \<noteq> [] then
        exec_in_session env now (ma_name agent) (optional_text args ''session_id'') command
          (clamp_arg 300 (get_int_arg float_int args ''timeout'' 30)) xb
      else exec_one_shot env now (ma_name agent) target role command
          (clamp_arg 300 (get_int_arg float_int args ''timeout'' 30)) xb) = (Inr r, xb')"
    by (auto split: prod.splits sum.splits if_splits)
  show thesis by (rule that [OF target role command tgt env ok run])
qed


end
