(* ===== verification/ExecRuns.thy ===== *)
theory ExecRuns
  imports ExecSafety
begin

text \<open>
  Runs of the session pool. Between the tools' calls anything may happen to the rest of the broker:
  policy reloads, host switches, certificates of the API. Session ids are assumed fresh.
\<close>

inductive exec_run :: "int \<Rightarrow> ('k, 'c) exec_broker \<Rightarrow> bool" where
  start: "exec_run n (new_exec_pool n bs)"
| create: "exec_run n xb \<Longrightarrow> (\<And>b. rnd = Some b \<Longrightarrow> get (xb_sessions xb) (hex_encode b) = None) \<Longrightarrow>
    exec_run n (snd (tool_session_create env now rnd agent args xb))"
| exec: "exec_run n xb \<Longrightarrow> exec_run n (snd (tool_exec env float_int now agent args xb))"
| close: "exec_run n xb \<Longrightarrow> exec_run n (snd (tool_session_close agent args xb))"
| idle: "exec_run n xb \<Longrightarrow> exec_run n (close_idle now xb)"
| elsewhere: "exec_run n xb \<Longrightarrow> exec_run n (xb\<lparr>xb_broker := bs\<rparr>)"

definition clients :: "(string, 'c exec_session) gomap \<Rightarrow> 'c multiset" where
  "clients m = image_mset (\<lambda>(_, s). the (xs_client s)) (mset m)"

definition session_limit :: "int \<Rightarrow> int" where
  "session_limit n = (if n \<le> 0 then 5 else n)"

definition pool_ok :: "int \<Rightarrow> ('k, 'c) exec_broker \<Rightarrow> bool" where
  "pool_ok n xb \<longleftrightarrow> map_wf (xb_sessions xb) \<and> xb_max_per_agent xb = session_limit n \<and>
     (\<forall>sid s. get (xb_sessions xb) sid = Some s \<longrightarrow> xs_id s = sid \<and> xs_client s \<noteq> None) \<and>
     (\<forall>agent. int (sessions_of agent xb) \<le> session_limit n) \<and> mset (xb_open xb) = clients (xb_sessions xb)"

section \<open>Association lists as multisets\<close>

lemma mset_put_new: "get m k = None \<Longrightarrow> mset (put k v m) = add_mset (k, v) (mset m)"
  by (induction m) (auto simp: put_def get_def)

lemma mset_put_old: "map_wf m \<Longrightarrow> get m k = Some u \<Longrightarrow> mset (put k v m) = add_mset (k, v) (mset m - {#(k, u)#})"
proof (induction m)
  case (Cons e m)
  then show ?case by (cases e) (auto simp: put_def get_def map_wf_def split: if_splits)
qed (simp add: get_def)

lemma mset_del: "map_wf m \<Longrightarrow> get m k = Some u \<Longrightarrow> mset (del k m) = mset m - {#(k, u)#}"
proof (induction m)
  case (Cons e m)
  obtain j x where e: "e = (j, x)" by fastforce
  show ?case
  proof (cases "j = k")
    case True
    then have "k \<notin> fst ` set m" using Cons.prems(1) by (simp add: e map_wf_def)
    then have "del k m = m" unfolding del_def by (rule delete_id)
    then show ?thesis using Cons.prems True by (simp add: e del_def)
  next
    case False
    then show ?thesis using Cons by (auto simp: e map_wf_def del_def)
  qed
qed simp

lemma mset_mem: "get m k = Some u \<Longrightarrow> (k, u) \<in># mset m"
  using get_Some_in_set [of m k u] by simp

lemma sessions_of_mset: "sessions_of agent xb = size (filter_mset (\<lambda>(_, s). xs_agent_name s = agent) (mset (xb_sessions xb)))"
  by (simp add: sessions_of_def flip: mset_filter)

section \<open>The invariant\<close>

lemma pool_ok_elsewhere: "pool_ok n xb \<Longrightarrow> pool_ok n (xb\<lparr>xb_broker := bs\<rparr>)"
  by (simp add: pool_ok_def sessions_of_def)

lemma pool_ok_same:
  "pool_ok n xb \<Longrightarrow> xb_sessions xb' = xb_sessions xb \<Longrightarrow> xb_open xb' = xb_open xb \<Longrightarrow>
   xb_max_per_agent xb' = xb_max_per_agent xb \<Longrightarrow> pool_ok n xb'"
  by (simp add: pool_ok_def sessions_of_def)

lemma update_state_pool [simp]:
  "xb_sessions (update_state f xb) = xb_sessions xb" "xb_open (update_state f xb) = xb_open xb"
  "xb_max_per_agent (update_state f xb) = xb_max_per_agent xb"
  "xb_sessions (forget_cert serial xb) = xb_sessions xb" "xb_open (forget_cert serial xb) = xb_open xb"
  "xb_max_per_agent (forget_cert serial xb) = xb_max_per_agent xb"
  "xb_sessions (close_client c xb) = xb_sessions xb" "xb_open (close_client c xb) = remove1 c (xb_open xb)"
  "xb_max_per_agent (close_client c xb) = xb_max_per_agent xb"
  by (simp_all add: update_state_def forget_cert_def close_client_def)

lemma pool_ok_close:
  assumes ok: "pool_ok n xb"
  shows "pool_ok n (snd (close_session agent sid xb))"
proof (cases "snd (close_session agent sid xb) = xb")
  case False
  then obtain s where s: "get (xb_sessions xb) sid = Some s" "xs_agent_name s = agent"
    by (auto simp: close_session_def split: option.splits if_splits)
  then obtain c where c: "xs_client s = Some c" using ok unfolding pool_ok_def by blast
  let ?xb = "snd (close_session agent sid xb)"
  have after: "xb_sessions ?xb = del sid (xb_sessions xb)" "xb_open ?xb = remove1 c (xb_open xb)"
    "xb_max_per_agent ?xb = xb_max_per_agent xb"
    using s c by (simp_all add: close_session_def Let_def)
  have m: "mset (del sid (xb_sessions xb)) = mset (xb_sessions xb) - {#(sid, s)#}"
    using ok s by (simp add: mset_del pool_ok_def)
  have "sessions_of a ?xb \<le> sessions_of a xb" for a
    unfolding sessions_of_mset after m by (intro size_mset_mono multiset_filter_mono) simp
  then have "int (sessions_of a ?xb) \<le> session_limit n" for a
    using ok unfolding pool_ok_def by (meson of_nat_mono order_trans)
  moreover have "clients (del sid (xb_sessions xb)) = clients (xb_sessions xb) - {#c#}"
    using mset_mem [OF s(1)] c by (simp add: clients_def m image_mset_Diff)
  ultimately show ?thesis using ok by (simp add: pool_ok_def after)
qed (use ok in simp)

lemma pool_ok_idle:
  assumes ok: "pool_ok n xb"
  shows "pool_ok n (close_idle now xb)"
proof -
  have "pool_ok n (fold (\<lambda>(sid, agent) xb. snd (close_session agent sid xb)) ss xb)" for ss
    using ok by (induction ss arbitrary: xb) (auto simp: pool_ok_close)
  then show ?thesis by (simp add: close_idle_def)
qed

lemma pool_ok_touch:
  assumes ok: "pool_ok n xb" and s: "get (xb_sessions xb) sid = Some s"
  shows "pool_ok n (xb\<lparr>xb_sessions := put sid (s\<lparr>xs_last_used := now\<rparr>) (xb_sessions xb)\<rparr>)"
proof -
  have m: "mset (put sid (s\<lparr>xs_last_used := now\<rparr>) (xb_sessions xb)) =
      add_mset (sid, s\<lparr>xs_last_used := now\<rparr>) (mset (xb_sessions xb) - {#(sid, s)#})"
    using ok s by (simp add: mset_put_old pool_ok_def)
  obtain rest where rest: "mset (xb_sessions xb) = add_mset (sid, s) rest"
    using mset_mem [OF s] by (metis insert_DiffM)
  have "sessions_of a (xb\<lparr>xb_sessions := put sid (s\<lparr>xs_last_used := now\<rparr>) (xb_sessions xb)\<rparr>) = sessions_of a xb" for a
    unfolding sessions_of_mset by (simp add: m rest)
  then show ?thesis using ok s by (simp add: pool_ok_def clients_def m rest)
qed

lemma snd_outcome:
  "snd (case p of (Inl e, y) \<Rightarrow> (f e, y) | (Inr r, y) \<Rightarrow> (g r, y)) = snd p"
  "snd (case q of (Some e, y) \<Rightarrow> (h e, y) | (None, y) \<Rightarrow> (k, y)) = snd q"
  by (auto split: prod.splits sum.splits option.splits)

lemma pool_ok_exec:
  assumes ok: "pool_ok n xb"
  shows "pool_ok n (snd (tool_exec env float_int now agent args xb))"
proof -
  have disabled: "pool_ok n (disable_host target xb)" for target
    using pool_ok_elsewhere [OF ok] by (simp add: disable_host_def)
  have in_session: "pool_ok n (snd (exec_in_session env now a sid command timeout xb))" for a sid command timeout
    using ok pool_ok_touch [OF ok] by (auto simp: exec_in_session_def Let_def split: option.splits)
  have one_shot: "pool_ok n (snd (exec_one_shot env now a target role command timeout xb))" for a target role command timeout
  proof -
    obtain res xb1 where s: "sign_and_connect env a target role xb = (res, xb1)" by fastforce
    then show ?thesis
      using ok by (cases rule: sign_and_connect_cases) (auto simp: exec_one_shot_def Let_def s intro: pool_ok_same)
  qed
  have filtered: "pool_ok n (snd (case filter_command tgt target command of
      (Some e, suspend) \<Rightarrow> (f e, if suspend then disable_host target xb else xb)
    | (None, _) \<Rightarrow> p))" if "pool_ok n (snd p)" for tgt target command f and p :: "(exec_tool_error + exec_result) \<times> _"
    using that ok disabled by (auto split: prod.splits option.splits)
  show ?thesis
    unfolding tool_exec_def Let_def
    using ok in_session one_shot
    by (auto simp: snd_outcome intro!: filtered split: sum.split option.split)
qed

lemma pool_ok_open:
  assumes ok: "pool_ok n xb" and fresh: "\<And>b. rnd = Some b \<Longrightarrow> get (xb_sessions xb) (hex_encode b) = None"
  shows "pool_ok n (snd (open_session env now rnd agent target role xb))"
proof (cases "int (sessions_of agent xb) \<ge> xb_max_per_agent xb")
  case False
  obtain res xb1 where s: "sign_and_connect env agent target role xb = (res, xb1)" by fastforce
  show ?thesis
  proof (cases "get (cfg_roles (rc_raw (cb_policy (xb_broker xb)))) role")
    case (Some rd)
    from s show ?thesis
    proof (cases rule: sign_and_connect_cases)
      case (failed e)
      then show ?thesis using ok by (simp add: open_session_def s Some)
    next
      case (opened c)
      show ?thesis
      proof (cases rnd)
        case None
        then show ?thesis using ok opened False by (auto simp: open_session_def s Some Let_def intro: pool_ok_same)
      next
        case (Some b)
        let ?xb = "snd (open_session env now rnd agent target role xb)"
        obtain sess where after: "xb_sessions ?xb = put (hex_encode b) sess (xb_sessions xb)" "xs_id sess = hex_encode b"
            "xs_agent_name sess = agent" "xs_client sess = Some (cn_client c)" "xb_open ?xb = cn_client c # xb_open xb"
            "xb_max_per_agent ?xb = xb_max_per_agent xb"
          using opened False \<open>get _ role = _\<close> by (simp add: open_session_def s Some Let_def)
        have m: "mset (xb_sessions ?xb) = add_mset (hex_encode b, sess) (mset (xb_sessions xb))"
          using fresh [OF Some] by (simp add: after mset_put_new)
        have "sessions_of a ?xb = (if a = agent then Suc (sessions_of a xb) else sessions_of a xb)" for a
          unfolding sessions_of_mset m by (simp add: after)
        then have "int (sessions_of a ?xb) \<le> session_limit n" for a
          using ok False by (simp add: pool_ok_def)
        moreover have "mset (xb_open ?xb) = clients (xb_sessions ?xb)"
          using ok by (simp add: pool_ok_def clients_def m after(4,5))
        ultimately show ?thesis
          using ok after(2,4) by (simp add: pool_ok_def after(6)) (simp add: after(1))
      qed
    qed
  qed (use ok False in \<open>simp add: open_session_def\<close>)
qed (use ok in \<open>simp add: open_session_def\<close>)

lemma pool_ok_run: "exec_run n xb \<Longrightarrow> pool_ok n xb"
proof (induction rule: exec_run.induct)
  case (start n bs)
  show ?case by (auto simp: pool_ok_def new_exec_pool_def clients_def sessions_of_def session_limit_def)
next
  case (create n xb rnd env now agent args)
  then have "pool_ok n (snd (open_session env now rnd (ma_name agent) target role xb))" for target role
    by (intro pool_ok_open)
  then show ?case
    using create.IH by (auto simp: tool_session_create_def snd_outcome split: sum.splits)
next
  case (close n xb agent args)
  then show ?case
    using pool_ok_close [OF close.IH]
    by (auto simp: tool_session_close_def snd_outcome split: sum.splits)
qed (simp_all add: pool_ok_exec pool_ok_idle pool_ok_elsewhere)


text \<open>
  The target named in a call of \<open>exec\<close> with a session id only decides the checks. The
  command runs on the session's own connection, to the session's target and with its role: neither
  that host's switch nor its command filter nor the task envelope is consulted for it.
\<close>

theorem session_exec_runs_elsewhere:
  assumes args: "needed args ''target'' = Inr target" "needed args ''role'' = Inr role" "needed args ''command'' = Inr command"
    and sid: "optional_text args ''session_id'' = sid" "sid \<noteq> []"
    and named: "check_access agent target role (xb_broker xb) = Inr tgt" "\<not> tg_command_filter tgt"
      "enforce_exec_envelope (map_option cl_envelope (ma_task_claims agent)) target role = None"
    and session: "get (xb_sessions xb) sid = Some s" "xs_agent_name s = ma_name agent" "xs_client s = Some c" "xb_ready xb"
  shows "fst (tool_exec env float_int now agent args xb) =
    (case exec_command env c (xs_target s) (xs_role s) command (clamp_arg 300 (get_int_arg float_int args ''timeout'' 30)) of
       Inl e \<Rightarrow> Inl (ExecFailed e) | Inr r \<Rightarrow> Inr (r\<lparr>xr_session := True\<rparr>))"
  using assms by (simp add: tool_exec_def filter_command_def exec_in_session_def Let_def split: sum.split)

section \<open>A run\<close>

definition sample_ssh :: "(unit, nat) ssh_env" where
  "sample_ssh = \<lparr>sx_do_ipc = sample_reply, sx_new_key = Some ''key'', sx_parse_cert = (\<lambda>_. SshCertificate []),
     sx_cert_matches_key = (\<lambda>_. True), sx_marshal = (\<lambda>_. []), sx_sha256 = (\<lambda>_. []),
     sx_dial = (\<lambda>user addr cert check. if check () then Some 1 else None),
     sx_run = (\<lambda>client command timeout. Exited 0 ''ok'' [])\<rparr>"

definition sample_user :: mcp_agent where
  "sample_user = \<lparr>ma_name = ''claude'', ma_roles = [''read''], ma_max_concurrent = 1, ma_auto_approve = True,
     ma_perms = None, ma_task_claims = None, ma_raw_macaroon = None\<rparr>"

definition sample_args :: tool_args where
  "sample_args = [(''target'', JStr ''web''), (''role'', JStr ''read''), (''command'', JStr ''uptime'')]"

definition sample_pool :: "(unit, nat) exec_broker" where
  "sample_pool = new_exec_pool 2 sample_cert_broker"

definition with_session :: "(unit, nat) exec_broker" where
  "with_session = snd (tool_session_create sample_ssh 100 (Some ''ab'') sample_user sample_args sample_pool)"

lemma with_session_run: "exec_run 2 with_session"
  unfolding with_session_def sample_pool_def
  by (rule exec_run.create [OF exec_run.start]) (simp add: new_exec_pool_def)



definition old_session :: "nat exec_session" where
  "old_session = \<lparr>xs_id = ''s1'', xs_agent_name = ''claude'', xs_target = ''db'', xs_role = ''read'', xs_principal = ''ro'',
     xs_cert_serial = [], xs_client = Some 2, xs_created_at = 50, xs_last_used = 50\<rparr>"

definition db_disabled :: "(unit, nat) exec_broker" where
  "db_disabled = (disable_host ''db'' sample_pool)\<lparr>xb_sessions := [(''s1'', old_session)], xb_open := [2]\<rparr>"

theorem session_exec_runs_elsewhere_witness:
  "fst (tool_exec sample_ssh (\<lambda>_. 0) 100 sample_user ((''session_id'', JStr ''s1'') # sample_args) db_disabled) =
     Inr \<lparr>xr_stdout = ''ok'', xr_stderr = [], xr_exit_code = 0, xr_target = ''db'', xr_role = ''read'', xr_session = True\<rparr> \<and>
   \<not> host_is_enabled (cb_hosts (xb_broker db_disabled)) ''db''"
proof -
  let ?args = "(''session_id'', JStr ''s1'') # sample_args"
  have args: "needed ?args ''target'' = Inr ''web''" "needed ?args ''role'' = Inr ''read''"
    "needed ?args ''command'' = Inr ''uptime''" "optional_text ?args ''session_id'' = ''s1''" "''s1'' \<noteq> []"
    by code_simp+
  obtain tgt where tgt: "check_access sample_user ''web'' ''read'' (xb_broker db_disabled) = Inr tgt" "\<not> tg_command_filter tgt"
  proof -
    have "case check_access sample_user ''web'' ''read'' (xb_broker db_disabled) of Inl e \<Rightarrow> False | Inr tgt \<Rightarrow> \<not> tg_command_filter tgt"
      by code_simp
    then show thesis using that by (auto split: sum.splits)
  qed
  have envelope: "enforce_exec_envelope (map_option cl_envelope (ma_task_claims sample_user)) ''web'' ''read'' = None" by code_simp
  have session: "get (xb_sessions db_disabled) ''s1'' = Some old_session" "xs_agent_name old_session = ma_name sample_user"
    "xs_client old_session = Some 2" "xb_ready db_disabled"
    by (simp_all add: db_disabled_def old_session_def sample_user_def disable_host_def sample_pool_def new_exec_pool_def)
  have "\<not> host_is_enabled (cb_hosts (xb_broker db_disabled)) ''db''" by code_simp
  then show ?thesis
    unfolding session_exec_runs_elsewhere [OF args tgt envelope session]
    by (simp add: exec_command_def sample_ssh_def old_session_def)
qed

end
