(* ===== verification/Urls.thy ===== *)
theory Urls
  imports Prelude
begin

text \<open>
  What \<open>proxy.go\<close> uses of Go's \<open>net/url\<close>: parsing an absolute or relative URL into scheme, user
  information, host, path and query, the host name and port of an authority, and reading and
  writing a query. Texts are bytes, as in Go.
\<close>

section \<open>Characters\<close>

definition code :: "char \<Rightarrow> nat" where
  "code c = of_char c"

definition is_alpha :: "char \<Rightarrow> bool" where
  "is_alpha c \<longleftrightarrow> (97 \<le> code c \<and> code c \<le> 122) \<or> (65 \<le> code c \<and> code c \<le> 90)"

definition is_dec :: "char \<Rightarrow> bool" where
  "is_dec c \<longleftrightarrow> 48 \<le> code c \<and> code c \<le> 57"

definition unhex :: "char \<Rightarrow> nat option" where
  "unhex c =
     (let n = code c in
      if 48 \<le> n \<and> n \<le> 57 then Some (n - 48)
      else if 97 \<le> n \<and> n \<le> 102 then Some (n - 87)
      else if 65 \<le> n \<and> n \<le> 70 then Some (n - 55) else None)"

text \<open>\<open>shouldEscape\<close> for the modes used here; \<open>Part\<close> is every mode whose text is only decoded.\<close>

datatype escape_mode = Host | Zone | Query | Part

definition should_escape :: "escape_mode \<Rightarrow> char \<Rightarrow> bool" where
  "should_escape mode c =
     (if is_alpha c \<or> is_dec c then False
      else if (mode = Host \<or> mode = Zone) \<and> c \<in> set ''!$&()*+,;=:[]<>'' \<union> {CHR 0x22, CHR 0x27} then False
      else if c \<in> set ''-_.~'' then False
      else True)"

fun unescape :: "escape_mode \<Rightarrow> string \<Rightarrow> string option" where
  "unescape mode [] = Some []"
| "unescape mode (c # s) =
     (if c = CHR ''%'' then
        (case s of
           a # b # rest \<Rightarrow>
             (case (unhex a, unhex b) of
                (Some m, Some n) \<Rightarrow>
                  if mode = Host \<and> m < 8 \<and> \<not> (a = CHR ''2'' \<and> b = CHR ''5'') then None
                  else if mode = Zone \<and> \<not> (a = CHR ''2'' \<and> b = CHR ''5'') \<and> 16 * m + n \<noteq> 32 \<and>
                          should_escape Host (char_of (16 * m + n)) then None
                  else map_option ((#) (char_of (16 * m + n))) (unescape mode rest)
              | _ \<Rightarrow> None)
         | _ \<Rightarrow> None)
      else if c = CHR ''+'' \<and> mode = Query then map_option ((#) (CHR '' '')) (unescape mode s)
      else if (mode = Host \<or> mode = Zone) \<and> code c < 128 \<and> should_escape mode c then None
      else map_option ((#) c) (unescape mode s))"

text \<open>\<open>strings.Cut\<close> at one byte, and the last occurrence of a byte.\<close>

fun cut :: "char \<Rightarrow> string \<Rightarrow> string \<times> string option" where
  "cut d [] = ([], None)"
| "cut d (c # s) = (if c = d then ([], Some s) else (case cut d s of (a, b) \<Rightarrow> (c # a, b)))"

definition text_of :: "string option \<Rightarrow> string" where
  "text_of t = (case t of None \<Rightarrow> [] | Some s \<Rightarrow> s)"

definition cut_last :: "char \<Rightarrow> string \<Rightarrow> (string \<times> string) option" where
  "cut_last d s = (case cut d (rev s) of (a, None) \<Rightarrow> None | (a, Some b) \<Rightarrow> Some (rev b, rev a))"

section \<open>Parsing\<close>

record url =
  u_scheme :: string
  u_opaque :: string
  u_user :: "string option"
  u_host :: string
  u_path :: string
  u_query :: string

definition no_url :: url where
  "no_url = \<lparr>u_scheme = [], u_opaque = [], u_user = None, u_host = [], u_path = [], u_query = []\<rparr>"

fun scheme_chars :: "string \<Rightarrow> string \<Rightarrow> (string \<times> string) option" where
  "scheme_chars seen [] = None"
| "scheme_chars seen (c # s) =
     (if is_alpha c \<or> (seen \<noteq> [] \<and> (is_dec c \<or> c \<in> set ''+-.'')) then scheme_chars (seen @ [c]) s
      else if c = CHR '':'' \<and> seen \<noteq> [] then Some (seen, s) else None)"

text \<open>\<open>None\<close> is the error of a missing scheme.\<close>

definition get_scheme :: "string \<Rightarrow> (string \<times> string) option" where
  "get_scheme s =
     (if has_prefix '':'' s then None
      else Some (case scheme_chars [] s of None \<Rightarrow> ([], s) | Some p \<Rightarrow> p))"

definition valid_optional_port :: "string \<Rightarrow> bool" where
  "valid_optional_port p \<longleftrightarrow> p = [] \<or> (hd p = CHR '':'' \<and> list_all is_dec (tl p))"

definition valid_userinfo :: "string \<Rightarrow> bool" where
  "valid_userinfo s \<longleftrightarrow>
     list_all (\<lambda>c. is_alpha c \<or> is_dec c \<or> c \<in> set ''-._:~!$&()*+,;=%@'' \<or> c = CHR 0x27) s"

definition parse_host :: "string \<Rightarrow> string option" where
  "parse_host host =
     (if has_prefix ''['' host then
        (case cut_last (CHR '']'') host of
           None \<Rightarrow> None
         | Some (inside, colon_port) \<Rightarrow>
             if \<not> valid_optional_port colon_port then None
             else (case index_of ''%25'' inside of
                     None \<Rightarrow> unescape Host host
                   | Some z \<Rightarrow>
                       (case (unescape Host (take z inside), unescape Zone (drop z inside),
                              unescape Host (CHR '']'' # colon_port)) of
                          (Some a, Some b, Some c) \<Rightarrow> Some (a @ b @ c)
                        | _ \<Rightarrow> None)))
      else
        (case cut_last (CHR '':'') host of
           None \<Rightarrow> unescape Host host
         | Some (_, port) \<Rightarrow> if \<not> valid_optional_port (CHR '':'' # port) then None else unescape Host host))"

definition parse_authority :: "string \<Rightarrow> (string option \<times> string) option" where
  "parse_authority authority =
     (case cut_last (CHR ''@'') authority of
        None \<Rightarrow> map_option (Pair None) (parse_host authority)
      | Some (userinfo, host) \<Rightarrow>
          (case parse_host host of
             None \<Rightarrow> None
           | Some h \<Rightarrow>
               if \<not> valid_userinfo userinfo then None
               else (case cut (CHR '':'') userinfo of
                       (name, password) \<Rightarrow>
                         if unescape Part name = None \<or> unescape Part (text_of password) = None then None
                         else Some (Some userinfo, h))))"

definition is_control :: "char \<Rightarrow> bool" where
  "is_control c \<longleftrightarrow> code c < 32 \<or> code c = 127"

text \<open>The part of a URL before its fragment.\<close>

definition parse_main :: "string \<Rightarrow> url option" where
  "parse_main s =
     (if list_ex is_control s then None
      else if s = ''*'' then Some (no_url\<lparr>u_path := ''*''\<rparr>)
      else case get_scheme s of
        None \<Rightarrow> None
      | Some (scheme, rest) \<Rightarrow>
          let scheme = to_lower scheme;
              (rest, query) = (case cut (CHR ''?'') rest of (a, b) \<Rightarrow> (a, text_of b));
              u = no_url\<lparr>u_scheme := scheme, u_query := query\<rparr>
          in if \<not> has_prefix ''/'' rest \<and> scheme \<noteq> [] then Some (u\<lparr>u_opaque := rest\<rparr>)
             else if \<not> has_prefix ''/'' rest \<and> CHR '':'' \<in> set (fst (cut (CHR ''/'') rest)) then None
             else if has_prefix ''//'' rest \<and> (scheme \<noteq> [] \<or> \<not> has_prefix ''///'' rest) then
               (case cut (CHR ''/'') (drop 2 rest) of
                  (authority, path) \<Rightarrow>
                    (case parse_authority authority of
                       None \<Rightarrow> None
                     | Some (user, host) \<Rightarrow>
                         map_option (\<lambda>p. u\<lparr>u_user := user, u_host := host, u_path := p\<rparr>)
                           (unescape Part (case path of None \<Rightarrow> [] | Some p \<Rightarrow> CHR ''/'' # p))))
             else map_option (\<lambda>p. u\<lparr>u_path := p\<rparr>) (unescape Part rest))"

definition parse_url :: "string \<Rightarrow> url option" where
  "parse_url s =
     (case cut (CHR ''#'') s of
        (main, fragment) \<Rightarrow>
          (case parse_main main of
             None \<Rightarrow> None
           | Some u \<Rightarrow> if unescape Part (text_of fragment) = None then None else Some u))"

section \<open>Host names\<close>

definition split_host_port :: "string \<Rightarrow> string \<times> string" where
  "split_host_port host_port =
     (let (host, port) = (case cut_last (CHR '':'') host_port of
            None \<Rightarrow> (host_port, [])
          | Some (h, p) \<Rightarrow> if valid_optional_port (CHR '':'' # p) then (h, p) else (host_port, []))
      in (if has_prefix ''['' host \<and> has_suffix '']'' host then butlast (tl host) else host, port))"

definition url_hostname :: "url \<Rightarrow> string" where
  "url_hostname u = fst (split_host_port (u_host u))"

definition url_port :: "url \<Rightarrow> string" where
  "url_port u = snd (split_host_port (u_host u))"

section \<open>Queries\<close>

definition upper_hex :: "nat \<Rightarrow> char" where
  "upper_hex n = (if n < 10 then char_of (48 + n) else char_of (55 + n))"

definition query_escape :: "string \<Rightarrow> string" where
  "query_escape s =
     concat (map (\<lambda>c. if c = CHR '' '' then ''+''
                      else if should_escape Query c then [CHR ''%'', upper_hex (code c div 16), upper_hex (code c mod 16)]
                      else [c]) s)"

text \<open>One pair of a query; pieces with a semicolon or a bad escape are dropped.\<close>

definition query_pair :: "string \<Rightarrow> (string \<times> string) option" where
  "query_pair piece =
     (if CHR '';'' \<in> set piece \<or> piece = [] then None
      else (case cut (CHR ''='') piece of
              (k, v) \<Rightarrow> (case (unescape Query k, unescape Query (text_of v)) of
                           (Some k, Some v) \<Rightarrow> Some (k, v) | _ \<Rightarrow> None)))"

definition parse_query :: "string \<Rightarrow> (string, string list) gomap" where
  "parse_query q =
     fold (\<lambda>piece m. case query_pair piece of
              None \<Rightarrow> m
            | Some (k, v) \<Rightarrow> put k ((case get m k of None \<Rightarrow> [] | Some vs \<Rightarrow> vs) @ [v]) m) (split_on (CHR ''&'') q) []"

definition encode_query :: "(string, string list) gomap \<Rightarrow> string" where
  "encode_query m =
     join ''&'' (concat (map (\<lambda>k. map (\<lambda>v. query_escape k @ ''='' @ query_escape v)
                                     (case get m k of None \<Rightarrow> [] | Some vs \<Rightarrow> vs)) (sort (map fst m))))"

end
