(* ===== verification/NetPolicy.thy ===== *)
theory NetPolicy
  imports Urls GoTime "HOL-Library.Word"
begin

unbundle bit_operations_syntax

text \<open>
  The network policy of \<open>internal/broker/proxy.go\<close>: addresses, networks, the glob patterns of Go's
  \<open>path.Match\<close> and the decision for one address and for a URL. IPv4 text is parsed here; IPv6
  text and networks, and the resolver, are the record \<open>net_env\<close>.
\<close>

section \<open>Addresses and networks\<close>

text \<open>An IPv4 address written as an IPv6 one is an IPv4 address.\<close>

datatype ip_addr = V4 "32 word" | V6 "128 word"

datatype ip_net = Net4 "32 word" nat | Net6 "128 word" nat

record net_env =
  ne_parse6 :: "string \<Rightarrow> ip_addr option"
  ne_show6 :: "128 word \<Rightarrow> string"
  ne_cidr6 :: "string \<Rightarrow> ip_net option"
  ne_lookup :: "string \<Rightarrow> string list option"

text \<open>A field of a dotted quad: digits without a leading zero, at most 255.\<close>

definition quad_field :: "string \<Rightarrow> int option" where
  "quad_field s =
     (if s = [] \<or> \<not> list_all is_dec s \<or> length s > 3 \<or> (length s > 1 \<and> hd s = CHR ''0'') then None
      else let n = foldl (\<lambda>n c. 10 * n + (int (code c) - 48)) 0 s in if n > 255 then None else Some n)"

definition parse_quad :: "string \<Rightarrow> 32 word option" where
  "parse_quad s =
     (case map quad_field (split_on (CHR ''.'') s) of
        [Some a, Some b, Some c, Some d] \<Rightarrow> Some (word_of_int (((a * 256 + b) * 256 + c) * 256 + d))
      | _ \<Rightarrow> None)"

definition parse_ip :: "net_env \<Rightarrow> string \<Rightarrow> ip_addr option" where
  "parse_ip ne s =
     (case find (\<lambda>c. c = CHR ''.'' \<or> c = CHR '':'' \<or> c = CHR ''%'') s of
        Some c \<Rightarrow> if c = CHR ''.'' then map_option V4 (parse_quad s) else if c = CHR '':'' then ne_parse6 ne s else None
      | None \<Rightarrow> None)"

definition show_quad :: "32 word \<Rightarrow> string" where
  "show_quad w =
     join ''.'' (map (\<lambda>i. itoa (uint (drop_bit i w) mod 256)) [24, 16, 8, 0])"

definition show_ip :: "net_env \<Rightarrow> ip_addr \<Rightarrow> string" where
  "show_ip ne ip = (case ip of V4 w \<Rightarrow> show_quad w | V6 w \<Rightarrow> ne_show6 ne w)"

definition parse_cidr :: "net_env \<Rightarrow> string \<Rightarrow> ip_net option" where
  "parse_cidr ne s =
     (case cut (CHR ''/'') s of
        (addr, None) \<Rightarrow> None
      | (addr, Some bits) \<Rightarrow>
          if CHR '':'' \<in> set addr then ne_cidr6 ne s
          else (case parse_quad addr of
                  None \<Rightarrow> None
                | Some w \<Rightarrow>
                    if bits = [] \<or> \<not> list_all is_dec bits then None
                    else let n = foldl (\<lambda>n c. 10 * n + (int (code c) - 48)) 0 bits
                         in if n > 32 then None else Some (Net4 (w AND NOT (mask (nat (32 - n)))) (nat n))))"

definition net_contains :: "ip_net \<Rightarrow> ip_addr \<Rightarrow> bool" where
  "net_contains net ip =
     (case (net, ip) of
        (Net4 w n, V4 a) \<Rightarrow> w AND NOT (mask (32 - n)) = a AND NOT (mask (32 - n))
      | (Net6 w n, V6 a) \<Rightarrow> w AND NOT (mask (128 - n)) = a AND NOT (mask (128 - n))
      | _ \<Rightarrow> False)"

definition private_ranges :: "ip_net list" where
  "private_ranges = [Net4 0x0A000000 8, Net4 0xAC100000 12, Net4 0xC0A80000 16]"

definition is_private_ip :: "ip_addr \<Rightarrow> bool" where
  "is_private_ip ip = list_ex (\<lambda>net. net_contains net ip) private_ranges"

section \<open>Glob patterns\<close>

text \<open>
  \<open>path.Match\<close>: a pattern is cut into chunks, each with an optional leading star; the first chunk
  position that fits is taken. \<open>None\<close> is a chunk that does not match or is malformed.
\<close>

fun scan_chunk :: "bool \<Rightarrow> string \<Rightarrow> string \<times> string" where
  "scan_chunk inrange [] = ([], [])"
| "scan_chunk inrange (c # p) =
     (if c = CHR 0x5C then
        (case p of [] \<Rightarrow> ([c], []) | d # q \<Rightarrow> (case scan_chunk inrange q of (a, b) \<Rightarrow> (c # d # a, b)))
      else if c = CHR ''*'' \<and> \<not> inrange then ([], c # p)
      else (case scan_chunk (if c = CHR ''['' then True else if c = CHR '']'' then False else inrange) p of
              (a, b) \<Rightarrow> (c # a, b)))"

definition get_esc :: "string \<Rightarrow> (char \<times> string) option" where
  "get_esc chunk =
     (case chunk of
        [] \<Rightarrow> None
      | c # rest \<Rightarrow>
          if c = CHR ''-'' \<or> c = CHR '']'' then None
          else (case (if c = CHR 0x5C then rest else chunk) of
                  [] \<Rightarrow> None
                | d # rest \<Rightarrow> if rest = [] then None else Some (d, rest)))"

lemma get_esc_shorter: "get_esc s = Some (c, r) \<Longrightarrow> length r < length s"
  by (auto simp: get_esc_def split: list.splits if_splits)

text \<open>The ranges of a class up to its bracket: whether one holds the character, and the rest.\<close>

function class_ranges :: "char \<Rightarrow> bool \<Rightarrow> bool \<Rightarrow> string \<Rightarrow> (bool \<times> string) option" where
  "class_ranges r first matched chunk =
     (if has_prefix '']'' chunk \<and> \<not> first then Some (matched, tl chunk)
      else (case get_esc chunk of
              None \<Rightarrow> None
            | Some (lo, rest) \<Rightarrow>
                (case (if has_prefix ''-'' rest then get_esc (tl rest) else Some (lo, rest)) of
                   None \<Rightarrow> None
                 | Some (hi, rest) \<Rightarrow>
                     class_ranges r False (matched \<or> (code lo \<le> code r \<and> code r \<le> code hi)) rest)))"
  by pat_completeness auto
termination
  by (relation "measure (\<lambda>(_, _, _, chunk). length chunk)")
    (auto split: if_splits dest!: get_esc_shorter)

declare class_ranges.simps [simp del]

lemma class_ranges_shorter: "class_ranges r first matched s = Some (b, t) \<Longrightarrow> length t < length s"
proof (induction r first matched s rule: class_ranges.induct)
  case (1 r first matched chunk)
  show ?case
  proof (cases "has_prefix '']'' chunk \<and> \<not> first")
    case True
    then have "class_ranges r first matched chunk = Some (matched, tl chunk)" by (subst class_ranges.simps) simp
    then show ?thesis using "1.prems" True by (cases chunk) auto
  next
    case False
    note prems = "1.prems" [unfolded class_ranges.simps [of r first matched chunk] if_not_P [OF False]]
    obtain lo rest where e: "get_esc chunk = Some (lo, rest)" using prems by (cases "get_esc chunk") auto
    obtain hi rest' where h: "(if has_prefix ''-'' rest then get_esc (tl rest) else Some (lo, rest)) = Some (hi, rest')"
      using prems e by (cases "if has_prefix ''-'' rest then get_esc (tl rest) else Some (lo, rest)") auto
    have "class_ranges r False (matched \<or> code lo \<le> code r \<and> code r \<le> code hi) rest' = Some (b, t)"
      using prems by (simp only: e h option.case prod.case)
    then have "length t < length rest'" using "1.IH" [OF False e refl h refl] by simp
    moreover have "length rest' \<le> length rest"
      using h get_esc_shorter [of "tl rest" hi rest'] by (auto split: if_splits)
    moreover have "length rest < length chunk" by (rule get_esc_shorter [OF e])
    ultimately show ?thesis by simp
  qed
qed

function match_chunk :: "string \<Rightarrow> string \<Rightarrow> string option" where
  "match_chunk [] s = Some s"
| "match_chunk (c # chunk) [] = None"
| "match_chunk (c # chunk) (r # s) =
     (if c = CHR ''['' then
        let (negated, body) = (if has_prefix ''^'' chunk then (True, tl chunk) else (False, chunk))
        in (case class_ranges r True False body of
              None \<Rightarrow> None
            | Some (matched, rest) \<Rightarrow> if matched = negated then None else match_chunk rest s)
      else if c = CHR ''?'' then (if r = CHR ''/'' then None else match_chunk chunk s)
      else if c = CHR 0x5C then
        (case chunk of [] \<Rightarrow> None | d # rest \<Rightarrow> if d = r then match_chunk rest s else None)
      else if c = r then match_chunk chunk s else None)"
  by pat_completeness auto
termination
  by (relation "measure (\<lambda>(_, s). length s)") auto

text \<open>The first place after at least one more byte where the chunk fits, not past a slash.\<close>

fun match_later :: "string \<Rightarrow> bool \<Rightarrow> string \<Rightarrow> string option" where
  "match_later chunk last_chunk [] = None"
| "match_later chunk last_chunk (c # s) =
     (if c = CHR ''/'' then None
      else (case match_chunk chunk s of
              Some t \<Rightarrow> if last_chunk \<and> t \<noteq> [] then match_later chunk last_chunk s else Some t
            | None \<Rightarrow> match_later chunk last_chunk s))"

lemma scan_chunk_length: "scan_chunk b p = (x, y) \<Longrightarrow> length x + length y = length p"
proof (induction b p arbitrary: x y rule: scan_chunk.induct)
  case (2 inrange c p)
  then show ?case
    by (cases p) (auto split: if_splits prod.splits)
qed simp

lemma scan_chunk_nonempty: "c \<noteq> CHR ''*'' \<Longrightarrow> fst (scan_chunk False (c # p)) \<noteq> []"
  by (auto split: prod.split list.split)

declare scan_chunk.simps(2) [simp del]

lemma scan_rest_shorter:
  assumes "pattern \<noteq> []" and scan: "scan_chunk False (dropWhile (\<lambda>c. c = CHR ''*'') pattern) = (chunk, rest)"
    and "\<not> (hd pattern = CHR ''*'' \<and> chunk = [])"
  shows "length rest < length pattern"
proof -
  let ?p = "dropWhile (\<lambda>c. c = CHR ''*'') pattern"
  have len: "length chunk + length rest = length ?p" by (rule scan_chunk_length [OF scan])
  show ?thesis
  proof (cases "hd pattern = CHR ''*''")
    case True
    then have "length ?p < length pattern"
      using assms(1) length_dropWhile_le [of "\<lambda>c. c = CHR ''*''" "tl pattern"] by (cases pattern) (simp_all add: le_imp_less_Suc)
    then show ?thesis using len by simp
  next
    case False
    then have p: "?p = pattern" using assms(1) by (cases pattern) auto
    then have "chunk \<noteq> []"
      using scan_chunk_nonempty [of "hd pattern" "tl pattern"] False assms(1) scan by simp
    then show ?thesis using len p by (cases chunk) auto
  qed
qed

function path_match :: "string \<Rightarrow> string \<Rightarrow> bool" where
  "path_match pattern name =
     (if pattern = [] then name = []
      else
        let star = (hd pattern = CHR ''*'');
            (chunk, rest) = scan_chunk False (dropWhile (\<lambda>c. c = CHR ''*'') pattern)
        in if star \<and> chunk = [] then CHR ''/'' \<notin> set name
           else (case match_chunk chunk name of
                   Some t \<Rightarrow>
                     if t = [] \<or> rest \<noteq> [] then path_match rest t
                     else if star then (case match_later chunk (rest = []) name of
                            None \<Rightarrow> False | Some t \<Rightarrow> path_match rest t)
                     else False
                 | None \<Rightarrow>
                     if star then (case match_later chunk (rest = []) name of
                            None \<Rightarrow> False | Some t \<Rightarrow> path_match rest t)
                     else False))"
  by pat_completeness auto

termination
  by (relation "measure (\<lambda>(pattern, _). length pattern)") (auto dest: sym intro: scan_rest_shorter)

section \<open>The decision\<close>

record network_policy =
  np_allow_cidrs :: "string list"
  np_deny_cidrs :: "string list"
  np_external :: string
  np_external_allow :: "string list"

definition default_network_policy :: network_policy where
  "default_network_policy =
     \<lparr>np_allow_cidrs = [''10.0.0.0/8'', ''172.16.0.0/12'', ''192.168.0.0/16''], np_deny_cidrs = [],
      np_external = ''deny'', np_external_allow = []\<rparr>"

datatype net_error =
    InvalidUrl
  | DnsFailed string
  | NoAddresses string
  | DeniedNetwork string ip_addr string
  | NotAllowedNetwork string ip_addr
  | ExternalDenied string ip_addr
  | ExternalNotAllowed string
  | UnknownExternal string

definition in_cidr :: "net_env \<Rightarrow> ip_addr \<Rightarrow> string \<Rightarrow> bool" where
  "in_cidr ne ip cidr = (case parse_cidr ne cidr of None \<Rightarrow> False | Some net \<Rightarrow> net_contains net ip)"

definition evaluate_ip_policy :: "net_env \<Rightarrow> network_policy \<Rightarrow> ip_addr \<Rightarrow> string \<Rightarrow> net_error option" where
  "evaluate_ip_policy ne pol ip hostname =
     (case find (in_cidr ne ip) (np_deny_cidrs pol) of
        Some cidr \<Rightarrow> Some (DeniedNetwork hostname ip cidr)
      | None \<Rightarrow>
          if is_private_ip ip then
            (if np_allow_cidrs pol \<noteq> [] \<and> \<not> list_ex (in_cidr ne ip) (np_allow_cidrs pol)
             then Some (NotAllowedNetwork hostname ip) else None)
          else if np_external pol = ''open'' then None
          else if np_external pol = ''deny'' \<or> np_external pol = [] then Some (ExternalDenied hostname ip)
          else if np_external pol = ''restricted'' then
            (if list_ex (\<lambda>pattern. path_match pattern hostname) (np_external_allow pol) then None
             else Some (ExternalNotAllowed hostname))
          else Some (UnknownExternal (np_external pol)))"

definition resolve_host :: "net_env \<Rightarrow> string \<Rightarrow> ip_addr list option" where
  "resolve_host ne hostname =
     (case parse_ip ne hostname of
        Some ip \<Rightarrow> Some [ip]
      | None \<Rightarrow> map_option (List.map_filter (parse_ip ne)) (ne_lookup ne hostname))"

fun first_error :: "('a \<Rightarrow> 'e option) \<Rightarrow> 'a list \<Rightarrow> 'e option" where
  "first_error f [] = None"
| "first_error f (x # xs) = (case f x of Some e \<Rightarrow> Some e | None \<Rightarrow> first_error f xs)"

definition evaluate_policy :: "net_env \<Rightarrow> network_policy \<Rightarrow> string \<Rightarrow> net_error + string" where
  "evaluate_policy ne pol raw_url =
     (case parse_url raw_url of
        None \<Rightarrow> Inl InvalidUrl
      | Some u \<Rightarrow>
          let hostname = url_hostname u in
          (case resolve_host ne hostname of
             None \<Rightarrow> Inl (DnsFailed hostname)
           | Some [] \<Rightarrow> Inl (NoAddresses hostname)
           | Some (ip # ips) \<Rightarrow>
               (case first_error (\<lambda>ip. evaluate_ip_policy ne pol ip hostname) (ip # ips) of
                  Some e \<Rightarrow> Inl e
                | None \<Rightarrow> Inr (show_ip ne ip))))"

section \<open>Which addresses are private\<close>

lemma masked_eq: "w AND NOT (mask m) = a AND NOT (mask m) \<longleftrightarrow> drop_bit m w = drop_bit m a" for w a :: "'a::len word"
proof
  assume h: "w AND NOT (mask m) = a AND NOT (mask m)"
  show "drop_bit m w = drop_bit m a"
  proof (rule bit_word_eqI)
    fix n
    have "bit (w AND NOT (mask m)) (m + n) = bit (a AND NOT (mask m)) (m + n)" using h by simp
    then show "bit (drop_bit m w) n = bit (drop_bit m a) n" if "n < LENGTH('a)"
      by (auto simp: bit_simps dest: bit_imp_le_length)
  qed
next
  assume h: "drop_bit m w = drop_bit m a"
  show "w AND NOT (mask m) = a AND NOT (mask m)"
  proof (rule bit_word_eqI)
    fix n
    have "bit (drop_bit m w) (n - m) = bit (drop_bit m a) (n - m)" using h by simp
    then show "bit (w AND NOT (mask m)) n = bit (a AND NOT (mask m)) n" by (auto simp: bit_simps)
  qed
qed

lemma uint_drop: "uint (drop_bit m w) = uint w div 2 ^ m" for w :: "32 word"
proof -
  have "take_bit 32 (uint w) = uint w" by (rule take_bit_int_eq_self) (use uint_lt2p [of w] in auto)
  then have "uint (drop_bit m w) = drop_bit m (uint w)" by (simp add: unsigned_drop_bit_eq)
  then show ?thesis by (simp only: drop_bit_eq_div)
qed

lemma contains_iff: "net_contains (Net4 w n) (V4 a) \<longleftrightarrow> uint w div 2 ^ (32 - n) = uint a div 2 ^ (32 - n)"
  by (simp add: net_contains_def masked_eq word_uint_eq_iff [of "drop_bit _ _"] uint_drop)

text \<open>
  An address counts as private exactly when it lies in 10/8, 172.16/12 or 192.168/16, as
  numbers; no IPv6 address does. Under the default policy the proxy reaches exactly these, so
  neither loopback nor link-local nor any public address.
\<close>

theorem default_policy_only_private:
  "(is_private_ip (V4 w) \<longleftrightarrow> uint w div 2 ^ 24 = 10 \<or> uint w div 2 ^ 20 = 172 * 16 + 1 \<or> uint w div 2 ^ 16 = 192 * 256 + 168) \<and>
   \<not> is_private_ip (V6 a) \<and>
   evaluate_ip_policy ne default_network_policy ip h = (if is_private_ip ip then None else Some (ExternalDenied h ip))"
proof -
  have "parse_cidr ne ''10.0.0.0/8'' = Some (Net4 0x0A000000 8)" "parse_cidr ne ''172.16.0.0/12'' = Some (Net4 0xAC100000 12)"
    "parse_cidr ne ''192.168.0.0/16'' = Some (Net4 0xC0A80000 16)"
    by code_simp+
  then have "list_ex (in_cidr ne ip) (np_allow_cidrs default_network_policy) = is_private_ip ip"
    by (simp add: in_cidr_def default_network_policy_def is_private_ip_def private_ranges_def)
  then have "evaluate_ip_policy ne default_network_policy ip h = (if is_private_ip ip then None else Some (ExternalDenied h ip))"
    by (auto simp: evaluate_ip_policy_def default_network_policy_def)
  moreover have "is_private_ip (V4 w) \<longleftrightarrow> uint w div 2 ^ 24 = 10 \<or> uint w div 2 ^ 20 = 172 * 16 + 1 \<or> uint w div 2 ^ 16 = 192 * 256 + 168"
    by (auto simp: is_private_ip_def private_ranges_def contains_iff)
  moreover have "\<not> is_private_ip (V6 a)" by (simp add: is_private_ip_def private_ranges_def net_contains_def)
  ultimately show ?thesis by blast
qed

end
