(* ===== verification/Proxy.thy ===== *)
theory Proxy
  imports NetPolicy CertRuns Encoding
begin

text \<open>
  Component \<open>internal/broker/proxy.go\<close> with \<open>tls.go\<close>: the HTTP proxy. Services with their
  credentials, the choice of the service for a URL, the TLS settings of its client, and \<open>Do\<close>, which
  builds the outbound request and reads the answer. The network is the record \<open>net_env\<close> and the
  function \<open>send\<close>; a CA file is read by \<open>read_file\<close> and \<open>has_certs\<close> tells whether a PEM text holds a
  certificate. Writing the services to disk, the audit log and broadcasts are left out.
\<close>

section \<open>TLS settings\<close>

record tls_settings =
  ts_verify :: bool
  ts_ca :: string
  ts_ca_inline :: string
  ts_fingerprint :: string

record tls_config =
  tc_insecure :: bool
  tc_min_tls12 :: bool
  tc_roots :: "bytes list option"
  tc_pin :: "string option"

datatype tls_error = CaUnreadable string | CaFileEmpty string | CaInlineEmpty

definition trim_prefix :: "string \<Rightarrow> string \<Rightarrow> string" where
  "trim_prefix p s = (if has_prefix p s then drop (length p) s else s)"

definition normalize_tls_fingerprint :: "string \<Rightarrow> string" where
  "normalize_tls_fingerprint fp =
     filter (\<lambda>c. c \<noteq> CHR '':'') (to_lower (trim_prefix ''sha256:'' (trim_prefix ''SHA256:'' fp)))"

definition build_tls_config ::
    "(string \<Rightarrow> bytes option) \<Rightarrow> (bytes \<Rightarrow> bool) \<Rightarrow> tls_settings \<Rightarrow> tls_error + tls_config" where
  "build_tls_config read_file has_certs ts =
     (if \<not> ts_verify ts then Inr \<lparr>tc_insecure = True, tc_min_tls12 = False, tc_roots = None, tc_pin = None\<rparr>
      else
        let cfg = \<lparr>tc_insecure = False, tc_min_tls12 = True, tc_roots = None,
                   tc_pin = (if ts_fingerprint ts \<noteq> [] then Some (normalize_tls_fingerprint (ts_fingerprint ts)) else None)\<rparr>
        in if ts_ca ts = [] \<and> ts_ca_inline ts = [] then Inr cfg
           else
             (case (if ts_ca ts = [] then Inr []
                    else (case read_file (ts_ca ts) of
                            None \<Rightarrow> Inl (CaUnreadable (ts_ca ts))
                          | Some pem \<Rightarrow> if has_certs pem then Inr [pem] else Inl (CaFileEmpty (ts_ca ts)))) of
                Inl e \<Rightarrow> Inl e
              | Inr pool \<Rightarrow>
                  if ts_ca_inline ts \<noteq> [] \<and> \<not> has_certs (ts_ca_inline ts) then Inl CaInlineEmpty
                  else Inr (cfg\<lparr>tc_roots := Some (pool @ (if ts_ca_inline ts = [] then [] else [ts_ca_inline ts]))\<rparr>)))"

definition verify_peer_certificate :: "(bytes \<Rightarrow> bytes) \<Rightarrow> tls_config \<Rightarrow> bytes list \<Rightarrow> bool" where
  "verify_peer_certificate sha256 cfg raw_certs =
     (case tc_pin cfg of
        None \<Rightarrow> True
      | Some expected \<Rightarrow> (case raw_certs of [] \<Rightarrow> False | leaf # _ \<Rightarrow> hex_encode (sha256 leaf) = expected))"

section \<open>Services\<close>

record service_config =
  sv_name :: string
  sv_url_prefix :: string
  sv_auth_type :: string
  sv_token_header :: string
  sv_token_prefix :: string
  sv_username :: string
  sv_credential :: string
  sv_allowed_paths :: "string list"
  sv_allowed_methods :: "string list"
  sv_max_response_kb :: int
  sv_timeout :: int
  sv_description :: string
  sv_enabled :: "bool option"
  sv_grant_mode :: string
  sv_headers :: "(string, string) gomap"
  sv_tls :: tls_settings
  sv_request_filter :: bool
  sv_request_deny :: "string list"
  sv_request_allow :: "string list"
  sv_body_deny :: "string list"
  sv_auto_revoke_on_deny :: bool

text \<open>
  A client: the fallback, one that refuses every request because its TLS settings are broken, or
  one with TLS settings and a timeout in seconds. None of them follows redirects.
\<close>

datatype http_client = FallbackClient | FailingClient tls_error | ServiceClient tls_config int

record proxy_engine =
  px_services :: "(string, service_config) gomap"
  px_clients :: "(string, http_client) gomap"
  px_policy :: network_policy

datatype service_error =
    ServiceNameRequired
  | UrlPrefixRequired string
  | InvalidAuthType string string
  | ServiceNotFound string

definition build_service_client ::
    "(string \<Rightarrow> bytes option) \<Rightarrow> (bytes \<Rightarrow> bool) \<Rightarrow> service_config \<Rightarrow> http_client" where
  "build_service_client read_file has_certs svc =
     (let timeout = (if sv_timeout svc \<le> 0 then 30 else sv_timeout svc) in
      case build_tls_config read_file has_certs (sv_tls svc) of
        Inl e \<Rightarrow>
          if ts_verify (sv_tls svc) then FailingClient e
          else ServiceClient \<lparr>tc_insecure = True, tc_min_tls12 = False, tc_roots = None, tc_pin = None\<rparr> timeout
      | Inr cfg \<Rightarrow> ServiceClient cfg timeout)"

definition rebuild_service_clients ::
    "(string \<Rightarrow> bytes option) \<Rightarrow> (bytes \<Rightarrow> bool) \<Rightarrow> proxy_engine \<Rightarrow> proxy_engine" where
  "rebuild_service_clients read_file has_certs px =
     px\<lparr>px_clients := fold (\<lambda>(name, svc) m. put name (build_service_client read_file has_certs svc) m) (px_services px) []\<rparr>"

text \<open>\<open>stored\<close> is what \<open>load\<close> read, already decrypted.\<close>

definition new_proxy_engine ::
    "(string \<Rightarrow> bytes option) \<Rightarrow> (bytes \<Rightarrow> bool) \<Rightarrow> (string, service_config) gomap \<Rightarrow> network_policy option \<Rightarrow> proxy_engine" where
  "new_proxy_engine read_file has_certs stored pol =
     rebuild_service_clients read_file has_certs
       \<lparr>px_services = stored, px_clients = [],
        px_policy = (case pol of None \<Rightarrow> default_network_policy | Some p \<Rightarrow> p)\<rparr>"

definition add_service ::
    "(string \<Rightarrow> bytes option) \<Rightarrow> (bytes \<Rightarrow> bool) \<Rightarrow> service_config \<Rightarrow> proxy_engine \<Rightarrow> service_error option \<times> proxy_engine" where
  "add_service read_file has_certs svc px =
     (if sv_name svc = [] then (Some ServiceNameRequired, px)
      else if sv_url_prefix svc = [] then (Some (UrlPrefixRequired (sv_name svc)), px)
      else
        let svc = (if sv_auth_type svc = [] then svc\<lparr>sv_auth_type := ''none''\<rparr> else svc)
        in if sv_auth_type svc \<notin> {''bearer'', ''basic'', ''header'', ''query'', ''none''} then
             (Some (InvalidAuthType (sv_auth_type svc) (sv_name svc)), px)
           else
             let svc = svc\<lparr>sv_max_response_kb := (if sv_max_response_kb svc \<le> 0 then 1024 else sv_max_response_kb svc),
                           sv_timeout := (if sv_timeout svc \<le> 0 then 30 else sv_timeout svc)\<rparr>
             in (None, px\<lparr>px_services := put (sv_name svc) svc (px_services px),
                         px_clients := put (sv_name svc) (build_service_client read_file has_certs svc) (px_clients px)\<rparr>))"

definition remove_service :: "string \<Rightarrow> proxy_engine \<Rightarrow> service_error option \<times> proxy_engine" where
  "remove_service name px =
     (case get (px_services px) name of
        None \<Rightarrow> (Some (ServiceNotFound name), px)
      | Some _ \<Rightarrow> (None, px\<lparr>px_services := del name (px_services px), px_clients := del name (px_clients px)\<rparr>))"

definition redact_service :: "service_config \<Rightarrow> service_config" where
  "redact_service svc = (if sv_credential svc \<noteq> [] then svc\<lparr>sv_credential := ''***''\<rparr> else svc)"

definition get_service :: "string \<Rightarrow> proxy_engine \<Rightarrow> service_config option" where
  "get_service name px = map_option redact_service (get (px_services px) name)"

definition list_services :: "proxy_engine \<Rightarrow> service_config list" where
  "list_services px = map (\<lambda>(_, svc). redact_service svc) (px_services px)"

definition service_name :: "service_config option \<Rightarrow> string" where
  "service_name svc = (case svc of Some s \<Rightarrow> sv_name s | None \<Rightarrow> ''direct'')"

section \<open>Choosing the service of a URL\<close>

definition matches_service_url :: "string \<Rightarrow> string \<Rightarrow> bool" where
  "matches_service_url raw_url prefix =
     (if \<not> has_prefix prefix raw_url then False
      else if length raw_url = length prefix then True
      else raw_url ! length prefix \<in> set ''/?#:'')"

text \<open>The longest prefix wins; the table is walked in its own order.\<close>

definition match_service :: "string \<Rightarrow> proxy_engine \<Rightarrow> service_config option" where
  "match_service raw_url px =
     fst (fold (\<lambda>(_, svc) (best, best_len).
            if matches_service_url raw_url (sv_url_prefix svc) \<and> length (sv_url_prefix svc) > best_len
            then (Some svc, length (sv_url_prefix svc)) else (best, best_len)) (px_services px) (None, 0))"

section \<open>Headers\<close>

type_synonym headers = "(string, string) gomap"

definition is_token_char :: "char \<Rightarrow> bool" where
  "is_token_char c \<longleftrightarrow> is_alpha c \<or> is_dec c \<or> c \<in> set ''!#$%&*+-.^_`|~'' \<or> c = CHR 0x27"

definition upper_char :: "char \<Rightarrow> char" where
  "upper_char c = (if 97 \<le> code c \<and> code c \<le> 122 then char_of (code c - 32) else c)"

definition to_upper :: "string \<Rightarrow> string" where
  "to_upper s = map upper_char s"

fun canonical_loop :: "bool \<Rightarrow> string \<Rightarrow> string" where
  "canonical_loop upper [] = []"
| "canonical_loop upper (c # s) = (if upper then upper_char c else lower_char c) # canonical_loop (c = CHR ''-'') s"

definition canonical_key :: "string \<Rightarrow> string" where
  "canonical_key k = (if list_all is_token_char k then canonical_loop True k else k)"

definition header_set :: "string \<Rightarrow> string \<Rightarrow> headers \<Rightarrow> headers" where
  "header_set k v h = put (canonical_key k) v h"

definition hop_by_hop_headers :: "string list" where
  "hop_by_hop_headers =
     [''Connection'', ''Keep-Alive'', ''Proxy-Authenticate'', ''Proxy-Authorization'', ''TE'', ''Trailer'',
      ''Transfer-Encoding'', ''Upgrade'']"

definition sensitive_response_headers :: "string list" where
  "sensitive_response_headers =
     [''Authorization'', ''Proxy-Authorization'', ''WWW-Authenticate'', ''Set-Cookie'', ''Cookie'']"

definition strip_hop_by_hop_headers :: "(string, 'v) gomap \<Rightarrow> (string, 'v) gomap" where
  "strip_hop_by_hop_headers h = fold (\<lambda>k. del (canonical_key k)) hop_by_hop_headers h"

definition strip_sensitive_response_headers :: "(string, 'v) gomap \<Rightarrow> (string, 'v) gomap" where
  "strip_sensitive_response_headers h = fold (\<lambda>k. del (canonical_key k)) sensitive_response_headers h"

end
