(* ===== verification/ProxyDo.thy ===== *)
theory ProxyDo
  imports Proxy TaskTools CommandFilter ExecTools
begin

text \<open>
  \<open>ProxyEngine.Do\<close> and the tool \<open>http_request\<close> in front of it (\<open>mcp_tools.go\<close>). A request leaves as
  an \<open>out_request\<close>: method, parsed URL, the host header, headers and body; \<open>send\<close> answers it for a
  client within a timeout. Printing the pinned URL and parsing it again keeps every component but
  the host, whose text is parsed anew. Grants and services are the state; every service is stored
  under its own name.
\<close>

section \<open>The outbound request\<close>

record out_request =
  or_method :: string
  or_url :: url
  or_host :: string
  or_headers :: headers
  or_body :: string

record response =
  rs_status :: int
  rs_headers :: "(string, string list) gomap"
  rs_chunks :: "bytes list"

record proxy_request =
  pq_url :: string
  pq_method :: string
  pq_headers :: headers
  pq_body :: string
  pq_timeout :: int

record proxy_result =
  pr_status_code :: int
  pr_headers :: headers
  pr_body :: bytes
  pr_service :: string
  pr_url :: string
  pr_method :: string
  pr_bytes_read :: int
  pr_truncated :: bool

record proxy_broker =
  pb_proxy :: proxy_engine
  pb_grants :: "grant_store option"

record proxy_env =
  pe_net :: net_env
  pe_send :: "http_client \<Rightarrow> int \<Rightarrow> out_request \<Rightarrow> response option"

datatype proxy_error =
    UrlRequired
  | BadUrl
  | UnsupportedScheme string
  | PolicyRefused net_error
  | ServiceDisabled string
  | MethodNotAllowed string string
  | PathNotAllowed string string
  | RequestNotBuilt
  | RequestFailed

definition join_ip_port :: "string \<Rightarrow> string \<Rightarrow> string" where
  "join_ip_port host port =
     (if CHR '':'' \<in> set host then ''['' @ host @ '']:'' @ port else host @ '':'' @ port)"

text \<open>\<open>removeEmptyPort\<close> of \<open>net/http\<close>: a colon with no port behind it goes.\<close>

definition remove_empty_port :: "string \<Rightarrow> string" where
  "remove_empty_port host =
     (case cut_last (CHR '':'') host of
        Some (h, []) \<Rightarrow> h
      | _ \<Rightarrow> host)"

text \<open>\<open>http.NewRequest\<close> on the original or the rewritten URL.\<close>

definition new_request :: "string \<Rightarrow> url \<Rightarrow> string \<Rightarrow> string option \<Rightarrow> out_request option" where
  "new_request method u body pinned_host =
     (if method = [] \<or> \<not> list_all is_token_char method then None
      else case (case pinned_host of None \<Rightarrow> Some (u_host u)
                 | Some h \<Rightarrow> if u_opaque u \<noteq> [] then Some [] else parse_host h) of
        None \<Rightarrow> None
      | Some h \<Rightarrow>
          let h = remove_empty_port h
          in Some \<lparr>or_method = method, or_url = u\<lparr>u_host := h\<rparr>, or_host = h, or_headers = [], or_body = body\<rparr>)"

definition set_header :: "string \<Rightarrow> string \<Rightarrow> out_request \<Rightarrow> out_request" where
  "set_header k v r = r\<lparr>or_headers := header_set k v (or_headers r)\<rparr>"

definition inject_auth :: "service_config \<Rightarrow> out_request \<Rightarrow> out_request" where
  "inject_auth svc r =
     (if sv_auth_type svc = ''bearer'' then set_header ''Authorization'' (''Bearer '' @ sv_credential svc) r
      else if sv_auth_type svc = ''basic'' then
        set_header ''Authorization'' (''Basic '' @ b64_std_encode (sv_username svc @ '':'' @ sv_credential svc)) r
      else if sv_auth_type svc = ''header'' then
        set_header (if sv_token_header svc = [] then ''Authorization'' else sv_token_header svc)
          (if sv_token_prefix svc \<noteq> [] then sv_token_prefix svc @ sv_credential svc else sv_credential svc) r
      else if sv_auth_type svc = ''query'' then
        r\<lparr>or_url := (or_url r)\<lparr>u_query := encode_query
            (put (sv_token_header svc) [sv_credential svc] (parse_query (u_query (or_url r))))\<rparr>\<rparr>
      else r)"

definition inject_credentials :: "service_config \<Rightarrow> out_request \<Rightarrow> out_request" where
  "inject_credentials svc r = fold (\<lambda>(k, v). set_header k v) (sv_headers svc) (inject_auth svc r)"

text \<open>The agent's own headers: not those that carry the credentials of the service.\<close>

definition agent_may_set :: "service_config option \<Rightarrow> string \<Rightarrow> bool" where
  "agent_may_set svc k =
     (case svc of
        None \<Rightarrow> True
      | Some s \<Rightarrow>
          \<not> equal_fold k ''Authorization'' \<and>
          \<not> (sv_auth_type s = ''header'' \<and> sv_token_header s \<noteq> [] \<and> equal_fold k (sv_token_header s)))"

definition add_agent_headers :: "service_config option \<Rightarrow> headers \<Rightarrow> out_request \<Rightarrow> out_request" where
  "add_agent_headers svc hs r = fold (\<lambda>(k, v). set_header k v) (filter (\<lambda>(k, _). agent_may_set svc k) hs) r"

definition finish_request :: "service_config option \<Rightarrow> headers \<Rightarrow> out_request \<Rightarrow> out_request" where
  "finish_request svc hs r =
     (let r = (case svc of None \<Rightarrow> r | Some s \<Rightarrow> inject_credentials s r);
          r = add_agent_headers svc hs r;
          r = r\<lparr>or_headers := strip_hop_by_hop_headers (or_headers r)\<rparr>
      in set_header ''X-Ephyr-Proxy'' ''true'' r)"

definition request_timeout :: "service_config option \<Rightarrow> int \<Rightarrow> int" where
  "request_timeout svc requested =
     (let t = (case svc of Some s \<Rightarrow> if sv_timeout s > 0 then sv_timeout s else 30 | None \<Rightarrow> 30);
          t = (if requested > 0 \<and> requested < t then requested else t)
      in if t > 120 then 120 else t)"

section \<open>Reading the answer\<close>

text \<open>The read loop: what has been read so far, and the chunks that follow.\<close>

fun read_capped :: "int \<Rightarrow> bytes \<Rightarrow> bytes list \<Rightarrow> bytes \<times> bool" where
  "read_capped max_bytes seen [] = (seen, False)"
| "read_capped max_bytes seen (chunk # chunks) =
     (let remaining = max_bytes - int (length seen) in
      if int (length chunk) > remaining then (seen @ take (nat remaining) chunk, True)
      else read_capped max_bytes (seen @ chunk) chunks)"

definition max_response_bytes :: "service_config option \<Rightarrow> int" where
  "max_response_bytes svc =
     (case svc of Some s \<Rightarrow> if sv_max_response_kb s > 0 then sv_max_response_kb s * 1024 else 1024 * 1024
      | None \<Rightarrow> 1024 * 1024)"

definition response_headers :: "(string, string list) gomap \<Rightarrow> headers" where
  "response_headers h =
     map (\<lambda>(k, vs). (k, case vs of [] \<Rightarrow> [] | v # _ \<Rightarrow> v)) (strip_sensitive_response_headers (strip_hop_by_hop_headers h))"

definition read_response :: "service_config option \<Rightarrow> string \<Rightarrow> string \<Rightarrow> response \<Rightarrow> proxy_result" where
  "read_response svc url method resp =
     (let (body, truncated) = read_capped (max_response_bytes svc) [] (rs_chunks resp)
      in \<lparr>pr_status_code = rs_status resp, pr_headers = response_headers (rs_headers resp), pr_body = body,
          pr_service = service_name svc, pr_url = url, pr_method = method, pr_bytes_read = int (length body),
          pr_truncated = truncated\<rparr>)"

section \<open>Do\<close>

text \<open>The checks of the matched service.\<close>

definition check_service :: "service_config option \<Rightarrow> string \<Rightarrow> string \<Rightarrow> proxy_error option" where
  "check_service svc method path =
     (case svc of
        None \<Rightarrow> None
      | Some s \<Rightarrow>
          if sv_enabled s = Some False then Some (ServiceDisabled (sv_name s))
          else if sv_allowed_methods s \<noteq> [] \<and> \<not> list_ex (\<lambda>m. equal_fold m method) (sv_allowed_methods s) then
            Some (MethodNotAllowed method (sv_name s))
          else if sv_allowed_paths s \<noteq> [] \<and> \<not> list_ex (\<lambda>p. path_match p path) (sv_allowed_paths s) then
            Some (PathNotAllowed path (sv_name s))
          else None)"

text \<open>A missing grant is issued on the spot.\<close>

definition ensure_grant :: "time \<Rightarrow> string \<Rightarrow> string \<Rightarrow> service_config option \<Rightarrow> grant_store option \<Rightarrow> grant_store option" where
  "ensure_grant now gid agent svc grants =
     (case (grants, svc) of
        (Some gs, Some s) \<Rightarrow>
          if (if sv_grant_mode s \<noteq> [] then sv_grant_mode s = ''ttl'' else gs_mode gs = ModeTTL) \<and>
             validate_grant now Service agent (sv_name s) gs = None
          then Some (snd (issue_grant now gid Service agent (sv_name s) 0
                 [(''url_prefix'', sv_url_prefix s), (''auth_type'', sv_auth_type s)] gs))
          else Some gs
      | _ \<Rightarrow> grants)"

definition pinned_host :: "url \<Rightarrow> string \<Rightarrow> string option" where
  "pinned_host u resolved_ip =
     (if resolved_ip \<noteq> [] \<and> resolved_ip \<noteq> url_hostname u then
        Some (if url_port u \<noteq> [] then join_ip_port resolved_ip (url_port u) else resolved_ip)
      else None)"

definition client_for :: "service_config option \<Rightarrow> proxy_engine \<Rightarrow> http_client" where
  "client_for svc px =
     (case svc of
        None \<Rightarrow> FallbackClient
      | Some s \<Rightarrow> (case get (px_clients px) (sv_name s) of None \<Rightarrow> FallbackClient | Some c \<Rightarrow> c))"

definition proxy_do ::
    "proxy_env \<Rightarrow> time \<Rightarrow> string \<Rightarrow> string \<Rightarrow> proxy_request \<Rightarrow> proxy_broker \<Rightarrow>
     (proxy_error + proxy_result) \<times> proxy_broker" where
  "proxy_do env now gid agent req pb =
     (if pq_url req = [] then (Inl UrlRequired, pb)
      else case parse_url (pq_url req) of
        None \<Rightarrow> (Inl BadUrl, pb)
      | Some u \<Rightarrow>
          if u_scheme u \<noteq> ''http'' \<and> u_scheme u \<noteq> ''https'' then (Inl (UnsupportedScheme (u_scheme u)), pb)
          else
            let method = (if to_upper (pq_method req) = [] then ''GET'' else to_upper (pq_method req)) in
            (case evaluate_policy (pe_net env) (px_policy (pb_proxy pb)) (pq_url req) of
               Inl e \<Rightarrow> (Inl (PolicyRefused e), pb)
             | Inr resolved_ip \<Rightarrow>
                 let svc = match_service (pq_url req) (pb_proxy pb) in
                 (case check_service svc method (u_path u) of
                    Some e \<Rightarrow> (Inl e, pb)
                  | None \<Rightarrow>
                      let pb = pb\<lparr>pb_grants := ensure_grant now gid agent svc (pb_grants pb)\<rparr>;
                          pin = pinned_host u resolved_ip
                      in (case new_request method u (pq_body req) pin of
                            None \<Rightarrow> (Inl RequestNotBuilt, pb)
                          | Some r \<Rightarrow>
                              let r = (if pin = None then r else r\<lparr>or_host := url_hostname u\<rparr>)
                              in (case pe_send env (client_for svc (pb_proxy pb)) (request_timeout svc (pq_timeout req))
                                         (finish_request svc (pq_headers req) r) of
                                    None \<Rightarrow> (Inl RequestFailed, pb)
                                  | Some resp \<Rightarrow> (Inr (read_response svc (pq_url req) method resp), pb))))))"

section \<open>The tool\<close>

datatype http_tool_error =
    UrlMissing
  | InvalidMethod string
  | ServiceAccessDenied string string
  | HttpEnvelope envelope_error
  | RequestBlocked deny_reason
  | RequestBlockedSuspended deny_reason string
  | BodyBlocked deny_reason
  | ProxyFailed proxy_error

text \<open>An object argument: its members that are strings.\<close>

definition string_members :: "tool_args \<Rightarrow> string \<Rightarrow> headers" where
  "string_members args key =
     (case get args key of
        Some (JObj fs) \<Rightarrow> fold (\<lambda>(k, v) m. case v of JStr s \<Rightarrow> put k s m | _ \<Rightarrow> m) fs []
      | _ \<Rightarrow> [])"

definition disable_service :: "string \<Rightarrow> proxy_broker \<Rightarrow> proxy_broker" where
  "disable_service name pb =
     pb\<lparr>pb_proxy := (pb_proxy pb)\<lparr>px_services :=
          map (\<lambda>(k, s). (k, if k = name then s\<lparr>sv_enabled := Some False\<rparr> else s)) (px_services (pb_proxy pb))\<rparr>\<rparr>"

text \<open>The filter of a service: the error and whether the service is switched off.\<close>

definition filter_request :: "service_config \<Rightarrow> string \<Rightarrow> string \<Rightarrow> http_tool_error option \<times> bool" where
  "filter_request svc raw_url body =
     (if \<not> sv_request_filter svc then (None, False)
      else
        let url_path = (case parse_url raw_url of None \<Rightarrow> raw_url | Some u \<Rightarrow> u_path u);
            res = check_command url_path (sv_request_deny svc) (sv_request_allow svc) True
        in if \<not> cf_allowed res then
             (if sv_auto_revoke_on_deny svc then (Some (RequestBlockedSuspended (cf_reason res) (sv_name svc)), True)
              else (Some (RequestBlocked (cf_reason res)), False))
           else if sv_body_deny svc \<noteq> [] \<and> body \<noteq> [] \<and> \<not> cf_allowed (check_command body (sv_body_deny svc) [] True) then
             (Some (BodyBlocked (cf_reason (check_command body (sv_body_deny svc) [] True))), sv_auto_revoke_on_deny svc)
           else (None, False))"

definition valid_methods :: "string list" where
  "valid_methods = [''GET'', ''POST'', ''PUT'', ''PATCH'', ''DELETE'', ''HEAD'']"

definition tool_http_request ::
    "proxy_env \<Rightarrow> (string \<Rightarrow> int) \<Rightarrow> time \<Rightarrow> string \<Rightarrow> mcp_agent \<Rightarrow> tool_args \<Rightarrow> proxy_broker \<Rightarrow>
     (http_tool_error + proxy_result) \<times> proxy_broker" where
  "tool_http_request env float_int now gid agent args pb =
     (case needed args ''url'' of
        Inl _ \<Rightarrow> (Inl UrlMissing, pb)
      | Inr raw_url \<Rightarrow>
          let method = to_upper (if optional_text args ''method'' = [] then ''GET'' else optional_text args ''method'')
          in if method \<notin> set valid_methods then (Inl (InvalidMethod method), pb)
             else
               let body = optional_text args ''body'';
                   req = \<lparr>pq_url = raw_url, pq_method = method, pq_headers = string_members args ''headers'',
                          pq_body = body, pq_timeout = clamp_arg 120 (get_int_arg float_int args ''timeout'' 30)\<rparr>;
                   run = (case proxy_do env now gid (ma_name agent) req pb of
                            (Inl e, pb) \<Rightarrow> (Inl (ProxyFailed e), pb) | (Inr r, pb) \<Rightarrow> (Inr r, pb))
               in (case match_service raw_url (pb_proxy pb) of
                     None \<Rightarrow> run
                   | Some svc \<Rightarrow>
                       if \<not> can_access_service (get_agent_perms agent) (sv_name svc) method then
                         (Inl (ServiceAccessDenied (sv_name svc) method), pb)
                       else
                         (case enforce_proxy_envelope (map_option cl_envelope (ma_task_claims agent)) (sv_name svc) method of
                            Some e \<Rightarrow> (Inl (HttpEnvelope e), pb)
                          | None \<Rightarrow>
                              (case filter_request svc raw_url body of
                                 (Some e, suspend) \<Rightarrow> (Inl e, if suspend then disable_service (sv_name svc) pb else pb)
                               | (None, _) \<Rightarrow> run))))"

record service_info =
  si_name :: string
  si_url_prefix :: string
  si_description :: string
  si_auth_type :: string
  si_methods :: "string list"

definition tool_list_services :: "mcp_agent \<Rightarrow> proxy_engine \<Rightarrow> service_info list" where
  "tool_list_services agent px =
     (let perms = get_agent_perms agent;
          services = (if rp_legacy_mode perms then list_services px
                      else filter (\<lambda>s. can_access_service perms (sv_name s) []) (list_services px))
      in map (\<lambda>s. \<lparr>si_name = sv_name s, si_url_prefix = sv_url_prefix s, si_description = sv_description s,
                   si_auth_type = sv_auth_type s, si_methods = sv_allowed_methods s\<rparr>) services)"

end
