(* ===== verification/ReadLoop.thy ===== *)
theory ReadLoop
  imports ProxyDo
begin

text \<open>
  The loop with which the proxy reads the body of an answer. The body is whatever the reads give, one
  after the other, and need not end, so the loop is a partial function: not returning is \<open>None\<close>.
\<close>

section \<open>The loop\<close>

text \<open>What the i-th read gives: the bytes and whether it reports an error, the end among them.\<close>

type_synonym reader = "nat \<Rightarrow> bytes \<times> bool"

partial_function (option) read_loop :: "int \<Rightarrow> reader \<Rightarrow> nat \<Rightarrow> bytes \<Rightarrow> (bytes \<times> bool) option" where
  "read_loop max_bytes rd i seen =
     (let (chunk, failed) = rd i; n = int (length chunk); remaining = max_bytes - int (length seen) in
      if n > 0 \<and> n > remaining then Some (seen @ take (nat remaining) chunk, True)
      else if failed then Some (seen @ chunk, False)
      else read_loop max_bytes rd (i + 1) (seen @ chunk))"

text \<open>The bytes of the reads from the i-th to before the k-th.\<close>

definition chunks_read :: "reader \<Rightarrow> nat \<Rightarrow> nat \<Rightarrow> bytes list" where
  "chunks_read rd i k = map (\<lambda>j. fst (rd j)) [i..<k]"

lemma chunks_read_step: "i < k \<Longrightarrow> chunks_read rd i k = fst (rd i) # chunks_read rd (Suc i) k"
  by (simp add: chunks_read_def upt_conv_Cons)

lemma read_loop_steps:
  "rd i = (chunk, failed) \<Longrightarrow> 0 < length chunk \<Longrightarrow> int (length chunk) > max_bytes - int (length seen) \<Longrightarrow>
     read_loop max_bytes rd i seen = Some (seen @ take (nat (max_bytes - int (length seen))) chunk, True)"
  "rd i = (chunk, True) \<Longrightarrow> \<not> (0 < length chunk \<and> int (length chunk) > max_bytes - int (length seen)) \<Longrightarrow>
     read_loop max_bytes rd i seen = Some (seen @ chunk, False)"
  "rd i = (chunk, False) \<Longrightarrow> \<not> (0 < length chunk \<and> int (length chunk) > max_bytes - int (length seen)) \<Longrightarrow>
     read_loop max_bytes rd i seen = read_loop max_bytes rd (Suc i) (seen @ chunk)"
  by (auto simp: read_loop.simps [of max_bytes rd i seen] Let_def)

lemma read_loop_ends:
  assumes reads: "\<And>j. fst (rd j) = [] \<Longrightarrow> snd (rd j)" and seen: "int (length seen) \<le> max_bytes"
  shows "\<exists>k. i < k \<and> int k \<le> int i + max_bytes - int (length seen) + 1 \<and>
    read_loop max_bytes rd i seen = Some (read_capped max_bytes seen (chunks_read rd i k))"
  using seen
proof (induction "nat (max_bytes - int (length seen))" arbitrary: i seen rule: less_induct)
  case less
  obtain chunk failed where rd: "rd i = (chunk, failed)" by (cases "rd i")
  have one: "chunks_read rd i (Suc i) = [chunk]" by (simp add: chunks_read_def rd)
  let ?over = "0 < length chunk \<and> int (length chunk) > max_bytes - int (length seen)"
  consider "?over" | "\<not> ?over" "failed" | "\<not> ?over" "\<not> failed" by blast
  then show ?case
  proof cases
    case 1
    then show ?thesis
      using less.prems by (intro exI [of _ "Suc i"]) (simp add: one read_loop_steps(1) [where i = i and rd = rd and chunk = chunk and failed = failed, OF rd] Let_def)
  next
    case 2
    then show ?thesis
      using less.prems rd by (intro exI [of _ "Suc i"]) (auto simp: one read_loop_steps(2) Let_def)
  next
    case 3
    then have some: "0 < length chunk" using reads [of i] rd by auto
    then have fits: "int (length chunk) \<le> max_bytes - int (length seen)" using 3 by linarith
    have "0 < int (length chunk)" using some by simp
    then have "nat (max_bytes - int (length (seen @ chunk))) < nat (max_bytes - int (length seen))"
      "int (length (seen @ chunk)) \<le> max_bytes" using fits by (linarith | simp)+
    from less.hyps [OF this, of "Suc i"] obtain k where
      k: "Suc i < k" "int k \<le> int (Suc i) + max_bytes - int (length (seen @ chunk)) + 1"
        "read_loop max_bytes rd (Suc i) (seen @ chunk) = Some (read_capped max_bytes (seen @ chunk) (chunks_read rd (Suc i) k))"
      by blast
    have "read_loop max_bytes rd i seen = Some (read_capped max_bytes seen (chunks_read rd i k))"
      using k 3 rd fits by (simp add: read_loop_steps(3) chunks_read_step Let_def)
    moreover have "int k \<le> int i + max_bytes - int (length seen) + 1" using k(2) \<open>0 < int (length chunk)\<close> unfolding length_append of_nat_add of_nat_Suc by linarith
    ultimately show ?thesis using k(1) by (intro exI [of _ k]) simp
  qed
qed

lemma max_response_positive: "0 < max_response_bytes svc"
  by (auto simp: max_response_bytes_def split: option.split)

text \<open>
  Claim C22. The loop that reads the body of an answer ends, even when the body does not, as long as
  every read that reports no error gives at least one byte: after at most one read more than the
  limit has bytes it holds the part of the body that the model of the answer keeps. A sender whose
  reads stay empty holds it for ever.
\<close>

theorem body_reading_ends:
  assumes reads: "\<And>j. fst (rd j) = [] \<Longrightarrow> snd (rd j)"
  shows "\<exists>k. int k \<le> max_response_bytes svc + 1 \<and>
    read_loop (max_response_bytes svc) rd 0 [] = Some (read_capped (max_response_bytes svc) [] (chunks_read rd 0 k))"
  using read_loop_ends [of rd "[]" "max_response_bytes svc" 0] reads max_response_positive [of svc] by auto

theorem body_reading_ends_witness:
  "\<exists>k. int k \<le> max_response_bytes None + 1 \<and>
    read_loop (max_response_bytes None) (\<lambda>_. (''x'', False)) 0 [] =
      Some (read_capped (max_response_bytes None) [] (chunks_read (\<lambda>_. (''x'', False)) 0 k))"
  by (rule body_reading_ends) simp

lemma endless_empty_reads: "read_loop max_bytes (\<lambda>_. ([], False)) i seen = None"
proof -
  have "rd \<noteq> (\<lambda>_. ([], False))" if "read_loop max_bytes rd i seen = Some y" for max_bytes rd i seen y
  proof (rule read_loop.raw_induct [where P = "\<lambda>_ rd _ _ _. rd \<noteq> (\<lambda>_. ([], False))", OF _ that])
    fix loop :: "int \<Rightarrow> reader \<Rightarrow> nat \<Rightarrow> bytes \<Rightarrow> (bytes \<times> bool) option" and m r n s z
    assume hyp: "\<And>m r n s z. loop m r n s = Some z \<Longrightarrow> r \<noteq> (\<lambda>_. ([], False))"
      and step: "(let (chunk, failed) = r n; l = int (length chunk); remaining = m - int (length s) in
        if l > 0 \<and> l > remaining then Some (s @ take (nat remaining) chunk, True)
        else if failed then Some (s @ chunk, False) else loop m r (n + 1) (s @ chunk)) = Some z"
    show "r \<noteq> (\<lambda>_. ([], False))"
    proof
      assume r: "r = (\<lambda>_. ([], False))"
      have "loop m r (n + 1) (s @ []) = Some z" using step by (simp add: r)
      then show False using hyp r by blast
    qed
  qed
  then show ?thesis by (metis option.exhaust)
qed

end
