(* ===== verification/ProxySafety.thy ===== *)
theory ProxySafety
  imports ProxyDo
begin

text \<open>
  What the proxy guarantees: which host a URL with a service's prefix names, where a request goes
  after the network policy, and which headers leave and come back.
\<close>

section \<open>Cutting texts\<close>

lemma cut_append: "d \<notin> set a \<Longrightarrow> cut d (a @ s) = (a @ fst (cut d s), snd (cut d s))"
  by (induction a) (auto split: prod.splits)

lemma cut_fst: "fst (cut d s) = takeWhile (\<lambda>c. c \<noteq> d) s"
  by (induction s) (auto split: prod.splits)

lemma cut_result: "cut d s = (a, b) \<Longrightarrow> a = takeWhile (\<lambda>c. c \<noteq> d) s"
  using cut_fst [of d s] by simp

lemma cut_none: "d \<notin> set s \<Longrightarrow> cut d s = (s, None)"
  using cut_append [of d s "[]"] by simp

lemma cut_found: "d \<notin> set a \<Longrightarrow> cut d (a @ d # s) = (a, Some s)"
  using cut_append [of d a "d # s"] by simp

lemma cut_last_none: "d \<notin> set s \<Longrightarrow> cut_last d s = None"
  by (simp add: cut_last_def cut_none)

lemma cut_last_found: "d \<notin> set b \<Longrightarrow> cut_last d (a @ d # b) = Some (a, b)"
  by (simp add: cut_last_def cut_found)

lemma cut_last_prefix: "d \<notin> set a \<Longrightarrow> cut_last d (a @ s) = map_option (\<lambda>(x, y). (a @ x, y)) (cut_last d s)"
proof (cases "d \<in> set s")
  case True
  then obtain x y where "s = x @ d # y" "d \<notin> set y" using split_list_last by fastforce
  then show ?thesis using cut_last_found [of d y "a @ x"] by (simp add: cut_last_found)
qed (simp add: cut_last_none)

section \<open>The host of a matched URL\<close>

definition host_char :: "char \<Rightarrow> bool" where
  "host_char c \<longleftrightarrow> is_alpha c \<or> is_dec c \<or> c = CHR ''.'' \<or> c = CHR ''-''"

lemma not_host_chars: "list_all (\<lambda>c. \<not> host_char c) ''/?#@:[]%*+''"
  by code_simp

lemma not_in_host: "list_all host_char host \<Longrightarrow> c \<in> set ''/?#@:[]%*+'' \<Longrightarrow> c \<notin> set host"
  using not_host_chars unfolding list_all_iff by blast

lemma host_char_kept: "host_char c \<Longrightarrow> unescape Host (c # s) = map_option ((#) c) (unescape Host s)"
proof -
  assume "host_char c"
  then have "\<not> should_escape Host c" "c \<noteq> CHR ''%''" "c \<noteq> CHR ''+''"
    using not_in_host [of "[c]"] by (auto simp: host_char_def should_escape_def)
  then show ?thesis by simp
qed

lemma unescape_plain: "list_all host_char host \<Longrightarrow> unescape Host (host @ s) = map_option ((@) host) (unescape Host s)"
  by (induction host; cases "unescape Host s") (simp_all add: host_char_kept del: unescape.simps(2))

lemma digits_plain: "list_all is_dec p \<Longrightarrow> list_all host_char p"
  by (simp add: list_all_iff host_char_def)

lemma colon_kept: "unescape Host (CHR '':'' # s) = map_option ((#) (CHR '':'')) (unescape Host s)"
  by (simp add: should_escape_def)

lemma valid_port_cases:
  assumes "valid_optional_port p"
  obtains "p = []" | ds where "p = CHR '':'' # ds" "list_all is_dec ds"
  using assms by (cases p) (auto simp: valid_optional_port_def)

text \<open>The host of an authority that starts with a plain host and has no user information.\<close>

lemma parse_host_plain:
  assumes host: "list_all host_char host" "host \<noteq> []" and port: "valid_optional_port port"
  shows "parse_host (host @ port) = Some (host @ port) \<and> fst (split_host_port (host @ port)) = host"
proof -
  have no: "CHR '':'' \<notin> set host" using not_in_host [OF host(1)] by simp
  have bracket: "\<not> has_prefix ''['' (host @ s)" for s
    using not_in_host [OF host(1), of "CHR ''[''"] host(2) by (cases host) auto
  then have close: "\<not> has_prefix ''['' host" using bracket [of "[]"] by simp
  from port show ?thesis
  proof (cases rule: valid_port_cases)
    case 1
    then show ?thesis
      using close no unescape_plain [OF host(1), of "[]"]
      by (simp add: parse_host_def split_host_port_def cut_last_none)
  next
    case (2 ds)
    then have split: "cut_last (CHR '':'') (host @ port) = Some (host, ds)"
      using not_in_host [OF digits_plain [OF 2(2)], of "CHR '':''"] by (simp add: cut_last_found)
    have "unescape Host port = Some port"
      using unescape_plain [OF digits_plain [OF 2(2)], of "[]"] by (simp add: 2 colon_kept del: unescape.simps(2))
    then show ?thesis
      using close bracket [of port] split port unescape_plain [OF host(1), of port]
      by (simp add: parse_host_def split_host_port_def) (simp add: 2 valid_optional_port_def)
  qed
qed

section \<open>The service of a URL\<close>

lemma scheme_chars_read:
  "seen \<noteq> [] \<Longrightarrow> list_all is_alpha s \<Longrightarrow> scheme_chars seen (s @ CHR '':'' # t) = Some (seen @ s, t)"
proof (induction s arbitrary: seen)
  case Nil
  then show ?case by (simp add: is_alpha_def is_dec_def code_def)
qed simp

lemma get_scheme_web: "scheme \<in> {''http'', ''https''} \<Longrightarrow> get_scheme (scheme @ CHR '':'' # t) = Some (scheme, t)"
  by (auto simp: get_scheme_def is_alpha_def is_dec_def code_def)

lemma web_url:
  assumes scheme: "scheme \<in> {''http'', ''https''}" and parsed: "parse_url (scheme @ ''://'' @ s) = Some u"
  defines "authority \<equiv> takeWhile (\<lambda>c. c \<notin> set ''/?#'') s"
  shows "u_scheme u = scheme \<and> parse_authority authority = Some (u_user u, u_host u)"
proof -
  obtain main frag where m: "cut (CHR ''#'') (scheme @ ''://'' @ s) = (main, frag)" by fastforce
  have main: "main = scheme @ ''://'' @ takeWhile (\<lambda>c. c \<noteq> CHR ''#'') s"
    using cut_result [OF m] scheme by auto
  have parsed: "parse_main main = Some u" using parsed unfolding parse_url_def m by (auto split: option.splits if_splits)
  define body where "body = takeWhile (\<lambda>c. c \<noteq> CHR ''#'') s"
  have split: "get_scheme main = Some (scheme, ''//'' @ body)"
    using get_scheme_web [OF scheme, of "''//'' @ body"] by (simp add: main body_def)
  obtain rest query where q: "cut (CHR ''?'') (''//'' @ body) = (rest, query)" by fastforce
  have rest: "rest = ''//'' @ takeWhile (\<lambda>c. c \<noteq> CHR ''?'') body"
    using cut_result [OF q] by simp
  obtain auth path where a: "cut (CHR ''/'') (drop 2 rest) = (auth, path)" by fastforce
  have "auth = takeWhile (\<lambda>c. c \<noteq> CHR ''/'') (takeWhile (\<lambda>c. c \<noteq> CHR ''?'') (takeWhile (\<lambda>c. c \<noteq> CHR ''#'') s))"
    using cut_result [OF a] by (simp add: rest body_def)
  then have auth: "auth = authority"
    unfolding authority_def by (simp add: takeWhile_takeWhile) (metis (mono_tags, lifting))
  have "to_lower scheme = scheme" "scheme \<noteq> []" using scheme by (auto simp: to_lower_def lower_char_def)
  moreover have "main \<noteq> ''*''" using scheme by (auto simp: main)
  moreover have "has_prefix ''/'' rest" "has_prefix ''//'' rest" by (simp_all add: rest)
  ultimately show ?thesis
    using parsed unfolding parse_main_def split
    by (auto simp: q [unfolded append.simps] a auth no_url_def Let_def simp del: cut.simps split: if_splits option.splits)
qed

lemma bare_url:
  assumes scheme: "scheme \<in> {''http'', ''https''}"
    and plain: "list_all (\<lambda>c. c \<notin> set ''/?#'' \<and> \<not> is_control c) authority"
    and authority: "parse_authority authority = Some (user, h)"
  shows "parse_url (scheme @ ''://'' @ authority) =
    Some (no_url\<lparr>u_scheme := scheme, u_user := user, u_host := h\<rparr>)"
proof -
  have no: "CHR ''/'' \<notin> set authority" "CHR ''?'' \<notin> set authority" "CHR ''#'' \<notin> set authority" "list_ex is_control authority = False"
    using plain by (auto simp: list_all_iff list_ex_iff)
  have main: "cut (CHR ''#'') (scheme @ ''://'' @ authority) = (scheme @ ''://'' @ authority, None)"
    using scheme no by (intro cut_none) auto
  have split: "get_scheme (scheme @ ''://'' @ authority) = Some (scheme, ''//'' @ authority)"
    using get_scheme_web [OF scheme, of "''//'' @ authority"] by simp
  have rest: "cut (CHR ''?'') (''//'' @ authority) = (''//'' @ authority, None)" "cut (CHR ''/'') authority = (authority, None)"
    using no by (auto intro: cut_none simp del: cut.simps)
  have "to_lower scheme = scheme" "scheme \<noteq> []" "\<not> list_ex is_control scheme" "scheme @ ''://'' @ authority \<noteq> ''*''"
    using scheme by (auto simp: to_lower_def lower_char_def is_control_def code_def)
  moreover have "\<not> list_ex is_control ''://''" by code_simp
  ultimately have "parse_main (scheme @ ''://'' @ authority) = Some (no_url\<lparr>u_scheme := scheme, u_user := user, u_host := h\<rparr>)"
    unfolding parse_main_def split using authority no(4)
    by (simp add: rest [unfolded append.simps] no_url_def Let_def text_of_def del: cut.simps)
  then show ?thesis unfolding parse_url_def main by (simp add: text_of_def)
qed

lemma plain_fine: "list_all host_char s \<Longrightarrow> list_all (\<lambda>c. c \<notin> set ''/?#'' \<and> \<not> is_control c) s"
  using not_in_host by (fastforce simp: list_all_iff host_char_def is_alpha_def is_dec_def is_control_def code_def)

lemma unescape_part: "list_all host_char s \<Longrightarrow> unescape Part s = Some s"
proof (induction s)
  case (Cons c s)
  then show ?case using not_in_host [of "[c]"] by auto
qed simp

text \<open>The text of a URL behind the prefix up to the end of its authority.\<close>

definition authority_rest :: "string \<Rightarrow> string \<Rightarrow> string" where
  "authority_rest prefix raw_url = takeWhile (\<lambda>c. c \<notin> set ''/?#'') (drop (length prefix) raw_url)"

text \<open>
  Claim C19. A URL that matches the prefix \<open>http(s)://host\<close> of a service names that host and no user
  when nothing or a port follows the prefix. A lookalike whose host merely starts with the
  service's does not match. But a URL that puts a user name behind the colon matches as well, and
  its host is the one behind the at sign, whichever that is.
\<close>

theorem matched_url_host:
  assumes prefix: "prefix = scheme @ ''://'' @ host" "scheme \<in> {''http'', ''https''}" "list_all host_char host" "host \<noteq> []"
  shows "(matches_service_url raw_url prefix \<and> parse_url raw_url = Some u \<and> valid_optional_port (authority_rest prefix raw_url) \<longrightarrow>
      u_scheme u = scheme \<and> url_hostname u = host \<and> u_user u = None) \<and>
    (host_char c \<longrightarrow> \<not> matches_service_url (prefix @ c # s) prefix) \<and>
    (list_all host_char other \<and> other \<noteq> [] \<longrightarrow>
      matches_service_url (prefix @ '':x@'' @ other) prefix \<and>
      (\<exists>u. parse_url (prefix @ '':x@'' @ other) = Some u \<and> url_hostname u = other))"
proof (intro conjI impI)
  note no = not_in_host [OF prefix(3)]
  assume m: "matches_service_url raw_url prefix \<and> parse_url raw_url = Some u \<and> valid_optional_port (authority_rest prefix raw_url)"
  then obtain s where raw: "raw_url = prefix @ s" by (auto simp: matches_service_url_def has_prefix_iff split: if_splits)
  have port: "valid_optional_port (takeWhile (\<lambda>c. c \<notin> set ''/?#'') s)" using m by (simp add: authority_rest_def raw)
  have at: "CHR ''@'' \<notin> set (takeWhile (\<lambda>c. c \<notin> set ''/?#'') s)"
    using port by (cases rule: valid_port_cases) (use not_in_host [OF digits_plain, of _ "CHR ''@''"] in auto)
  have "takeWhile (\<lambda>c. c \<notin> set ''/?#'') (host @ s) = host @ takeWhile (\<lambda>c. c \<notin> set ''/?#'') s"
    using no by (intro takeWhile_append2) auto
  then have u: "u_scheme u = scheme"
      "parse_authority (host @ takeWhile (\<lambda>c. c \<notin> set ''/?#'') s) = Some (u_user u, u_host u)"
    using web_url [OF prefix(2), of "host @ s" u] m by (simp_all add: raw prefix(1))
  have host: "parse_host (host @ takeWhile (\<lambda>c. c \<notin> set ''/?#'') s) = Some (host @ takeWhile (\<lambda>c. c \<notin> set ''/?#'') s)"
      "fst (split_host_port (host @ takeWhile (\<lambda>c. c \<notin> set ''/?#'') s)) = host"
    using parse_host_plain [OF prefix(3,4) port] by simp_all
  have "CHR ''@'' \<notin> set (host @ takeWhile (\<lambda>c. c \<notin> set ''/?#'') s)" using at no by simp
  then have "u_user u = None" "u_host u = host @ takeWhile (\<lambda>c. c \<notin> set ''/?#'') s"
    using u(2) host(1) by (simp_all add: parse_authority_def cut_last_none)
  with u(1) host(2) show "u_scheme u = scheme" "url_hostname u = host" "u_user u = None" by (simp_all add: url_hostname_def)
next
  assume "host_char c"
  then have "c \<notin> set ''/?#:''" using not_in_host [of "[c]"] by auto
  then show "\<not> matches_service_url (prefix @ c # s) prefix" by (simp add: matches_service_url_def)
next
  assume other: "list_all host_char other \<and> other \<noteq> []"
  show "matches_service_url (prefix @ '':x@'' @ other) prefix" by (simp add: matches_service_url_def)
  have no: "CHR ''@'' \<notin> set other" "CHR '':'' \<notin> set host" using other prefix(3) not_in_host by auto
  have "valid_userinfo '':x''" by code_simp
  then have "valid_userinfo (host @ '':x'')"
    using prefix(3) by (auto simp: valid_userinfo_def list_all_iff host_char_def)
  moreover have "cut_last (CHR ''@'') (host @ '':x@'' @ other) = Some (host @ '':x'', other)"
    using cut_last_found [OF no(1), of "host @ '':x''"] by simp
  moreover have "parse_host other = Some other" "fst (split_host_port other) = other"
    using parse_host_plain [of other "[]"] other by (simp_all add: valid_optional_port_def)
  moreover have "cut (CHR '':'') (host @ '':x'') = (host, Some ''x'')" using no(2) by (rule cut_found)
  ultimately have authority: "parse_authority (host @ '':x@'' @ other) = Some (Some (host @ '':x''), other)"
    using unescape_part [OF prefix(3)] by (simp add: parse_authority_def text_of_def)
  have "list_all (\<lambda>c. c \<notin> set ''/?#'' \<and> \<not> is_control c) '':x@''" by code_simp
  then have "list_all (\<lambda>c. c \<notin> set ''/?#'' \<and> \<not> is_control c) (host @ '':x@'' @ other)"
    using plain_fine [OF prefix(3)] plain_fine [of other] other by simp
  note parsed = bare_url [OF prefix(2) this authority]
  show "\<exists>u. parse_url (prefix @ '':x@'' @ other) = Some u \<and> url_hostname u = other"
    using parsed \<open>fst (split_host_port other) = other\<close>
    by (intro exI [of _ "no_url\<lparr>u_scheme := scheme, u_user := Some (host @ '':x''), u_host := other\<rparr>"])
      (simp add: prefix(1) url_hostname_def)
qed

theorem matched_url_host_witness:
  "matches_service_url ''http://git:x@evil'' ''http://git'' \<and>
   (\<exists>u. parse_url ''http://git:x@evil'' = Some u \<and> url_hostname u = ''evil'') \<and>
   \<not> matches_service_url ''http://gitx'' ''http://git'' \<and>
   map_option url_hostname (parse_url ''http://git:3000/api'') = Some ''git''"
proof -
  have prefix: "''http://git'' = ''http'' @ ''://'' @ ''git''" "''http'' \<in> {''http'', ''https''}" "list_all host_char ''git''"
    "''git'' \<noteq> []" by (simp, simp, code_simp, simp)
  have facts: "list_all host_char ''evil'' \<and> ''evil'' \<noteq> []" "host_char CHR ''x''"
    "matches_service_url ''http://git:3000/api'' ''http://git''"
    "valid_optional_port (authority_rest ''http://git'' ''http://git:3000/api'')" "parse_url ''http://git:3000/api'' \<noteq> None"
    by code_simp+
  note main = matched_url_host [OF prefix]
  obtain u where u: "parse_url ''http://git:3000/api'' = Some u" using facts(5) by auto
  then have "url_hostname u = ''git''" using main [THEN conjunct1] facts by blast
  moreover have "matches_service_url (''http://git'' @ '':x@'' @ ''evil'') ''http://git'' \<and>
      (\<exists>u. parse_url (''http://git'' @ '':x@'' @ ''evil'') = Some u \<and> url_hostname u = ''evil'')"
    using main [THEN conjunct2, THEN conjunct2] facts(1) by blast
  moreover have "\<not> matches_service_url (''http://git'' @ CHR ''x'' # []) ''http://git''"
    using main [THEN conjunct2, THEN conjunct1] facts(2) by blast
  ultimately show ?thesis using u by simp
qed

section \<open>Headers\<close>

lemma lower_upper_char: "lower_char (upper_char c) = lower_char c" "lower_char (lower_char c) = lower_char c"
proof -
  have lt: "code c < 256" by (simp add: code_def)
  show "lower_char (upper_char c) = lower_char c"
  proof (cases "97 \<le> code c \<and> code c \<le> 122")
    case True
    have m: "(code c - 32) mod 256 = code c - 32" using lt by (intro mod_less) linarith
    have n: "of_char (char_of (code c - 32)) = code c - 32" "65 \<le> code c - 32 \<and> code c - 32 \<le> 90" "code c - 32 + 32 = code c"
      using True by (simp add: of_char_of m, linarith, simp)
    have "upper_char c = char_of (code c - 32)" using True by (simp add: upper_char_def)
    then have "lower_char (upper_char c) = c" unfolding lower_char_def using n by (simp only: Let_def) (simp add: code_def)
    moreover have "lower_char c = c" using True by (simp add: lower_char_def Let_def code_def)
    ultimately show ?thesis by simp
  qed (simp add: upper_char_def del: de_Morgan_conj)
  show "lower_char (lower_char c) = lower_char c"
    by (simp add: lower_char_def Let_def of_char_of)
qed

lemma canonical_lower: "to_lower (canonical_key k) = to_lower k"
proof -
  have "to_lower (canonical_loop b s) = to_lower s" for b s
    by (induction b s rule: canonical_loop.induct) (simp_all add: to_lower_def lower_upper_char)
  then show ?thesis by (simp add: canonical_key_def)
qed

lemma canonical_eq: "canonical_key j = canonical_key k \<Longrightarrow> equal_fold j k"
  using canonical_lower [of j] canonical_lower [of k] by (simp add: equal_fold_def)

lemma get_fold_set_header:
  "(\<And>k v. (k, v) \<in> set hs \<Longrightarrow> canonical_key k \<noteq> j) \<Longrightarrow>
   get (or_headers (fold (\<lambda>(k, v). set_header k v) hs r)) j = get (or_headers r) j"
proof (induction hs arbitrary: r)
  case (Cons e hs)
  obtain k v where e: "e = (k, v)" by fastforce
  have "canonical_key k \<noteq> j" using Cons.prems [of k v] by (simp add: e)
  moreover have "get (or_headers (fold (\<lambda>(k, v). set_header k v) hs (set_header k v r))) j = get (or_headers (set_header k v r)) j"
    using Cons.prems by (intro Cons.IH) (auto simp: e)
  moreover have "canonical_key k \<noteq> j \<Longrightarrow> get (or_headers (set_header k v r)) j = get (or_headers r) j"
    by (simp add: set_header_def header_set_def)
  ultimately show ?case by (simp add: e)
qed simp

lemma set_headers_rest:
  "or_url (fold (\<lambda>(k, v). set_header k v) hs r) = or_url r" "or_body (fold (\<lambda>(k, v). set_header k v) hs r) = or_body r"
  "or_host (fold (\<lambda>(k, v). set_header k v) hs r) = or_host r" "or_method (fold (\<lambda>(k, v). set_header k v) hs r) = or_method r"
  by (induction hs arbitrary: r) (auto simp: set_header_def)

lemma get_fold_del: "get (fold (\<lambda>k. del (f k)) ks h) j = (if j \<in> f ` set ks then None else get h j)"
  by (induction ks arbitrary: h) auto

lemma stripped:
  "get (strip_hop_by_hop_headers h) j = (if j \<in> canonical_key ` set hop_by_hop_headers then None else get h j)"
  "get (strip_sensitive_response_headers h) j = (if j \<in> canonical_key ` set sensitive_response_headers then None else get h j)"
  by (simp_all add: strip_hop_by_hop_headers_def strip_sensitive_response_headers_def get_fold_del)

lemma fixed_names:
  "canonical_key ''Authorization'' = ''Authorization''" "canonical_key ''X-Ephyr-Proxy'' = ''X-Ephyr-Proxy''"
  "''Authorization'' \<notin> canonical_key ` set hop_by_hop_headers" "''X-Ephyr-Proxy'' \<notin> canonical_key ` set hop_by_hop_headers"
  by code_simp+

text \<open>The header that carries the credentials of a service.\<close>

definition credential_header :: "service_config \<Rightarrow> string" where
  "credential_header s = (if sv_auth_type s = ''header'' \<and> sv_token_header s \<noteq> [] then sv_token_header s else ''Authorization'')"

lemma agent_headers_spare:
  "canonical_key j \<in> {canonical_key ''Authorization'', canonical_key (credential_header s)} \<Longrightarrow>
   get (or_headers (add_agent_headers (Some s) hs r)) (canonical_key j) = get (or_headers r) (canonical_key j)"
proof -
  assume j: "canonical_key j \<in> {canonical_key ''Authorization'', canonical_key (credential_header s)}"
  have "canonical_key k \<noteq> canonical_key j" if "agent_may_set (Some s) k" for k
  proof
    assume "canonical_key k = canonical_key j"
    then have "canonical_key k \<in> {canonical_key ''Authorization'', canonical_key (credential_header s)}" using j by simp
    then have "equal_fold k ''Authorization'' \<or> equal_fold k (credential_header s)" using canonical_eq by blast
    then show False using that by (auto simp: agent_may_set_def credential_header_def split: if_splits)
  qed
  then show ?thesis unfolding add_agent_headers_def by (intro get_fold_set_header) auto
qed

text \<open>
  Claim C13. Whatever headers the agent asks for, the outbound request to a service carries the
  credential header and the \<open>Authorization\<close> header exactly as without them, so the agent can neither
  replace nor add to the credentials; the proxy mark is set, no hop-by-hop header leaves, and URL,
  method and body are not touched. No credential-bearing header of the answer reaches the agent, and
  of its body exactly the first bytes up to the limit do, with the mark set when there were more.
\<close>

theorem credentials_stay_with_broker:
  "let out = finish_request (Some s) hs r in
    get (or_headers out) (canonical_key (credential_header s)) =
      get (or_headers (finish_request (Some s) [] r)) (canonical_key (credential_header s)) \<and>
    get (or_headers out) ''Authorization'' = get (or_headers (inject_credentials s r)) ''Authorization'' \<and>
    get (or_headers out) ''X-Ephyr-Proxy'' = Some ''true'' \<and>
    filter (\<lambda>k. get (or_headers out) (canonical_key k) \<noteq> None) hop_by_hop_headers = [] \<and>
    or_url out = or_url (inject_credentials s r) \<and> or_method out = or_method r \<and> or_host out = or_host r \<and> or_body out = or_body r \<and>
    filter (\<lambda>k. get (response_headers h) (canonical_key k) \<noteq> None) (hop_by_hop_headers @ sensitive_response_headers) = [] \<and>
    read_capped (int limit) [] chunks = (take limit (concat chunks), length (concat chunks) > limit)"
proof -
  define out where "out = finish_request (Some s) hs r"
  have fin: "or_headers (finish_request (Some s) hs r) =
      put ''X-Ephyr-Proxy'' ''true'' (strip_hop_by_hop_headers (or_headers (add_agent_headers (Some s) hs (inject_credentials s r))))" for hs
    by (simp add: finish_request_def set_header_def header_set_def fixed_names Let_def)
  have mark: "get (strip_hop_by_hop_headers h) (canonical_key k) = None" if "k \<in> set hop_by_hop_headers" for h :: headers and k
    using that by (simp add: stripped)
  have hop: "filter (\<lambda>k. get (or_headers out) (canonical_key k) \<noteq> None) hop_by_hop_headers = []"
  proof -
    have "get (or_headers out) (canonical_key k) = None" if "k \<in> set hop_by_hop_headers" for k
    proof -
      have "canonical_key k \<noteq> ''X-Ephyr-Proxy''" using that fixed_names(4) by (metis imageI)
      then show ?thesis using mark [OF that] by (simp add: out_def fin)
    qed
    then show ?thesis by (simp add: filter_empty_conv)
  qed
  have auth: "or_url (inject_auth s r') = or_url (inject_auth s r')" for r' by simp
  have rest: "or_method (inject_auth s r) = or_method r" "or_host (inject_auth s r) = or_host r" "or_body (inject_auth s r) = or_body r"
    by (simp_all add: inject_auth_def set_header_def)
  have parts: "or_url out = or_url (inject_credentials s r)" "or_method out = or_method r" "or_host out = or_host r" "or_body out = or_body r"
    by (simp_all add: out_def finish_request_def Let_def set_header_def add_agent_headers_def inject_credentials_def set_headers_rest rest)
  have gets: "get (map (\<lambda>(k, vs). (k, f vs)) m) j = map_option f (get m j)" for f and m :: "(string, string list) gomap" and j
    by (induction m) auto
  have answer: "filter (\<lambda>k. get (response_headers h) (canonical_key k) \<noteq> None) (hop_by_hop_headers @ sensitive_response_headers) = []"
    unfolding filter_empty_conv response_headers_def gets by (auto simp: stripped)
  have capped: "read_capped (int limit) seen chunks =
      (take limit (seen @ concat chunks), length (seen @ concat chunks) > limit)" if "length seen \<le> limit" for seen
    using that
  proof (induction chunks arbitrary: seen)
    case (Cons chunk chunks)
    then show ?case by (cases "length chunk > limit - length seen") (auto simp: Let_def nat_diff_distrib)
  qed simp
  have "get (or_headers (inject_credentials s r)) j = get (or_headers (add_agent_headers (Some s) [] (inject_credentials s r))) j" for j
    by (simp add: add_agent_headers_def)
  then show ?thesis
    using hop parts answer capped [of "[]"] agent_headers_spare [of "credential_header s" s hs "inject_credentials s r"]
      agent_headers_spare [of "''Authorization''" s hs "inject_credentials s r"]
    by (simp add: fin stripped fixed_names Let_def flip: out_def) (simp add: out_def fin stripped fixed_names)
qed

end
