(* ===== verification/ProxyRuns.thy ===== *)
theory ProxyRuns
  imports ProxySafety
begin

text \<open>Where the proxy sends a request, and what the tool checks before.\<close>

section \<open>Dotted quads as hosts\<close>

lemma dec_digit: "0 \<le> n \<Longrightarrow> n < 10 \<Longrightarrow> is_dec (digit n)"
  by (simp add: digit_def is_dec_def code_def of_char_of nat_add_distrib)

lemma dec_digits_of: "list_all is_dec (digits_of n)"
proof (induction n rule: digits_of.induct)
  case (1 n)
  then show ?case by (subst digits_of.simps) (simp add: dec_digit)
qed

lemma join_nonempty: "xs \<noteq> [] \<Longrightarrow> hd xs \<noteq> [] \<Longrightarrow> join sep xs \<noteq> []"
  by (cases "(sep, xs)" rule: join.cases) auto

lemma host_join: "(\<And>x. x \<in> set xs \<Longrightarrow> list_all host_char x) \<Longrightarrow> list_all host_char (join ''.'' xs)"
  by (induction "''.''" xs rule: join.induct) (auto simp: host_char_def)

lemma quad_host: "list_all host_char (show_quad w)" "show_quad w \<noteq> []"
proof -
  have "host_char CHR ''-''" by (simp add: host_char_def)
  then have "list_all host_char (itoa n)" for n
    using digits_plain [OF dec_digits_of] by (simp add: itoa_def)
  then show "list_all host_char (show_quad w)" unfolding show_quad_def by (intro host_join) auto
  show "show_quad w \<noteq> []"
    unfolding show_quad_def by (intro join_nonempty) (simp_all add: itoa_def digits_of_nonempty)
qed

lemma unbracketed: "split_host_port h = (if has_prefix ''['' h \<and> has_suffix '']'' h then butlast (tl h) else h, [])"
  if "CHR '':'' \<notin> set h"
  using that by (simp add: split_host_port_def cut_last_none)

lemma hostname_no_colon:
  assumes "fst (split_host_port h) = q" "CHR '':'' \<notin> set q"
  shows "fst (split_host_port (remove_empty_port h)) = q"
proof (cases "cut_last (CHR '':'') h")
  case None
  then show ?thesis using assms by (simp add: remove_empty_port_def)
next
  case (Some hp)
  obtain a p where hp: "hp = (a, p)" by fastforce
  show ?thesis
  proof (cases p)
    case Nil
    have q: "q = (if has_prefix ''['' a \<and> has_suffix '']'' a then butlast (tl a) else a)"
      using assms(1) Some by (simp add: split_host_port_def hp Nil valid_optional_port_def)
    have "CHR '':'' \<notin> set a"
    proof (cases "has_prefix ''['' a \<and> has_suffix '']'' a")
      case True
      then obtain t where "a = CHR ''['' # t @ '']''"
        by (auto simp: has_prefix_iff has_suffix_iff append_eq_Cons_conv Cons_eq_append_conv)
      then show ?thesis using q True assms(2) by auto
    next
      case False
      then show ?thesis using q assms(2) by metis
    qed
    then show ?thesis using q by (simp add: remove_empty_port_def Some hp Nil unbracketed)
  next
    case (Cons c ps)
    then show ?thesis using assms by (simp add: remove_empty_port_def Some hp)
  qed
qed

lemma pinned_request:
  assumes request: "new_request verb u body (pinned_host u (show_quad w)) = Some r" and "u_opaque u = []"
  shows "url_hostname (or_url r) = show_quad w"
proof -
  have no: "CHR '':'' \<notin> set (show_quad w)" using not_in_host [OF quad_host(1)] by simp
  show ?thesis
  proof (cases "show_quad w = url_hostname u")
    case True
    then have "pinned_host u (show_quad w) = None" by (simp add: pinned_host_def)
    with request have r: "u_host (or_url r) = remove_empty_port (u_host u)"
      by (auto simp: new_request_def Let_def split: if_splits)
    have "fst (split_host_port (u_host u)) = show_quad w" using True by (simp add: url_hostname_def)
    then show ?thesis using hostname_no_colon no r by (simp add: url_hostname_def)
  next
    case False
    define port where "port = (if url_port u \<noteq> [] then CHR '':'' # url_port u else [])"
    have valid: "valid_optional_port port"
      by (auto simp: port_def url_port_def split_host_port_def valid_optional_port_def split: option.splits prod.splits if_splits)
    have pin: "pinned_host u (show_quad w) = Some (show_quad w @ port)"
      using False quad_host(2) no by (simp add: pinned_host_def join_ip_port_def port_def)
    note host = parse_host_plain [OF quad_host valid]
    have "remove_empty_port (show_quad w @ port) = show_quad w @ port"
    proof (cases "url_port u = []")
      case True
      then show ?thesis using no by (simp add: port_def remove_empty_port_def cut_last_none)
    next
      case False
      then have "list_all is_dec (url_port u)" using valid by (simp add: port_def valid_optional_port_def)
      then have "CHR '':'' \<notin> set (url_port u)" using not_in_host [OF digits_plain] by simp
      then show ?thesis using False by (simp add: port_def remove_empty_port_def cut_last_found split: list.split)
    qed
    then have "u_host (or_url r) = show_quad w @ port"
      using request host assms(2) by (auto simp: new_request_def pin Let_def split: if_splits)
    then show ?thesis using host by (simp add: url_hostname_def)
  qed
qed

lemma first_error_None: "first_error f xs = None \<longleftrightarrow> filter (\<lambda>x. f x \<noteq> None) xs = []"
  by (induction xs) (auto split: option.split)


definition sample_service :: service_config where
  "sample_service =
     \<lparr>sv_name = ''git'', sv_url_prefix = ''http://git'', sv_auth_type = ''bearer'', sv_token_header = [], sv_token_prefix = [],
      sv_username = [], sv_credential = ''s3cret'', sv_allowed_paths = [''/api/*''], sv_allowed_methods = [''get''],
      sv_max_response_kb = 1, sv_timeout = 10, sv_description = [], sv_enabled = None, sv_grant_mode = [], sv_headers = [],
      sv_tls = \<lparr>ts_verify = False, ts_ca = [], ts_ca_inline = [], ts_fingerprint = []\<rparr>, sv_request_filter = True,
      sv_request_deny = [''*secret*''], sv_request_allow = [], sv_body_deny = [], sv_auto_revoke_on_deny = True\<rparr>"

definition sample_proxy :: proxy_broker where
  "sample_proxy =
     \<lparr>pb_proxy = \<lparr>px_services = [(''git'', sample_service)], px_clients = [], px_policy = default_network_policy\<rparr>,
      pb_grants = Some new_grant_store\<rparr>"

definition sample_net :: proxy_env where
  "sample_net =
     \<lparr>pe_net = \<lparr>ne_parse6 = (\<lambda>_. None), ne_show6 = (\<lambda>_. []), ne_cidr6 = (\<lambda>_. None), ne_lookup = (\<lambda>_. Some [''10.0.0.5''])\<rparr>,
      pe_send = (\<lambda>_ _ r. Some \<lparr>rs_status = 200, rs_headers = [], rs_chunks = [u_host (or_url r)]\<rparr>)\<rparr>"

definition sample_call :: proxy_request where
  "sample_call = \<lparr>pq_url = ''http://git:3000/api/x'', pq_method = ''GET'', pq_headers = [], pq_body = [], pq_timeout = 30\<rparr>"


section \<open>The tool\<close>

lemma snd_outcome_Inr: "(case p of (Inl e, y) \<Rightarrow> (Inl (f e), y) | (Inr r, y) \<Rightarrow> (Inr r, y)) = (Inr r, y') \<longleftrightarrow> p = (Inr r, y')"
  by (auto split: prod.splits sum.splits)

lemma do_checked:
  assumes "proxy_do env now gid agent req pb = (Inr res, pb')"
  obtains verb path where "check_service (match_service (pq_url req) (pb_proxy pb)) verb path = None"
  using assms that by (auto simp: proxy_do_def Let_def split: if_splits option.splits sum.splits)


definition sample_reader :: mcp_agent where
  "sample_reader = \<lparr>ma_name = ''claude'', ma_roles = [], ma_max_concurrent = 1, ma_auto_approve = True,
     ma_perms = None, ma_task_claims = None, ma_raw_macaroon = None\<rparr>"

definition sample_http_args :: tool_args where
  "sample_http_args = [(''url'', JStr ''http://git:3000/api/x'')]"


end
