(* ===== verification/Credentials.thy ===== *)
theory Credentials
  imports Proxy
begin

text \<open>
  The credentials of the services at rest: \<open>internal/broker/crypto.go\<close> with \<open>save\<close> and \<open>load\<close> of
  \<open>internal/broker/proxy.go\<close>. AES-GCM is the pair \<open>cp_seal\<close> and \<open>cp_open\<close>, which take key, nonce and
  text; \<open>cp_marshal\<close> and \<open>cp_unmarshal\<close> are the JSON form of the table of services. The environment
  variable with the key is an argument, the nonce of a service is \<open>nonce_of\<close> its name.
\<close>

record crypto =
  cp_sha256 :: "bytes \<Rightarrow> bytes"
  cp_seal :: "bytes \<Rightarrow> bytes \<Rightarrow> bytes \<Rightarrow> bytes"
  cp_open :: "bytes \<Rightarrow> bytes \<Rightarrow> bytes \<Rightarrow> bytes option"
  cp_marshal :: "(string, service_config) gomap \<Rightarrow> bytes"
  cp_unmarshal :: "bytes \<Rightarrow> (string, service_config) gomap option"

datatype crypto_error =
    KeyMissing
  | BadFormat
  | BadNonce
  | BadCiphertext
  | KeySize
  | OpenFailed

text \<open>\<open>Open\<close> of Go's GCM panics when the nonce does not have twelve bytes.\<close>

datatype 'a outcome = Value 'a | Failed crypto_error | Panic

definition derive_encryption_key :: "crypto \<Rightarrow> string \<Rightarrow> bytes option" where
  "derive_encryption_key cp var = (if var = [] then None else Some (cp_sha256 cp var))"

definition aes_key_size :: "bytes \<Rightarrow> bool" where
  "aes_key_size key \<longleftrightarrow> length key \<in> {16, 24, 32}"

definition encrypt_value :: "crypto \<Rightarrow> bytes \<Rightarrow> string \<Rightarrow> bytes option \<Rightarrow> crypto_error + string" where
  "encrypt_value cp nonce plaintext key =
     (case key of
        None \<Rightarrow> Inr plaintext
      | Some k \<Rightarrow>
          if plaintext = [] then Inr plaintext
          else if \<not> aes_key_size k then Inl KeySize
          else Inr (''enc:'' @ b64_std_encode nonce @ '':'' @ b64_std_encode (cp_seal cp k nonce plaintext)))"

definition decrypt_value :: "crypto \<Rightarrow> string \<Rightarrow> bytes option \<Rightarrow> string outcome" where
  "decrypt_value cp encoded key =
     (if \<not> has_prefix ''enc:'' encoded then Value encoded
      else (case key of
              None \<Rightarrow> Failed KeyMissing
            | Some k \<Rightarrow>
                (case cut (CHR '':'') (drop 4 encoded) of
                   (_, None) \<Rightarrow> Failed BadFormat
                 | (nonce_text, Some cipher_text) \<Rightarrow>
                     (case b64_std_decode nonce_text of
                        None \<Rightarrow> Failed BadNonce
                      | Some nonce \<Rightarrow>
                          (case b64_std_decode cipher_text of
                             None \<Rightarrow> Failed BadCiphertext
                           | Some ciphertext \<Rightarrow>
                               if \<not> aes_key_size k then Failed KeySize
                               else if length nonce \<noteq> 12 then Panic
                               else (case cp_open cp k nonce ciphertext of
                                       None \<Rightarrow> Failed OpenFailed | Some p \<Rightarrow> Value p))))))"

section \<open>The file of services\<close>

text \<open>A credential that cannot be encrypted is stored as it is.\<close>

definition seal_service :: "crypto \<Rightarrow> (string \<Rightarrow> bytes) \<Rightarrow> bytes option \<Rightarrow> string \<Rightarrow> service_config \<Rightarrow> service_config" where
  "seal_service cp nonce_of key name svc =
     (if key \<noteq> None \<and> sv_credential svc \<noteq> [] then
        (case encrypt_value cp (nonce_of name) (sv_credential svc) key of
           Inr enc \<Rightarrow> svc\<lparr>sv_credential := enc\<rparr>
         | Inl _ \<Rightarrow> svc)
      else svc)"

definition stored_services ::
    "crypto \<Rightarrow> (string \<Rightarrow> bytes) \<Rightarrow> string \<Rightarrow> proxy_engine \<Rightarrow> (string, service_config) gomap" where
  "stored_services cp nonce_of var px =
     map (\<lambda>(name, svc). (name, seal_service cp nonce_of (derive_encryption_key cp var) name svc)) (px_services px)"

definition save_services :: "crypto \<Rightarrow> (string \<Rightarrow> bytes) \<Rightarrow> string \<Rightarrow> proxy_engine \<Rightarrow> bytes" where
  "save_services cp nonce_of var px =
     cp_marshal cp (stored_services cp nonce_of var px)"

text \<open>A credential that cannot be decrypted is used as it is.\<close>

definition unseal_service :: "crypto \<Rightarrow> bytes option \<Rightarrow> service_config \<Rightarrow> service_config option" where
  "unseal_service cp key svc =
     (if sv_credential svc = [] then Some svc
      else (case decrypt_value cp (sv_credential svc) key of
              Value p \<Rightarrow> Some (svc\<lparr>sv_credential := p\<rparr>)
            | Failed _ \<Rightarrow> Some svc
            | Panic \<Rightarrow> None))"

fun unseal_services :: "crypto \<Rightarrow> bytes option \<Rightarrow> (string, service_config) gomap \<Rightarrow> (string, service_config) gomap option" where
  "unseal_services cp key [] = Some []"
| "unseal_services cp key ((name, svc) # rest) =
     (case unseal_service cp key svc of
        None \<Rightarrow> None
      | Some svc \<Rightarrow> map_option ((#) (name, svc)) (unseal_services cp key rest))"

text \<open>
  \<open>file\<close> is \<open>None\<close> when there is no file; a file that cannot be parsed leaves the services as they
  are. The result \<open>None\<close> is a panic.
\<close>

definition load_services :: "crypto \<Rightarrow> string \<Rightarrow> bytes option \<Rightarrow> proxy_engine \<Rightarrow> proxy_engine option" where
  "load_services cp var file px =
     (case file of
        None \<Rightarrow> Some px
      | Some data \<Rightarrow>
          (case cp_unmarshal cp data of
             None \<Rightarrow> Some px
           | Some services \<Rightarrow>
               map_option (\<lambda>s. px\<lparr>px_services := s\<rparr>) (unseal_services cp (derive_encryption_key cp var) services)))"

section \<open>Properties\<close>

lemma no_colon_b64: "CHR '':'' \<notin> set (b64_std_encode bs)"
proof
  assume "CHR '':'' \<in> set (b64_std_encode bs)"
  then have "CHR '':'' \<in> set (b64_std_encode bs)" .
  then show False
    by (auto simp: b64_std_encode_def to_std_def dest!: b64_encode_chars split: if_splits)
      (auto simp: b64_alphabet_def to_std_def split: if_splits)
qed

lemma cut_colon: "CHR '':'' \<notin> set p \<Longrightarrow> cut (CHR '':'') (p @ CHR '':'' # t) = (p, Some t)"
  by (induction p) auto

lemma decrypt_encrypt:
  assumes gcm: "cp_open cp k nonce (cp_seal cp k nonce p) = Some p"
    and "length nonce = 12" "aes_key_size k" "p \<noteq> []"
    and enc: "encrypt_value cp nonce p (Some k) = Inr e"
  shows "decrypt_value cp e (Some k) = Value p \<and> has_prefix ''enc:'' e"
proof -
  have e: "e = ''enc:'' @ b64_std_encode nonce @ '':'' @ b64_std_encode (cp_seal cp k nonce p)"
    using enc assms(3,4) by (simp add: encrypt_value_def)
  have d: "drop 4 e = b64_std_encode nonce @ CHR '':'' # b64_std_encode (cp_seal cp k nonce p)" by (simp add: e)
  have p: "has_prefix ''enc:'' e" by (simp add: e)
  show ?thesis
    using p assms(2,3) gcm by (simp add: decrypt_value_def d cut_colon [OF no_colon_b64])
qed

lemma unseal_seal:
  assumes gcm: "\<And>k n p. cp_open cp k n (cp_seal cp k n p) = Some p"
    and nonce: "\<And>n. length (nonce_of n) = 12" and key: "\<And>t. length (cp_sha256 cp t) = 32"
  shows "unseal_service cp (derive_encryption_key cp var)
      (seal_service cp nonce_of (derive_encryption_key cp var) name svc) = Some svc"
proof (cases "derive_encryption_key cp var")
  case None
  then show ?thesis by (simp add: seal_service_def unseal_service_def decrypt_value_def)
next
  case (Some k)
  have size: "aes_key_size k" using Some key by (auto simp: derive_encryption_key_def aes_key_size_def split: if_splits)
  show ?thesis
  proof (cases "sv_credential svc = []")
    case True
    then show ?thesis by (simp add: seal_service_def unseal_service_def)
  next
    case False
    obtain e where e: "encrypt_value cp (nonce_of name) (sv_credential svc) (Some k) = Inr e"
      using size False by (simp add: encrypt_value_def)
    have r: "decrypt_value cp e (Some k) = Value (sv_credential svc)" "has_prefix ''enc:'' e"
      using decrypt_encrypt [OF gcm nonce size False e] by simp_all
    then have "e \<noteq> []" by auto
    then show ?thesis using False e r by (simp add: seal_service_def unseal_service_def Some)
  qed
qed

text \<open>
  Claim C27. What is saved is loaded again: under the key it was saved with, or without a key, the
  services come back with their credentials, whatever these look like. With a key every stored
  credential is sealed, so the file holds none in the clear.
\<close>

theorem saved_services_reload:
  assumes gcm: "\<And>k n p. cp_open cp k n (cp_seal cp k n p) = Some p"
    and json: "cp_unmarshal cp (cp_marshal cp (stored_services cp nonce_of var px)) = Some (stored_services cp nonce_of var px)"
    and nonce: "\<And>n. length (nonce_of n) = 12" and key: "\<And>t. length (cp_sha256 cp t) = 32"
  shows "load_services cp var (Some (save_services cp nonce_of var px)) px0 = Some (px0\<lparr>px_services := px_services px\<rparr>) \<and>
    (var \<noteq> [] \<longrightarrow>
       list_all (\<lambda>(_, svc). sv_credential svc = [] \<or> has_prefix ''enc:'' (sv_credential svc)) (stored_services cp nonce_of var px))"
proof
  have "unseal_services cp (derive_encryption_key cp var)
      (map (\<lambda>(name, svc). (name, seal_service cp nonce_of (derive_encryption_key cp var) name svc)) ss) = Some ss" for ss
    by (induction ss) (auto simp: unseal_seal [OF gcm nonce key])
  then show "load_services cp var (Some (save_services cp nonce_of var px)) px0 = Some (px0\<lparr>px_services := px_services px\<rparr>)"
    unfolding load_services_def save_services_def by (simp add: json) (simp add: stored_services_def)
  show "var \<noteq> [] \<longrightarrow>
       list_all (\<lambda>(_, svc). sv_credential svc = [] \<or> has_prefix ''enc:'' (sv_credential svc)) (stored_services cp nonce_of var px)"
  proof
    assume "var \<noteq> []"
    then have k: "derive_encryption_key cp var = Some (cp_sha256 cp var)" by (simp add: derive_encryption_key_def)
    have "aes_key_size (cp_sha256 cp var)" by (simp add: aes_key_size_def key)
    then have "sv_credential (seal_service cp nonce_of (Some (cp_sha256 cp var)) name svc) = [] \<or>
        has_prefix ''enc:'' (sv_credential (seal_service cp nonce_of (Some (cp_sha256 cp var)) name svc))" for name svc
      by (simp add: seal_service_def encrypt_value_def)
    then show "list_all (\<lambda>(_, svc). sv_credential svc = [] \<or> has_prefix ''enc:'' (sv_credential svc)) (stored_services cp nonce_of var px)"
      by (auto simp: list_all_iff k stored_services_def)
  qed
qed

definition sample_service :: service_config where
  "sample_service =
     \<lparr>sv_name = ''git'', sv_url_prefix = ''http://git'', sv_auth_type = ''bearer'', sv_token_header = [], sv_token_prefix = [],
      sv_username = [], sv_credential = ''enc:s'', sv_allowed_paths = [], sv_allowed_methods = [], sv_max_response_kb = 1024,
      sv_timeout = 30, sv_description = [], sv_enabled = None, sv_grant_mode = [], sv_headers = [],
      sv_tls = \<lparr>ts_verify = False, ts_ca = [], ts_ca_inline = [], ts_fingerprint = []\<rparr>,
      sv_request_filter = False, sv_request_deny = [], sv_request_allow = [], sv_body_deny = [], sv_auto_revoke_on_deny = False\<rparr>"

definition sample_crypto :: crypto where
  "sample_crypto =
     \<lparr>cp_sha256 = \<lambda>_. replicate 32 (CHR ''k''), cp_seal = \<lambda>k n p. rev p, cp_open = \<lambda>k n c. Some (rev c),
      cp_marshal = \<lambda>t. concat (map (\<lambda>(_, svc). sv_credential svc) t),
      cp_unmarshal = \<lambda>data. Some [(''git'', sample_service\<lparr>sv_credential := data\<rparr>)]\<rparr>"

theorem saved_services_reload_witness:
  "let px = \<lparr>px_services = [(''git'', sample_service)], px_clients = [], px_policy = default_network_policy\<rparr>;
       nonce_of = (\<lambda>_. ''nonce nonce!'')
   in load_services sample_crypto ''key'' (Some (save_services sample_crypto nonce_of ''key'' px)) (px\<lparr>px_services := []\<rparr>) = Some px \<and>
      sv_credential (snd (hd (stored_services sample_crypto nonce_of ''key'' px))) = ''enc:bm9uY2Ugbm9uY2Uh:czpjbmU=''"
proof -
  define px where "px = \<lparr>px_services = [(''git'', sample_service)], px_clients = [], px_policy = default_network_policy\<rparr>"
  define nonce_of :: "string \<Rightarrow> bytes" where "nonce_of = (\<lambda>_. ''nonce nonce!'')"
  have b64: "b64_std_encode ''nonce nonce!'' = ''bm9uY2Ugbm9uY2Uh''" "b64_std_encode ''s:cne'' = ''czpjbmU=''" by code_simp+
  have st: "stored_services sample_crypto nonce_of ''key'' px =
      [(''git'', sample_service\<lparr>sv_credential := ''enc:bm9uY2Ugbm9uY2Uh:czpjbmU=''\<rparr>)]"
    by (simp add: stored_services_def px_def seal_service_def derive_encryption_key_def sample_crypto_def encrypt_value_def
        aes_key_size_def nonce_of_def sample_service_def b64)
  have "cp_unmarshal sample_crypto (cp_marshal sample_crypto (stored_services sample_crypto nonce_of ''key'' px)) =
      Some (stored_services sample_crypto nonce_of ''key'' px)"
    unfolding st by (simp add: sample_crypto_def sample_service_def)
  then have "load_services sample_crypto ''key'' (Some (save_services sample_crypto nonce_of ''key'' px)) (px\<lparr>px_services := []\<rparr>) =
      Some (px\<lparr>px_services := []\<rparr>\<lparr>px_services := px_services px\<rparr>)"
    by (intro saved_services_reload [THEN conjunct1]) (simp_all add: sample_crypto_def nonce_of_def)
  then have "load_services sample_crypto ''key'' (Some (save_services sample_crypto nonce_of ''key'' px)) (px\<lparr>px_services := []\<rparr>) = Some px"
    by (simp add: px_def)
  then show ?thesis by (simp add: px_def [symmetric] nonce_of_def [symmetric] st Let_def) 
qed

end
