(* ===== verification/Federation.thy ===== *)
theory Federation
  imports ProxyDo Json
begin

text \<open>
  Component \<open>internal/broker/federation.go\<close> with \<open>federation_client.go\<close> and \<open>federation_tools.go\<close>:
  remote MCP servers whose tools and resources appear under a prefix. \<open>fe_send\<close> is the network: it
  answers a request of a client with status and body. \<open>fe_marshal\<close> prints the parameters of a call,
  whose number format is not modelled. The counter of request ids is passed along. Writing the
  configuration to disk is a flag that says whether it worked; logging and broadcasts are left out.
\<close>

section \<open>Configuration and state\<close>

record remote_config =
  rm_name :: string
  rm_url :: string
  rm_auth_type :: string
  rm_token_header :: string
  rm_token_prefix :: string
  rm_username :: string
  rm_credential :: string
  rm_headers :: headers
  rm_description :: string
  rm_enabled :: bool
  rm_grant_mode :: string
  rm_timeout :: int
  rm_refresh_seconds :: int
  rm_max_response_kb :: int
  rm_tool_prefix :: string
  rm_tls :: tls_settings
  rm_arg_filter :: bool
  rm_arg_deny :: "string list"
  rm_auto_revoke_on_deny :: bool

datatype remote_status = Connected | Disconnected | Faulty | Initializing

text \<open>A client: one whose TLS settings are broken, or one with TLS settings; both have a timeout.\<close>

datatype fed_client = FedFailing tls_error (fc_timeout: int) | FedClient tls_config (fc_timeout: int)

fun with_timeout :: "int \<Rightarrow> fed_client \<Rightarrow> fed_client" where
  "with_timeout t (FedFailing e _) = FedFailing e t"
| "with_timeout t (FedClient cfg _) = FedClient cfg t"

record tool_def =
  td_name :: string
  td_description :: string
  td_schema :: "(string \<times> json) list"

record mcp_resource =
  mr_uri :: string
  mr_name :: string
  mr_description :: string
  mr_mime_type :: string

datatype fed_error =
    BadRemoteRequest
  | RemoteUnreachable
  | RemoteStatusCode int string
  | BadRemoteJson string
  | RemoteRpcError int string
  | BadRemoteResult string

text \<open>What the status message and the last error say.\<close>

datatype remote_note =
    NoNote | Handshake | Ready | HandshakeFailed string fed_error | CallFailed fed_error | DisabledByDashboard

record remote_state =
  rt_config :: remote_config
  rt_status :: remote_status
  rt_message :: remote_note
  rt_protocol :: string
  rt_server_name :: string
  rt_server_version :: string
  rt_tools :: "tool_def list"
  rt_resources :: "mcp_resource list"
  rt_last_refresh :: time
  rt_last_error :: time
  rt_last_error_msg :: remote_note
  rt_error_count :: int
  rt_client :: fed_client

type_synonym federator = "(string, remote_state) gomap"

record fed_env =
  fe_read_file :: "string \<Rightarrow> bytes option"
  fe_has_certs :: "bytes \<Rightarrow> bool"
  fe_marshal :: "json \<Rightarrow> bytes"
  fe_send :: "fed_client \<Rightarrow> out_request \<Rightarrow> (int \<times> bytes) option"

datatype config_error =
    NameRequired
  | NameTooLong
  | NameInvalid string
  | RemoteUrlMissing
  | UrlNotHttp
  | AuthTypeInvalid string

datatype remote_error = InvalidConfig config_error | RemoteExists string | PersistFailed string | RemoteUnknown string

section \<open>Registering remotes\<close>

text \<open>The expression \<open>^[a-zA-Z0-9][a-zA-Z0-9-]*$\<close>.\<close>

definition valid_remote_name :: "string \<Rightarrow> bool" where
  "valid_remote_name s \<longleftrightarrow>
     (case s of [] \<Rightarrow> False
      | c # r \<Rightarrow> (is_alpha c \<or> is_dec c) \<and> list_all (\<lambda>c. is_alpha c \<or> is_dec c \<or> c = CHR ''-'') r)"

definition default_config :: "remote_config \<Rightarrow> remote_config" where
  "default_config cfg =
     cfg\<lparr>rm_timeout := (if rm_timeout cfg \<le> 0 then 30 else if rm_timeout cfg > 120 then 120 else rm_timeout cfg),
         rm_refresh_seconds :=
           (if rm_refresh_seconds cfg \<le> 0 then 60 else if rm_refresh_seconds cfg < 10 then 10 else rm_refresh_seconds cfg),
         rm_max_response_kb := (if rm_max_response_kb cfg \<le> 0 then 1024 else rm_max_response_kb cfg)\<rparr>"

definition validate_remote :: "remote_config \<Rightarrow> config_error + remote_config" where
  "validate_remote cfg =
     (if rm_name cfg = [] then Inl NameRequired
      else if length (rm_name cfg) > 50 then Inl NameTooLong
      else if \<not> valid_remote_name (rm_name cfg) then Inl (NameInvalid (rm_name cfg))
      else if rm_url cfg = [] then Inl RemoteUrlMissing
      else if \<not> has_prefix ''http://'' (rm_url cfg) \<and> \<not> has_prefix ''https://'' (rm_url cfg) then Inl UrlNotHttp
      else
        let cfg = (if rm_auth_type cfg = [] then cfg\<lparr>rm_auth_type := ''none''\<rparr> else cfg)
        in if rm_auth_type cfg \<notin> {''bearer'', ''basic'', ''header'', ''query'', ''none''}
           then Inl (AuthTypeInvalid (rm_auth_type cfg))
           else Inr (default_config cfg))"

definition build_remote_client :: "fed_env \<Rightarrow> remote_config \<Rightarrow> fed_client" where
  "build_remote_client env cfg =
     (let timeout = (if rm_timeout cfg \<le> 0 then 30 else rm_timeout cfg) in
      case build_tls_config (fe_read_file env) (fe_has_certs env) (rm_tls cfg) of
        Inl e \<Rightarrow>
          if ts_verify (rm_tls cfg) then FedFailing e timeout
          else FedClient \<lparr>tc_insecure = True, tc_min_tls12 = False, tc_roots = None, tc_pin = None\<rparr> timeout
      | Inr tls \<Rightarrow> FedClient tls timeout)"

definition new_remote :: "fed_env \<Rightarrow> remote_status \<Rightarrow> remote_config \<Rightarrow> remote_state" where
  "new_remote env status cfg =
     \<lparr>rt_config = cfg, rt_status = status, rt_message = NoNote, rt_protocol = [], rt_server_name = [],
      rt_server_version = [], rt_tools = [], rt_resources = [], rt_last_refresh = 0, rt_last_error = 0,
      rt_last_error_msg = NoNote, rt_error_count = 0, rt_client = build_remote_client env cfg\<rparr>"

text \<open>\<open>load\<close>: the stored configurations are taken as they are, under their key.\<close>

definition load_remotes :: "fed_env \<Rightarrow> (string, remote_config) gomap \<Rightarrow> federator" where
  "load_remotes env stored =
     map (\<lambda>(name, cfg). (name, new_remote env Disconnected (cfg\<lparr>rm_name := name\<rparr>))) stored"

definition add_remote :: "fed_env \<Rightarrow> bool \<Rightarrow> remote_config \<Rightarrow> federator \<Rightarrow> remote_error option \<times> federator" where
  "add_remote env persisted cfg fed =
     (case validate_remote cfg of
        Inl e \<Rightarrow> (Some (InvalidConfig e), fed)
      | Inr cfg \<Rightarrow>
          if get fed (rm_name cfg) \<noteq> None then (Some (RemoteExists (rm_name cfg)), fed)
          else
            let fed = put (rm_name cfg) (new_remote env Initializing cfg) fed
            in if \<not> persisted then (Some (PersistFailed (rm_name cfg)), del (rm_name cfg) fed)
               else (None, fed))"

definition remove_remote :: "bool \<Rightarrow> string \<Rightarrow> federator \<Rightarrow> remote_error option \<times> federator" where
  "remove_remote persisted name fed =
     (case get fed name of
        None \<Rightarrow> (Some (RemoteUnknown name), fed)
      | Some _ \<Rightarrow> (if persisted then None else Some (PersistFailed name), del name fed))"

definition redact_config :: "remote_config \<Rightarrow> remote_config" where
  "redact_config cfg = (if rm_credential cfg \<noteq> [] then cfg\<lparr>rm_credential := ''***''\<rparr> else cfg)"

definition get_remote :: "federator \<Rightarrow> string \<Rightarrow> remote_config option" where
  "get_remote fed name = map_option (\<lambda>st. redact_config (rt_config st)) (get fed name)"

definition list_remotes :: "federator \<Rightarrow> remote_config list" where
  "list_remotes fed = map (\<lambda>(_, st). redact_config (rt_config st)) fed"

record remote_info =
  ri_name :: string
  ri_url :: string
  ri_description :: string
  ri_enabled :: bool
  ri_status :: remote_status
  ri_message :: remote_note
  ri_protocol :: string
  ri_server_name :: string
  ri_server_version :: string
  ri_tool_count :: nat
  ri_resource_count :: nat
  ri_last_refresh :: "time option"
  ri_last_error :: "time option"
  ri_last_error_msg :: remote_note
  ri_auth_type :: string

definition remote_info_of :: "remote_state \<Rightarrow> remote_info" where
  "remote_info_of st =
     \<lparr>ri_name = rm_name (rt_config st), ri_url = rm_url (rt_config st), ri_description = rm_description (rt_config st),
      ri_enabled = rm_enabled (rt_config st), ri_status = rt_status st, ri_message = rt_message st,
      ri_protocol = rt_protocol st, ri_server_name = rt_server_name st, ri_server_version = rt_server_version st,
      ri_tool_count = length (rt_tools st), ri_resource_count = length (rt_resources st),
      ri_last_refresh = (if rt_last_refresh st = 0 then None else Some (rt_last_refresh st)),
      ri_last_error = (if rt_last_error st = 0 then None else Some (rt_last_error st)),
      ri_last_error_msg = rt_last_error_msg st, ri_auth_type = rm_auth_type (rt_config st)\<rparr>"

definition get_remote_state :: "federator \<Rightarrow> string \<Rightarrow> remote_info option" where
  "get_remote_state fed name = map_option remote_info_of (get fed name)"

definition list_remote_states :: "federator \<Rightarrow> remote_info list" where
  "list_remote_states fed = map (\<lambda>(_, st). remote_info_of st) fed"

section \<open>Names\<close>

definition remote_prefix :: "remote_state \<Rightarrow> string" where
  "remote_prefix st = (if rm_tool_prefix (rt_config st) \<noteq> [] then rm_tool_prefix (rt_config st) else rm_name (rt_config st))"

definition federated_tools :: "federator \<Rightarrow> tool_def list" where
  "federated_tools fed =
     concat (map (\<lambda>(_, st).
       if \<not> rm_enabled (rt_config st) then []
       else map (\<lambda>t. t\<lparr>td_name := remote_prefix st @ ''.'' @ td_name t,
                       td_description := (if rt_status st \<noteq> Connected then ''[OFFLINE] '' @ td_description t
                                          else td_description t)\<rparr>) (rt_tools st)) fed)"

definition uri_path :: "string \<Rightarrow> string" where
  "uri_path uri = (case index_of ''://'' uri of None \<Rightarrow> uri | Some i \<Rightarrow> drop (i + 3) uri)"

definition federated_uri :: "string \<Rightarrow> string \<Rightarrow> string" where
  "federated_uri prefix uri = ''remote:'' @ prefix @ ''://'' @ uri_path uri"

definition federated_resources :: "federator \<Rightarrow> mcp_resource list" where
  "federated_resources fed =
     concat (map (\<lambda>(_, st).
       map (\<lambda>r. r\<lparr>mr_uri := federated_uri (remote_prefix st) (mr_uri r),
                   mr_name := remote_prefix st @ '': '' @ mr_name r\<rparr>) (rt_resources st)) fed)"

definition with_prefix :: "string \<Rightarrow> federator \<Rightarrow> remote_state option" where
  "with_prefix p fed = find (\<lambda>st. remote_prefix st = p) (map snd fed)"

definition is_federated_tool :: "federator \<Rightarrow> string \<Rightarrow> bool" where
  "is_federated_tool fed name =
     (case cut (CHR ''.'') name of (p, None) \<Rightarrow> False | (p, Some _) \<Rightarrow> with_prefix p fed \<noteq> None)"

definition parse_federated_tool :: "federator \<Rightarrow> string \<Rightarrow> (string \<times> string) option" where
  "parse_federated_tool fed name =
     (case cut (CHR ''.'') name of
        (p, None) \<Rightarrow> None
      | (p, Some tool) \<Rightarrow> map_option (\<lambda>st. (rm_name (rt_config st), tool)) (with_prefix p fed))"

definition is_federated_resource :: "string \<Rightarrow> bool" where
  "is_federated_resource uri = has_prefix ''remote:'' uri"

definition parse_federated_resource :: "federator \<Rightarrow> string \<Rightarrow> (string \<times> string) option" where
  "parse_federated_resource fed uri =
     (if \<not> has_prefix ''remote:'' uri then None
      else
        let rest = drop 7 uri
        in (case index_of ''://'' rest of
              None \<Rightarrow> None
            | Some i \<Rightarrow> map_option (\<lambda>st. (rm_name (rt_config st), rest)) (with_prefix (take i rest) fed)))"

section \<open>JSON-RPC\<close>

record rpc_response =
  rp_result :: "json option"
  rp_error :: "(int \<times> string) option"

definition no_response :: rpc_response where
  "no_response = \<lparr>rp_result = None, rp_error = None\<rparr>"

definition rpc_error_field :: "string \<Rightarrow> json \<Rightarrow> int \<times> string \<Rightarrow> (int \<times> string) option" where
  "rpc_error_field k j e =
     (if equal_fold k ''code'' then map_option (\<lambda>c. (c, snd e)) (read_int j (fst e))
      else if equal_fold k ''message'' then map_option (\<lambda>m. (fst e, m)) (read_string j (snd e))
      else Some e)"

definition rpc_field :: "string \<Rightarrow> json \<Rightarrow> rpc_response \<Rightarrow> rpc_response option" where
  "rpc_field k j r =
     (if equal_fold k ''jsonrpc'' then map_option (\<lambda>_. r) (read_string j [])
      else if equal_fold k ''result'' then Some (r\<lparr>rp_result := Some j\<rparr>)
      else if equal_fold k ''error'' then
        (if j = JNull then Some (r\<lparr>rp_error := None\<rparr>)
         else map_option (\<lambda>e. r\<lparr>rp_error := Some e\<rparr>)
                (read_struct rpc_error_field j (case rp_error r of None \<Rightarrow> (0, []) | Some e \<Rightarrow> e)))
      else Some r)"

definition inject_remote_auth :: "remote_config \<Rightarrow> out_request \<Rightarrow> out_request" where
  "inject_remote_auth cfg r =
     (if rm_auth_type cfg = ''bearer'' then set_header ''Authorization'' (''Bearer '' @ rm_credential cfg) r
      else if rm_auth_type cfg = ''basic'' then
        set_header ''Authorization'' (''Basic '' @ b64_std_encode (rm_username cfg @ '':'' @ rm_credential cfg)) r
      else if rm_auth_type cfg = ''header'' then
        set_header (if rm_token_header cfg = [] then ''Authorization'' else rm_token_header cfg)
          (if rm_token_prefix cfg \<noteq> [] then rm_token_prefix cfg @ rm_credential cfg else rm_credential cfg) r
      else if rm_auth_type cfg = ''query'' then
        r\<lparr>or_url := (or_url r)\<lparr>u_query := encode_query
            (put (if rm_token_header cfg = [] then ''token'' else rm_token_header cfg) [rm_credential cfg]
               (parse_query (u_query (or_url r))))\<rparr>\<rparr>
      else r)"

definition truncate_bytes :: "bytes \<Rightarrow> nat \<Rightarrow> string" where
  "truncate_bytes b n = (if length b \<le> n then b else if n \<le> 3 then take n b else take (n - 3) b @ ''...'')"

definition rpc_body :: "(json \<Rightarrow> bytes) \<Rightarrow> int \<Rightarrow> string \<Rightarrow> json option \<Rightarrow> bytes" where
  "rpc_body marshal rid method params =
     marshal (JObj ([(''jsonrpc'', JStr ''2.0''), (''id'', JInt rid), (''method'', JStr method)] @
                    (case params of None \<Rightarrow> [] | Some p \<Rightarrow> [(''params'', p)])))"

definition remote_request :: "fed_env \<Rightarrow> int \<Rightarrow> remote_config \<Rightarrow> string \<Rightarrow> json option \<Rightarrow> out_request option" where
  "remote_request env rid cfg method params =
     (case parse_url (rm_url cfg) of
        None \<Rightarrow> None
      | Some u \<Rightarrow>
          map_option (\<lambda>r. fold (\<lambda>(k, v). set_header k v) (rm_headers cfg)
                (inject_remote_auth cfg
                  (set_header ''Accept'' ''application/json'' (set_header ''Content-Type'' ''application/json'' r))))
            (new_request ''POST'' u (rpc_body (fe_marshal env) rid method params) None))"

definition read_rpc_response :: "remote_config \<Rightarrow> int \<Rightarrow> bytes \<Rightarrow> fed_error + rpc_response" where
  "read_rpc_response cfg status answer =
     (let max_bytes = (if rm_max_response_kb cfg * 1024 \<le> 0 then 1024 * 1024 else rm_max_response_kb cfg * 1024);
          body = take (nat max_bytes) answer
      in if status < 200 \<or> status \<ge> 300 then
           (if status = 204 then Inr no_response else Inl (RemoteStatusCode status (truncate_bytes body 200)))
         else if body = [] then Inr no_response
         else (case json_parse body of
                 None \<Rightarrow> Inl (BadRemoteJson (truncate_bytes body 200))
               | Some j \<Rightarrow>
                   (case read_struct rpc_field j no_response of
                      None \<Rightarrow> Inl (BadRemoteJson (truncate_bytes body 200))
                    | Some resp \<Rightarrow>
                        (case rp_error resp of Some (num, msg) \<Rightarrow> Inl (RemoteRpcError num msg) | None \<Rightarrow> Inr resp))))"

definition send_json_rpc ::
    "fed_env \<Rightarrow> int \<Rightarrow> fed_client \<Rightarrow> remote_config \<Rightarrow> string \<Rightarrow> json option \<Rightarrow> fed_error + rpc_response" where
  "send_json_rpc env rid client cfg method params =
     (case remote_request env rid cfg method params of
        None \<Rightarrow> Inl BadRemoteRequest
      | Some r \<Rightarrow>
          (case fe_send env client r of
             None \<Rightarrow> Inl RemoteUnreachable
           | Some (status, answer) \<Rightarrow> read_rpc_response cfg status answer))"

section \<open>Reading results\<close>

text \<open>An array of structs; \<open>null\<close> is the empty one.\<close>

fun read_elements :: "(string \<Rightarrow> json \<Rightarrow> 'a \<Rightarrow> 'a option) \<Rightarrow> 'a \<Rightarrow> json list \<Rightarrow> 'a list option" where
  "read_elements f zero [] = Some []"
| "read_elements f zero (j # js) =
     (case read_struct f j zero of None \<Rightarrow> None | Some a \<Rightarrow> map_option ((#) a) (read_elements f zero js))"

definition read_array :: "(string \<Rightarrow> json \<Rightarrow> 'a \<Rightarrow> 'a option) \<Rightarrow> 'a \<Rightarrow> json \<Rightarrow> 'a list option" where
  "read_array f zero j = (case j of JArr js \<Rightarrow> read_elements f zero js | JNull \<Rightarrow> Some [] | _ \<Rightarrow> None)"

record init_result =
  in_protocol :: string
  in_server_name :: string
  in_server_version :: string

definition server_field :: "string \<Rightarrow> json \<Rightarrow> init_result \<Rightarrow> init_result option" where
  "server_field k j r =
     (if equal_fold k ''name'' then map_option (\<lambda>s. r\<lparr>in_server_name := s\<rparr>) (read_string j (in_server_name r))
      else if equal_fold k ''version'' then map_option (\<lambda>s. r\<lparr>in_server_version := s\<rparr>) (read_string j (in_server_version r))
      else Some r)"

definition init_field :: "string \<Rightarrow> json \<Rightarrow> init_result \<Rightarrow> init_result option" where
  "init_field k j r =
     (if equal_fold k ''protocolVersion'' then map_option (\<lambda>s. r\<lparr>in_protocol := s\<rparr>) (read_string j (in_protocol r))
      else if equal_fold k ''serverInfo'' then read_struct server_field j r
      else Some r)"

definition tool_field :: "string \<Rightarrow> json \<Rightarrow> tool_def \<Rightarrow> tool_def option" where
  "tool_field k j t =
     (if equal_fold k ''name'' then map_option (\<lambda>s. t\<lparr>td_name := s\<rparr>) (read_string j (td_name t))
      else if equal_fold k ''description'' then map_option (\<lambda>s. t\<lparr>td_description := s\<rparr>) (read_string j (td_description t))
      else if equal_fold k ''inputSchema'' then
        (case j of JObj fs \<Rightarrow> Some (t\<lparr>td_schema := fold (\<lambda>(k, v). put k v) fs (td_schema t)\<rparr>)
         | JNull \<Rightarrow> Some (t\<lparr>td_schema := []\<rparr>) | _ \<Rightarrow> None)
      else Some t)"

definition resource_field :: "string \<Rightarrow> json \<Rightarrow> mcp_resource \<Rightarrow> mcp_resource option" where
  "resource_field k j r =
     (if equal_fold k ''uri'' then map_option (\<lambda>s. r\<lparr>mr_uri := s\<rparr>) (read_string j (mr_uri r))
      else if equal_fold k ''name'' then map_option (\<lambda>s. r\<lparr>mr_name := s\<rparr>) (read_string j (mr_name r))
      else if equal_fold k ''description'' then map_option (\<lambda>s. r\<lparr>mr_description := s\<rparr>) (read_string j (mr_description r))
      else if equal_fold k ''mimeType'' then map_option (\<lambda>s. r\<lparr>mr_mime_type := s\<rparr>) (read_string j (mr_mime_type r))
      else Some r)"

definition list_field :: "string \<Rightarrow> (string \<Rightarrow> json \<Rightarrow> 'a \<Rightarrow> 'a option) \<Rightarrow> 'a \<Rightarrow> string \<Rightarrow> json \<Rightarrow> 'a list \<Rightarrow> 'a list option" where
  "list_field field f zero k j old = (if equal_fold k field then read_array f zero j else Some old)"

definition read_result :: "(string \<Rightarrow> json \<Rightarrow> 'a \<Rightarrow> 'a option) \<Rightarrow> 'a \<Rightarrow> rpc_response \<Rightarrow> 'a option" where
  "read_result f zero resp = (case rp_result resp of None \<Rightarrow> Some zero | Some j \<Rightarrow> read_struct f j zero)"

definition no_tool :: tool_def where
  "no_tool = \<lparr>td_name = [], td_description = [], td_schema = []\<rparr>"

definition no_resource :: mcp_resource where
  "no_resource = \<lparr>mr_uri = [], mr_name = [], mr_description = [], mr_mime_type = []\<rparr>"

section \<open>The handshake\<close>

definition mark_error :: "time \<Rightarrow> remote_note \<Rightarrow> remote_state \<Rightarrow> remote_state" where
  "mark_error now note st =
     st\<lparr>rt_status := Faulty, rt_message := note, rt_error_count := rt_error_count st + 1, rt_last_error := now,
        rt_last_error_msg := note, rt_last_refresh := now\<rparr>"

definition init_params :: json where
  "init_params =
     JObj [(''capabilities'', JObj []),
           (''clientInfo'', JObj [(''name'', JStr ''ephyr-federator''), (''version'', JStr ''1.0.0'')]),
           (''protocolVersion'', JStr ''2025-03-26'')]"

text \<open>The list of resources is optional: a failure leaves it empty.\<close>

definition resources_of :: "fed_error + rpc_response \<Rightarrow> mcp_resource list" where
  "resources_of answer =
     (case answer of
        Inl _ \<Rightarrow> []
      | Inr resp \<Rightarrow>
          (case read_result (list_field ''resources'' resource_field no_resource) [] resp of
             None \<Rightarrow> [] | Some rs \<Rightarrow> rs))"

definition discover_remote ::
    "fed_env \<Rightarrow> time \<Rightarrow> int \<Rightarrow> remote_state \<Rightarrow> fed_error option \<times> remote_state \<times> int" where
  "discover_remote env now ids st =
     (let st = st\<lparr>rt_status := Initializing, rt_message := Handshake\<rparr>;
          send = (\<lambda>rid. send_json_rpc env rid (rt_client st) (rt_config st));
          fail = (\<lambda>step e st ids. (Some e, mark_error now (HandshakeFailed step e) st, ids))
      in case send (ids + 1) ''initialize'' (Some init_params) of
           Inl e \<Rightarrow> fail ''initialize'' e st (ids + 1)
         | Inr resp \<Rightarrow>
         (case read_result init_field \<lparr>in_protocol = [], in_server_name = [], in_server_version = []\<rparr> resp of
            None \<Rightarrow> fail ''initialize'' (BadRemoteResult ''initialize'') st (ids + 1)
          | Some i \<Rightarrow>
              let st = st\<lparr>rt_protocol := in_protocol i, rt_server_name := in_server_name i,
                          rt_server_version := in_server_version i\<rparr>
              in (case send (ids + 3) ''tools/list'' None of
                    Inl e \<Rightarrow> fail ''tools/list'' e st (ids + 3)
                  | Inr resp \<Rightarrow>
                  (case read_result (list_field ''tools'' tool_field no_tool) [] resp of
                     None \<Rightarrow> fail ''tools/list'' (BadRemoteResult ''tools/list'') st (ids + 3)
                   | Some tools \<Rightarrow>
                       (None, st\<lparr>rt_tools := tools,
                                 rt_resources := resources_of (send (ids + 4) ''resources/list'' None),
                                 rt_status := Connected, rt_message := Ready, rt_last_refresh := now,
                                 rt_error_count := 0\<rparr>, ids + 4)))))"

text \<open>The refresh loop, one tick.\<close>

definition backoff_duration :: "int \<Rightarrow> duration" where
  "backoff_duration count =
     (let backoffs = [10 * second, 30 * second, 60 * second, 120 * second, 300 * second]
      in if count \<le> 0 then backoffs ! 0
         else backoffs ! (if count - 1 \<ge> int (length backoffs) then length backoffs - 1 else nat (count - 1)))"

definition should_refresh :: "time \<Rightarrow> remote_state \<Rightarrow> bool" where
  "should_refresh now st \<longleftrightarrow>
     rm_enabled (rt_config st) \<and>
     (case rt_status st of
        Disconnected \<Rightarrow> True
      | Initializing \<Rightarrow> True
      | Faulty \<Rightarrow> now - rt_last_refresh st \<ge> backoff_duration (rt_error_count st)
      | Connected \<Rightarrow> now - rt_last_refresh st \<ge> rm_refresh_seconds (rt_config st) * second)"

fun refresh_tick :: "fed_env \<Rightarrow> time \<Rightarrow> int \<Rightarrow> federator \<Rightarrow> federator \<times> int" where
  "refresh_tick env now ids [] = ([], ids)"
| "refresh_tick env now ids ((name, st) # fed) =
     (let (st, ids) = (if should_refresh now st then snd (discover_remote env now ids st) else (st, ids));
          (fed, ids) = refresh_tick env now ids fed
      in ((name, st) # fed, ids))"

section \<open>Calls\<close>

record tool_content =
  ct_type :: string
  ct_text :: string
  ct_data :: json

definition content_field :: "string \<Rightarrow> json \<Rightarrow> tool_content \<Rightarrow> tool_content option" where
  "content_field k j c =
     (if equal_fold k ''type'' then map_option (\<lambda>s. c\<lparr>ct_type := s\<rparr>) (read_string j (ct_type c))
      else if equal_fold k ''text'' then map_option (\<lambda>s. c\<lparr>ct_text := s\<rparr>) (read_string j (ct_text c))
      else if equal_fold k ''data'' then Some (c\<lparr>ct_data := j\<rparr>)
      else Some c)"

definition no_content :: tool_content where
  "no_content = \<lparr>ct_type = [], ct_text = [], ct_data = JNull\<rparr>"

definition read_bool :: "json \<Rightarrow> bool \<Rightarrow> bool option" where
  "read_bool j old = (case j of JBool b \<Rightarrow> Some b | JNull \<Rightarrow> Some old | _ \<Rightarrow> None)"

definition call_result_field ::
    "string \<Rightarrow> json \<Rightarrow> tool_content list \<times> bool \<Rightarrow> (tool_content list \<times> bool) option" where
  "call_result_field k j r =
     (if equal_fold k ''content'' then map_option (\<lambda>c. (c, snd r)) (read_array content_field no_content j)
      else if equal_fold k ''isError'' then map_option (\<lambda>b. (fst r, b)) (read_bool j (snd r))
      else Some r)"

text \<open>
  A call with a timeout of its own swaps the client of the remote for a copy and puts the one it
  found back at its end; another call may run in between.
\<close>

definition swap_client :: "int \<Rightarrow> remote_state \<Rightarrow> fed_client \<times> remote_state" where
  "swap_client timeout st = (rt_client st, st\<lparr>rt_client := with_timeout timeout (rt_client st)\<rparr>)"

definition restore_client :: "fed_client \<Rightarrow> remote_state \<Rightarrow> remote_state" where
  "restore_client client st = st\<lparr>rt_client := client\<rparr>"

definition count_failure :: "time \<Rightarrow> fed_error \<Rightarrow> remote_state \<Rightarrow> remote_state" where
  "count_failure now e st =
     st\<lparr>rt_error_count := rt_error_count st + 1, rt_last_error := now, rt_last_error_msg := CallFailed e\<rparr>"

definition call_remote_tool ::
    "fed_env \<Rightarrow> time \<Rightarrow> int \<Rightarrow> string \<Rightarrow> json \<Rightarrow> int \<Rightarrow> remote_state \<Rightarrow>
     (fed_error + tool_content list \<times> bool) \<times> remote_state" where
  "call_remote_tool env now rid tool args timeout st =
     (let params = Some (JObj [(''arguments'', args), (''name'', JStr tool)]);
          (answer, st) =
            (if timeout > 0 then
               (case swap_client timeout st of
                  (original, st') \<Rightarrow>
                    (send_json_rpc env rid (rt_client st') (rt_config st') ''tools/call'' params,
                     restore_client original st'))
             else (send_json_rpc env rid (rt_client st) (rt_config st) ''tools/call'' params, st))
      in case answer of
           Inl e \<Rightarrow> (Inl e, count_failure now e st)
         | Inr resp \<Rightarrow>
             (case read_result call_result_field ([], False) resp of
                None \<Rightarrow> (Inl (BadRemoteResult ''tools/call''), st)
              | Some r \<Rightarrow> (Inr r, st)))"

record resource_content =
  rn_uri :: string
  rn_mime_type :: string
  rn_text :: string

definition resource_content_field :: "string \<Rightarrow> json \<Rightarrow> resource_content \<Rightarrow> resource_content option" where
  "resource_content_field k j c =
     (if equal_fold k ''uri'' then map_option (\<lambda>s. c\<lparr>rn_uri := s\<rparr>) (read_string j (rn_uri c))
      else if equal_fold k ''mimeType'' then map_option (\<lambda>s. c\<lparr>rn_mime_type := s\<rparr>) (read_string j (rn_mime_type c))
      else if equal_fold k ''text'' then map_option (\<lambda>s. c\<lparr>rn_text := s\<rparr>) (read_string j (rn_text c))
      else Some c)"

definition read_remote_resource ::
    "fed_env \<Rightarrow> time \<Rightarrow> int \<Rightarrow> string \<Rightarrow> remote_state \<Rightarrow> (fed_error + resource_content list) \<times> remote_state" where
  "read_remote_resource env now rid uri st =
     (case send_json_rpc env rid (rt_client st) (rt_config st) ''resources/read'' (Some (JObj [(''uri'', JStr uri)])) of
        Inl e \<Rightarrow> (Inl e, count_failure now e st)
      | Inr resp \<Rightarrow>
          (case read_result (list_field ''contents'' resource_content_field
                   \<lparr>rn_uri = [], rn_mime_type = [], rn_text = []\<rparr>) [] resp of
             None \<Rightarrow> (Inl (BadRemoteResult ''resources/read''), st)
           | Some cs \<Rightarrow> (Inr cs, st)))"

end
