(* ===== verification/FedTools.thy ===== *)
theory FedTools
  imports Federation
begin

text \<open>
  What an agent reaches of the federated servers: \<open>handleFederatedToolCall\<close> of \<open>internal/broker/mcp.go\<close>,
  \<open>handleResourcesList\<close> and \<open>handleResourcesRead\<close> of \<open>mcp_resources.go\<close> and \<open>toolListRemotes\<close> of
  \<open>mcp_tools.go\<close>. The texts of the broker's own resources are presentation and left out, as are
  activity entries and the audit log.
\<close>

record fed_broker =
  fb_remotes :: federator
  fb_grants :: "grant_store option"
  fb_ids :: int

datatype fed_tool_error =
    UnknownFederatedTool string
  | UnknownRemote string
  | RemoteDisabled string
  | RemoteAccessDenied string string
  | FedEnvelope envelope_error
  | ArgsBlocked deny_reason
  | ArgsBlockedSuspended deny_reason string
  | FederationFailed fed_error

definition disable_remote :: "string \<Rightarrow> federator \<Rightarrow> federator" where
  "disable_remote name fed =
     map (\<lambda>(k, st). (k, if k = name then st\<lparr>rt_config := (rt_config st)\<lparr>rm_enabled := False\<rparr>\<rparr> else st)) fed"

text \<open>The arguments as the filter sees them; without arguments there is nothing to match.\<close>

definition filter_text :: "(json \<Rightarrow> bytes) \<Rightarrow> tool_args option \<Rightarrow> string" where
  "filter_text marshal args = (case args of None \<Rightarrow> [] | Some m \<Rightarrow> marshal (JObj m))"

definition filter_arguments ::
    "(json \<Rightarrow> bytes) \<Rightarrow> remote_config \<Rightarrow> tool_args option \<Rightarrow> fed_tool_error option \<times> bool" where
  "filter_arguments marshal cfg args =
     (let text = filter_text marshal args in
      if rm_arg_filter cfg \<and> rm_arg_deny cfg \<noteq> [] \<and> text \<noteq> [] then
        (let res = check_command text (rm_arg_deny cfg) [] True in
         if cf_allowed res then (None, False)
         else if rm_auto_revoke_on_deny cfg then (Some (ArgsBlockedSuspended (cf_reason res) (rm_name cfg)), True)
         else (Some (ArgsBlocked (cf_reason res)), False))
      else (None, False))"

definition ensure_mcp_grant ::
    "time \<Rightarrow> string \<Rightarrow> string \<Rightarrow> remote_config \<Rightarrow> string \<Rightarrow> string \<Rightarrow> grant_store option \<Rightarrow> grant_store option" where
  "ensure_mcp_grant now gid agent cfg remote tool grants =
     (case grants of
        None \<Rightarrow> None
      | Some gs \<Rightarrow>
          if (if rm_grant_mode cfg \<noteq> [] then rm_grant_mode cfg = ''ttl'' else gs_mode gs = ModeTTL) \<and>
             validate_grant now MCP agent remote gs = None
          then Some (snd (issue_grant now gid MCP agent remote 0 [(''remote'', remote), (''tool'', tool)] gs))
          else Some gs)"

definition call_timeout :: "(string \<Rightarrow> int) \<Rightarrow> tool_args option \<Rightarrow> int" where
  "call_timeout float_int args = (case args of None \<Rightarrow> 30 | Some m \<Rightarrow> get_int_arg float_int m ''timeout'' 30)"

definition handle_federated_tool_call ::
    "fed_env \<Rightarrow> (string \<Rightarrow> int) \<Rightarrow> time \<Rightarrow> string \<Rightarrow> mcp_agent \<Rightarrow> string \<Rightarrow> tool_args option \<Rightarrow> fed_broker \<Rightarrow>
     (fed_tool_error + tool_content list \<times> bool) \<times> fed_broker" where
  "handle_federated_tool_call env float_int now gid agent name args fb =
     (case parse_federated_tool (fb_remotes fb) name of
        None \<Rightarrow> (Inl (UnknownFederatedTool name), fb)
      | Some (remote, tool) \<Rightarrow>
     (case get (fb_remotes fb) remote of
        None \<Rightarrow> (Inl (UnknownRemote remote), fb)
      | Some st \<Rightarrow>
          if \<not> rm_enabled (rt_config st) then (Inl (RemoteDisabled remote), fb)
          else if \<not> can_access_remote (get_agent_perms agent) remote tool then
            (Inl (RemoteAccessDenied remote tool), fb)
          else
     (case enforce_federation_envelope (map_option cl_envelope (ma_task_claims agent)) remote of
        Some e \<Rightarrow> (Inl (FedEnvelope e), fb)
      | None \<Rightarrow>
     (case filter_arguments (fe_marshal env) (rt_config st) args of
        (Some e, suspend) \<Rightarrow>
          (Inl e, if suspend then fb\<lparr>fb_remotes := disable_remote remote (fb_remotes fb)\<rparr> else fb)
      | (None, _) \<Rightarrow>
          let grants = ensure_mcp_grant now gid (ma_name agent) (rt_config st) remote tool (fb_grants fb);
              rid = fb_ids fb + 1;
              (answer, st) = call_remote_tool env now rid tool (case args of None \<Rightarrow> JNull | Some m \<Rightarrow> JObj m)
                               (call_timeout float_int args) st;
              fb = fb\<lparr>fb_remotes := put remote st (fb_remotes fb), fb_grants := grants, fb_ids := rid\<rparr>
          in (case answer of Inl e \<Rightarrow> (Inl (FederationFailed e), fb) | Inr r \<Rightarrow> (Inr r, fb))))))"

section \<open>Resources\<close>

definition local_resources :: "mcp_resource list" where
  "local_resources = map (\<lambda>(uri, name, d). \<lparr>mr_uri = uri, mr_name = name, mr_description = d, mr_mime_type = ''text/markdown''\<rparr>)
     [(''ephyr://overview'', ''System Overview'',
       ''High-level summary of Ephyr broker capabilities, available targets, services, and your agent permissions''),
      (''ephyr://targets'', ''SSH Targets'',
       ''Available SSH targets with hosts, ports, allowed roles, TTLs, and auto-approve status''),
      (''ephyr://services'', ''HTTP Proxy Services'',
       ''Configured web services accessible through the authenticated HTTP proxy with credential injection''),
      (''ephyr://roles'', ''Roles & Permissions'',
       ''Available roles, their SSH principals, and what each role can do on targets''),
      (''ephyr://status'', ''Agent Status'', ''Your current active certificates, sessions, and recent activity''),
      (''ephyr://tools'', ''Tools Reference'',
       ''Quick reference for all available MCP tools with parameters and usage examples''),
      (''ephyr://remotes'', ''Remote MCP Servers'',
       ''Federated remote MCP servers with tools, connection status, and last refresh times'')]"

definition handle_resources_list :: "federator option \<Rightarrow> mcp_resource list" where
  "handle_resources_list fed =
     local_resources @ (case fed of None \<Rightarrow> [] | Some fed \<Rightarrow> federated_resources fed)"

datatype read_error =
    UriRequired
  | InvalidFederatedUri string
  | UnknownResourceRemote string
  | ResourceFailed fed_error
  | UnknownResource string

text \<open>A resource of the broker itself, or what the remote answered.\<close>

datatype read_answer = OwnResource string | RemoteContents "resource_content list"

definition handle_resources_read ::
    "fed_env \<Rightarrow> time \<Rightarrow> mcp_agent \<Rightarrow> string \<Rightarrow> fed_broker option \<Rightarrow> (read_error + read_answer) \<times> fed_broker option" where
  "handle_resources_read env now agent uri fed =
     (if uri = [] then (Inl UriRequired, fed)
      else
        let own = (if uri \<in> set (map mr_uri local_resources) then Inr (OwnResource uri) else Inl (UnknownResource uri))
        in (case fed of
              None \<Rightarrow> (own, None)
            | Some fb \<Rightarrow>
                if \<not> is_federated_resource uri then (own, Some fb)
                else
           (case parse_federated_resource (fb_remotes fb) uri of
              None \<Rightarrow> (Inl (InvalidFederatedUri uri), Some fb)
            | Some (remote, original) \<Rightarrow>
           (case get (fb_remotes fb) remote of
              None \<Rightarrow> (Inl (UnknownResourceRemote remote), Some fb)
            | Some st \<Rightarrow>
                let rid = fb_ids fb + 1;
                    (answer, st) = read_remote_resource env now rid original st;
                    fb = fb\<lparr>fb_remotes := put remote st (fb_remotes fb), fb_ids := rid\<rparr>
                in (case answer of Inl e \<Rightarrow> (Inl (ResourceFailed e), Some fb)
                    | Inr cs \<Rightarrow> (Inr (RemoteContents cs), Some fb))))))"

section \<open>The listing\<close>

definition tool_list_remotes :: "mcp_agent \<Rightarrow> federator \<Rightarrow> remote_info list" where
  "tool_list_remotes agent fed =
     (let perms = get_agent_perms agent
      in if rp_legacy_mode perms then list_remote_states fed
         else filter (\<lambda>r. can_access_remote perms (ri_name r) []) (list_remote_states fed))"

end
