(* ===== verification/FedSafety.thy ===== *)
theory FedSafety
  imports FedTools
begin

text \<open>
  What holds of the federated servers: when a call is forwarded, how listed names lead back to their
  server, the invariant of the registered remotes over all runs, and what reading a resource does not
  check.
\<close>

section \<open>Calls\<close>

lemma auth_ignores_enabled: "inject_remote_auth (cfg\<lparr>rm_enabled := b\<rparr>) r = inject_remote_auth cfg r"
  by (simp add: inject_remote_auth_def)

lemma request_ignores_enabled: "remote_request env rid (cfg\<lparr>rm_enabled := b\<rparr>) method params = remote_request env rid cfg method params"
  by (simp add: remote_request_def auth_ignores_enabled cong: option.case_cong)

lemma response_ignores_enabled: "read_rpc_response (cfg\<lparr>rm_enabled := b\<rparr>) status answer = read_rpc_response cfg status answer"
  by (simp add: read_rpc_response_def)

lemma send_ignores_enabled:
  "send_json_rpc env rid client (cfg\<lparr>rm_enabled := b\<rparr>) method params = send_json_rpc env rid client cfg method params"
  by (simp add: send_json_rpc_def request_ignores_enabled response_ignores_enabled cong: option.case_cong prod.case_cong)

lemma swap_restore: "swap_client t st = (c, st') \<Longrightarrow> restore_client c st' = st"
  by (auto simp: swap_client_def restore_client_def)

text \<open>The client that a call uses.\<close>

definition call_client :: "int \<Rightarrow> remote_state \<Rightarrow> fed_client" where
  "call_client timeout st = (if timeout > 0 then with_timeout timeout (rt_client st) else rt_client st)"

lemma call_answer:
  "call_remote_tool env now rid tool args timeout st =
     (case send_json_rpc env rid (call_client timeout st) (rt_config st) ''tools/call''
             (Some (JObj [(''arguments'', args), (''name'', JStr tool)])) of
        Inl e \<Rightarrow> (Inl e, count_failure now e st)
      | Inr resp \<Rightarrow>
          (case read_result call_result_field ([], False) resp of
             None \<Rightarrow> (Inl (BadRemoteResult ''tools/call''), st)
           | Some r \<Rightarrow> (Inr r, st)))"
proof -
  have "restore_client (rt_client st) (st\<lparr>rt_client := c\<rparr>) = st" for c by (simp add: restore_client_def)
  then show ?thesis
    by (simp add: call_remote_tool_def call_client_def swap_client_def Let_def split: sum.splits)
qed

text \<open>Two calls: one inside the other leaves the client as it was, overlapping ones do not.\<close>

lemma overlapping_calls_keep_timeout:
  assumes "swap_client t1 st = (c1, st1)" "swap_client t2 st1 = (c2, st2)"
  shows "restore_client c1 (restore_client c2 st2) = st"
    and "rt_client (restore_client c2 (restore_client c1 st2)) = with_timeout t1 (rt_client st)"
  using assms by (auto simp: swap_client_def restore_client_def)

text \<open>The checks before a call is forwarded.\<close>

definition call_allowed :: "fed_env \<Rightarrow> mcp_agent \<Rightarrow> string \<Rightarrow> tool_args option \<Rightarrow> federator \<Rightarrow> bool" where
  "call_allowed env agent name args fed =
     (case parse_federated_tool fed name of
        None \<Rightarrow> False
      | Some (remote, tool) \<Rightarrow>
          (case get fed remote of
             None \<Rightarrow> False
           | Some st \<Rightarrow>
               rm_enabled (rt_config st) \<and>
               can_access_remote (get_agent_perms agent) remote tool \<and>
               enforce_federation_envelope (map_option cl_envelope (ma_task_claims agent)) remote = None \<and>
               fst (filter_arguments (fe_marshal env) (rt_config st) args) = None))"

lemma call_refused:
  assumes "\<not> call_allowed env agent name args (fb_remotes fb)"
  shows "\<exists>e fb'. handle_federated_tool_call env fi now gid agent name args fb = (Inl e, fb') \<and>
    fb_ids fb' = fb_ids fb \<and> fb_grants fb' = fb_grants fb \<and>
    (\<forall>send. handle_federated_tool_call (env\<lparr>fe_send := send\<rparr>) fi now gid agent name args fb = (Inl e, fb'))"
proof (cases "parse_federated_tool (fb_remotes fb) name")
  case None
  then show ?thesis by (simp add: handle_federated_tool_call_def)
next
  case (Some rt)
  obtain remote tool where rt: "rt = (remote, tool)" by (cases rt)
  show ?thesis
  proof (cases "get (fb_remotes fb) remote")
    case None
    then show ?thesis using Some rt by (simp add: handle_federated_tool_call_def)
  next
    case (Some st)
    note parsed = \<open>parse_federated_tool (fb_remotes fb) name = Some rt\<close>
    have no: "\<not> (rm_enabled (rt_config st) \<and> can_access_remote (get_agent_perms agent) remote tool \<and>
        enforce_federation_envelope (map_option cl_envelope (ma_task_claims agent)) remote = None \<and>
        fst (filter_arguments (fe_marshal env) (rt_config st) args) = None)"
      using assms by (simp add: call_allowed_def parsed rt Some)
    obtain fe suspend where flt: "filter_arguments (fe_marshal env) (rt_config st) args = (fe, suspend)"
      by (cases "filter_arguments (fe_marshal env) (rt_config st) args")
    show ?thesis
      using no by (cases fe; cases "enforce_federation_envelope (map_option cl_envelope (ma_task_claims agent)) remote")
        (auto simp: handle_federated_tool_call_def parsed rt Some flt)
  qed
qed

text \<open>
  Claim C4. A call of a federated tool is forwarded exactly when its prefix names a registered,
  enabled remote, the agent's permissions and the task envelope admit that remote and tool and no
  argument is denied. Then the answer is what the remote answers to one request with the next id,
  sent with the remote's own configuration. Otherwise the call fails and the network plays no part
  in it, no grant is issued and no id is used.
\<close>

theorem federated_call_guarded:
  "let fed = fb_remotes fb; out = handle_federated_tool_call env fi now gid agent name args fb in
   (if call_allowed env agent name args fed then
      (\<exists>remote tool st.
         parse_federated_tool fed name = Some (remote, tool) \<and> get fed remote = Some st \<and> fb_ids (snd out) = fb_ids fb + 1 \<and>
         fst out =
           (case send_json_rpc env (fb_ids fb + 1) (call_client (call_timeout fi args) st) (rt_config st) ''tools/call''
              (Some (JObj [(''arguments'', case args of None \<Rightarrow> JNull | Some m \<Rightarrow> JObj m), (''name'', JStr tool)])) of
              Inl e \<Rightarrow> Inl (FederationFailed e)
            | Inr resp \<Rightarrow>
                (case read_result call_result_field ([], False) resp of
                   None \<Rightarrow> Inl (FederationFailed (BadRemoteResult ''tools/call''))
                 | Some r \<Rightarrow> Inr r)))
    else
      (\<exists>e. fst out = Inl e) \<and> fb_ids (snd out) = fb_ids fb \<and> fb_grants (snd out) = fb_grants fb \<and>
      (\<forall>send. handle_federated_tool_call (env\<lparr>fe_send := send\<rparr>) fi now gid agent name args fb = out))"
proof (cases "call_allowed env agent name args (fb_remotes fb)")
  case False
  then show ?thesis using call_refused [OF False, of fi now gid] by (auto simp: Let_def)
next
  case True
  then obtain remote tool st where ok: "parse_federated_tool (fb_remotes fb) name = Some (remote, tool)"
      "get (fb_remotes fb) remote = Some st" "rm_enabled (rt_config st)"
      "can_access_remote (get_agent_perms agent) remote tool"
      "enforce_federation_envelope (map_option cl_envelope (ma_task_claims agent)) remote = None"
      "fst (filter_arguments (fe_marshal env) (rt_config st) args) = None"
    by (auto simp: call_allowed_def split: option.splits)
  obtain suspend where flt: "filter_arguments (fe_marshal env) (rt_config st) args = (None, suspend)"
    using ok(6) by (cases "filter_arguments (fe_marshal env) (rt_config st) args") simp
  show ?thesis
    using True
    by (simp add: Let_def handle_federated_tool_call_def ok(1-5) flt call_answer split: sum.splits option.splits)
qed

section \<open>Reading resources\<close>

lemma get_disable:
  "get (disable_remote name fed) k =
     map_option (\<lambda>st. if k = name then st\<lparr>rt_config := (rt_config st)\<lparr>rm_enabled := False\<rparr>\<rparr> else st) (get fed k)"
  by (induction fed) (auto simp: disable_remote_def)

lemma prefix_ignores_enabled: "remote_prefix (st\<lparr>rt_config := (rt_config st)\<lparr>rm_enabled := b\<rparr>\<rparr>) = remote_prefix st"
  by (simp add: remote_prefix_def)

lemma with_prefix_disable:
  "map_option (\<lambda>st. rm_name (rt_config st)) (with_prefix p (disable_remote name fed)) =
   map_option (\<lambda>st. rm_name (rt_config st)) (with_prefix p fed)"
proof (induction fed)
  case (Cons x fed)
  obtain k st where x: "x = (k, st)" by (cases x)
  show ?case
    using Cons.IH by (cases "remote_prefix st = p")
      (simp_all add: x with_prefix_def disable_remote_def prefix_ignores_enabled)
qed (simp add: disable_remote_def)

lemma parse_resource_disable: "parse_federated_resource (disable_remote name fed) uri = parse_federated_resource fed uri"
proof -
  have "map_option (\<lambda>st. (rm_name (rt_config st), r)) (with_prefix p (disable_remote name fed)) =
      map_option (\<lambda>st. (rm_name (rt_config st), r)) (with_prefix p fed)" for p r
    using with_prefix_disable [of p name fed] by (cases "with_prefix p fed"; cases "with_prefix p (disable_remote name fed)") auto
  then show ?thesis by (auto simp: parse_federated_resource_def Let_def split: option.splits)
qed

lemma read_ignores_enabled:
  "fst (read_remote_resource env now rid uri (st\<lparr>rt_config := (rt_config st)\<lparr>rm_enabled := b\<rparr>\<rparr>)) =
   fst (read_remote_resource env now rid uri st)"
  by (simp add: read_remote_resource_def send_ignores_enabled split: sum.splits option.splits)

lemma get_disable_all:
  "get (fold (\<lambda>r. disable_remote (fst r)) ks fed) k =
     map_option (\<lambda>st. if k \<in> fst ` set ks then st\<lparr>rt_config := (rt_config st)\<lparr>rm_enabled := False\<rparr>\<rparr> else st) (get fed k)"
proof (induction ks arbitrary: fed)
  case (Cons x ks)
  show ?case by (cases "get fed k"; simp add: Cons.IH get_disable)
qed (simp add: map_option.id [unfolded id_def])

text \<open>
  Claim C40. Reading a resource of a remote asks neither for the agent's permissions and envelope nor
  whether the remote is enabled: every agent gets the answer that any other agent gets, before and
  after the remote was disabled, although a call of a tool of a disabled remote is refused to all.
\<close>

theorem resource_read_unchecked:
  "fst (handle_resources_read env now agent uri (Some (fb\<lparr>fb_remotes := disable_remote name (fb_remotes fb)\<rparr>))) =
     fst (handle_resources_read env now agent' uri (Some fb)) \<and>
   (\<exists>e. fst (handle_federated_tool_call env fi now gid agent tool args
              (fb\<lparr>fb_remotes := fold (\<lambda>r. disable_remote (fst r)) (fb_remotes fb) (fb_remotes fb)\<rparr>)) = Inl e)"
proof
  show "fst (handle_resources_read env now agent uri (Some (fb\<lparr>fb_remotes := disable_remote name (fb_remotes fb)\<rparr>))) =
      fst (handle_resources_read env now agent' uri (Some fb))"
  proof (cases "uri = [] \<or> \<not> is_federated_resource uri \<or> parse_federated_resource (fb_remotes fb) uri = None")
    case True
    then show ?thesis by (auto simp: handle_resources_read_def parse_resource_disable Let_def)
  next
    case False
    then obtain remote original where p: "parse_federated_resource (fb_remotes fb) uri = Some (remote, original)" by auto
    show ?thesis
    proof (cases "get (fb_remotes fb) remote")
      case None
      then show ?thesis using False p by (simp add: handle_resources_read_def parse_resource_disable get_disable)
    next
      case (Some st)
      obtain a b where r: "read_remote_resource env now (fb_ids fb + 1) original st = (a, b)"
        by (cases "read_remote_resource env now (fb_ids fb + 1) original st")
      let ?st = "if remote = name then st\<lparr>rt_config := (rt_config st)\<lparr>rm_enabled := False\<rparr>\<rparr> else st"
      obtain c d where r': "read_remote_resource env now (fb_ids fb + 1) original ?st = (c, d)"
        by (cases "read_remote_resource env now (fb_ids fb + 1) original ?st")
      have "c = a" using r r' read_ignores_enabled [where env = env and now = now and rid = "fb_ids fb + 1" and uri = original and st = st and b = False] by (auto split: if_splits)
      then show ?thesis
        using False p Some r r' by (cases a) (auto simp: handle_resources_read_def parse_resource_disable get_disable Let_def)
    qed
  qed
  let ?fed = "fold (\<lambda>r. disable_remote (fst r)) (fb_remotes fb) (fb_remotes fb)"
  have "\<not> call_allowed env agent tool args ?fed"
  proof
    assume "call_allowed env agent tool args ?fed"
    then obtain k st where g: "get ?fed k = Some st" "rm_enabled (rt_config st)"
      by (auto simp: call_allowed_def split: option.splits)
    then obtain s where "get (fb_remotes fb) k = Some s"
      "st = (if k \<in> fst ` set (fb_remotes fb) then s\<lparr>rt_config := (rt_config s)\<lparr>rm_enabled := False\<rparr>\<rparr> else s)"
      unfolding get_disable_all by auto
    then show False using g(2) get_key_mem [of "fb_remotes fb" k] by simp
  qed
  then show "\<exists>e. fst (handle_federated_tool_call env fi now gid agent tool args (fb\<lparr>fb_remotes := ?fed\<rparr>)) = Inl e"
    using call_refused [of env agent tool args "fb\<lparr>fb_remotes := ?fed\<rparr>" fi now gid] by auto
qed

end
