(* ===== verification/FedRuns.thy ===== *)
theory FedRuns
  imports FedSafety
begin

text \<open>
  The federated servers over all runs of the broker: what is registered stays well formed, and the
  names under which tools and resources are listed lead back to their server.
\<close>

section \<open>Names lead back\<close>

lemma index_of_separator:
  "index_of ''://'' p = None \<Longrightarrow> index_of ''://'' (p @ ''://'' @ r) = Some (length p)"
proof (induction p)
  case (Cons c p)
  have n: "\<not> has_prefix ''://'' (c # p)" "index_of ''://'' p = None"
    using Cons.prems by (auto split: if_splits)
  have "\<not> has_prefix ''://'' ((c # p) @ ''://'' @ r)"
  proof (cases p)
    case (Cons d q)
    then show ?thesis using n(1) by (cases q) auto
  qed simp
  then show ?case using Cons.IH [OF n(2)] by simp
qed simp

lemma cut_dot: "CHR ''.'' \<notin> set p \<Longrightarrow> cut (CHR ''.'') (p @ ''.'' @ t) = (p, Some t)"
  by (induction p) auto

lemma cut_dot_inside: "CHR ''.'' \<in> set p \<Longrightarrow> \<exists>a b. cut (CHR ''.'') (p @ ''.'' @ t) = (a, Some (b @ ''.'' @ t))"
  by (induction p) auto

lemma with_prefix_found:
  assumes "(name, st) \<in> set fed" "distinct (map (\<lambda>(_, st). remote_prefix st) fed)"
  shows "with_prefix (remote_prefix st) fed = Some st"
  using assms by (induction fed) (force simp: with_prefix_def)+


definition sample_remote :: remote_config where
  "sample_remote =
     \<lparr>rm_name = ''weather'', rm_url = ''http://w:1/mcp'', rm_auth_type = ''bearer'', rm_token_header = [], rm_token_prefix = [],
      rm_username = [], rm_credential = ''s'', rm_headers = [], rm_description = [], rm_enabled = True, rm_grant_mode = [],
      rm_timeout = 30, rm_refresh_seconds = 60, rm_max_response_kb = 1024, rm_tool_prefix = [],
      rm_tls = \<lparr>ts_verify = False, ts_ca = [], ts_ca_inline = [], ts_fingerprint = []\<rparr>,
      rm_arg_filter = False, rm_arg_deny = [], rm_auto_revoke_on_deny = False\<rparr>"


section \<open>The registered remotes\<close>

text \<open>
  The type of a registered remote: a valid configuration under its own name, the client that belongs
  to it, and counters that fit the status. A client of a remote that asks for verification verifies.
\<close>

definition config_ok :: "remote_config \<Rightarrow> bool" where
  "config_ok cfg \<longleftrightarrow>
     valid_remote_name (rm_name cfg) \<and> length (rm_name cfg) \<le> 50 \<and>
     (has_prefix ''http://'' (rm_url cfg) \<or> has_prefix ''https://'' (rm_url cfg)) \<and>
     rm_auth_type cfg \<in> {''bearer'', ''basic'', ''header'', ''query'', ''none''} \<and>
     rm_timeout cfg \<in> {1..120} \<and> 10 \<le> rm_refresh_seconds cfg \<and> 0 < rm_max_response_kb cfg"

definition client_ok :: "remote_config \<Rightarrow> fed_client \<Rightarrow> bool" where
  "client_ok cfg client \<longleftrightarrow>
     fc_timeout client = rm_timeout cfg \<and>
     (case client of FedFailing _ _ \<Rightarrow> True | FedClient tls _ \<Rightarrow> tc_insecure tls = (\<not> ts_verify (rm_tls cfg)))"

definition remote_ok :: "string \<Rightarrow> remote_state \<Rightarrow> bool" where
  "remote_ok name st \<longleftrightarrow>
     rm_name (rt_config st) = name \<and> config_ok (rt_config st) \<and> client_ok (rt_config st) (rt_client st) \<and>
     (if rt_status st = Faulty then 0 < rt_error_count st else 0 \<le> rt_error_count st)"

definition remotes_ok :: "federator \<Rightarrow> bool" where
  "remotes_ok fed \<longleftrightarrow> map_wf fed \<and> list_all (\<lambda>(name, st). remote_ok name st) fed"

lemma remotes_okI: "map_wf fed \<Longrightarrow> (\<And>name st. get fed name = Some st \<Longrightarrow> remote_ok name st) \<Longrightarrow> remotes_ok fed"
  by (auto simp: remotes_ok_def list_all_iff get_in_set)

lemma remotes_okD: "remotes_ok fed \<Longrightarrow> get fed name = Some st \<Longrightarrow> remote_ok name st"
  by (auto simp: remotes_ok_def list_all_iff dest: get_Some_in_set)

lemma remotes_ok_put: "remotes_ok fed \<Longrightarrow> remote_ok name st \<Longrightarrow> remotes_ok (put name st fed)"
  by (rule remotes_okI) (auto simp: remotes_ok_def list_all_iff dest!: get_Some_in_set split: if_splits)

lemma remotes_ok_del: "remotes_ok fed \<Longrightarrow> remotes_ok (del name fed)"
  by (rule remotes_okI) (auto simp: remotes_ok_def list_all_iff dest!: get_Some_in_set split: if_splits)

lemma default_config_simps:
  "rm_name (default_config cfg) = rm_name cfg" "rm_url (default_config cfg) = rm_url cfg"
  "rm_auth_type (default_config cfg) = rm_auth_type cfg"
  "rm_timeout (default_config cfg) \<in> {1..120}" "10 \<le> rm_refresh_seconds (default_config cfg)"
  "0 < rm_max_response_kb (default_config cfg)"
  by (simp_all add: default_config_def)

lemma validated_ok:
  assumes v: "validate_remote cfg = Inr cfg'"
  shows "config_ok cfg'"
proof -
  define c where "c = (if rm_auth_type cfg = [] then cfg\<lparr>rm_auth_type := ''none''\<rparr> else cfg)"
  have c: "rm_name c = rm_name cfg" "rm_url c = rm_url cfg" by (simp_all add: c_def)
  note v = v [unfolded validate_remote_def Let_def, folded c_def]
  have n: "valid_remote_name (rm_name cfg)" "\<not> length (rm_name cfg) > 50"
      "has_prefix ''http://'' (rm_url cfg) \<or> has_prefix ''https://'' (rm_url cfg)"
    using v by (metis sum.simps(4))+
  have "rm_auth_type c \<in> {''bearer'', ''basic'', ''header'', ''query'', ''none''}" "cfg' = default_config c"
    using v by (metis sum.simps(4) sum.inject(2))+
  then show ?thesis unfolding config_ok_def using n c by (simp only: default_config_simps not_less simp_thms)
qed

lemma tls_insecure: "build_tls_config rf hc ts = Inr tls \<Longrightarrow> tc_insecure tls = (\<not> ts_verify ts)"
  by (auto simp: build_tls_config_def Let_def split: if_splits sum.splits option.splits)

lemma tls_error_verify: "build_tls_config rf hc ts = Inl e \<Longrightarrow> ts_verify ts"
  by (auto simp: build_tls_config_def split: if_splits)

lemma built_client_ok:
  assumes "config_ok cfg"
  shows "client_ok cfg (build_remote_client env cfg)"
proof (cases "build_tls_config (fe_read_file env) (fe_has_certs env) (rm_tls cfg)")
  case (Inl e)
  then show ?thesis using assms tls_error_verify [OF Inl] by (simp add: client_ok_def build_remote_client_def config_ok_def)
next
  case (Inr tls)
  then show ?thesis using assms tls_insecure [OF Inr] by (simp add: client_ok_def build_remote_client_def config_ok_def)
qed

lemma new_remote_ok: "config_ok cfg \<Longrightarrow> status \<noteq> Faulty \<Longrightarrow> remote_ok (rm_name cfg) (new_remote env status cfg)"
  by (simp add: remote_ok_def new_remote_def built_client_ok)

lemma add_ok: "remotes_ok fed \<Longrightarrow> remotes_ok (snd (add_remote env persisted cfg fed))"
  by (auto simp: add_remote_def Let_def split: sum.split intro!: remotes_ok_put remotes_ok_del new_remote_ok
      dest: validated_ok)

lemma remove_ok: "remotes_ok fed \<Longrightarrow> remotes_ok (snd (remove_remote persisted name fed))"
  by (auto simp: remove_remote_def split: option.split intro: remotes_ok_del)

lemma mark_error_ok: "remote_ok name st \<Longrightarrow> remote_ok name (mark_error now note st)"
  by (auto simp: remote_ok_def mark_error_def split: if_splits)

lemma initializing_ok: "remote_ok name st \<Longrightarrow> remote_ok name (st\<lparr>rt_status := Initializing, rt_message := Handshake\<rparr>)"
  by (auto simp: remote_ok_def split: if_splits)

lemma server_ok: "remote_ok name (st\<lparr>rt_protocol := p, rt_server_name := n, rt_server_version := v\<rparr>) = remote_ok name st"
  by (simp add: remote_ok_def)

lemma connected_ok:
  "remote_ok name st \<Longrightarrow> remote_ok name (st\<lparr>rt_tools := ts, rt_resources := rs, rt_status := Connected,
     rt_message := Ready, rt_last_refresh := now, rt_error_count := 0\<rparr>)"
  by (simp add: remote_ok_def)

lemma discover_ok: "remote_ok name st \<Longrightarrow> remote_ok name (fst (snd (discover_remote env now ids st)))"
proof -
  assume ok: "remote_ok name st"
  define s where "s = st\<lparr>rt_status := Initializing, rt_message := Handshake\<rparr>"
  have s: "remote_ok name s" unfolding s_def by (rule initializing_ok [OF ok])
  show ?thesis
    unfolding discover_remote_def Let_def s_def [symmetric]
    by (auto simp: server_ok s split: sum.split option.split intro!: mark_error_ok connected_ok)
qed

lemma tick_ok: "remotes_ok fed \<Longrightarrow> remotes_ok (fst (refresh_tick env now ids fed)) \<and>
    map fst (fst (refresh_tick env now ids fed)) = map fst fed"
proof (induction fed arbitrary: ids)
  case (Cons x fed)
  obtain name st where x: "x = (name, st)" by (cases x)
  obtain st' ids' where d: "(if should_refresh now st then snd (discover_remote env now ids st) else (st, ids)) = (st', ids')"
    by (meson prod.exhaust)
  have fed: "remotes_ok fed" and st: "remote_ok name st"
    using Cons.prems by (auto simp: remotes_ok_def map_wf_def x)
  have st': "remote_ok name st'"
  proof (cases "should_refresh now st")
    case True
    then show ?thesis using d discover_ok [OF st, of env now ids] by simp
  next
    case False
    then show ?thesis using d st by simp
  qed
  obtain fed' ids'' where t: "refresh_tick env now ids' fed = (fed', ids'')" by (cases "refresh_tick env now ids' fed")
  have "remotes_ok fed'" "map fst fed' = map fst fed" using Cons.IH [OF fed, of ids'] t by simp_all
  moreover have "refresh_tick env now ids (x # fed) = ((name, st') # fed', ids'')" by (simp add: x d t)
  moreover have "map_wf (x # fed)" using Cons.prems by (simp add: remotes_ok_def)
  ultimately show ?case using st' by (auto simp: remotes_ok_def map_wf_def x)
qed simp

lemma failure_ok: "remote_ok name st \<Longrightarrow> remote_ok name (count_failure now e st)"
  by (auto simp: remote_ok_def count_failure_def split: if_splits)

lemma call_ok: "remote_ok name st \<Longrightarrow> remote_ok name (snd (call_remote_tool env now rid tool args timeout st))"
  by (auto simp: call_answer failure_ok split: sum.split option.split)

lemma read_ok: "remote_ok name st \<Longrightarrow> remote_ok name (snd (read_remote_resource env now rid uri st))"
  by (auto simp: read_remote_resource_def failure_ok split: sum.split option.split)

lemma enabled_ok: "remote_ok name st \<Longrightarrow> remote_ok name (st\<lparr>rt_config := (rt_config st)\<lparr>rm_enabled := b\<rparr>\<rparr>)"
  by (cases "rt_client st") (auto simp: remote_ok_def config_ok_def client_ok_def)

lemma disable_ok: "remotes_ok fed \<Longrightarrow> remotes_ok (disable_remote name fed)"
proof (rule remotes_okI)
  assume ok: "remotes_ok fed"
  have "map fst (disable_remote name fed) = map fst fed" by (induction fed) (auto simp: disable_remote_def)
  then show "map_wf (disable_remote name fed)" using ok by (simp add: remotes_ok_def map_wf_def)
  fix k st assume "get (disable_remote name fed) k = Some st"
  then show "remote_ok k st"
    using remotes_okD [OF ok, of k] by (auto simp: get_disable intro: enabled_ok split: if_splits)
qed

lemma handle_call_ok:
  assumes ok: "remotes_ok (fb_remotes fb)"
  shows "remotes_ok (fb_remotes (snd (handle_federated_tool_call env fi now gid agent name args fb)))"
proof -
  have "remotes_ok (put remote (snd (call_remote_tool env now rid tool a t st)) (fb_remotes fb))"
    if "get (fb_remotes fb) remote = Some st" for remote rid tool a t st
    using ok remotes_okD [OF ok that] by (intro remotes_ok_put call_ok)
  then show ?thesis
    using ok disable_ok [OF ok]
    by (auto simp: handle_federated_tool_call_def Let_def case_prod_unfold split: option.split sum.split)
qed

lemma handle_read_ok:
  assumes ok: "remotes_ok (fb_remotes fb)" and read: "handle_resources_read env now agent uri (Some fb) = (r, Some fb')"
  shows "remotes_ok (fb_remotes fb')"
proof -
  have "remotes_ok (put remote (snd (read_remote_resource env now rid u st)) (fb_remotes fb))"
    if "get (fb_remotes fb) remote = Some st" for remote rid u st
    using ok remotes_okD [OF ok that] by (intro remotes_ok_put read_ok)
  then show ?thesis
    using ok read
    by (auto simp: handle_resources_read_def Let_def case_prod_unfold split: option.splits sum.splits if_splits)
qed

datatype fed_op =
    FedAdd bool remote_config
  | FedRemove bool string
  | FedTick time
  | FedCall time string mcp_agent string "tool_args option"
  | FedRead time mcp_agent string

fun fed_step :: "fed_env \<Rightarrow> (string \<Rightarrow> int) \<Rightarrow> fed_op \<Rightarrow> fed_broker \<Rightarrow> fed_broker" where
  "fed_step env fi (FedAdd persisted cfg) fb = fb\<lparr>fb_remotes := snd (add_remote env persisted cfg (fb_remotes fb))\<rparr>"
| "fed_step env fi (FedRemove persisted name) fb = fb\<lparr>fb_remotes := snd (remove_remote persisted name (fb_remotes fb))\<rparr>"
| "fed_step env fi (FedTick now) fb =
     (case refresh_tick env now (fb_ids fb) (fb_remotes fb) of (fed, ids) \<Rightarrow> fb\<lparr>fb_remotes := fed, fb_ids := ids\<rparr>)"
| "fed_step env fi (FedCall now gid agent name args) fb = snd (handle_federated_tool_call env fi now gid agent name args fb)"
| "fed_step env fi (FedRead now agent uri) fb =
     (case snd (handle_resources_read env now agent uri (Some fb)) of None \<Rightarrow> fb | Some fb \<Rightarrow> fb)"

lemma fed_step_ok: "remotes_ok (fb_remotes fb) \<Longrightarrow> remotes_ok (fb_remotes (fed_step env fi op fb))"
proof (cases op)
  case (FedTick now)
  assume "remotes_ok (fb_remotes fb)"
  then show ?thesis using FedTick tick_ok [of "fb_remotes fb" env now "fb_ids fb"] by (simp add: case_prod_unfold)
next
  case (FedRead now agent uri)
  assume ok: "remotes_ok (fb_remotes fb)"
  show ?thesis
    using FedRead ok handle_read_ok [OF ok, of env now agent uri]
    by (auto split: option.split) (metis prod.collapse)
qed (simp_all add: add_ok remove_ok handle_call_ok)


end
