(* ===== verification/JsonFuel.thy ===== *)
theory JsonFuel
  imports Json
begin

text \<open>
  The JSON parser terminates on every text: the fuel that \<open>json_parse\<close> gives it is never used up, so
  that \<open>None\<close> always means that the text is not JSON.
\<close>

section \<open>What is left is not longer\<close>

lemma skip_ws_shorter: "length (skip_ws s) \<le> length s"
  by (simp add: skip_ws_def length_dropWhile_le)

lemma parse_str_shorter: "parse_str s = Some (t, r) \<Longrightarrow> length r \<le> length s"
proof (induction s arbitrary: t rule: length_induct)
  case (1 s)
  obtain c q where s: "s = c # q" using "1.prems" by (cases s) auto
  have IH: "length r \<le> Suc (length q)" if "parse_str q' = Some (t', r)" "length q' \<le> length q" for q' t'
  proof -
    have "length r \<le> length q'" using "1.IH" that s by auto
    then show ?thesis using that(2) by simp
  qed
  note step = "1.prems" [unfolded s parse_str.simps(2) [of c q]]
  show ?case
    using step by (auto simp: s Let_def split: if_splits option.splits intro: IH)
qed

lemma scan_digits_shorter: "scan_digits s = Some (d, r) \<Longrightarrow> length r \<le> length s"
  by (auto simp: scan_digits_def length_dropWhile_le split: if_splits)

lemma scan_number_shorter: "scan_number s = Some (l, r) \<Longrightarrow> length r \<le> length s"
proof -
  assume n: "scan_number s = Some (l, r)"
  have i: "length r \<le> length s" if "scan_int s = Some (d, r)" for s d r
    using that by (auto simp: scan_int_def dest!: scan_digits_shorter split: list.splits if_splits)
  have f: "length r \<le> length s" if "scan_fraction s = Some (d, r)" for s d r
    using that by (auto simp: scan_fraction_def dest!: scan_digits_shorter split: list.splits if_splits)
  have e: "length r \<le> length s" if "scan_exponent s = Some (d, r)" for s d r
    using that by (auto simp: scan_exponent_def dest!: scan_digits_shorter split: list.splits if_splits)
  define q where "q = snd (case s of c # r \<Rightarrow> if c = CHR ''-'' then ([c], r) else ([], s) | [] \<Rightarrow> ([], s))"
  have q: "length q \<le> length s" by (auto simp: q_def split: list.split)
  obtain ip a fp b ep where "scan_int q = Some (ip, a)" "scan_fraction a = Some (fp, b)" "scan_exponent b = Some (ep, r)"
    using n unfolding scan_number_def Let_def case_prod_unfold q_def [symmetric]
    by (auto simp: case_prod_unfold split: option.splits)
  then have "length r \<le> length b" "length b \<le> length a" "length a \<le> length q" by (auto dest: i f e)
  then show ?thesis using q by linarith
qed

lemma has_prefix_tl: "has_prefix [c] s \<Longrightarrow> length (tl s) < length s"
  by (cases s) auto

lemma after_char: "has_prefix [c] (skip_ws s) \<Longrightarrow> length (tl (skip_ws s)) < length s"
  using has_prefix_tl [of c "skip_ws s"] skip_ws_shorter [of s] by linarith

lemma parse_shorter:
  "(\<forall>s j r. parse_value n s = Some (j, r) \<longrightarrow> length r \<le> length s) \<and>
   (\<forall>s js r. parse_items n s = Some (js, r) \<longrightarrow> length r \<le> length s) \<and>
   (\<forall>s fs r. parse_members n s = Some (fs, r) \<longrightarrow> length r \<le> length s)"
proof (induction n)
  case (Suc n)
  then have v: "\<And>s j r. parse_value n s = Some (j, r) \<Longrightarrow> length r \<le> length s"
    and i: "\<And>s js r. parse_items n s = Some (js, r) \<Longrightarrow> length r \<le> length s"
    and m: "\<And>s fs r. parse_members n s = Some (fs, r) \<Longrightarrow> length r \<le> length s" by blast+
  have value_case: "length r \<le> length s" if p: "parse_value (Suc n) s = Some (j, r)" for s j r
  proof -
    obtain c q where q: "skip_ws s = c # q" using p by (cases "skip_ws s") auto
    have len: "Suc (length q) \<le> length s" using skip_ws_shorter [of s] by (simp add: q)
    have "length r \<le> Suc (length q)"
    proof -
      note step = p [unfolded parse_value.simps(2) [of n s] q list.case]
      consider t where "parse_str q = Some (t, r)" | js where "parse_items n q = Some (js, r)" | fs where "parse_members n q = Some (fs, r)"
        | "r = tl (skip_ws q)" | k where "r = drop k q" | l where "scan_number (c # q) = Some (l, r)"
        using step by (simp only: split: if_split_asm) (auto simp del: has_prefix_Cons)
      then show ?thesis
        by cases (use skip_ws_shorter [of q] in \<open>auto dest: parse_str_shorter i m scan_number_shorter\<close>)
    qed
    then show ?thesis using len by linarith
  qed
  have items_case: "length r \<le> length s" if p: "parse_items (Suc n) s = Some (js, r)" for s js r
  proof -
    obtain j q where q: "parse_value n s = Some (j, q)" using p by (auto split: option.splits)
    have "length q \<le> length s" by (rule v [OF q])
    moreover have "length r \<le> length q"
      using p q after_char [of _ q] by (auto split: if_splits dest!: i) (meson le_trans less_imp_le)+
    ultimately show ?thesis by linarith
  qed
  have members_case: "length r \<le> length s" if p: "parse_members (Suc n) s = Some (fs, r)" for s fs r
  proof -
    have q: "has_prefix [CHR 0x22] (skip_ws s)" using p by (auto split: if_splits)
    obtain k q1 where k: "parse_str (tl (skip_ws s)) = Some (k, q1)" using p by (auto split: if_splits option.splits)
    have c: "has_prefix '':'' (skip_ws q1)" using p k by (auto split: if_splits)
    obtain j q2 where j: "parse_value n (tl (skip_ws q1)) = Some (j, q2)" using p k by (auto split: if_splits option.splits)
    have "length q1 \<le> length s" using parse_str_shorter [OF k] after_char [OF q] by linarith
    moreover have "length q2 \<le> length q1" using v [OF j] after_char [OF c] by linarith
    moreover have "length r \<le> length q2"
      using p q k c j after_char [of _ q2] by (auto split: if_splits dest!: m) (meson le_trans less_imp_le)+
    ultimately show ?thesis by linarith
  qed
  show ?case using value_case items_case members_case by blast
qed simp

section \<open>Enough fuel\<close>

lemma fuel_irrelevant:
  "length s \<le> k \<Longrightarrow>
   (2 * k + 1 \<le> n \<longrightarrow> 2 * k + 1 \<le> m \<longrightarrow> parse_value n s = parse_value m s) \<and>
   (2 * k + 2 \<le> n \<longrightarrow> 2 * k + 2 \<le> m \<longrightarrow> parse_items n s = parse_items m s) \<and>
   (2 * k + 1 \<le> n \<longrightarrow> 2 * k + 1 \<le> m \<longrightarrow> parse_members n s = parse_members m s)"
proof (induction k arbitrary: s n m)
  case 0
  have e: "skip_ws [] = []" by simp
  have v: "parse_value n [] = None" if "1 \<le> n" for n using that by (cases n) simp_all
  have i: "parse_items n [] = None" if "2 \<le> n" for n using that v [of "n - 1"] by (cases n) simp_all
  have m: "parse_members n [] = None" for n by (cases n) simp_all
  show ?case using 0 v i m by simp
next
  case (Suc k)
  have IHi: "parse_items n q = parse_items m q" if "length q \<le> k" "2 * k + 2 \<le> n" "2 * k + 2 \<le> m" for q n m
    using Suc.IH [OF that(1), of n m] that by blast
  have IHm: "parse_members n q = parse_members m q" if "length q \<le> k" "2 * k + 1 \<le> n" "2 * k + 1 \<le> m" for q n m
    using Suc.IH [OF that(1), of n m] that by blast
  have IHv: "parse_value n q = parse_value m q" if "length q \<le> k" "2 * k + 1 \<le> n" "2 * k + 1 \<le> m" for q n m
    using Suc.IH [OF that(1), of n m] that by blast
  have value_eq: "parse_value n s = parse_value m s" if "2 * Suc k + 1 \<le> n" "2 * Suc k + 1 \<le> m" for n m
  proof -
    obtain n' m' where n: "n = Suc n'" "m = Suc m'" using \<open>2 * Suc k + 1 \<le> n\<close> \<open>2 * Suc k + 1 \<le> m\<close> by (cases n; cases m) auto
    show ?thesis
    proof (cases "skip_ws s")
      case (Cons c q)
      have "length q \<le> k" using skip_ws_shorter [of s] Suc.prems by (simp add: Cons)
      then have "parse_items n' q = parse_items m' q" "parse_members n' q = parse_members m' q"
        using that by (auto simp: n intro!: IHi IHm)
      then show ?thesis by (simp add: n Cons)
    qed (simp add: n)
  qed
  have items_eq: "parse_items n s = parse_items m s" if "2 * Suc k + 2 \<le> n" "2 * Suc k + 2 \<le> m" for n m
  proof -
    obtain n' m' where n: "n = Suc n'" "m = Suc m'" using \<open>2 * Suc k + 2 \<le> n\<close> \<open>2 * Suc k + 2 \<le> m\<close> by (cases n; cases m) auto
    have v: "parse_value n' s = parse_value m' s" by (rule value_eq) (use that in \<open>simp_all add: n\<close>)
    show ?thesis
    proof (cases "parse_value m' s")
      case (Some jr)
      obtain j r where jr: "jr = (j, r)" by (cases jr)
      have len: "length r \<le> Suc k" using Some jr parse_shorter [of m'] Suc.prems by (meson le_trans)
      have "parse_items n' (tl (skip_ws r)) = parse_items m' (tl (skip_ws r))" if c: "has_prefix '','' (skip_ws r)"
        by (rule IHi) (use after_char [OF c] len \<open>2 * Suc k + 2 \<le> n\<close> \<open>2 * Suc k + 2 \<le> m\<close> in \<open>simp_all add: n\<close>)
      then show ?thesis by (simp add: n v Some jr)
    qed (simp add: n v)
  qed
  have members_eq: "parse_members n s = parse_members m s" if "2 * Suc k + 1 \<le> n" "2 * Suc k + 1 \<le> m" for n m
  proof -
    obtain n' m' where n: "n = Suc n'" "m = Suc m'" using \<open>2 * Suc k + 1 \<le> n\<close> \<open>2 * Suc k + 1 \<le> m\<close> by (cases n; cases m) auto
    show ?thesis
    proof (cases "has_prefix [CHR 0x22] (skip_ws s)")
      case quote: True
      show ?thesis
      proof (cases "parse_str (tl (skip_ws s))")
        case (Some kr)
        obtain key r where kr: "kr = (key, r)" by (cases kr)
        have len: "length r \<le> k" using parse_str_shorter [of "tl (skip_ws s)" key r] Some kr after_char [OF quote] Suc.prems by simp
        show ?thesis
        proof (cases "has_prefix '':'' (skip_ws r)")
          case colon: True
          have v: "parse_value n' (tl (skip_ws r)) = parse_value m' (tl (skip_ws r))"
            by (rule IHv) (use after_char [OF colon] len that in \<open>simp_all add: n\<close>)
          show ?thesis
          proof (cases "parse_value m' (tl (skip_ws r))")
            case (Some jr)
            obtain j r2 where jr: "jr = (j, r2)" by (cases jr)
            have "length r2 \<le> length (tl (skip_ws r))" using Some jr parse_shorter [of m'] by blast
            then have len2: "length r2 \<le> k" using after_char [OF colon] len by linarith
            have "parse_members n' (tl (skip_ws r2)) = parse_members m' (tl (skip_ws r2))" if c: "has_prefix '','' (skip_ws r2)"
              by (rule IHm) (use after_char [OF c] len2 \<open>2 * Suc k + 1 \<le> n\<close> \<open>2 * Suc k + 1 \<le> m\<close> in \<open>simp_all add: n\<close>)
            then show ?thesis using quote colon \<open>parse_str (tl (skip_ws s)) = Some kr\<close> by (simp add: n v Some jr kr)
          qed (use quote colon \<open>parse_str (tl (skip_ws s)) = Some kr\<close> in \<open>simp add: n v kr\<close>)
        qed (use quote Some kr in \<open>simp add: n\<close>)
      qed (use quote in \<open>simp add: n\<close>)
    qed (simp add: n)
  qed
  show ?case using value_eq items_eq members_eq by blast
qed

text \<open>
  The parser of request bodies, tokens and audit entries terminates on every text: no
  amount of additional fuel changes what it reads, so a text is refused only because it is not JSON.
\<close>

theorem json_parse_terminates:
  "json_parse s =
     (case parse_value (2 * length s + 1 + extra) s of
        Some (j, r) \<Rightarrow> if skip_ws r = [] then Some j else None
      | None \<Rightarrow> None)"
proof -
  have "parse_value (2 * length s + 1) s = parse_value (2 * length s + 1 + extra) s"
    using fuel_irrelevant [OF order_refl, of s "2 * length s + 1" "2 * length s + 1 + extra"] by simp
  then show ?thesis by (simp only: json_parse_def)
qed

end
