(* ===== verification/Stamps.thy ===== *)
theory Stamps
  imports GoTime
begin

text \<open>
  The JSON form of a \<open>time.Time\<close> (\<open>MarshalJSON\<close>, \<open>UnmarshalJSON\<close>): RFC 3339 with the nanoseconds that
  are not zero. A time read back keeps the offset it was written with, in minutes.
\<close>

definition print_stamp :: "int \<Rightarrow> time \<Rightarrow> string" where
  "print_stamp tz t =
     (let s = format_rfc3339 tz t; n = length s - (if tz = 0 then 1 else 6)
      in take n s @ fraction_text (t mod 1000000000) 9 @ drop n s)"

text \<open>What \<open>parseStrictRFC3339\<close> refuses beyond \<open>time.Parse\<close>.\<close>

definition strict_stamp :: "string \<Rightarrow> bool" where
  "strict_stamp s \<longleftrightarrow>
     s ! 12 \<noteq> CHR '':'' \<and> s ! 19 \<noteq> CHR '','' \<and>
     (last s = CHR ''Z'' \<or>
      (let z = drop (length s - 5) s in
       case (getnum True (take 2 z), getnum True (drop 3 z)) of
         (Some (hh, _), Some (mm, _)) \<Rightarrow> hh < 24 \<and> mm < 60
       | _ \<Rightarrow> False))"

definition stamp_zone :: "string \<Rightarrow> int" where
  "stamp_zone s =
     (if last s = CHR ''Z'' then 0
      else (case get_zone (drop (length s - 6) s) of None \<Rightarrow> 0 | Some (off, _) \<Rightarrow> off div 60))"

definition parse_stamp :: "string \<Rightarrow> (int \<times> time) option" where
  "parse_stamp s =
     (case parse_rfc3339 s of
        None \<Rightarrow> None
      | Some t \<Rightarrow> if strict_stamp s then Some (stamp_zone s, t) else None)"

section \<open>Reading a printed time in UTC\<close>

lemma foldl_digits:
  "list_all (\<lambda>d. 0 \<le> d \<and> d < 10) ds \<Longrightarrow>
   parse_digits acc (map digit ds) = Some (foldl (\<lambda>n d. 10 * n + d) acc ds)"
  by (induction ds arbitrary: acc) simp_all

lemma digits_value:
  "foldl (\<lambda>n d. 10 * n + d) 0 (map (\<lambda>i. v div 10 ^ i mod 10) (rev [0..<k])) = v mod 10 ^ k" for v :: int
proof -
  have "foldl (\<lambda>n d. 10 * n + d) a (map (\<lambda>i. v div 10 ^ i mod 10) (rev [0..<k])) = a * 10 ^ k + v mod 10 ^ k" for a
  proof (induction k arbitrary: a)
    case (Suc k)
    have "v mod 10 ^ Suc k = 10 ^ k * (v div 10 ^ k mod 10) + v mod 10 ^ k"
      using mod_mult2_eq' [of v "10 ^ k" 10] by (simp add: mult.commute)
    then have m: "(10 * a + v div 10 ^ k mod 10) * 10 ^ k + v mod 10 ^ k = a * 10 ^ Suc k + v mod 10 ^ Suc k"
      by (simp add: algebra_simps)
    have "foldl (\<lambda>n d. 10 * n + d) a (map (\<lambda>i. v div 10 ^ i mod 10) (rev [0..<Suc k])) =
        foldl (\<lambda>n d. 10 * n + d) (10 * a + v div 10 ^ k mod 10) (map (\<lambda>i. v div 10 ^ i mod 10) (rev [0..<k]))"
      by simp
    also have "\<dots> = (10 * a + v div 10 ^ k mod 10) * 10 ^ k + v mod 10 ^ k" by (rule Suc.IH)
    finally show ?case by (simp only: m)
  qed simp
  then show ?thesis by simp
qed

lemma parse_trailing_zeros:
  "parse_digits acc (s @ replicate k (CHR ''0'')) = map_option (\<lambda>n. n * 10 ^ k) (parse_digits acc s)"
proof -
  have "parse_digits a (replicate k (CHR ''0'')) = Some (a * 10 ^ k)" for a
  proof (induction k arbitrary: a)
    case (Suc k)
    have "digit_val (CHR ''0'') = Some 0" by code_simp
    then show ?case using Suc by simp
  qed simp
  then show ?thesis by (simp add: parse_digits_append split: option.split)
qed

lemma zeros_stripped:
  "\<exists>k. s = rev (dropWhile (\<lambda>c. c = CHR ''0'') (rev s)) @ replicate k (CHR ''0'')"
proof -
  have "rev s = takeWhile (\<lambda>c. c = CHR ''0'') (rev s) @ dropWhile (\<lambda>c. c = CHR ''0'') (rev s)" by simp
  then have "s = rev (dropWhile (\<lambda>c. c = CHR ''0'') (rev s)) @ rev (takeWhile (\<lambda>c. c = CHR ''0'') (rev s))"
    by (metis rev_append rev_rev_ident)
  moreover have "takeWhile (\<lambda>c. c = CHR ''0'') (rev s) = replicate (length (takeWhile (\<lambda>c. c = CHR ''0'') (rev s))) (CHR ''0'')"
    by (metis (full_types) replicate_eqI set_takeWhileD)
  ultimately show ?thesis by (metis rev_replicate)
qed

lemma digit_val_Z: "digit_val (CHR ''Z'') = None"
  by code_simp

lemma fraction_read:
  assumes "0 \<le> v" "v < 1000000000"
  shows "get_fraction (fraction_text v 9 @ ''Z'') = (v, ''Z'')"
proof -
  define all where "all = map (\<lambda>i. digit (v div 10 ^ i mod 10)) (rev [0..<9])"
  define ds where "ds = rev (dropWhile (\<lambda>c. c = CHR ''0'') (rev all))"
  obtain k where k: "all = ds @ replicate k (CHR ''0'')" using zeros_stripped [of all] unfolding ds_def by blast
  have all: "all = map digit (map (\<lambda>i. v div 10 ^ i mod 10) (rev [0..<9]))" by (simp add: all_def)
  have nine: "length all = 9" by (simp add: all_def)
  have "parse_digits 0 all = Some (v mod 10 ^ 9)"
    unfolding all by (subst foldl_digits) (simp_all only: digits_value list_all_length, simp add: list_all_iff)
  then have val: "parse_digits 0 ds = Some n \<Longrightarrow> n * 10 ^ k = v" for n
    using assms by (simp add: k parse_trailing_zeros)
  obtain n where n: "parse_digits 0 ds = Some n"
    using \<open>parse_digits 0 all = Some (v mod 10 ^ 9)\<close> by (auto simp: k parse_trailing_zeros)
  have len: "k = 9 - length ds" using nine by (simp add: k)
  have dig: "digit_val c \<noteq> None" if "c \<in> set ds" for c
  proof -
    have "c \<in> set all" using that by (simp add: k)
    then show ?thesis unfolding all_def by auto
  qed
  have ft: "fraction_text v 9 = (if ds = [] then [] else CHR ''.'' # ds)"
    by (simp add: fraction_text_def Let_def ds_def all_def)
  show ?thesis
  proof (cases "ds = []")
    case True
    then have "fraction_text v 9 = []" "v = 0" using val [OF n] n ft by auto
    then show ?thesis by (simp add: get_fraction_def)
  next
    case False
    then obtain c cs where c: "ds = c # cs" by (cases ds) auto
    have tw: "takeWhile (\<lambda>x. digit_val x \<noteq> None) (ds @ ''Z'') = ds"
      using dig by (subst takeWhile_append2) (auto simp: digit_val_Z)
    have nine': "take 9 ds = ds" using nine by (simp add: k)
    have ft2: "fraction_text v 9 @ ''Z'' = CHR ''.'' # c # (cs @ ''Z'')" by (simp add: ft c)
    have tw': "takeWhile (\<lambda>x. digit_val x \<noteq> None) (c # (cs @ ''Z'')) = ds" using tw by (simp only: c append_Cons)
    have "drop (length ds) (c # (cs @ ''Z'')) = ''Z''" by (simp add: c)
    moreover have "digit_val c \<noteq> None" using dig [of c] by (simp add: c)
    ultimately show ?thesis
      unfolding ft2 get_fraction_def list.case list.sel Let_def tw' nine' n option.sel
      using val [OF n] len by simp
  qed
qed

lemma parse_utc_fields:
  assumes "0 \<le> y" "y < 10000" "1 \<le> m" "m \<le> 12" "1 \<le> d" "d \<le> days_in m y"
    and "0 \<le> h" "h < 24" "0 \<le> mi" "mi < 60" "0 \<le> sec" "sec < 60" "0 \<le> v" "v < 1000000000"
  shows "parse_rfc3339 (pad_year y @ CHR ''-'' # pad2 m @ CHR ''-'' # pad2 d @ CHR ''T'' #
      pad2 h @ CHR '':'' # pad2 mi @ CHR '':'' # pad2 sec @ fraction_text v 9 @ ''Z'') =
    Some ((days_of_civil y m d * 86400 + h * 3600 + mi * 60 + sec) * 1000000000 + v)"
proof -
  have "d < 100" using assms(6) by (auto simp: days_in_def split: if_splits)
  moreover have "get_zone ''Z'' = Some (0, [])" by (simp add: get_zone_def)
  ultimately show ?thesis using assms fraction_read [OF assms(13,14)] by (simp add: parse_rfc3339_def Let_def)
qed

lemma utc_fields:
  assumes "formattable 0 t"
  obtains y m d h mi sec where
    "format_rfc3339 0 t = pad_year y @ CHR ''-'' # pad2 m @ CHR ''-'' # pad2 d @ CHR ''T'' #
      pad2 h @ CHR '':'' # pad2 mi @ CHR '':'' # pad2 sec @ ''Z''"
    "0 \<le> y" "y < 10000" "1 \<le> m" "m \<le> 12" "1 \<le> d" "d \<le> days_in m y"
    "0 \<le> h" "h < 24" "0 \<le> mi" "mi < 60" "0 \<le> sec" "sec < 60"
    "days_of_civil y m d * 86400 + h * 3600 + mi * 60 + sec = t div 1000000000"
proof -
  define l where "l = t div 1000000000"
  obtain y m d where c: "civil_of_days (l div 86400) = (y, m, d)" by (cases "civil_of_days (l div 86400)")
  define s where "s = l mod 86400"
  have s: "0 \<le> s" "s < 86400" by (simp_all add: s_def)
  note v = civil_of_days_valid [OF c]
  have y: "0 \<le> y" "y < 10000" using assms c by (auto simp: formattable_def l_def Let_def)
  have f: "format_rfc3339 0 t = pad_year y @ CHR ''-'' # pad2 m @ CHR ''-'' # pad2 d @ CHR ''T'' #
      pad2 (s div 3600) @ CHR '':'' # pad2 (s mod 3600 div 60) @ CHR '':'' # pad2 (s mod 60) @ ''Z''"
    using c by (simp add: format_rfc3339_def Let_def l_def s_def)
  have "s mod 3600 mod 60 = s mod 60" by (simp add: mod_mod_cancel)
  then have e: "s div 3600 * 3600 + s mod 3600 div 60 * 60 + s mod 60 = s"
    using div_mult_mod_eq [of s 3600] div_mult_mod_eq [of "s mod 3600" 60] by linarith
  have "days_of_civil y m d * 86400 + s div 3600 * 3600 + s mod 3600 div 60 * 60 + s mod 60 = t div 1000000000"
  proof -
    have a: "days_of_civil y m d = l div 86400" using v by blast
    have b: "l div 86400 * 86400 + s = l" unfolding s_def by (rule div_mult_mod_eq)
    show ?thesis unfolding a l_def [symmetric] using b e by linarith
  qed
  note sum = this
  have h: "0 \<le> s div 3600" "s div 3600 < 24" "0 \<le> s mod 3600 div 60" "s mod 3600 div 60 < 60" "0 \<le> s mod 60" "s mod 60 < 60"
    using s by auto
  have d: "1 \<le> m" "m \<le> 12" "1 \<le> d" "d \<le> days_in m y" using v by blast+
  show ?thesis by (rule that [OF f y d h sum])
qed

lemma length_pad_year: "0 \<le> y \<Longrightarrow> y < 10000 \<Longrightarrow> length (pad_year y) = 4"
proof -
  assume "0 \<le> y" "y < 10000"
  moreover from this have "length (digits_of (nat y)) \<le> 4" by (intro length_digits_of) auto
  ultimately show ?thesis by (simp add: pad_year_def Let_def)
qed

lemma nth_after: "length p = k \<Longrightarrow> (p @ x # s) ! k = x"
  by (auto simp: nth_append)

lemma digit_no_punct: "0 \<le> n \<Longrightarrow> n < 10 \<Longrightarrow> digit n \<noteq> CHR '':'' \<and> digit n \<noteq> CHR '',''"
  using digit_val_digit [of n] by (auto simp: digit_val_def Let_def)

theorem parse_print_stamp:
  assumes f: "formattable 0 t"
  shows "parse_stamp (print_stamp 0 t) = Some (0, t)"
proof -
  obtain y m d h mi sec where u: "format_rfc3339 0 t = pad_year y @ CHR ''-'' # pad2 m @ CHR ''-'' # pad2 d @ CHR ''T'' #
      pad2 h @ CHR '':'' # pad2 mi @ CHR '':'' # pad2 sec @ ''Z''"
    "0 \<le> y" "y < 10000" "1 \<le> m" "m \<le> 12" "1 \<le> d" "d \<le> days_in m y"
    "0 \<le> h" "h < 24" "0 \<le> mi" "mi < 60" "0 \<le> sec" "sec < 60"
    "days_of_civil y m d * 86400 + h * 3600 + mi * 60 + sec = t div 1000000000"
    by (rule utc_fields [OF f])
  define v where "v = t mod 1000000000"
  have v: "0 \<le> v" "v < 1000000000" by (simp_all add: v_def)
  define p where "p = pad_year y @ CHR ''-'' # pad2 m @ CHR ''-'' # pad2 d @ CHR ''T'' #
      pad2 h @ CHR '':'' # pad2 mi @ CHR '':'' # pad2 sec"
  have z: "format_rfc3339 0 t = p @ ''Z''" using u(1) by (simp add: p_def)
  have "print_stamp 0 t = p @ fraction_text v 9 @ ''Z''"
    unfolding print_stamp_def Let_def z v_def [symmetric] by simp
  note s = this [unfolded p_def]
  have parse: "parse_rfc3339 (print_stamp 0 t) = Some t"
    unfolding s append.assoc append_Cons using parse_utc_fields [OF u(2-13) v] u(14) by (simp add: v_def)
  have len: "length (pad_year y) = 4" by (rule length_pad_year [OF u(2,3)])
  have "print_stamp 0 t ! 12 \<noteq> CHR '':''"
    using digit_no_punct [of "h mod 10"] unfolding s by (simp add: pad2_def nth_append len)
  moreover have "print_stamp 0 t ! 19 \<noteq> CHR '',''"
  proof -
    have "length p = 19" by (simp add: p_def len pad2_def)
    then have "print_stamp 0 t ! 19 = (fraction_text v 9 @ ''Z'') ! 0"
      using s [folded p_def] by (simp add: nth_append)
    then show ?thesis by (simp add: fraction_text_def Let_def)
  qed
  moreover have "last (print_stamp 0 t) = CHR ''Z''" unfolding s by simp
  ultimately show ?thesis using parse by (simp add: parse_stamp_def strict_stamp_def stamp_zone_def)
qed

end
