(* ===== verification/AuditLog.thy ===== *)
theory AuditLog
  imports Stamps Json
begin

text \<open>
  Component \<open>internal/audit/audit.go\<close>: the audit log, a file of JSON lines in which every entry
  carries the SHA-256 digest of itself and of the entry before it. \<open>sha256\<close> stands for
  \<open>sha256.Sum256\<close>. The file is its bytes; writing cannot fail here, and the copy on standard output is
  left out. A stamp is the time with the offset of its zone in minutes.
\<close>

section \<open>Events\<close>

record audit_event =
  ev_zone :: int
  ev_timestamp :: time
  ev_severity :: string
  ev_event_type :: string
  ev_agent :: string
  ev_target :: string
  ev_role :: string
  ev_serial :: string
  ev_duration :: string
  ev_reason :: string
  ev_policy_version :: string
  ev_details :: "(string, string) gomap"
  ev_task_id :: string
  ev_task_root_id :: string
  ev_initiated_by :: string
  ev_prev_hash :: string
  ev_hash :: string

definition no_event :: audit_event where
  "no_event =
     \<lparr>ev_zone = 0, ev_timestamp = 0, ev_severity = [], ev_event_type = [], ev_agent = [], ev_target = [], ev_role = [],
      ev_serial = [], ev_duration = [], ev_reason = [], ev_policy_version = [], ev_details = [], ev_task_id = [],
      ev_task_root_id = [], ev_initiated_by = [], ev_prev_hash = [], ev_hash = []\<rparr>"

text \<open>A field with \<open>omitempty\<close>.\<close>

definition omit_empty :: "string \<Rightarrow> string \<Rightarrow> (string \<times> json) list" where
  "omit_empty k v = (if v = [] then [] else [(k, JStr v)])"

definition details_json :: "(string, string) gomap \<Rightarrow> (string \<times> json) list" where
  "details_json d =
     (if d = [] then [] else [(''details'', JObj (map (\<lambda>(k, v). (k, JStr v)) (sort_key fst d)))])"

definition event_json :: "audit_event \<Rightarrow> json" where
  "event_json e =
     JObj ([(''timestamp'', JStr (print_stamp (ev_zone e) (ev_timestamp e))),
            (''severity'', JStr (ev_severity e)), (''event_type'', JStr (ev_event_type e))] @
           omit_empty ''agent'' (ev_agent e) @ omit_empty ''target'' (ev_target e) @ omit_empty ''role'' (ev_role e) @
           omit_empty ''serial'' (ev_serial e) @ omit_empty ''duration'' (ev_duration e) @
           omit_empty ''reason'' (ev_reason e) @ omit_empty ''policy_version'' (ev_policy_version e) @
           details_json (ev_details e) @ omit_empty ''task_id'' (ev_task_id e) @
           omit_empty ''task_root_id'' (ev_task_root_id e) @ omit_empty ''initiated_by'' (ev_initiated_by e) @
           omit_empty ''prev_hash'' (ev_prev_hash e) @ omit_empty ''hash'' (ev_hash e))"

text \<open>A time whose year or zone has no place in RFC 3339 is an error.\<close>

definition marshal_event :: "audit_event \<Rightarrow> bytes option" where
  "marshal_event e =
     (if formattable (ev_zone e) (ev_timestamp e) then Some (json_text (event_json e)) else None)"

fun read_details :: "(string \<times> json) list \<Rightarrow> (string, string) gomap \<Rightarrow> (string, string) gomap option" where
  "read_details [] d = Some d"
| "read_details ((k, j) # fs) d =
     (case read_string j [] of None \<Rightarrow> None | Some v \<Rightarrow> read_details fs (put k v d))"

definition event_field :: "string \<Rightarrow> json \<Rightarrow> audit_event \<Rightarrow> audit_event option" where
  "event_field k j e =
     (if equal_fold k ''timestamp'' then
        (case j of
           JStr s \<Rightarrow> map_option (\<lambda>(tz, t). e\<lparr>ev_zone := tz, ev_timestamp := t\<rparr>) (parse_stamp s)
         | JNull \<Rightarrow> Some e
         | _ \<Rightarrow> None)
      else if equal_fold k ''severity'' then map_option (\<lambda>s. e\<lparr>ev_severity := s\<rparr>) (read_string j (ev_severity e))
      else if equal_fold k ''event_type'' then map_option (\<lambda>s. e\<lparr>ev_event_type := s\<rparr>) (read_string j (ev_event_type e))
      else if equal_fold k ''agent'' then map_option (\<lambda>s. e\<lparr>ev_agent := s\<rparr>) (read_string j (ev_agent e))
      else if equal_fold k ''target'' then map_option (\<lambda>s. e\<lparr>ev_target := s\<rparr>) (read_string j (ev_target e))
      else if equal_fold k ''role'' then map_option (\<lambda>s. e\<lparr>ev_role := s\<rparr>) (read_string j (ev_role e))
      else if equal_fold k ''serial'' then map_option (\<lambda>s. e\<lparr>ev_serial := s\<rparr>) (read_string j (ev_serial e))
      else if equal_fold k ''duration'' then map_option (\<lambda>s. e\<lparr>ev_duration := s\<rparr>) (read_string j (ev_duration e))
      else if equal_fold k ''reason'' then map_option (\<lambda>s. e\<lparr>ev_reason := s\<rparr>) (read_string j (ev_reason e))
      else if equal_fold k ''policy_version'' then
        map_option (\<lambda>s. e\<lparr>ev_policy_version := s\<rparr>) (read_string j (ev_policy_version e))
      else if equal_fold k ''details'' then
        (case j of
           JObj fs \<Rightarrow> map_option (\<lambda>d. e\<lparr>ev_details := d\<rparr>) (read_details fs (ev_details e))
         | JNull \<Rightarrow> Some (e\<lparr>ev_details := []\<rparr>)
         | _ \<Rightarrow> None)
      else if equal_fold k ''task_id'' then map_option (\<lambda>s. e\<lparr>ev_task_id := s\<rparr>) (read_string j (ev_task_id e))
      else if equal_fold k ''task_root_id'' then
        map_option (\<lambda>s. e\<lparr>ev_task_root_id := s\<rparr>) (read_string j (ev_task_root_id e))
      else if equal_fold k ''initiated_by'' then
        map_option (\<lambda>s. e\<lparr>ev_initiated_by := s\<rparr>) (read_string j (ev_initiated_by e))
      else if equal_fold k ''prev_hash'' then map_option (\<lambda>s. e\<lparr>ev_prev_hash := s\<rparr>) (read_string j (ev_prev_hash e))
      else if equal_fold k ''hash'' then map_option (\<lambda>s. e\<lparr>ev_hash := s\<rparr>) (read_string j (ev_hash e))
      else Some e)"

definition unmarshal_event :: "bytes \<Rightarrow> audit_event option" where
  "unmarshal_event s = (case json_parse s of None \<Rightarrow> None | Some j \<Rightarrow> read_struct event_field j no_event)"

section \<open>The logger\<close>

record audit_logger =
  al_file :: bytes
  al_prev_hash :: string

definition newline :: char where
  "newline = CHR 0x0A"

text \<open>The digest an entry should carry: of itself without the digest.\<close>

definition event_digest :: "(bytes \<Rightarrow> bytes) \<Rightarrow> audit_event \<Rightarrow> string option" where
  "event_digest sha256 e = map_option (\<lambda>pre. hex_encode (sha256 pre)) (marshal_event (e\<lparr>ev_hash := []\<rparr>))"

definition log_event :: "(bytes \<Rightarrow> bytes) \<Rightarrow> time \<Rightarrow> audit_event \<Rightarrow> audit_logger \<Rightarrow> audit_logger" where
  "log_event sha256 now event l =
     (let e = (if ev_timestamp event = 0 then event\<lparr>ev_zone := 0, ev_timestamp := now\<rparr> else event);
          e = e\<lparr>ev_prev_hash := al_prev_hash l\<rparr>
      in case event_digest sha256 e of
           None \<Rightarrow> l
         | Some h \<Rightarrow>
             (case marshal_event (e\<lparr>ev_hash := h\<rparr>) of
                None \<Rightarrow> l
              | Some data \<Rightarrow> \<lparr>al_file = al_file l @ data @ [newline], al_prev_hash = h\<rparr>))"

definition trim_newlines :: "bytes \<Rightarrow> bytes" where
  "trim_newlines s = rev (dropWhile (\<lambda>c. c = newline) (rev s))"

text \<open>Only the last 4096 bytes of the file are read for its last entry.\<close>

definition init_chain :: "bytes \<Rightarrow> string" where
  "init_chain file =
     (let tail = drop (length file - 4096) file;
          line = last (split_on newline (trim_newlines tail))
      in case unmarshal_event line of None \<Rightarrow> [] | Some e \<Rightarrow> ev_hash e)"

definition new_logger :: "bytes \<Rightarrow> audit_logger" where
  "new_logger file = \<lparr>al_file = file, al_prev_hash = init_chain file\<rparr>"

section \<open>Verification\<close>

datatype chain_error =
    InvalidJson nat
  | ChainBroken nat string string
  | MarshalFailed nat
  | HashMismatch nat string string
  | LineTooLong

text \<open>The scanner: lines without their end, a last line need not have one; a carriage return goes.\<close>

definition drop_cr :: "bytes \<Rightarrow> bytes" where
  "drop_cr line = (if line \<noteq> [] \<and> last line = CHR 0x0D then butlast line else line)"

definition scan_lines :: "bytes \<Rightarrow> bytes list" where
  "scan_lines file =
     (let lines = split_on newline file
      in if last lines = [] then butlast lines else lines)"

fun verify_lines ::
    "(bytes \<Rightarrow> bytes) \<Rightarrow> string \<Rightarrow> nat \<Rightarrow> bytes list \<Rightarrow> nat \<times> chain_error option" where
  "verify_lines sha256 prev count [] = (count, None)"
| "verify_lines sha256 prev count (line # lines) =
     (if int (length line) \<ge> 1048576 then (count, Some LineTooLong)
      else if trim_space (drop_cr line) = [] then verify_lines sha256 prev count lines
      else (case unmarshal_event (drop_cr line) of
              None \<Rightarrow> (count, Some (InvalidJson (count + 1)))
            | Some e \<Rightarrow>
                if ev_hash e = [] then verify_lines sha256 prev (count + 1) lines
                else if ev_prev_hash e \<noteq> prev then (count, Some (ChainBroken (count + 1) prev (ev_prev_hash e)))
                else (case event_digest sha256 e of
                        None \<Rightarrow> (count, Some (MarshalFailed (count + 1)))
                      | Some computed \<Rightarrow>
                          if computed \<noteq> ev_hash e then (count, Some (HashMismatch (count + 1) (ev_hash e) computed))
                          else verify_lines sha256 (ev_hash e) (count + 1) lines)))"

definition verify_chain :: "(bytes \<Rightarrow> bytes) \<Rightarrow> bytes \<Rightarrow> nat \<times> chain_error option" where
  "verify_chain sha256 file = verify_lines sha256 [] 0 (scan_lines file)"

fun dir_of_rev :: "string \<Rightarrow> string" where
  "dir_of_rev [] = ''.''"
| "dir_of_rev (c # s) = (if c = CHR ''/'' then (if s = [] then ''/'' else rev s) else dir_of_rev s)"

definition dir_of :: "string \<Rightarrow> string" where
  "dir_of path = dir_of_rev (rev path)"

end
