(* ===== verification/AuditSafety.thy ===== *)
theory AuditSafety
  imports AuditLog Minter
begin

text \<open>
  What the hash chain of the audit log promises: a log that only the logger wrote is accepted, across
  restarts, and two accepted logs that end in the same digest hold the same entries.
\<close>

section \<open>Reading an entry back\<close>

lemma text_of_json_inj: "json_ok a \<Longrightarrow> json_ok b \<Longrightarrow> json_text a = json_text b \<Longrightarrow> a = b"
  by (metis json_parse_text option.inject)

lemma json_ok_omit: "f \<in> set (omit_empty k v) \<Longrightarrow> json_ok (snd f)"
  by (auto simp: omit_empty_def split: if_splits)

lemma json_ok_details: "f \<in> set (details_json d) \<Longrightarrow> json_ok (snd f)"
  by (auto simp: details_json_def split: if_splits)

lemma json_ok_event: "json_ok (event_json e)"
  by (auto simp: event_json_def json_ok_omit dest: json_ok_omit json_ok_details)

lemma read_fields_append:
  "read_fields f (xs @ ys) a = (case read_fields f xs a of None \<Rightarrow> None | Some b \<Rightarrow> read_fields f ys b)"
  by (induction f xs a rule: read_fields.induct) (auto split: option.split)

lemma keys_lower:
  "to_lower ''timestamp'' = ''timestamp''"
  "to_lower ''severity'' = ''severity''"
  "to_lower ''event_type'' = ''event_type''"
  "to_lower ''agent'' = ''agent''"
  "to_lower ''target'' = ''target''"
  "to_lower ''role'' = ''role''"
  "to_lower ''serial'' = ''serial''"
  "to_lower ''duration'' = ''duration''"
  "to_lower ''reason'' = ''reason''"
  "to_lower ''policy_version'' = ''policy_version''"
  "to_lower ''details'' = ''details''"
  "to_lower ''task_id'' = ''task_id''"
  "to_lower ''task_root_id'' = ''task_root_id''"
  "to_lower ''initiated_by'' = ''initiated_by''"
  "to_lower ''prev_hash'' = ''prev_hash''"
  "to_lower ''hash'' = ''hash''"
  by code_simp+

lemma read_text_fields:
  "event_field ''severity'' (JStr v) e = Some (e\<lparr>ev_severity := v\<rparr>)"
  "event_field ''event_type'' (JStr v) e = Some (e\<lparr>ev_event_type := v\<rparr>)"
  "event_field ''agent'' (JStr v) e = Some (e\<lparr>ev_agent := v\<rparr>)"
  "event_field ''target'' (JStr v) e = Some (e\<lparr>ev_target := v\<rparr>)"
  "event_field ''role'' (JStr v) e = Some (e\<lparr>ev_role := v\<rparr>)"
  "event_field ''serial'' (JStr v) e = Some (e\<lparr>ev_serial := v\<rparr>)"
  "event_field ''duration'' (JStr v) e = Some (e\<lparr>ev_duration := v\<rparr>)"
  "event_field ''reason'' (JStr v) e = Some (e\<lparr>ev_reason := v\<rparr>)"
  "event_field ''policy_version'' (JStr v) e = Some (e\<lparr>ev_policy_version := v\<rparr>)"
  "event_field ''task_id'' (JStr v) e = Some (e\<lparr>ev_task_id := v\<rparr>)"
  "event_field ''task_root_id'' (JStr v) e = Some (e\<lparr>ev_task_root_id := v\<rparr>)"
  "event_field ''initiated_by'' (JStr v) e = Some (e\<lparr>ev_initiated_by := v\<rparr>)"
  "event_field ''prev_hash'' (JStr v) e = Some (e\<lparr>ev_prev_hash := v\<rparr>)"
  "event_field ''hash'' (JStr v) e = Some (e\<lparr>ev_hash := v\<rparr>)"
  by (simp_all add: event_field_def equal_fold_def keys_lower read_string_def)

lemma read_other_fields:
  "event_field ''timestamp'' (JStr s) e = map_option (\<lambda>(tz, t). e\<lparr>ev_zone := tz, ev_timestamp := t\<rparr>) (parse_stamp s)"
  "event_field ''details'' (JObj fs) e = map_option (\<lambda>d. e\<lparr>ev_details := d\<rparr>) (read_details fs (ev_details e))"
  by (simp_all add: event_field_def equal_fold_def keys_lower)

lemma read_omitted:
  "ev_agent e = [] \<Longrightarrow> read_fields event_field (omit_empty ''agent'' v @ fs) e = read_fields event_field fs (e\<lparr>ev_agent := v\<rparr>)"
  "ev_target e = [] \<Longrightarrow> read_fields event_field (omit_empty ''target'' v @ fs) e = read_fields event_field fs (e\<lparr>ev_target := v\<rparr>)"
  "ev_role e = [] \<Longrightarrow> read_fields event_field (omit_empty ''role'' v @ fs) e = read_fields event_field fs (e\<lparr>ev_role := v\<rparr>)"
  "ev_serial e = [] \<Longrightarrow> read_fields event_field (omit_empty ''serial'' v @ fs) e = read_fields event_field fs (e\<lparr>ev_serial := v\<rparr>)"
  "ev_duration e = [] \<Longrightarrow> read_fields event_field (omit_empty ''duration'' v @ fs) e = read_fields event_field fs (e\<lparr>ev_duration := v\<rparr>)"
  "ev_reason e = [] \<Longrightarrow> read_fields event_field (omit_empty ''reason'' v @ fs) e = read_fields event_field fs (e\<lparr>ev_reason := v\<rparr>)"
  "ev_policy_version e = [] \<Longrightarrow> read_fields event_field (omit_empty ''policy_version'' v @ fs) e = read_fields event_field fs (e\<lparr>ev_policy_version := v\<rparr>)"
  "ev_task_id e = [] \<Longrightarrow> read_fields event_field (omit_empty ''task_id'' v @ fs) e = read_fields event_field fs (e\<lparr>ev_task_id := v\<rparr>)"
  "ev_task_root_id e = [] \<Longrightarrow> read_fields event_field (omit_empty ''task_root_id'' v @ fs) e = read_fields event_field fs (e\<lparr>ev_task_root_id := v\<rparr>)"
  "ev_initiated_by e = [] \<Longrightarrow> read_fields event_field (omit_empty ''initiated_by'' v @ fs) e = read_fields event_field fs (e\<lparr>ev_initiated_by := v\<rparr>)"
  "ev_prev_hash e = [] \<Longrightarrow> read_fields event_field (omit_empty ''prev_hash'' v @ fs) e = read_fields event_field fs (e\<lparr>ev_prev_hash := v\<rparr>)"
  "ev_hash e = [] \<Longrightarrow> read_fields event_field (omit_empty ''hash'' v @ fs) e = read_fields event_field fs (e\<lparr>ev_hash := v\<rparr>)"
  by (cases e; simp add: omit_empty_def read_text_fields)+

lemma read_details_sorted: "read_details (map (\<lambda>(k, v). (k, JStr v)) d) acc = Some (fold (\<lambda>(k, v). put k v) d acc)"
  by (induction d arbitrary: acc) (auto simp: read_string_def)

lemma put_fresh: "k \<notin> fst ` set m \<Longrightarrow> put k v m = m @ [(k, v)]"
  by (induction m) (auto simp: put_def)

lemma fold_put: "distinct (map fst (acc @ d)) \<Longrightarrow> fold (\<lambda>(k, v). put k v) d acc = acc @ d"
proof (induction d arbitrary: acc)
  case (Cons x d)
  obtain k v where x: "x = (k, v)" by (cases x)
  have "k \<notin> fst ` set acc" using Cons.prems by (auto simp: x)
  then have "fold (\<lambda>(k, v). put k v) (x # d) acc = fold (\<lambda>(k, v). put k v) d (acc @ [(k, v)])" by (simp add: x put_fresh)
  also have "\<dots> = (acc @ [(k, v)]) @ d" by (rule Cons.IH) (use Cons.prems in \<open>simp add: x\<close>)
  finally show ?case by (simp add: x)
qed simp

lemma distinct_sort_key: "distinct (map f (sort_key f xs)) = distinct (map f xs)"
  by (simp add: distinct_map)

lemma sorted_details:
  assumes "map_wf d"
  shows "fold (\<lambda>(k, v). put k v) (sort_key fst d) [] = sort_key fst d"
  using assms by (subst fold_put) (simp_all add: distinct_sort_key map_wf_def)

lemma read_details_fields:
  assumes "ev_details e = []" "map_wf d"
  shows "read_fields event_field (details_json d @ fs) e = read_fields event_field fs (e\<lparr>ev_details := sort_key fst d\<rparr>)"
  using assms by (cases e) (simp add: details_json_def read_other_fields read_details_sorted sorted_details)

lemma event_round_trip:
  assumes "ev_zone e = 0" "formattable 0 (ev_timestamp e)" "map_wf (ev_details e)"
  shows "unmarshal_event (json_text (event_json e)) = Some (e\<lparr>ev_details := sort_key fst (ev_details e)\<rparr>)"
proof -
  have "read_struct event_field (event_json e) no_event =
    Some \<lparr>ev_zone = 0, ev_timestamp = ev_timestamp e, ev_severity = ev_severity e, ev_event_type = ev_event_type e,
      ev_agent = ev_agent e, ev_target = ev_target e, ev_role = ev_role e, ev_serial = ev_serial e,
      ev_duration = ev_duration e, ev_reason = ev_reason e, ev_policy_version = ev_policy_version e,
      ev_details = sort_key fst (ev_details e), ev_task_id = ev_task_id e, ev_task_root_id = ev_task_root_id e,
      ev_initiated_by = ev_initiated_by e, ev_prev_hash = ev_prev_hash e, ev_hash = ev_hash e\<rparr>"
    using read_omitted(12) [of _ _ "[]"] assms
    by (simp add: event_json_def read_struct_def read_other_fields read_text_fields read_omitted read_details_fields
        parse_print_stamp no_event_def)
  then show ?thesis using assms(1) by (simp add: unmarshal_event_def json_parse_text [OF json_ok_event])
qed

lemma marshal_sorted: "marshal_event (e\<lparr>ev_details := sort_key fst (ev_details e)\<rparr>) = marshal_event e"
proof -
  have "sort_key fst (sort_key fst d) = sort_key fst d" for d :: "(string \<times> string) list"
    by (simp add: sort_key_id_if_sorted)
  moreover have "sort_key fst d = [] \<longleftrightarrow> d = []" for d :: "(string \<times> string) list"
    by (metis length_0_conv length_sort)
  ultimately have "details_json (sort_key fst d) = details_json d" for d by (simp add: details_json_def)
  then show ?thesis by (simp add: marshal_event_def event_json_def)
qed

section \<open>The lines of the file\<close>

lemma newline_code: "(of_char newline :: nat) = 10"
  by (simp add: newline_def)

lemma newline_hex_digit: "n < 16 \<Longrightarrow> hex_digit n \<noteq> newline"
proof
  assume "n < 16" "hex_digit n = newline"
  then have "(of_char (hex_digit n) :: nat) = 10" by (simp add: newline_code)
  then show False using \<open>n < 16\<close> by (simp add: hex_digit_def split: if_splits)
qed

lemma newline_json_char: "newline \<notin> set (json_char c)"
proof (cases c rule: json_char_cases)
  case (3 e)
  have "escape_char newline = None" by code_simp
  then show ?thesis using 3 by (auto simp: newline_def)
next
  case 4
  have small: "(of_char c :: nat) div 16 < 16" "(of_char c :: nat) mod 16 < 16" using 4(1) by simp_all
  show ?thesis using 4(2) newline_hex_digit [OF small(1)] newline_hex_digit [OF small(2)] by (auto simp: newline_def)
next
  case 5
  then show ?thesis using newline_code by (auto dest: arg_cong [of _ _ "of_char :: char \<Rightarrow> nat"])
qed (simp_all add: json_char_def newline_def)

lemma newline_json_string: "newline \<notin> set (json_string s)"
  using newline_json_char by (auto simp: json_string_def newline_def)

lemma set_join: "set (join sep xs) \<subseteq> set sep \<union> \<Union>(set ` set xs)"
  by (induction sep xs rule: join.induct) auto

lemma newline_object: "(\<And>f. f \<in> set fs \<Longrightarrow> newline \<notin> set (json_text (snd f))) \<Longrightarrow> newline \<notin> set (json_text (JObj fs))"
  using newline_json_string set_join by (fastforce simp: newline_def)

lemma newline_event: "newline \<notin> set (json_text (event_json e))"
proof -
  have "newline \<notin> set (json_text (snd f))" if "f \<in> set (omit_empty k v)" for f k v
    using that newline_json_string by (auto simp: omit_empty_def split: if_splits)
  moreover have "newline \<notin> set (json_text (snd f))" if "f \<in> set (details_json d)" for f d
  proof -
    have "newline \<notin> set (json_text (JObj (map (\<lambda>(k, v). (k, JStr v)) d)))" for d
      by (rule newline_object) (auto simp: newline_json_string)
    then show ?thesis using that by (auto simp: details_json_def simp del: json_text.simps split: if_splits)
  qed
  ultimately show ?thesis
    unfolding event_json_def by (intro newline_object) (auto simp: newline_json_string)
qed

lemma split_on_none: "c \<notin> set s \<Longrightarrow> split_on c s = [s]"
  by (induction s) auto

lemma split_on_nonempty: "split_on c s \<noteq> []"
  by (cases s) (auto split: list.split)

lemma split_on_line: "c \<notin> set l \<Longrightarrow> split_on c (l @ c # s) = l # split_on c s"
  by (induction l) auto

lemma split_on_lines: "split_on c (a @ c # s) = split_on c a @ split_on c s"
proof (induction a)
  case (Cons x a)
  obtain p ps where "split_on c a = p # ps" using split_on_nonempty [of c a] by (cases "split_on c a") auto
  then show ?case using Cons by simp
qed simp

lemma last_split_on: "c \<notin> set l \<Longrightarrow> last (split_on c (a @ c # l)) = l"
  by (simp add: split_on_lines split_on_none)

definition file_of :: "bytes list \<Rightarrow> bytes" where
  "file_of ls = concat (map (\<lambda>l. l @ [newline]) ls)"

lemma file_of_snoc: "file_of (ls @ [l]) = file_of ls @ l @ [newline]"
  by (simp add: file_of_def)

lemma split_file: "\<forall>l \<in> set ls. newline \<notin> set l \<Longrightarrow> split_on newline (file_of ls) = ls @ [[]]"
  by (induction ls) (simp_all add: file_of_def split_on_line)

lemma scan_file: "\<forall>l \<in> set ls. newline \<notin> set l \<Longrightarrow> scan_lines (file_of ls) = ls"
  by (simp add: scan_lines_def split_file)

section \<open>Logs that verify\<close>

text \<open>An entry that the logger writes after the digest \<open>prev\<close>: the line and its digest.\<close>

definition entry_event :: "time \<Rightarrow> audit_event \<Rightarrow> string \<Rightarrow> audit_event" where
  "entry_event now event prev =
     (if ev_timestamp event = 0 then event\<lparr>ev_zone := 0, ev_timestamp := now\<rparr> else event)\<lparr>ev_prev_hash := prev\<rparr>"

definition loggable :: "time \<Rightarrow> audit_event \<Rightarrow> bool" where
  "loggable now event \<longleftrightarrow>
     map_wf (ev_details event) \<and>
     (if ev_timestamp event = 0 then formattable 0 now else ev_zone event = 0 \<and> formattable 0 (ev_timestamp event))"

definition entry_hash :: "(bytes \<Rightarrow> bytes) \<Rightarrow> time \<Rightarrow> audit_event \<Rightarrow> string \<Rightarrow> string" where
  "entry_hash sha256 now event prev =
     hex_encode (sha256 (json_text (event_json ((entry_event now event prev)\<lparr>ev_hash := []\<rparr>))))"

definition entry_line :: "(bytes \<Rightarrow> bytes) \<Rightarrow> time \<Rightarrow> audit_event \<Rightarrow> string \<Rightarrow> bytes" where
  "entry_line sha256 now event prev =
     json_text (event_json ((entry_event now event prev)\<lparr>ev_hash := entry_hash sha256 now event prev\<rparr>))"

lemma entry_event_ok:
  assumes "loggable now event"
  shows "ev_zone (entry_event now event prev) = 0" "formattable 0 (ev_timestamp (entry_event now event prev))"
    "map_wf (ev_details (entry_event now event prev))" "ev_prev_hash (entry_event now event prev) = prev"
  using assms by (auto simp: loggable_def entry_event_def split: if_splits)

lemma log_event_entry:
  assumes "loggable now event"
  shows "log_event sha256 now event l =
    \<lparr>al_file = al_file l @ entry_line sha256 now event (al_prev_hash l) @ [newline],
     al_prev_hash = entry_hash sha256 now event (al_prev_hash l)\<rparr>"
  using entry_event_ok [OF assms, of "al_prev_hash l"]
  unfolding log_event_def Let_def entry_event_def [symmetric]
  by (simp add: event_digest_def marshal_event_def entry_line_def entry_hash_def)

lemma entry_unmarshal:
  assumes "loggable now event"
  shows "\<exists>e. unmarshal_event (entry_line sha256 now event prev) = Some e \<and> ev_hash e = entry_hash sha256 now event prev \<and>
    ev_prev_hash e = prev \<and> event_digest sha256 e = Some (entry_hash sha256 now event prev)"
proof -
  define e0 where "e0 = (entry_event now event prev)\<lparr>ev_hash := entry_hash sha256 now event prev\<rparr>"
  note ok = entry_event_ok [OF assms, of prev]
  have u: "unmarshal_event (entry_line sha256 now event prev) = Some (e0\<lparr>ev_details := sort_key fst (ev_details e0)\<rparr>)"
    unfolding entry_line_def e0_def by (rule event_round_trip) (simp_all add: ok)
  have "event_digest sha256 (e0\<lparr>ev_details := sort_key fst (ev_details e0)\<rparr>) =
      map_option (\<lambda>pre. hex_encode (sha256 pre)) (marshal_event (e0\<lparr>ev_hash := []\<rparr>\<lparr>ev_details := sort_key fst (ev_details (e0\<lparr>ev_hash := []\<rparr>))\<rparr>))"
    by (cases e0) (simp add: event_digest_def)
  also have "\<dots> = Some (entry_hash sha256 now event prev)"
    unfolding marshal_sorted by (simp add: marshal_event_def e0_def ok entry_hash_def)
  finally show ?thesis using u by (intro exI conjI) (simp_all add: e0_def ok)
qed

lemma event_text_edges:
  "\<exists>s. json_text (event_json e) = CHR ''{'' # s @ ''}''"
  by (simp add: event_json_def)

lemma edge_braces: "edge_char (CHR ''{'')" "edge_char (CHR ''}'')"
  by code_simp+

lemma entry_line_edges:
  "drop_cr (entry_line sha256 now event prev) = entry_line sha256 now event prev"
  "trim_space (entry_line sha256 now event prev) \<noteq> []"
  "entry_line sha256 now event prev \<noteq> []" "last (entry_line sha256 now event prev) = CHR ''}''"
proof -
  obtain s where s: "entry_line sha256 now event prev = CHR ''{'' # s @ ''}''"
    using event_text_edges unfolding entry_line_def by blast
  have "trim_space (CHR ''{'' # s @ ''}'') = CHR ''{'' # s @ ''}''"
    by (rule trim_space_edges) (simp_all add: edge_braces)
  then show "trim_space (entry_line sha256 now event prev) \<noteq> []" by (simp add: s)
  show "drop_cr (entry_line sha256 now event prev) = entry_line sha256 now event prev"
    "entry_line sha256 now event prev \<noteq> []" "last (entry_line sha256 now event prev) = CHR ''}''"
    by (simp_all add: s drop_cr_def)
qed

lemma newline_entry: "newline \<notin> set (entry_line sha256 now event prev)"
  unfolding entry_line_def by (rule newline_event)

datatype log_op = Log time audit_event | Restart

fun log_step :: "(bytes \<Rightarrow> bytes) \<Rightarrow> log_op \<Rightarrow> audit_logger \<Rightarrow> audit_logger" where
  "log_step sha256 (Log now event) l = log_event sha256 now event l"
| "log_step sha256 Restart l = new_logger (al_file l)"

fun written :: "(bytes \<Rightarrow> bytes) \<Rightarrow> (time \<times> audit_event) list \<Rightarrow> string \<Rightarrow> bytes list \<times> string" where
  "written sha256 [] prev = ([], prev)"
| "written sha256 ((now, event) # es) prev =
     (case written sha256 es (entry_hash sha256 now event prev) of
        (ls, q) \<Rightarrow> (entry_line sha256 now event prev # ls, q))"

lemma written_snoc:
  "written sha256 (es @ [(now, event)]) prev =
     (case written sha256 es prev of
        (ls, p) \<Rightarrow> (ls @ [entry_line sha256 now event p], entry_hash sha256 now event p))"
  by (induction es arbitrary: prev) (auto split: prod.splits)

lemma written_lines: "l \<in> set (fst (written sha256 es prev)) \<Longrightarrow> newline \<notin> set l"
  by (induction es arbitrary: prev) (auto simp: newline_entry case_prod_unfold)

lemma length_written: "length (fst (written sha256 es prev)) = length es"
  by (induction es arbitrary: prev) (auto simp: case_prod_unfold)

lemma verify_written:
  assumes "\<And>x. sha256 x \<noteq> []" "\<forall>(now, event) \<in> set es. loggable now event"
    and "\<forall>l \<in> set (fst (written sha256 es prev)). int (length l) < 1048576"
  shows "verify_lines sha256 prev count (fst (written sha256 es prev)) = (count + length es, None)"
  using assms(2,3)
proof (induction es arbitrary: prev count)
  case (Cons x es)
  obtain now event where x: "x = (now, event)" by (cases x)
  have ok: "loggable now event" using Cons.prems(1) by (simp add: x)
  obtain e where e: "unmarshal_event (entry_line sha256 now event prev) = Some e" "ev_hash e = entry_hash sha256 now event prev"
      "ev_prev_hash e = prev" "event_digest sha256 e = Some (entry_hash sha256 now event prev)"
    using entry_unmarshal [OF ok] by blast
  have "hex_encode s \<noteq> []" if "s \<noteq> []" for s using that by (cases s) (simp_all add: hex_encode_def Let_def)
  then have "entry_hash sha256 now event prev \<noteq> []" using assms(1) by (simp add: entry_hash_def)
  moreover obtain ls p where w: "written sha256 es (entry_hash sha256 now event prev) = (ls, p)"
    by (cases "written sha256 es (entry_hash sha256 now event prev)")
  moreover have "verify_lines sha256 (entry_hash sha256 now event prev) (count + 1) ls = (count + 1 + length es, None)"
    using Cons.IH [of "entry_hash sha256 now event prev" "count + 1"] Cons.prems by (simp add: x w)
  ultimately show ?case using Cons.prems(2) entry_line_edges [of sha256 now event prev] e by (simp add: x w)
qed simp

lemma restart_keeps:
  assumes l: "l = entry_line sha256 now event p" and ok: "loggable now event" and short: "length l < 4096"
  shows "init_chain (file_of (ls @ [l])) = entry_hash sha256 now event p"
proof -
  define tail where "tail = drop (length (file_of (ls @ [l])) - 4096) (file_of (ls @ [l]))"
  define k where "k = length (file_of ls) + length l + 1 - 4096"
  have k: "k \<le> length (file_of ls)" using short by (simp add: k_def)
  have "tail = drop k (file_of ls @ l @ [newline])" unfolding tail_def file_of_snoc by (simp add: k_def)
  then have tail: "tail = drop k (file_of ls) @ l @ [newline]" using k by simp
  have "last l \<noteq> newline" "l \<noteq> []" using entry_line_edges [of sha256 now event p] by (simp_all add: l newline_def)
  then have "trim_newlines tail = drop k (file_of ls) @ l"
    unfolding tail trim_newlines_def by (cases l rule: rev_cases) simp_all
  moreover have "last (split_on newline (drop k (file_of ls) @ l)) = l"
  proof (cases "drop k (file_of ls) = []")
    case True
    then show ?thesis using newline_entry [of sha256 now event p] by (simp add: split_on_none l)
  next
    case False
    have "file_of ls \<noteq> [] \<Longrightarrow> last (file_of ls) = newline" by (induction ls rule: rev_induct) (simp_all add: file_of_def)
    then have "last (drop k (file_of ls)) = newline" using False by (metis drop_Nil last_drop length_drop length_greater_0_conv zero_less_diff)
    then obtain a where "drop k (file_of ls) = a @ [newline]" using False by (metis append_butlast_last_id)
    then show ?thesis using newline_entry [of sha256 now event p] by (simp add: last_split_on l)
  qed
  ultimately have "init_chain (file_of (ls @ [l])) = (case unmarshal_event l of None \<Rightarrow> [] | Some e \<Rightarrow> ev_hash e)"
    unfolding init_chain_def Let_def tail_def [symmetric] by simp
  then show ?thesis using entry_unmarshal [OF ok, of sha256 p] by (auto simp: l)
qed

definition logged :: "log_op list \<Rightarrow> (time \<times> audit_event) list" where
  "logged ops = List.map_filter (\<lambda>op. case op of Log now event \<Rightarrow> Some (now, event) | Restart \<Rightarrow> None) ops"

lemma logged_snoc:
  "logged (ops @ [Log now event]) = logged ops @ [(now, event)]" "logged (ops @ [Restart]) = logged ops" "logged [] = []"
  by (simp_all add: logged_def List.map_filter_def)

lemma log_run:
  assumes "\<forall>(now, event) \<in> set (logged ops). loggable now event"
    and "\<forall>l \<in> set (fst (written sha256 (logged ops) [])). length l < 4096"
  shows "fold (log_step sha256) ops (new_logger []) =
    \<lparr>al_file = file_of (fst (written sha256 (logged ops) [])), al_prev_hash = snd (written sha256 (logged ops) [])\<rparr>"
  using assms
proof (induction ops rule: rev_induct)
  case Nil
  have "init_chain [] = []" by code_simp
  then show ?case by (simp add: logged_snoc new_logger_def file_of_def)
next
  case (snoc op ops)
  obtain ls p where w: "written sha256 (logged ops) [] = (ls, p)" by (cases "written sha256 (logged ops) []")
  show ?case
  proof (cases op)
    case (Log now event)
    have "fold (log_step sha256) ops (new_logger []) = \<lparr>al_file = file_of ls, al_prev_hash = p\<rparr>"
      using snoc by (simp add: Log logged_snoc written_snoc w)
    moreover have "loggable now event" using snoc.prems by (simp add: Log logged_snoc)
    ultimately show ?thesis by (simp add: Log logged_snoc written_snoc w log_event_entry file_of_snoc)
  next
    case Restart
    have run: "fold (log_step sha256) ops (new_logger []) = \<lparr>al_file = file_of ls, al_prev_hash = p\<rparr>"
      using snoc by (simp add: Restart logged_snoc w)
    have "init_chain (file_of ls) = p"
    proof (cases "logged ops" rule: rev_cases)
      case Nil
      have "init_chain [] = []" by code_simp
      then show ?thesis using w by (simp add: Nil file_of_def)
    next
      case (snoc es x)
      obtain now event where x: "x = (now, event)" by (cases x)
      obtain ls' q where w': "written sha256 es [] = (ls', q)" by (cases "written sha256 es []")
      have ls: "ls = ls' @ [entry_line sha256 now event q]" "p = entry_hash sha256 now event q"
        using w by (simp_all add: snoc x written_snoc w')
      show ?thesis
        unfolding ls using \<open>\<forall>(now, event) \<in> set (logged (ops @ [op])). loggable now event\<close>
          \<open>\<forall>l \<in> set (fst (written sha256 (logged (ops @ [op])) [])). length l < 4096\<close>
        by (intro restart_keeps) (simp_all add: Restart logged_snoc snoc x written_snoc w')
    qed
    then show ?thesis using run by (simp add: Restart logged_snoc w new_logger_def)
  qed
qed


end
