(* ===== verification/AuditTamper.thy ===== *)
theory AuditTamper
  imports AuditSafety
begin

text \<open>
  Tampering with the audit log: the last digest of an accepted log without unhashed entries fixes all
  of its entries. Entries without a digest are outside the chain.
\<close>

section \<open>Accepted entries\<close>

definition entries :: "bytes \<Rightarrow> audit_event list" where
  "entries file =
     List.map_filter unmarshal_event (filter (\<lambda>l. trim_space l \<noteq> []) (map drop_cr (scan_lines file)))"

fun chained :: "(bytes \<Rightarrow> bytes) \<Rightarrow> string \<Rightarrow> audit_event list \<Rightarrow> bool" where
  "chained sha256 prev [] = True"
| "chained sha256 prev (e # es) \<longleftrightarrow>
     ev_hash e \<noteq> [] \<and> ev_prev_hash e = prev \<and> event_digest sha256 e = Some (ev_hash e) \<and> chained sha256 (ev_hash e) es"

lemma chained_snoc:
  "chained sha256 prev (es @ [e]) \<longleftrightarrow>
     chained sha256 prev es \<and> ev_hash e \<noteq> [] \<and> ev_prev_hash e = (if es = [] then prev else ev_hash (last es)) \<and>
     event_digest sha256 e = Some (ev_hash e)"
  by (induction es arbitrary: prev) auto

lemma verified_chained:
  assumes "verify_lines sha256 prev count ls = (n, None)"
    and "filter (\<lambda>e. ev_hash e = []) (List.map_filter unmarshal_event (filter (\<lambda>l. trim_space l \<noteq> []) (map drop_cr ls))) = []"
  shows "chained sha256 prev (List.map_filter unmarshal_event (filter (\<lambda>l. trim_space l \<noteq> []) (map drop_cr ls)))"
  using assms
proof (induction sha256 prev count ls rule: verify_lines.induct)
  case (2 sha256 prev count line lines)
  show ?case
  proof (cases "trim_space (drop_cr line) = []")
    case True
    then show ?thesis using 2 by (simp split: if_splits)
  next
    case False
    obtain e where e: "unmarshal_event (drop_cr line) = Some e" using 2(4) False by (auto split: if_splits option.splits)
    then have h: "ev_hash e \<noteq> []" using 2(5) False by (auto simp: List.map_filter_simps split: if_splits)
    then have "ev_prev_hash e = prev" "event_digest sha256 e = Some (ev_hash e)"
        "verify_lines sha256 (ev_hash e) (count + 1) lines = (n, None)" "\<not> int (length line) \<ge> 1048576"
      using 2(4) False e by (auto split: if_splits option.splits)
    moreover from this have "chained sha256 (ev_hash e) (List.map_filter unmarshal_event (filter (\<lambda>l. trim_space l \<noteq> []) (map drop_cr lines)))"
      using 2(3) [OF _ False e h _ _ _] 2(5) False e h by (auto simp: List.map_filter_simps split: if_splits)
    ultimately show ?thesis using False e h by (simp add: List.map_filter_simps)
  qed
qed (simp add: List.map_filter_simps)

section \<open>What a digest fixes\<close>

lemma hex_digit_inj: "a < 16 \<Longrightarrow> b < 16 \<Longrightarrow> hex_digit a = hex_digit b \<Longrightarrow> a = b"
  by (metis hex_val_digit option.inject)

lemma hex_encode_inj: "hex_encode a = hex_encode b \<Longrightarrow> a = b"
proof (induction a arbitrary: b)
  case Nil
  then show ?case by (cases b) (simp_all add: hex_encode_def Let_def)
next
  case (Cons x a)
  obtain y b' where b: "b = y # b'" using Cons.prems by (cases b) (simp_all add: hex_encode_def Let_def)
  have lt: "(of_char c :: nat) div 16 < 16" "(of_char c :: nat) mod 16 < 16" for c :: char
    using nat_of_char_less_256 [of c] by (simp_all add: less_mult_imp_div_less)
  have "hex_digit (of_char x div 16) = hex_digit (of_char y div 16)" "hex_digit (of_char x mod 16) = hex_digit (of_char y mod 16)"
      "hex_encode a = hex_encode b'"
    using Cons.prems by (simp_all add: b hex_encode_def Let_def)
  then have "(of_char x :: nat) div 16 = of_char y div 16" "(of_char x :: nat) mod 16 = of_char y mod 16" "a = b'"
    using hex_digit_inj [OF lt(1) lt(1)] hex_digit_inj [OF lt(2) lt(2)] Cons.IH by blast+
  then show ?case using b by (metis div_mult_mod_eq of_char_eq_iff)
qed

definition event_fields :: "audit_event \<Rightarrow> (string \<times> json) list" where
  "event_fields e = (case event_json e of JObj fs \<Rightarrow> fs | _ \<Rightarrow> [])"

lemma get_omit: "map_of (omit_empty k v) x = (if x = k \<and> v \<noteq> [] then Some (JStr v) else None)"
  by (simp add: omit_empty_def)

lemma get_details: "x \<noteq> ''details'' \<Longrightarrow> map_of (details_json d) x = None"
  by (simp add: details_json_def)

lemma get_prev_hash:
  "map_of (event_fields e) ''prev_hash'' = (if ev_prev_hash e = [] then None else Some (JStr (ev_prev_hash e)))"
  by (simp add: event_fields_def event_json_def get_omit get_details map_add_def)

lemma json_hash: "event_json e = JObj (event_fields (e\<lparr>ev_hash := []\<rparr>) @ omit_empty ''hash'' (ev_hash e))"
  by (simp add: event_fields_def event_json_def omit_empty_def [of _ "[]"])

lemma same_digest:
  assumes e: "event_digest sha256 e = Some (ev_hash e)" and f: "event_digest sha256 f = Some (ev_hash f)"
    and same: "ev_hash e = ev_hash f" and no: "\<And>a b. sha256 a = sha256 b \<Longrightarrow> a = b"
  shows "marshal_event e = marshal_event f \<and> ev_prev_hash e = ev_prev_hash f"
proof -
  have me: "formattable (ev_zone e) (ev_timestamp e)" "ev_hash e = hex_encode (sha256 (json_text (event_json (e\<lparr>ev_hash := []\<rparr>))))"
    using e by (auto simp: event_digest_def marshal_event_def split: if_splits)
  have mf: "formattable (ev_zone f) (ev_timestamp f)" "ev_hash f = hex_encode (sha256 (json_text (event_json (f\<lparr>ev_hash := []\<rparr>))))"
    using f by (auto simp: event_digest_def marshal_event_def split: if_splits)
  have "json_text (event_json (e\<lparr>ev_hash := []\<rparr>)) = json_text (event_json (f\<lparr>ev_hash := []\<rparr>))"
    using same me(2) mf(2) hex_encode_inj no by metis
  then have j: "event_json (e\<lparr>ev_hash := []\<rparr>) = event_json (f\<lparr>ev_hash := []\<rparr>)"
    by (rule text_of_json_inj [OF json_ok_event json_ok_event])
  then have fs: "event_fields (e\<lparr>ev_hash := []\<rparr>) = event_fields (f\<lparr>ev_hash := []\<rparr>)" by (simp add: event_fields_def)
  have "event_json e = event_json f" unfolding json_hash [of e] json_hash [of f] fs same by (rule refl)
  moreover have "ev_prev_hash e = ev_prev_hash f"
    using get_prev_hash [of "e\<lparr>ev_hash := []\<rparr>"] get_prev_hash [of "f\<lparr>ev_hash := []\<rparr>"] fs by (auto split: if_splits)
  ultimately show ?thesis using me mf by (simp add: marshal_event_def)
qed

lemma chained_agree:
  assumes no: "\<And>a b. sha256 a = sha256 b \<Longrightarrow> a = b"
  shows "chained sha256 [] es \<Longrightarrow> chained sha256 [] fs \<Longrightarrow> (es = []) = (fs = []) \<Longrightarrow>
    (es \<noteq> [] \<Longrightarrow> ev_hash (last es) = ev_hash (last fs)) \<Longrightarrow> map marshal_event es = map marshal_event fs"
proof (induction es arbitrary: fs rule: rev_induct)
  case (snoc e es)
  obtain fs' f where fs: "fs = fs' @ [f]" using snoc.prems(3) by (cases fs rule: rev_cases) auto
  have ce: "chained sha256 [] es" "ev_prev_hash e = (if es = [] then [] else ev_hash (last es))"
      "event_digest sha256 e = Some (ev_hash e)" "es \<noteq> [] \<Longrightarrow> ev_hash (last es) \<noteq> []"
    using snoc.prems(1) by (auto simp: chained_snoc) (metis append_butlast_last_id chained_snoc)
  have cf: "chained sha256 [] fs'" "ev_prev_hash f = (if fs' = [] then [] else ev_hash (last fs'))"
      "event_digest sha256 f = Some (ev_hash f)" "fs' \<noteq> [] \<Longrightarrow> ev_hash (last fs') \<noteq> []"
    using snoc.prems(2) by (auto simp: chained_snoc fs) (metis append_butlast_last_id chained_snoc)
  have "ev_hash e = ev_hash f" using snoc.prems(4) by (simp add: fs)
  then have same: "marshal_event e = marshal_event f" "ev_prev_hash e = ev_prev_hash f"
    using same_digest [OF ce(3) cf(3) _ no] by blast+
  have iff: "(es = []) = (fs' = [])" using same(2) ce(2,4) cf(2,4) by (auto split: if_splits)
  have "map marshal_event es = map marshal_event fs'"
    by (rule snoc.IH [OF ce(1) cf(1) iff]) (use same(2) ce(2) cf(2) iff in \<open>auto split: if_splits\<close>)
  then show ?case by (simp add: fs same(1))
qed simp


section \<open>Entries without a digest\<close>

lemma verify_count: "verify_lines sha256 prev count ls = (n, None) \<Longrightarrow> verify_lines sha256 prev (count + 1) ls = (n + 1, None)"
  by (induction sha256 prev count ls rule: verify_lines.induct) (auto split: if_splits option.splits)

lemma verify_insert:
  assumes l: "int (length l) < 1048576" "trim_space l \<noteq> []" "drop_cr l = l" "unmarshal_event l = Some e" "ev_hash e = []"
  shows "verify_lines sha256 prev count (xs @ ys) = (n, None) \<Longrightarrow>
    verify_lines sha256 prev count (xs @ l # ys) = (n + 1, None)"
proof (induction sha256 prev count xs rule: verify_lines.induct)
  case (1 sha256 prev count)
  then show ?case using l verify_count by simp
qed (auto split: if_splits option.splits)

lemma event_line_edges:
  "drop_cr (json_text (event_json e)) = json_text (event_json e)" "trim_space (json_text (event_json e)) \<noteq> []"
proof -
  obtain s where s: "json_text (event_json e) = CHR ''{'' # s @ ''}''" using event_text_edges by blast
  have "trim_space (CHR ''{'' # s @ ''}'') = CHR ''{'' # s @ ''}''" by (rule trim_space_edges) (simp_all add: edge_braces)
  then show "drop_cr (json_text (event_json e)) = json_text (event_json e)" "trim_space (json_text (event_json e)) \<noteq> []"
    by (simp_all add: s drop_cr_def)
qed


section \<open>Examples\<close>

definition sample_sha :: "bytes \<Rightarrow> bytes" where
  "sample_sha x = take 2 (rev x) @ ''x''"

definition sample_event :: audit_event where
  "sample_event = no_event\<lparr>ev_severity := ''INFO'', ev_event_type := ''startup'', ev_details := [(''k'', ''v'')]\<rparr>"

definition sample_ops :: "log_op list" where
  "sample_ops = [Log 1500000000 sample_event, Restart, Log 2000000000 sample_event]"

lemma sample_loggable: "loggable 1500000000 sample_event" "loggable 2000000000 sample_event"
  by code_simp+

lemma sample_short: "list_all (\<lambda>l. length l < 4096) (fst (written sample_sha (logged sample_ops) []))"
  by code_simp


definition sample_line :: bytes where
  "sample_line = entry_line sample_sha 1500000000 sample_event []"

lemma sample_line_length: "length sample_line < 4096"
  using sample_short by (simp add: sample_line_def sample_ops_def logged_def List.map_filter_simps split: prod.splits)

lemma sample_scan:
  "scan_lines (file_of [sample_line]) = [sample_line]" "scan_lines (newline # file_of [sample_line]) = [[], sample_line]"
proof -
  have n: "newline \<notin> set sample_line" unfolding sample_line_def by (rule newline_entry)
  then show "scan_lines (file_of [sample_line]) = [sample_line]" by (intro scan_file) simp
  have "newline # file_of [sample_line] = file_of [[], sample_line]" by (simp add: file_of_def)
  then show "scan_lines (newline # file_of [sample_line]) = [[], sample_line]" using n scan_file [of "[[], sample_line]"] by simp
qed

lemma sample_accepted:
  "verify_chain sample_sha (file_of [sample_line]) = (1, None)" "verify_chain sample_sha (newline # file_of [sample_line]) = (1, None)"
proof -
  have "sample_sha x \<noteq> []" for x by (simp add: sample_sha_def)
  then have v: "verify_lines sample_sha [] 0 (fst (written sample_sha [(1500000000, sample_event)] [])) = (0 + length [(1500000000 :: time, sample_event)], None)"
    by (rule verify_written) (use sample_loggable(1) sample_line_length in \<open>simp_all add: sample_line_def\<close>)
  then show "verify_chain sample_sha (file_of [sample_line]) = (1, None)"
    by (simp add: verify_chain_def sample_scan sample_line_def [symmetric] del: verify_lines.simps(2))
  have "trim_space (drop_cr []) = []" by code_simp
  then have "verify_lines sample_sha [] 0 [[], sample_line] = verify_lines sample_sha [] 0 [sample_line]"
    by (subst verify_lines.simps(2)) (simp del: verify_lines.simps(2))
  then show "verify_chain sample_sha (newline # file_of [sample_line]) = (1, None)"
    using v by (simp add: verify_chain_def sample_scan sample_line_def [symmetric] del: verify_lines.simps(2))
qed

lemma sample_entries:
  "\<exists>e. entries (file_of [sample_line]) = [e] \<and> entries (newline # file_of [sample_line]) = [e] \<and> ev_hash e \<noteq> []"
proof -
  obtain e where e: "unmarshal_event sample_line = Some e" "ev_hash e = entry_hash sample_sha 1500000000 sample_event []"
    using entry_unmarshal [OF sample_loggable(1), of sample_sha "[]"] unfolding sample_line_def by blast
  have "hex_encode (sample_sha x) \<noteq> []" for x by (auto simp: sample_sha_def hex_encode_def Let_def)
  then have "ev_hash e \<noteq> []" using e(2) by (simp add: entry_hash_def)
  moreover have "trim_space (drop_cr []) = []" by code_simp
  ultimately show ?thesis
    using e(1) entry_line_edges [of sample_sha 1500000000 sample_event "[]", folded sample_line_def]
    by (simp add: entries_def sample_scan List.map_filter_simps)
qed



end
