(* ===== verification/Anomalies.thy ===== *)
theory Anomalies
  imports Prelude
begin

text \<open>
  Component \<open>internal/audit/anomaly.go\<close>: the detector of suspicious request patterns, per agent over
  the last minute. It forgets what is older than a minute; the property compares it with the patterns
  of the whole log. An anomaly carries the values that its description prints.
\<close>

record request =
  rq_timestamp :: time
  rq_target :: string
  rq_role :: string
  rq_denied :: bool

datatype anomaly =
    RapidRequests string nat
  | TargetScan string nat
  | RoleEscalation string string string string

datatype severity = Warn | Alert

definition anomaly_severity :: "anomaly \<Rightarrow> severity" where
  "anomaly_severity a = (case a of RapidRequests _ _ \<Rightarrow> Warn | TargetScan _ _ \<Rightarrow> Alert | RoleEscalation _ _ _ _ \<Rightarrow> Alert)"

record anomaly_detector =
  ad_history :: "(string, request list) gomap"
  ad_denials :: "(string, request list) gomap"

definition new_anomaly_detector :: anomaly_detector where
  "new_anomaly_detector = \<lparr>ad_history = [], ad_denials = []\<rparr>"

definition recorded :: "(string, request list) gomap \<Rightarrow> string \<Rightarrow> request list" where
  "recorded m agent = (case get m agent of None \<Rightarrow> [] | Some rs \<Rightarrow> rs)"

definition after_cutoff :: "time \<Rightarrow> request list \<Rightarrow> request list" where
  "after_cutoff cutoff rs = filter (\<lambda>r. rq_timestamp r > cutoff) rs"

definition prune_map :: "string \<Rightarrow> time \<Rightarrow> (string, request list) gomap \<Rightarrow> (string, request list) gomap" where
  "prune_map agent cutoff m = (case get m agent of None \<Rightarrow> m | Some rs \<Rightarrow> put agent (after_cutoff cutoff rs) m)"

definition prune_agent :: "string \<Rightarrow> time \<Rightarrow> anomaly_detector \<Rightarrow> anomaly_detector" where
  "prune_agent agent now ad =
     ad\<lparr>ad_history := prune_map agent (now - 60 * second) (ad_history ad),
        ad_denials := prune_map agent (now - 60 * second) (ad_denials ad)\<rparr>"

definition check_rapid_requests :: "string \<Rightarrow> time \<Rightarrow> anomaly_detector \<Rightarrow> anomaly list" where
  "check_rapid_requests agent now ad =
     (let count = length (after_cutoff (now - 30 * second) (recorded (ad_history ad) agent))
      in if count > 5 then [RapidRequests agent count] else [])"

definition check_target_scan :: "string \<Rightarrow> time \<Rightarrow> anomaly_detector \<Rightarrow> anomaly list" where
  "check_target_scan agent now ad =
     (let targets = remdups (map rq_target (after_cutoff (now - 60 * second) (recorded (ad_history ad) agent)))
      in if length targets > 3 then [TargetScan agent (length targets)] else [])"

definition check_role_escalation :: "string \<Rightarrow> string \<Rightarrow> string \<Rightarrow> time \<Rightarrow> anomaly_detector \<Rightarrow> anomaly list" where
  "check_role_escalation agent target role now ad =
     (case find (\<lambda>d. rq_timestamp d > now - 30 * second \<and> rq_target d = target) (recorded (ad_denials ad) agent) of
        None \<Rightarrow> []
      | Some d \<Rightarrow> [RoleEscalation agent role target (rq_role d)])"

definition check_request :: "time \<Rightarrow> string \<Rightarrow> string \<Rightarrow> string \<Rightarrow> anomaly_detector \<Rightarrow> anomaly list \<times> anomaly_detector" where
  "check_request now agent target role ad =
     (let ad = prune_agent agent now ad;
          r = \<lparr>rq_timestamp = now, rq_target = target, rq_role = role, rq_denied = False\<rparr>;
          ad = ad\<lparr>ad_history := put agent (recorded (ad_history ad) agent @ [r]) (ad_history ad)\<rparr>
      in (check_rapid_requests agent now ad @ check_target_scan agent now ad @
          check_role_escalation agent target role now ad, ad))"

definition record_denial :: "time \<Rightarrow> string \<Rightarrow> string \<Rightarrow> string \<Rightarrow> anomaly_detector \<Rightarrow> anomaly_detector" where
  "record_denial now agent target role ad =
     ad\<lparr>ad_denials := put agent (recorded (ad_denials ad) agent @
          [\<lparr>rq_timestamp = now, rq_target = target, rq_role = role, rq_denied = True\<rparr>]) (ad_denials ad)\<rparr>"

section \<open>The whole log\<close>

datatype watch_op = Request time string string string | Denial time string string string

fun op_time :: "watch_op \<Rightarrow> time" where
  "op_time (Request t _ _ _) = t"
| "op_time (Denial t _ _ _) = t"

fun watch :: "watch_op \<Rightarrow> anomaly_detector \<Rightarrow> anomaly_detector" where
  "watch (Request t agent target role) ad = snd (check_request t agent target role ad)"
| "watch (Denial t agent target role) ad = record_denial t agent target role ad"

fun request_of :: "string \<Rightarrow> watch_op \<Rightarrow> request option" where
  "request_of a (Request t agent target role) =
     (if agent = a then Some \<lparr>rq_timestamp = t, rq_target = target, rq_role = role, rq_denied = False\<rparr> else None)"
| "request_of a (Denial t agent target role) = None"

fun denial_of :: "string \<Rightarrow> watch_op \<Rightarrow> request option" where
  "denial_of a (Request t agent target role) = None"
| "denial_of a (Denial t agent target role) =
     (if agent = a then Some \<lparr>rq_timestamp = t, rq_target = target, rq_role = role, rq_denied = True\<rparr> else None)"

text \<open>The patterns of a request after a log, without forgetting anything.\<close>

definition patterns :: "watch_op list \<Rightarrow> time \<Rightarrow> string \<Rightarrow> string \<Rightarrow> string \<Rightarrow> anomaly list" where
  "patterns log now agent target role =
     (let requests = List.map_filter (request_of agent) (log @ [Request now agent target role]);
          recent = length (filter (\<lambda>r. rq_timestamp r > now - 30 * second) requests);
          targets = card (rq_target ` set (filter (\<lambda>r. rq_timestamp r > now - 60 * second) requests))
      in (if recent > 5 then [RapidRequests agent recent] else []) @
         (if targets > 3 then [TargetScan agent targets] else []) @
         (case find (\<lambda>d. rq_timestamp d > now - 30 * second \<and> rq_target d = target)
                 (List.map_filter (denial_of agent) log) of
            None \<Rightarrow> []
          | Some d \<Rightarrow> [RoleEscalation agent role target (rq_role d)]))"

definition keeps :: "time \<Rightarrow> watch_op list \<Rightarrow> anomaly_detector \<Rightarrow> bool" where
  "keeps t log ad \<longleftrightarrow> (\<forall>agent x. t - 60 * second \<le> x \<longrightarrow>
     after_cutoff x (recorded (ad_history ad) agent) = after_cutoff x (List.map_filter (request_of agent) log) \<and>
     after_cutoff x (recorded (ad_denials ad) agent) = after_cutoff x (List.map_filter (denial_of agent) log))"

lemma keeps_later: "keeps t log ad \<Longrightarrow> t \<le> t' \<Longrightarrow> keeps t' log ad"
  by (auto simp: keeps_def)

lemma map_filter_append: "List.map_filter f (xs @ ys) = List.map_filter f xs @ List.map_filter f ys"
  by (simp add: List.map_filter_def)

lemma recorded_put: "recorded (put a rs m) b = (if b = a then rs else recorded m b)"
  by (simp add: recorded_def)

lemma recorded_prune: "recorded (prune_map a c m) b = (if b = a then after_cutoff c (recorded m b) else recorded m b)"
  by (auto simp: recorded_def prune_map_def after_cutoff_def split: option.split)

lemma after_after: "c \<le> x \<Longrightarrow> after_cutoff x (after_cutoff c rs) = after_cutoff x rs"
  by (auto simp: after_cutoff_def intro: filter_cong)

lemma after_Nil [simp]: "after_cutoff x [] = []"
  by (simp add: after_cutoff_def)

lemma after_append: "after_cutoff x (rs @ qs) = after_cutoff x rs @ after_cutoff x qs"
  by (simp add: after_cutoff_def)

lemma keeps_request:
  assumes "keeps t log ad"
  shows "keeps t (log @ [Request t agent target role]) (snd (check_request t agent target role ad))"
  using assms
  by (auto simp: keeps_def check_request_def prune_agent_def recorded_put recorded_prune Let_def map_filter_append
      List.map_filter_simps after_append after_after)

lemma keeps_denial:
  assumes "keeps t log ad"
  shows "keeps t (log @ [Denial t agent target role]) (record_denial t agent target role ad)"
  using assms
  by (auto simp: keeps_def record_denial_def recorded_put map_filter_append List.map_filter_simps after_append)

lemma keeps_run:
  assumes "sorted (map op_time ops)" "\<forall>op \<in> set ops. op_time op \<le> t"
  shows "keeps t ops (fold watch ops new_anomaly_detector)"
  using assms
proof (induction ops arbitrary: t rule: rev_induct)
  case Nil
  show ?case by (simp add: keeps_def new_anomaly_detector_def recorded_def List.map_filter_simps)
next
  case (snoc op ops)
  have k: "keeps (op_time op) ops (fold watch ops new_anomaly_detector)"
    using snoc.prems by (intro snoc.IH) (auto simp: sorted_append)
  have "keeps (op_time op) (ops @ [op]) (fold watch (ops @ [op]) new_anomaly_detector)"
    using k by (cases op) (simp_all add: keeps_request keeps_denial)
  then show ?case by (rule keeps_later) (use snoc.prems in simp)
qed

lemma find_after: "find (\<lambda>d. rq_timestamp d > x \<and> P d) rs = find P (after_cutoff x rs)"
  by (induction rs) (auto simp: after_cutoff_def)

text \<open>
  Claim C31. Although the detector forgets an agent's requests after a minute, whenever that agent asks
  again, what it reports on a request is what the whole log shows: more than five requests of the agent
  in thirty seconds, more than three distinct targets in a minute, and the first refusal on the same
  target within thirty seconds.
\<close>

theorem detector_sees_whole_log:
  assumes "sorted (map op_time (ops @ [Request now agent target role]))"
  shows "fst (check_request now agent target role (fold watch ops new_anomaly_detector)) = patterns ops now agent target role"
proof -
  define ad where "ad = fold watch ops new_anomaly_detector"
  define r where "r = \<lparr>rq_timestamp = now, rq_target = target, rq_role = role, rq_denied = False\<rparr>"
  have k: "keeps now ops ad" unfolding ad_def by (rule keeps_run) (use assms in \<open>auto simp: sorted_append\<close>)
  define ad' where "ad' = (prune_agent agent now ad)\<lparr>ad_history := put agent (recorded (ad_history (prune_agent agent now ad)) agent @ [r])
      (ad_history (prune_agent agent now ad))\<rparr>"
  have h: "after_cutoff x (recorded (ad_history ad') agent) =
      after_cutoff x (List.map_filter (request_of agent) (ops @ [Request now agent target role]))"
    and d: "after_cutoff x (recorded (ad_denials ad') agent) = after_cutoff x (List.map_filter (denial_of agent) ops)"
    if "now - 60 * second \<le> x" for x
    using k that by (auto simp: keeps_def ad'_def prune_agent_def recorded_put recorded_prune after_append after_after
        map_filter_append List.map_filter_simps r_def)
  have "fst (check_request now agent target role ad) = check_rapid_requests agent now ad' @ check_target_scan agent now ad' @
      check_role_escalation agent target role now ad'"
    by (simp add: check_request_def Let_def ad'_def r_def)
  also have "\<dots> = patterns ops now agent target role"
    using h [of "now - 30 * second"] h [of "now - 60 * second"] d [of "now - 30 * second"]
    by (simp add: check_rapid_requests_def check_target_scan_def check_role_escalation_def patterns_def Let_def find_after
        length_remdups_card_conv) (simp add: after_cutoff_def)
  finally show ?thesis by (simp add: ad_def)
qed

theorem detector_sees_whole_log_witness:
  "fst (check_request (40 * second) ''a'' ''db'' ''admin''
     (fold watch [Request 0 ''a'' ''web'' ''read'', Denial (20 * second) ''a'' ''db'' ''operator''] new_anomaly_detector)) =
   [RoleEscalation ''a'' ''admin'' ''db'' ''operator'']"
  using detector_sees_whole_log [of "[Request 0 ''a'' ''web'' ''read'', Denial (20 * second) ''a'' ''db'' ''operator'']"
      "40 * second" "''a''" "''db''" "''admin''"]
  by (simp add: patterns_def List.map_filter_simps del: set_filter)

end
