(* ===== verification/ToolDefs.thy ===== *)
theory ToolDefs
  imports Federation
begin

text \<open>
  The tools the MCP server offers, as \<open>tools/list\<close> describes them to an agent:
  \<open>toolDefinitions\<close> of \<open>internal/broker/mcp_tools.go\<close>. A schema is the JSON value that describes the
  arguments; the order of the members of an object has no meaning, Go builds it from a map.
\<close>

section \<open>Schemas\<close>

definition param :: "string \<Rightarrow> string \<Rightarrow> (string \<times> json) list \<Rightarrow> json" where
  "param type_name description extra =
     JObj ([(''type'', JStr type_name), (''description'', JStr description)] @ extra)"

definition object_schema :: "(string \<times> json) list \<Rightarrow> (string \<times> json) list" where
  "object_schema properties = [(''type'', JStr ''object''), (''properties'', JObj properties)]"

definition required :: "string list \<Rightarrow> (string \<times> json) list" where
  "required names = [(''required'', JArr (map JStr names))]"

definition int_range :: "int \<Rightarrow> int \<Rightarrow> int \<Rightarrow> (string \<times> json) list" where
  "int_range preset low high = [(''default'', JInt preset), (''minimum'', JInt low), (''maximum'', JInt high)]"

definition string_list :: json where
  "string_list = JObj [(''type'', JStr ''array''), (''items'', JObj [(''type'', JStr ''string'')])]"

definition plain_tool :: "string \<Rightarrow> string \<Rightarrow> tool_def" where
  "plain_tool name description = \<lparr>td_name = name, td_description = description, td_schema = object_schema []\<rparr>"

section \<open>Targets and sessions\<close>

definition list_targets_tool :: tool_def where
  "list_targets_tool = plain_tool ''list_targets'' ''List available SSH targets and their allowed roles''"

definition exec_tool :: tool_def where
  "exec_tool =
     \<lparr>td_name = ''exec'',
      td_description = ''Execute a command on a target host via SSH certificate authentication'',
      td_schema = object_schema
        [(''target'', param ''string'' ''Target host name from list_targets'' []),
         (''role'', param ''string'' (''Role to use (e.g. '' @ (CHR 0x22 # ''read'' @ [CHR 0x22]) @ '', '' @ (CHR 0x22 # ''operator'' @ [CHR 0x22]) @ '')'') []),
         (''command'', param ''string'' ''Shell command to execute'' []),
         (''timeout'', param ''integer'' ''Timeout in seconds (default 30, max 300)'' (int_range 30 1 300)),
         (''session_id'', param ''string'' ''Reuse an existing persistent SSH session'' [])] @
        required [''target'', ''role'', ''command'']\<rparr>"

definition session_create_tool :: tool_def where
  "session_create_tool =
     \<lparr>td_name = ''session_create'',
      td_description = ''Create a persistent SSH session for executing multiple commands without reconnecting'',
      td_schema = object_schema
        [(''target'', param ''string'' ''Target host name from list_targets'' []),
         (''role'', param ''string'' (''Role to use (e.g. '' @ (CHR 0x22 # ''read'' @ [CHR 0x22]) @ '', '' @ (CHR 0x22 # ''operator'' @ [CHR 0x22]) @ '')'') [])] @
        required [''target'', ''role'']\<rparr>"

definition session_close_tool :: tool_def where
  "session_close_tool =
     \<lparr>td_name = ''session_close'',
      td_description = ''Close a persistent SSH session'',
      td_schema = object_schema [(''session_id'', param ''string'' ''Session ID to close'' [])] @
        required [''session_id'']\<rparr>"

definition list_sessions_tool :: tool_def where
  "list_sessions_tool = plain_tool ''list_sessions'' ''List active persistent SSH sessions''"

definition list_certs_tool :: tool_def where
  "list_certs_tool = plain_tool ''list_certs'' ''List active SSH certificates for this agent''"

section \<open>Services and remotes\<close>

definition http_request_tool :: tool_def where
  "http_request_tool =
     \<lparr>td_name = ''http_request'',
      td_description = ''Make an HTTP request through the broker's authenticated proxy. Credentials for configured services are injected automatically.'',
      td_schema = object_schema
        [(''url'', param ''string'' ''Full URL to request'' []),
         (''method'', param ''string'' ''HTTP method (default GET)''
            [(''enum'', JArr (map JStr [''GET'', ''POST'', ''PUT'', ''PATCH'', ''DELETE'', ''HEAD''])),
             (''default'', JStr ''GET'')]),
         (''headers'', param ''object'' ''Additional request headers (key-value pairs)''
            [(''additionalProperties'', JObj [(''type'', JStr ''string'')])]),
         (''body'', param ''string'' ''Request body (for POST/PUT/PATCH)'' []),
         (''timeout'', param ''integer'' ''Timeout in seconds (default 30, max 120)'' (int_range 30 1 120))] @
        required [''url'']\<rparr>"

definition list_services_tool :: tool_def where
  "list_services_tool =
     plain_tool ''list_services'' ''List configured services available through the HTTP proxy, showing which services have automatic credential injection''"

definition list_remotes_tool :: tool_def where
  "list_remotes_tool =
     plain_tool ''list_remotes'' ''List federated remote MCP servers, their tools, and connection status''"

section \<open>Tasks\<close>

definition task_create_tool :: tool_def where
  "task_create_tool =
     \<lparr>td_name = ''task_create'',
      td_description = ''Create a new task with scoped identity. Returns a CTT-E token for authenticating subsequent requests.'',
      td_schema = object_schema
        [(''description'', param ''string'' ''Human-readable description of the task'' []),
         (''ttl'', param ''string'' (''Task TTL as Go duration (default '' @ (CHR 0x27 # ''30m'' @ [CHR 0x27]) @ '', max '' @ (CHR 0x27 # ''1h'' @ [CHR 0x27]) @ '')'')
            [(''default'', JStr ''30m'')]),
         (''can_delegate'', param ''boolean'' ''Whether this task can delegate to child tasks (default false)''
            [(''default'', JBool False)]),
         (''holder_pub_key'', param ''string'' ''Base64url-encoded Ed25519 public key (32 bytes) for holder binding'' [])] @
        required [''description'']\<rparr>"

definition task_delegate_tool :: tool_def where
  "task_delegate_tool =
     \<lparr>td_name = ''task_delegate'',
      td_description = ''Delegate a child task from an existing parent task with attenuated capabilities. The child task receives a CTT-D token with equal or reduced permissions.'',
      td_schema = object_schema
        [(''parent_task_id'', param ''string'' ''ID of the parent task to delegate from (must have can_delegate=true)'' []),
         (''description'', param ''string'' ''Human-readable description of the child task'' []),
         (''ttl'', param ''string'' (''Child task TTL as Go duration (default '' @ (CHR 0x27 # ''10m'' @ [CHR 0x27]) @ '', must be <= parent's remaining TTL)'')
            [(''default'', JStr ''10m'')]),
         (''envelope'', param ''object'' ''Attenuated capability envelope (must be subset of parent's). If omitted, inherits parent's envelope.''
            [(''properties'', JObj [(''targets'', string_list), (''roles'', string_list), (''services'', string_list),
                                   (''remotes'', string_list), (''methods'', string_list)])]),
         (''can_delegate'', param ''boolean'' ''Whether the child task can further delegate (default false)''
            [(''default'', JBool False)])] @
        required [''parent_task_id'', ''description'']\<rparr>"

definition task_info_tool :: tool_def where
  "task_info_tool =
     \<lparr>td_name = ''task_info'',
      td_description = ''Get information about a task including its envelope, lineage, and remaining TTL'',
      td_schema = object_schema
        [(''task_id'', param ''string'' ''Task ID (ULID). If omitted, lists all active tasks for this agent.'' [])]\<rparr>"

definition task_revoke_tool :: tool_def where
  "task_revoke_tool =
     \<lparr>td_name = ''task_revoke'',
      td_description = ''Revoke a task and invalidate all its tokens. Cascading: also invalidates any child tasks.'',
      td_schema = object_schema [(''task_id'', param ''string'' ''Task ID to revoke'' [])] @ required [''task_id'']\<rparr>"

definition task_list_tool :: tool_def where
  "task_list_tool = plain_tool ''task_list'' ''List active tasks for this agent''"

definition task_bind_tool :: tool_def where
  "task_bind_tool =
     \<lparr>td_name = ''task_bind'',
      td_description = ''Bind a holder public key to a delegated task (Ephyr Bind). Must be called within the bind deadline.'',
      td_schema = object_schema
        [(''task_id'', param ''string'' ''The task ID to bind a key to'' []),
         (''holder_pub_key'', param ''string'' ''Base64url-encoded Ed25519 public key (32 bytes)'' [])] @
        required [''task_id'', ''holder_pub_key'']\<rparr>"

definition tool_definitions :: "tool_def list" where
  "tool_definitions =
     [list_targets_tool, exec_tool, session_create_tool, session_close_tool, list_sessions_tool,
      list_certs_tool, http_request_tool, list_services_tool, list_remotes_tool, task_create_tool,
      task_delegate_tool, task_info_tool, task_revoke_tool, task_list_tool, task_bind_tool]"

section \<open>What a definition requires\<close>

definition required_args :: "tool_def \<Rightarrow> string list" where
  "required_args td =
     (case map_of (td_schema td) ''required'' of
        Some (JArr js) \<Rightarrow> concat (map (\<lambda>j. case j of JStr s \<Rightarrow> [s] | _ \<Rightarrow> []) js)
      | _ \<Rightarrow> [])"

named_theorems tool_data

declare list_targets_tool_def [tool_data] exec_tool_def [tool_data] session_create_tool_def [tool_data]
  session_close_tool_def [tool_data] list_sessions_tool_def [tool_data] list_certs_tool_def [tool_data]
  http_request_tool_def [tool_data] list_services_tool_def [tool_data] list_remotes_tool_def [tool_data]
  task_create_tool_def [tool_data] task_delegate_tool_def [tool_data] task_info_tool_def [tool_data]
  task_revoke_tool_def [tool_data] task_list_tool_def [tool_data] task_bind_tool_def [tool_data]
  plain_tool_def [tool_data] object_schema_def [tool_data] required_def [tool_data]

lemma tool_names:
  "map td_name tool_definitions =
     [''list_targets'', ''exec'', ''session_create'', ''session_close'', ''list_sessions'', ''list_certs'',
      ''http_request'', ''list_services'', ''list_remotes'', ''task_create'', ''task_delegate'', ''task_info'',
      ''task_revoke'', ''task_list'', ''task_bind'']"
  by (simp add: tool_definitions_def tool_data)

lemma tool_requirements:
  "map (\<lambda>td. (td_name td, required_args td)) tool_definitions =
     [(''list_targets'', []), (''exec'', [''target'', ''role'', ''command'']), (''session_create'', [''target'', ''role'']),
      (''session_close'', [''session_id'']), (''list_sessions'', []), (''list_certs'', []), (''http_request'', [''url'']),
      (''list_services'', []), (''list_remotes'', []), (''task_create'', [''description'']),
      (''task_delegate'', [''parent_task_id'', ''description'']), (''task_info'', []), (''task_revoke'', [''task_id'']),
      (''task_list'', []), (''task_bind'', [''task_id'', ''holder_pub_key''])]"
  by (simp add: tool_definitions_def tool_data required_args_def)

end
