(* ===== verification/McpServer.thy ===== *)
theory McpServer
  imports ToolDefs FedTools AuditLog ProxyDo ExecTools TaskTools
begin

text \<open>
  The MCP endpoint: \<open>ServeHTTP\<close> and the handlers it calls, of \<open>internal/broker/mcp.go\<close>, and the
  dispatch to the tools in \<open>internal/broker/mcp_tools.go\<close>, on the state of all components. The
  components that share the policy and the grant store hold them in the certificate broker's state
  and get views of it. The events that the endpoint hands to the audit log are kept in order; those
  that the tools log themselves are left out.
\<close>

section \<open>State\<close>

text \<open>
  The proxy and the federator may be absent. Next to the remotes stands the counter of the
  requests to them.
\<close>

record ('k, 'c) mcp_server =
  ms_tasks :: "'k broker"
  ms_exec :: "('k, 'c) exec_broker"
  ms_proxy :: "proxy_engine option"
  ms_federator :: "(federator \<times> int) option"
  ms_events :: "audit_event list"

text \<open>The libraries, and what one call draws from clock and random source.\<close>

record ('k, 'c) mcp_env =
  me_primitives :: primitives
  me_ssh :: "('k, 'c) ssh_env"
  me_proxy :: proxy_env
  me_fed :: fed_env
  me_float_int :: "string \<Rightarrow> int"
  me_float_fits :: "string \<Rightarrow> bool"

record mcp_call =
  mc_env :: call_env
  mc_session :: "bytes option"
  mc_grant :: string

section \<open>Views of the shared state\<close>

definition the_policy :: "('k, 'c) mcp_server \<Rightarrow> 'k resolved_config" where
  "the_policy ms = cb_policy (xb_broker (ms_exec ms))"

definition the_grants :: "('k, 'c) mcp_server \<Rightarrow> grant_store option" where
  "the_grants ms = cb_grants (xb_broker (ms_exec ms))"

definition set_grants :: "grant_store option \<Rightarrow> ('k, 'c) mcp_server \<Rightarrow> ('k, 'c) mcp_server" where
  "set_grants g ms =
     ms\<lparr>ms_exec := (ms_exec ms)\<lparr>xb_broker := (xb_broker (ms_exec ms))\<lparr>cb_grants := g\<rparr>\<rparr>\<rparr>"

definition task_view :: "('k, 'c) mcp_server \<Rightarrow> 'k broker" where
  "task_view ms = (ms_tasks ms)\<lparr>bk_policy := the_policy ms\<rparr>"

definition set_tasks :: "'k broker \<Rightarrow> ('k, 'c) mcp_server \<Rightarrow> ('k, 'c) mcp_server" where
  "set_tasks bk ms = ms\<lparr>ms_tasks := bk\<lparr>bk_policy := bk_policy (ms_tasks ms)\<rparr>\<rparr>"

definition proxy_view :: "proxy_engine \<Rightarrow> ('k, 'c) mcp_server \<Rightarrow> proxy_broker" where
  "proxy_view px ms = \<lparr>pb_proxy = px, pb_grants = the_grants ms\<rparr>"

definition set_proxy :: "proxy_broker \<Rightarrow> ('k, 'c) mcp_server \<Rightarrow> ('k, 'c) mcp_server" where
  "set_proxy pb ms = set_grants (pb_grants pb) (ms\<lparr>ms_proxy := Some (pb_proxy pb)\<rparr>)"

definition fed_view :: "federator \<times> int \<Rightarrow> ('k, 'c) mcp_server \<Rightarrow> fed_broker" where
  "fed_view f ms = \<lparr>fb_remotes = fst f, fb_grants = the_grants ms, fb_ids = snd f\<rparr>"

definition set_fed :: "fed_broker \<Rightarrow> ('k, 'c) mcp_server \<Rightarrow> ('k, 'c) mcp_server" where
  "set_fed fb ms = set_grants (fb_grants fb) (ms\<lparr>ms_federator := Some (fb_remotes fb, fb_ids fb)\<rparr>)"

lemma unchanged_views [simp]:
  "set_tasks (task_view ms) ms = ms"
  "ms_proxy ms = Some px \<Longrightarrow> set_proxy (proxy_view px ms) ms = ms"
  "ms_federator ms = Some f \<Longrightarrow> set_fed (fed_view f ms) ms = ms"
  by (simp_all add: set_tasks_def task_view_def set_proxy_def proxy_view_def set_grants_def the_grants_def
      set_fed_def fed_view_def the_policy_def)

section \<open>Tools\<close>

datatype tool_answer =
    TargetList "target_info list"
  | ExecDone "exec_tool_error + exec_result"
  | SessionCreated "exec_tool_error + string \<times> string \<times> string"
  | SessionClosed "exec_tool_error + string"
  | SessionList "exec_tool_error + exec_session_info list"
  | CertList "cert_info list"
  | HttpDone "http_tool_error + proxy_result"
  | ProxyUnavailable
  | ServiceList "service_info list"
  | FederationUnconfigured
  | RemoteList "remote_info list"
  | TaskIssued "tool_error + issued_task"
  | TaskInfo "tool_error + (task_info + task list)"
  | TaskRevoked "tool_error + string \<times> nat"
  | TaskList "tool_error + task_summary list"
  | TaskBound "tool_error + string"
  | Forwarded "fed_tool_error + tool_content list \<times> bool"

definition failed :: "'e + 'a \<Rightarrow> bool" where
  "failed r = (case r of Inl _ \<Rightarrow> True | Inr _ \<Rightarrow> False)"

text \<open>The flag \<open>isError\<close> of the result.\<close>

definition is_error :: "tool_answer \<Rightarrow> bool" where
  "is_error a =
     (case a of
        ExecDone r \<Rightarrow> failed r | SessionCreated r \<Rightarrow> failed r | SessionClosed r \<Rightarrow> failed r | SessionList r \<Rightarrow> failed r
      | HttpDone r \<Rightarrow> failed r | ProxyUnavailable \<Rightarrow> True | FederationUnconfigured \<Rightarrow> True
      | TaskIssued r \<Rightarrow> failed r | TaskInfo r \<Rightarrow> failed r | TaskRevoked r \<Rightarrow> failed r | TaskList r \<Rightarrow> failed r
      | TaskBound r \<Rightarrow> failed r | Forwarded (Inl _) \<Rightarrow> True | Forwarded (Inr (_, flag)) \<Rightarrow> flag
      | _ \<Rightarrow> False)"

text \<open>Without a proxy \<open>http_request\<close> still looks at its first two arguments.\<close>

definition http_request_tool_call ::
    "('k, 'c) mcp_env \<Rightarrow> mcp_call \<Rightarrow> mcp_agent \<Rightarrow> tool_args \<Rightarrow> ('k, 'c) mcp_server \<Rightarrow>
     tool_answer \<times> ('k, 'c) mcp_server" where
  "http_request_tool_call env mc agent args ms =
     (case ms_proxy ms of
        Some px \<Rightarrow>
          (case tool_http_request (me_proxy env) (me_float_int env) (ce_now (mc_env mc)) (mc_grant mc) agent args
                  (proxy_view px ms) of
             (r, pb) \<Rightarrow> (HttpDone r, set_proxy pb ms))
      | None \<Rightarrow>
          (case needed args ''url'' of
             Inl _ \<Rightarrow> (HttpDone (Inl UrlMissing), ms)
           | Inr _ \<Rightarrow>
               let method = to_upper (if optional_text args ''method'' = [] then ''GET'' else optional_text args ''method'')
               in if method \<notin> set valid_methods then (HttpDone (Inl (InvalidMethod method)), ms)
                  else (ProxyUnavailable, ms)))"

definition handle_tool_call ::
    "('k, 'c) mcp_env \<Rightarrow> mcp_call \<Rightarrow> mcp_agent \<Rightarrow> string \<Rightarrow> tool_args \<Rightarrow> ('k, 'c) mcp_server \<Rightarrow>
     tool_answer option \<times> ('k, 'c) mcp_server" where
  "handle_tool_call env mc agent tool args ms =
     (let now = ce_now (mc_env mc); cr = me_primitives env in
      if tool = ''list_targets'' then (Some (TargetList (tool_list_targets agent (ms_exec ms))), ms)
      else if tool = ''exec'' then
        (case tool_exec (me_ssh env) (me_float_int env) now agent args (ms_exec ms) of
           (r, xb) \<Rightarrow> (Some (ExecDone r), ms\<lparr>ms_exec := xb\<rparr>))
      else if tool = ''session_create'' then
        (case tool_session_create (me_ssh env) now (mc_session mc) agent args (ms_exec ms) of
           (r, xb) \<Rightarrow> (Some (SessionCreated r), ms\<lparr>ms_exec := xb\<rparr>))
      else if tool = ''session_close'' then
        (case tool_session_close agent args (ms_exec ms) of
           (r, xb) \<Rightarrow> (Some (SessionClosed r), ms\<lparr>ms_exec := xb\<rparr>))
      else if tool = ''list_sessions'' then (Some (SessionList (tool_list_sessions agent (ms_exec ms))), ms)
      else if tool = ''list_certs'' then
        (Some (CertList (tool_list_certs (ce_tz (mc_env mc)) agent (ms_exec ms))), ms)
      else if tool = ''http_request'' then
        (case http_request_tool_call env mc agent args ms of (r, ms) \<Rightarrow> (Some r, ms))
      else if tool = ''list_services'' then
        (Some (case ms_proxy ms of None \<Rightarrow> ProxyUnavailable | Some px \<Rightarrow> ServiceList (tool_list_services agent px)), ms)
      else if tool = ''list_remotes'' then
        (Some (case ms_federator ms of
                 None \<Rightarrow> FederationUnconfigured | Some (fed, _) \<Rightarrow> RemoteList (tool_list_remotes agent fed)), ms)
      else if tool = ''task_create'' then
        (case tool_task_create cr (mc_env mc) agent args (task_view ms) of
           (r, bk) \<Rightarrow> (Some (TaskIssued r), set_tasks bk ms))
      else if tool = ''task_delegate'' then
        (case tool_task_delegate cr (mc_env mc) agent args (task_view ms) of
           (r, bk) \<Rightarrow> (Some (TaskIssued r), set_tasks bk ms))
      else if tool = ''task_info'' then (Some (TaskInfo (tool_task_info (mc_env mc) agent args (task_view ms))), ms)
      else if tool = ''task_revoke'' then
        (case tool_task_revoke (mc_env mc) agent args (task_view ms) of
           (r, bk) \<Rightarrow> (Some (TaskRevoked r), set_tasks bk ms))
      else if tool = ''task_list'' then (Some (TaskList (tool_task_list (mc_env mc) agent (task_view ms))), ms)
      else if tool = ''task_bind'' then
        (case tool_task_bind (mc_env mc) agent args (task_view ms) of
           (r, bk) \<Rightarrow> (Some (TaskBound r), set_tasks bk ms))
      else (None, ms))"

section \<open>Requests\<close>

text \<open>\<open>id\<close> and \<open>params\<close> stay as they are; \<open>null\<close> is a value for them, not an absence.\<close>

record rpc_request =
  jq_version :: string
  jq_id :: "json option"
  jq_method :: string
  jq_params :: "json option"

definition request_field :: "string \<Rightarrow> json \<Rightarrow> rpc_request \<Rightarrow> rpc_request option" where
  "request_field k j q =
     (if equal_fold k ''jsonrpc'' then map_option (\<lambda>s. q\<lparr>jq_version := s\<rparr>) (read_string j (jq_version q))
      else if equal_fold k ''id'' then Some (q\<lparr>jq_id := Some j\<rparr>)
      else if equal_fold k ''method'' then map_option (\<lambda>s. q\<lparr>jq_method := s\<rparr>) (read_string j (jq_method q))
      else if equal_fold k ''params'' then Some (q\<lparr>jq_params := Some j\<rparr>)
      else Some q)"

definition no_request :: rpc_request where
  "no_request = \<lparr>jq_version = [], jq_id = None, jq_method = [], jq_params = None\<rparr>"

definition read_request :: "bytes \<Rightarrow> rpc_request option" where
  "read_request body =
     (case json_parse body of None \<Rightarrow> None | Some j \<Rightarrow> read_struct request_field j no_request)"

text \<open>A number that an argument holds must fit into a \<open>float64\<close>.\<close>

fun numbers_fit :: "(string \<Rightarrow> bool) \<Rightarrow> json \<Rightarrow> bool" where
  "numbers_fit fits (JNum l) = fits l"
| "numbers_fit fits (JArr js) = list_all (numbers_fit fits) js"
| "numbers_fit fits (JObj fs) = list_all (\<lambda>f. numbers_fit fits (snd f)) fs"
| "numbers_fit fits _ = True"

record call_params =
  tp_name :: string
  tp_arguments :: "tool_args option"

definition read_arguments :: "(string \<Rightarrow> bool) \<Rightarrow> json \<Rightarrow> tool_args option \<Rightarrow> tool_args option option" where
  "read_arguments fits j old =
     (case j of
        JNull \<Rightarrow> Some None
      | JObj fs \<Rightarrow>
          if numbers_fit fits j
          then Some (Some (fold (\<lambda>(k, v). put k v) fs (case old of None \<Rightarrow> [] | Some m \<Rightarrow> m)))
          else None
      | _ \<Rightarrow> None)"

definition call_field :: "(string \<Rightarrow> bool) \<Rightarrow> string \<Rightarrow> json \<Rightarrow> call_params \<Rightarrow> call_params option" where
  "call_field fits k j p =
     (if equal_fold k ''name'' then map_option (\<lambda>s. p\<lparr>tp_name := s\<rparr>) (read_string j (tp_name p))
      else if equal_fold k ''arguments''
      then map_option (\<lambda>a. p\<lparr>tp_arguments := a\<rparr>) (read_arguments fits j (tp_arguments p))
      else Some p)"

definition read_call_params :: "(string \<Rightarrow> bool) \<Rightarrow> json option \<Rightarrow> call_params option" where
  "read_call_params fits params =
     (case params of
        None \<Rightarrow> Some \<lparr>tp_name = [], tp_arguments = None\<rparr>
      | Some j \<Rightarrow> read_struct (call_field fits) j \<lparr>tp_name = [], tp_arguments = None\<rparr>)"

definition uri_field :: "string \<Rightarrow> json \<Rightarrow> string \<Rightarrow> string option" where
  "uri_field k j uri = (if equal_fold k ''uri'' then read_string j uri else Some uri)"

definition read_uri :: "json option \<Rightarrow> string option" where
  "read_uri params = (case params of None \<Rightarrow> Some [] | Some j \<Rightarrow> read_struct uri_field j [])"

section \<open>Replies\<close>

datatype rpc_failure =
    OnlyPost
  | BodyUnreadable
  | InvalidJsonBody
  | BadVersion
  | UnknownMethod string
  | BadCallParams
  | ToolNameRequired
  | UnknownTool string
  | BadReadParams
  | ReadFailed read_error

definition failure_code :: "rpc_failure \<Rightarrow> int" where
  "failure_code e =
     (case e of
        UnknownMethod _ \<Rightarrow> - 32601
      | BadCallParams \<Rightarrow> - 32602 | ToolNameRequired \<Rightarrow> - 32602 | BadReadParams \<Rightarrow> - 32602
      | UnknownTool _ \<Rightarrow> - 32603
      | ReadFailed (ResourceFailed _) \<Rightarrow> - 32603 | ReadFailed _ \<Rightarrow> - 32602
      | _ \<Rightarrow> - 32600)"

datatype rpc_result =
    Initialized bool
  | Acknowledged
  | ToolList "tool_def list"
  | Refused gate_error
  | Called tool_answer
  | ResourceList "mcp_resource list"
  | ResourceText read_answer

text \<open>
  A reply to a failed login has status 401; one with a failure and without an identifier has 400, as
  \<open>writeJSONRPC\<close> decides; \<open>Event\<close> is a reply sent as a server-sent event.
\<close>

datatype reply =
    Unauthorized login_error
  | NoContent
  | Failure "json option" rpc_failure
  | Answer "json option" rpc_result
  | Event reply

fun http_status :: "reply \<Rightarrow> nat" where
  "http_status (Unauthorized _) = 401"
| "http_status NoContent = 204"
| "http_status (Failure None _) = 400"
| "http_status (Failure (Some _) _) = 200"
| "http_status (Answer _ _) = 200"
| "http_status (Event _) = 200"

section \<open>Handlers\<close>

definition agent_event :: "string \<Rightarrow> string \<Rightarrow> string \<Rightarrow> mcp_agent \<Rightarrow> audit_event" where
  "agent_event event_type key detail agent =
     (let task = map_option cl_task (ma_task_claims agent);
          of_task = (\<lambda>f. case task of None \<Rightarrow> [] | Some t \<Rightarrow> f t)
      in \<lparr>ev_zone = 0, ev_timestamp = 0, ev_severity = ''INFO'', ev_event_type = event_type, ev_agent = ma_name agent,
          ev_target = [], ev_role = [], ev_serial = [], ev_duration = [], ev_reason = [], ev_policy_version = [],
          ev_details = [(key, detail)], ev_task_id = of_task ti_id, ev_task_root_id = of_task ti_root_id,
          ev_initiated_by = of_task ti_initiated_by, ev_prev_hash = [], ev_hash = []\<rparr>)"

definition log_server :: "audit_event \<Rightarrow> ('k, 'c) mcp_server \<Rightarrow> ('k, 'c) mcp_server" where
  "log_server e ms = ms\<lparr>ms_events := ms_events ms @ [e]\<rparr>"

definition handle_initialize :: "json option \<Rightarrow> ('k, 'c) mcp_server \<Rightarrow> reply" where
  "handle_initialize rid ms = Answer rid (Initialized (ms_federator ms \<noteq> None))"

definition handle_tools_list :: "json option \<Rightarrow> ('k, 'c) mcp_server \<Rightarrow> reply" where
  "handle_tools_list rid ms =
     Answer rid (ToolList (tool_definitions @
       (case ms_federator ms of None \<Rightarrow> [] | Some (fed, _) \<Rightarrow> federated_tools fed)))"

text \<open>The call once the gate is passed, with the proof stripped from the arguments.\<close>

definition dispatch_call ::
    "('k, 'c) mcp_env \<Rightarrow> mcp_call \<Rightarrow> mcp_agent \<Rightarrow> json option \<Rightarrow> string \<Rightarrow> tool_args option \<Rightarrow>
     ('k, 'c) mcp_server \<Rightarrow> reply \<times> ('k, 'c) mcp_server" where
  "dispatch_call env mc agent rid tool args ms =
     (case (case ms_federator ms of Some f \<Rightarrow> if is_federated_tool (fst f) tool then Some f else None | None \<Rightarrow> None) of
        Some f \<Rightarrow>
          (case handle_federated_tool_call (me_fed env) (me_float_int env) (ce_now (mc_env mc)) (mc_grant mc) agent tool
                  args (fed_view f ms) of
             (r, fb) \<Rightarrow> (Answer rid (Called (Forwarded r)), set_fed fb ms))
      | None \<Rightarrow>
          (case handle_tool_call env mc agent tool (case args of None \<Rightarrow> [] | Some m \<Rightarrow> m) ms of
             (r, ms) \<Rightarrow>
               let answer = (case r of None \<Rightarrow> Failure rid (UnknownTool tool) | Some a \<Rightarrow> Answer rid (Called a))
               in (if tool = ''exec_stream'' then Event answer else answer, ms)))"

definition handle_tools_call ::
    "('k, 'c) mcp_env \<Rightarrow> mcp_call \<Rightarrow> mcp_agent \<Rightarrow> rpc_request \<Rightarrow> ('k, 'c) mcp_server \<Rightarrow>
     reply \<times> ('k, 'c) mcp_server" where
  "handle_tools_call env mc agent q ms =
     (case read_call_params (me_float_fits env) (jq_params q) of
        None \<Rightarrow> (Failure (jq_id q) BadCallParams, ms)
      | Some p \<Rightarrow>
          if tp_name p = [] then (Failure (jq_id q) ToolNameRequired, ms)
          else
            let ms = log_server (agent_event ''mcp_tool_call'' ''tool'' (tp_name p) agent) ms;
                args = (case tp_arguments p of None \<Rightarrow> [] | Some m \<Rightarrow> m)
            in (case tools_call_gate (me_primitives env) (ce_now (mc_env mc)) agent (tp_name p) args (task_view ms) of
                  (Some e, bk) \<Rightarrow> (Answer (jq_id q) (Refused e), set_tasks bk ms)
                | (None, bk) \<Rightarrow>
                    dispatch_call env mc agent (jq_id q) (tp_name p) (map_option (del ''_pop'') (tp_arguments p))
                      (set_tasks bk ms)))"

definition handle_read ::
    "('k, 'c) mcp_env \<Rightarrow> mcp_call \<Rightarrow> mcp_agent \<Rightarrow> rpc_request \<Rightarrow> ('k, 'c) mcp_server \<Rightarrow>
     reply \<times> ('k, 'c) mcp_server" where
  "handle_read env mc agent q ms =
     (case read_uri (jq_params q) of
        None \<Rightarrow> (Failure (jq_id q) BadReadParams, ms)
      | Some uri \<Rightarrow>
          (case handle_resources_read (me_fed env) (ce_now (mc_env mc)) agent uri
                  (map_option (\<lambda>f. fed_view f ms) (ms_federator ms)) of
             (r, fb) \<Rightarrow>
               (case r of Inl e \<Rightarrow> Failure (jq_id q) (ReadFailed e) | Inr a \<Rightarrow> Answer (jq_id q) (ResourceText a),
                case fb of None \<Rightarrow> ms | Some fb \<Rightarrow> set_fed fb ms)))"

definition route ::
    "('k, 'c) mcp_env \<Rightarrow> mcp_call \<Rightarrow> mcp_agent \<Rightarrow> rpc_request \<Rightarrow> ('k, 'c) mcp_server \<Rightarrow>
     reply \<times> ('k, 'c) mcp_server" where
  "route env mc agent q ms =
     (if jq_method q = ''initialize'' then (handle_initialize (jq_id q) ms, ms)
      else if jq_method q = ''notifications/initialized'' then
        (if jq_id q = None \<or> jq_id q = Some JNull then NoContent else Answer (jq_id q) Acknowledged, ms)
      else if jq_method q = ''tools/list'' then (handle_tools_list (jq_id q) ms, ms)
      else if jq_method q = ''tools/call'' then handle_tools_call env mc agent q ms
      else if jq_method q = ''resources/list'' then
        (Answer (jq_id q) (ResourceList (handle_resources_list (map_option fst (ms_federator ms)))), ms)
      else if jq_method q = ''resources/read'' then handle_read env mc agent q ms
      else (Failure (jq_id q) (UnknownMethod (jq_method q)), ms))"

text \<open>
  \<open>ServeHTTP\<close>: the method of the HTTP request, the \<open>Authorization\<close> header and the body, of which
  the first mebibyte is read; \<open>None\<close> when reading fails.
\<close>

definition serve_http ::
    "('k, 'c) mcp_env \<Rightarrow> mcp_call \<Rightarrow> string \<Rightarrow> string \<Rightarrow> bytes option \<Rightarrow> ('k, 'c) mcp_server \<Rightarrow>
     reply \<times> ('k, 'c) mcp_server" where
  "serve_http env mc method header body ms =
     (if method \<noteq> ''POST'' then (Failure None OnlyPost, ms)
      else
        (case authenticate_request (me_primitives env) (ce_now (mc_env mc)) header (task_view ms) of
           (Inl e, bk) \<Rightarrow> (Unauthorized e, set_tasks bk ms)
         | (Inr agent, bk) \<Rightarrow>
             let ms = set_tasks bk ms in
             (case body of
                None \<Rightarrow> (Failure None BodyUnreadable, ms)
              | Some bs \<Rightarrow>
                  (case read_request (take 1048576 bs) of
                     None \<Rightarrow> (Failure None InvalidJsonBody, ms)
                   | Some q \<Rightarrow>
                       if jq_version q \<noteq> ''2.0'' then (Failure (jq_id q) BadVersion, ms)
                       else route env mc agent q
                              (log_server (agent_event ''mcp_request'' ''method'' (jq_method q) agent) ms)))))"

end
