(* ===== verification/McpSafety.thy ===== *)
theory McpSafety
  imports McpServer
begin

text \<open>
  What the MCP endpoint guarantees for every tool at once: nothing happens behind the gate's back, and
  the tools are the listed ones with the arguments the listing requires.
\<close>

section \<open>What stays as it is\<close>

text \<open>
  Nothing of what tools act on has changed. Login and gate may have touched the cache of accepted
  keys and the cache of nonces.
\<close>

definition untouched :: "('k, 'c) mcp_server \<Rightarrow> ('k, 'c) mcp_server \<Rightarrow> bool" where
  "untouched ms ms' \<longleftrightarrow>
     ms_exec ms' = ms_exec ms \<and> ms_proxy ms' = ms_proxy ms \<and>
     ms_tasks ms' = (ms_tasks ms)\<lparr>bk_auth := bk_auth (ms_tasks ms'), bk_nonces := bk_nonces (ms_tasks ms')\<rparr>"

lemma login_spares: "authenticate_request cr now header bk = (r, bk') \<Longrightarrow> \<exists>au. bk' = bk\<lparr>bk_auth := au\<rparr>"
proof -
  assume "authenticate_request cr now header bk = (r, bk')"
  moreover have "\<exists>au. bk = bk\<lparr>bk_auth := au\<rparr>" by (rule exI [of _ "bk_auth bk"]) simp
  ultimately show ?thesis
    by (auto simp: authenticate_request_def Let_def split: if_splits sum.splits option.splits prod.splits)
qed

lemma gate_spares: "tools_call_gate cr now agent tool args bk = (r, bk') \<Longrightarrow> \<exists>nc. bk' = bk\<lparr>bk_nonces := nc\<rparr>"
proof -
  assume "tools_call_gate cr now agent tool args bk = (r, bk')"
  moreover have "\<exists>nc. bk = bk\<lparr>bk_nonces := nc\<rparr>" by (rule exI [of _ "bk_nonces bk"]) simp
  ultimately show ?thesis
    by (auto simp: tools_call_gate_def verify_pop_from_args_def Let_def split: if_splits sum.splits option.splits prod.splits)
qed

lemma view_after_set: "bk_policy bk = the_policy ms \<Longrightarrow> task_view (set_tasks bk ms) = bk"
  by (simp add: task_view_def set_tasks_def the_policy_def)

lemma untouched_login:
  "authenticate_request cr now header (task_view ms) = (r, bk) \<Longrightarrow>
     untouched ms (set_tasks bk ms) \<and> task_view (set_tasks bk ms) = bk"
  by (auto dest!: login_spares simp: untouched_def set_tasks_def task_view_def the_policy_def)

lemma untouched_gate:
  "tools_call_gate cr now agent tool args (task_view ms) = (r, bk) \<Longrightarrow> untouched ms (set_tasks bk ms)"
  by (auto dest!: gate_spares simp: untouched_def set_tasks_def task_view_def the_policy_def)

lemma untouched_log [simp]: "untouched ms (log_server e ms') = untouched ms ms'" "untouched (log_server e ms) ms' = untouched ms ms'"
  by (simp_all add: untouched_def log_server_def)

lemma untouched_refl [simp]: "untouched ms ms"
  by (simp add: untouched_def)

lemma untouched_trans: "untouched a b \<Longrightarrow> untouched b c \<Longrightarrow> untouched a c"
  by (cases "ms_tasks a"; cases "ms_tasks b"; cases "ms_tasks c") (simp add: untouched_def)

lemma read_grants: "handle_resources_read env now agent uri (Some fb) = (r, fb') \<Longrightarrow> \<exists>fb2. fb' = Some fb2 \<and> fb_grants fb2 = fb_grants fb"
  by (auto simp: handle_resources_read_def Let_def split: if_splits option.splits sum.splits prod.splits)

lemma untouched_read: "untouched ms (snd (handle_read env mc agent q ms))"
proof (cases "ms_federator ms")
  case None
  then show ?thesis
    by (auto simp: handle_read_def handle_resources_read_def Let_def split: option.splits prod.splits if_splits)
next
  case (Some f)
  have set: "untouched ms (set_fed fb ms)" if "fb_grants fb = the_grants ms" for fb
    using that by (simp add: untouched_def set_fed_def set_grants_def the_grants_def)
  show ?thesis
  proof (cases "read_uri (jq_params q)")
    case None
    then show ?thesis by (simp add: handle_read_def)
  next
    case uri: (Some uri)
    obtain r fb where h: "handle_resources_read (me_fed env) (ce_now (mc_env mc)) agent uri (Some (fed_view f ms)) = (r, fb)"
      by fastforce
    then obtain fb2 where "fb = Some fb2" "fb_grants fb2 = the_grants ms"
      using read_grants [OF h] by (auto simp: fed_view_def)
    then show ?thesis using set [of fb2] by (simp add: handle_read_def uri Some h)
  qed
qed

section \<open>Mediation\<close>

text \<open>The request as the endpoint reads it, once the login has succeeded.\<close>

definition accepted_request :: "string \<Rightarrow> bytes option \<Rightarrow> rpc_request option" where
  "accepted_request method body =
     (if method \<noteq> ''POST'' then None
      else case body of
             None \<Rightarrow> None
           | Some bs \<Rightarrow>
               (case read_request (take 1048576 bs) of
                  None \<Rightarrow> None
                | Some q \<Rightarrow> if jq_version q = ''2.0'' then Some q else None))"

lemma served:
  "serve_http env mc method header body ms =
     (if method \<noteq> ''POST'' then (Failure None OnlyPost, ms)
      else
        (case authenticate_request (me_primitives env) (ce_now (mc_env mc)) header (task_view ms) of
           (Inl e, bk) \<Rightarrow> (Unauthorized e, set_tasks bk ms)
         | (Inr agent, bk) \<Rightarrow>
             (case accepted_request method body of
                Some q \<Rightarrow> route env mc agent q (log_server (agent_event ''mcp_request'' ''method'' (jq_method q) agent) (set_tasks bk ms))
              | None \<Rightarrow>
                  (case body of
                     None \<Rightarrow> Failure None BodyUnreadable
                   | Some bs \<Rightarrow> (case read_request (take 1048576 bs) of
                                   None \<Rightarrow> Failure None InvalidJsonBody
                                 | Some q \<Rightarrow> Failure (jq_id q) BadVersion), set_tasks bk ms))))"
  by (auto simp: serve_http_def accepted_request_def Let_def split: option.splits prod.splits sum.splits)

text \<open>The call that a passed gate dispatches.\<close>

definition passes_gate ::
    "('k, 'c) mcp_env \<Rightarrow> mcp_call \<Rightarrow> mcp_agent \<Rightarrow> string \<Rightarrow> tool_args \<Rightarrow> 'k broker \<Rightarrow> bool" where
  "passes_gate env mc agent tool args bk \<longleftrightarrow>
     fst (tools_call_gate (me_primitives env) (ce_now (mc_env mc)) agent tool args bk) = None"

lemma call_mediated:
  assumes "handle_tools_call env mc agent q ms = (reply, ms')"
  shows "untouched ms ms' \<and> ms_federator ms' = ms_federator ms \<or>
    (\<exists>p ms1. read_call_params (me_float_fits env) (jq_params q) = Some p \<and>
       passes_gate env mc agent (tp_name p) (case tp_arguments p of None \<Rightarrow> [] | Some m \<Rightarrow> m) (task_view ms) \<and>
       untouched ms ms1 \<and> ms_federator ms1 = ms_federator ms \<and>
       ms_events ms1 = ms_events ms @ [agent_event ''mcp_tool_call'' ''tool'' (tp_name p) agent] \<and>
       (reply, ms') = dispatch_call env mc agent (jq_id q) (tp_name p) (map_option (del ''_pop'') (tp_arguments p)) ms1)"
proof (cases "read_call_params (me_float_fits env) (jq_params q)")
  case None
  with assms show ?thesis by (simp add: handle_tools_call_def)
next
  case (Some p)
  define args where "args = (case tp_arguments p of None \<Rightarrow> [] | Some m \<Rightarrow> m)"
  define ms0 where "ms0 = log_server (agent_event ''mcp_tool_call'' ''tool'' (tp_name p) agent) ms"
  have view: "task_view ms0 = task_view ms" by (simp add: ms0_def log_server_def task_view_def the_policy_def)
  have same: "untouched ms ms0" "ms_federator ms0 = ms_federator ms"
    "ms_events ms0 = ms_events ms @ [agent_event ''mcp_tool_call'' ''tool'' (tp_name p) agent]"
    by (simp_all add: ms0_def) (simp_all add: log_server_def)
  obtain r bk where gate: "tools_call_gate (me_primitives env) (ce_now (mc_env mc)) agent (tp_name p) args (task_view ms0) = (r, bk)"
    by fastforce
  have after: "untouched ms (set_tasks bk ms0)" by (rule untouched_trans [OF same(1) untouched_gate [OF gate]])
  note step = assms [unfolded handle_tools_call_def Some option.case Let_def, folded args_def ms0_def, unfolded gate prod.case]
  show ?thesis
  proof (cases "tp_name p = []")
    case True
    with step show ?thesis by simp
  next
    case named: False
    show ?thesis
    proof (cases r)
      case None
      then have "(reply, ms') =
          dispatch_call env mc agent (jq_id q) (tp_name p) (map_option (del ''_pop'') (tp_arguments p)) (set_tasks bk ms0)"
        using step named by simp
      moreover have "passes_gate env mc agent (tp_name p) args (task_view ms)"
        using gate None by (simp add: passes_gate_def view)
      ultimately show ?thesis
        using Some after same
        by (intro disjI2 exI [of _ p] exI [of _ "set_tasks bk ms0"]) (simp add: set_tasks_def args_def)
    next
      case (Some e)
      then show ?thesis using step named after same by (auto simp: set_tasks_def)
    qed
  qed
qed

text \<open>
  Claim C2. Whatever is sent to the MCP endpoint, tasks, sessions, certificates, grants, hosts and
  services stay as they are unless the request is a tool call of a logged-in agent that passes the
  gate for this very tool and these arguments. Then two events naming the agent, the method and the
  tool are in the audit log before the tool runs, and the tool sees the arguments without the
  proof. Only remotes can also be touched by a resource that is read.
\<close>

theorem tools_are_mediated:
  "let out = serve_http env mc method header body ms;
       login = authenticate_request (me_primitives env) (ce_now (mc_env mc)) header (task_view ms)
   in untouched ms (snd out) \<and>
        (ms_federator (snd out) = ms_federator ms \<or>
         map_option jq_method (accepted_request method body) = Some ''resources/read'') \<or>
      (\<exists>agent q p ms1.
         fst login = Inr agent \<and> accepted_request method body = Some q \<and> jq_method q = ''tools/call'' \<and>
         read_call_params (me_float_fits env) (jq_params q) = Some p \<and>
         passes_gate env mc agent (tp_name p) (case tp_arguments p of None \<Rightarrow> [] | Some m \<Rightarrow> m) (snd login) \<and>
         untouched ms ms1 \<and> ms_federator ms1 = ms_federator ms \<and>
         ms_events ms1 = ms_events ms @
           [agent_event ''mcp_request'' ''method'' ''tools/call'' agent,
            agent_event ''mcp_tool_call'' ''tool'' (tp_name p) agent] \<and>
         out = dispatch_call env mc agent (jq_id q) (tp_name p) (map_option (del ''_pop'') (tp_arguments p)) ms1)"
proof -
  obtain r bk where login: "authenticate_request (me_primitives env) (ce_now (mc_env mc)) header (task_view ms) = (r, bk)"
    by fastforce
  have kept: "untouched ms (set_tasks bk ms)" and view: "task_view (set_tasks bk ms) = bk"
    using untouched_login [OF login] by auto
  have fed: "ms_federator (set_tasks bk ms) = ms_federator ms" by (simp add: set_tasks_def)
  show ?thesis
  proof (cases "method = ''POST'' \<and> accepted_request method body \<noteq> None \<and> (\<exists>agent. r = Inr agent)")
    case False
    then have "snd (serve_http env mc method header body ms) \<in> {ms, set_tasks bk ms}"
      by (auto simp: served login split: sum.splits)
    then show ?thesis using kept fed by (auto simp: Let_def)
  next
    case True
    then obtain agent q where r: "r = Inr agent" and q: "accepted_request method body = Some q" and post: "method = ''POST''" by auto
    define ms0 where "ms0 = log_server (agent_event ''mcp_request'' ''method'' (jq_method q) agent) (set_tasks bk ms)"
    have out: "serve_http env mc method header body ms = route env mc agent q ms0"
      using login r q post by (simp add: served ms0_def)
    have ms0: "untouched ms ms0" "ms_federator ms0 = ms_federator ms" "task_view ms0 = bk"
      "ms_events ms0 = ms_events ms @ [agent_event ''mcp_request'' ''method'' (jq_method q) agent]"
      using kept view by (simp_all add: ms0_def) (simp_all add: log_server_def set_tasks_def task_view_def the_policy_def)
    consider "jq_method q = ''tools/call''" | "jq_method q = ''resources/read''"
      | "jq_method q \<notin> {''tools/call'', ''resources/read''}" by blast
    then show ?thesis
    proof cases
      case 1
      obtain reply ms' where call: "handle_tools_call env mc agent q ms0 = (reply, ms')" by fastforce
      have served: "serve_http env mc method header body ms = (reply, ms')" using out call 1 by (simp add: route_def)
      from call_mediated [OF call] show ?thesis
        using ms0 untouched_trans [OF ms0(1)] 1 q r by (fastforce simp: served login Let_def)
    next
      case 2
      then have "serve_http env mc method header body ms = handle_read env mc agent q ms0" by (simp add: out route_def)
      then show ?thesis using untouched_trans [OF ms0(1) untouched_read [of ms0 env mc agent q]] 2 q by (simp add: Let_def)
    next
      case 3
      then have "snd (serve_http env mc method header body ms) = ms0" by (simp add: out route_def)
      then show ?thesis using ms0 by (simp add: Let_def)
    qed
  qed
qed

end
