(* ===== verification/McpListing.thy ===== *)
theory McpListing
  imports McpServer
begin

text \<open>The listing of the tools and their dispatch agree.\<close>

section \<open>Missing arguments\<close>

lemma needed_missing: "get args key = None \<Longrightarrow> needed args key = Inl (MissingArg key)"
  by (simp add: needed_def get_string_arg_def)

lemma required_missing: "get args key = None \<Longrightarrow> required_arg args key = Inl (ArgRequired key)"
  by (simp add: required_arg_def get_string_arg_def)

lemma needed_cases: "(\<exists>e. needed args key = Inl e) \<or> (\<exists>s. needed args key = Inr s)"
  by (cases "needed args key") auto

lemma required_cases: "(\<exists>e. required_arg args key = Inl e) \<or> (\<exists>s. required_arg args key = Inr s)"
  by (cases "required_arg args key") auto

lemma exec_needs:
  assumes "key \<in> {''target'', ''role'', ''command''}" "get args key = None"
  shows "\<exists>e. tool_exec env fi now agent args xb = (Inl e, xb)"
  using assms needed_missing [of args key] needed_cases [of args "''target''"] needed_cases [of args "''role''"]
  by (auto simp: tool_exec_def)

lemma session_create_needs:
  assumes "key \<in> {''target'', ''role''}" "get args key = None"
  shows "\<exists>e. tool_session_create env now rnd agent args xb = (Inl e, xb)"
  using assms needed_missing [of args key] needed_cases [of args "''target''"]
  by (auto simp: tool_session_create_def)

lemma session_close_needs: "get args ''session_id'' = None \<Longrightarrow> \<exists>e. tool_session_close agent args xb = (Inl e, xb)"
  by (simp add: tool_session_close_def needed_missing)

lemma http_request_needs:
  "get args ''url'' = None \<Longrightarrow> http_request_tool_call env mc agent args ms = (HttpDone (Inl UrlMissing), ms)"
  by (simp add: http_request_tool_call_def tool_http_request_def needed_missing split: option.split)

lemma task_create_needs: "get args ''description'' = None \<Longrightarrow> \<exists>e. tool_task_create cr ce agent args bk = (Inl e, bk)"
  by (simp add: tool_task_create_def required_missing)

lemma task_delegate_needs:
  assumes "key \<in> {''parent_task_id'', ''description''}" "get args key = None"
  shows "\<exists>e. tool_task_delegate cr ce agent args bk = (Inl e, bk)"
  using assms required_missing [of args key] required_cases [of args "''parent_task_id''"]
  by (auto simp: tool_task_delegate_def)

lemma task_revoke_needs: "get args ''task_id'' = None \<Longrightarrow> \<exists>e. tool_task_revoke ce agent args bk = (Inl e, bk)"
  by (simp add: tool_task_revoke_def required_missing)

lemma no_holder_key: "get args ''holder_pub_key'' = None \<Longrightarrow> decode_holder_pub_key args = Inr []"
  by (simp add: decode_holder_pub_key_def get_string_arg_def)

lemma task_bind_needs:
  assumes "key \<in> {''task_id'', ''holder_pub_key''}" "get args key = None"
  shows "\<exists>e. tool_task_bind ce agent args bk = (Inl e, bk)"
  using assms required_missing [of args key] required_cases [of args "''task_id''"] no_holder_key [of args]
  by (auto simp: tool_task_bind_def)

lemmas tools_need = exec_needs session_create_needs session_close_needs http_request_needs task_create_needs
  task_delegate_needs task_revoke_needs task_bind_needs

section \<open>The listing\<close>

definition requirements :: "(string \<times> string) list" where
  "requirements = concat (map (\<lambda>td. map (Pair (td_name td)) (required_args td)) tool_definitions)"

lemma requirements_listed:
  "requirements =
    [(''exec'', ''target''), (''exec'', ''role''), (''exec'', ''command''), (''session_create'', ''target''),
     (''session_create'', ''role''), (''session_close'', ''session_id''), (''http_request'', ''url''),
     (''task_create'', ''description''), (''task_delegate'', ''parent_task_id''), (''task_delegate'', ''description''),
     (''task_revoke'', ''task_id''), (''task_bind'', ''task_id''), (''task_bind'', ''holder_pub_key'')]"
proof -
  have "requirements = concat (map (\<lambda>(n, ks). map (Pair n) ks) (map (\<lambda>td. (td_name td, required_args td)) tool_definitions))"
    by (simp only: requirements_def map_map o_def prod.case)
  then show ?thesis unfolding tool_requirements by simp
qed

lemma required_in: "td \<in> set tool_definitions \<Longrightarrow> key \<in> set (required_args td) \<Longrightarrow> (td_name td, key) \<in> set requirements"
  by (auto simp: requirements_def)

lemma refused_tool:
  "is_error (ExecDone (Inl e))" "is_error (SessionCreated (Inl e'))" "is_error (SessionClosed (Inl e''))"
  "is_error (HttpDone (Inl h))" "is_error (TaskIssued (Inl t))" "is_error (TaskRevoked (Inl t'))" "is_error (TaskBound (Inl t''))"
  by (simp_all add: is_error_def failed_def)

lemma handled_tool:
  "handle_tool_call env mc agent ''exec'' args ms =
     (case tool_exec (me_ssh env) (me_float_int env) (ce_now (mc_env mc)) agent args (ms_exec ms) of
        (r, xb) \<Rightarrow> (Some (ExecDone r), ms\<lparr>ms_exec := xb\<rparr>))"
  "handle_tool_call env mc agent ''session_create'' args ms =
     (case tool_session_create (me_ssh env) (ce_now (mc_env mc)) (mc_session mc) agent args (ms_exec ms) of
        (r, xb) \<Rightarrow> (Some (SessionCreated r), ms\<lparr>ms_exec := xb\<rparr>))"
  "handle_tool_call env mc agent ''session_close'' args ms =
     (case tool_session_close agent args (ms_exec ms) of (r, xb) \<Rightarrow> (Some (SessionClosed r), ms\<lparr>ms_exec := xb\<rparr>))"
  "handle_tool_call env mc agent ''http_request'' args ms =
     (case http_request_tool_call env mc agent args ms of (r, ms) \<Rightarrow> (Some r, ms))"
  "handle_tool_call env mc agent ''task_create'' args ms =
     (case tool_task_create (me_primitives env) (mc_env mc) agent args (task_view ms) of
        (r, bk) \<Rightarrow> (Some (TaskIssued r), set_tasks bk ms))"
  "handle_tool_call env mc agent ''task_delegate'' args ms =
     (case tool_task_delegate (me_primitives env) (mc_env mc) agent args (task_view ms) of
        (r, bk) \<Rightarrow> (Some (TaskIssued r), set_tasks bk ms))"
  "handle_tool_call env mc agent ''task_revoke'' args ms =
     (case tool_task_revoke (mc_env mc) agent args (task_view ms) of
        (r, bk) \<Rightarrow> (Some (TaskRevoked r), set_tasks bk ms))"
  "handle_tool_call env mc agent ''task_bind'' args ms =
     (case tool_task_bind (mc_env mc) agent args (task_view ms) of (r, bk) \<Rightarrow> (Some (TaskBound r), set_tasks bk ms))"
  by (simp_all add: handle_tool_call_def)

lemma listed_tool: "tool \<in> set (map td_name tool_definitions) \<Longrightarrow> fst (handle_tool_call env mc agent tool args ms) \<noteq> None"
  unfolding tool_names handle_tool_call_def Let_def
  by (simp only: list.set insert_iff empty_iff, elim disjE) (simp_all split: prod.split)

lemma unlisted_tool:
  assumes "tool \<notin> set (map td_name tool_definitions)"
  shows "handle_tool_call env mc agent tool args ms = (None, ms)"
proof -
  have "tool \<noteq> ''list_targets''" "tool \<noteq> ''exec''" "tool \<noteq> ''session_create''" "tool \<noteq> ''session_close''"
    "tool \<noteq> ''list_sessions''" "tool \<noteq> ''list_certs''" "tool \<noteq> ''http_request''" "tool \<noteq> ''list_services''"
    "tool \<noteq> ''list_remotes''" "tool \<noteq> ''task_create''" "tool \<noteq> ''task_delegate''" "tool \<noteq> ''task_info''"
    "tool \<noteq> ''task_revoke''" "tool \<noteq> ''task_list''" "tool \<noteq> ''task_bind''"
    using assms unfolding tool_names by auto
  then show ?thesis by (simp only: handle_tool_call_def Let_def if_False)
qed

definition refused :: "('k, 'c) mcp_env \<Rightarrow> mcp_call \<Rightarrow> mcp_agent \<Rightarrow> tool_args \<Rightarrow> ('k, 'c) mcp_server \<Rightarrow> string \<Rightarrow> bool" where
  "refused env mc agent args ms tool \<longleftrightarrow> (\<exists>a. handle_tool_call env mc agent tool args ms = (Some a, ms) \<and> is_error a)"

lemma refused_by:
  "\<exists>e. tool_exec (me_ssh env) (me_float_int env) (ce_now (mc_env mc)) agent args (ms_exec ms) = (Inl e, ms_exec ms) \<Longrightarrow>
     refused env mc agent args ms ''exec''"
  "\<exists>e. tool_session_create (me_ssh env) (ce_now (mc_env mc)) (mc_session mc) agent args (ms_exec ms) = (Inl e, ms_exec ms) \<Longrightarrow>
     refused env mc agent args ms ''session_create''"
  "\<exists>e. tool_session_close agent args (ms_exec ms) = (Inl e, ms_exec ms) \<Longrightarrow>
     refused env mc agent args ms ''session_close''"
  "\<exists>e. tool_task_create (me_primitives env) (mc_env mc) agent args (task_view ms) = (Inl e, task_view ms) \<Longrightarrow>
     refused env mc agent args ms ''task_create''"
  "\<exists>e. tool_task_delegate (me_primitives env) (mc_env mc) agent args (task_view ms) = (Inl e, task_view ms) \<Longrightarrow>
     refused env mc agent args ms ''task_delegate''"
  "\<exists>e. tool_task_revoke (mc_env mc) agent args (task_view ms) = (Inl e, task_view ms) \<Longrightarrow>
     refused env mc agent args ms ''task_revoke''"
  "\<exists>e. tool_task_bind (mc_env mc) agent args (task_view ms) = (Inl e, task_view ms) \<Longrightarrow>
     refused env mc agent args ms ''task_bind''"
  by (auto simp: refused_def handled_tool refused_tool)

lemma missing_refused:
  "get args ''target'' = None \<Longrightarrow> refused env mc agent args ms ''exec''"
  "get args ''role'' = None \<Longrightarrow> refused env mc agent args ms ''exec''"
  "get args ''command'' = None \<Longrightarrow> refused env mc agent args ms ''exec''"
  "get args ''target'' = None \<Longrightarrow> refused env mc agent args ms ''session_create''"
  "get args ''role'' = None \<Longrightarrow> refused env mc agent args ms ''session_create''"
  "get args ''session_id'' = None \<Longrightarrow> refused env mc agent args ms ''session_close''"
  "get args ''url'' = None \<Longrightarrow> refused env mc agent args ms ''http_request''"
  "get args ''description'' = None \<Longrightarrow> refused env mc agent args ms ''task_create''"
  "get args ''parent_task_id'' = None \<Longrightarrow> refused env mc agent args ms ''task_delegate''"
  "get args ''description'' = None \<Longrightarrow> refused env mc agent args ms ''task_delegate''"
  "get args ''task_id'' = None \<Longrightarrow> refused env mc agent args ms ''task_revoke''"
  "get args ''task_id'' = None \<Longrightarrow> refused env mc agent args ms ''task_bind''"
  "get args ''holder_pub_key'' = None \<Longrightarrow> refused env mc agent args ms ''task_bind''"
proof -
  show "refused env mc agent args ms ''exec''" if g: "get args ''target'' = None"
    by (rule refused_by) (rule exec_needs [OF _ g], simp)
  show "refused env mc agent args ms ''exec''" if g: "get args ''role'' = None"
    by (rule refused_by) (rule exec_needs [OF _ g], simp)
  show "refused env mc agent args ms ''exec''" if g: "get args ''command'' = None"
    by (rule refused_by) (rule exec_needs [OF _ g], simp)
  show "refused env mc agent args ms ''session_create''" if g: "get args ''target'' = None"
    by (rule refused_by) (rule session_create_needs [OF _ g], simp)
  show "refused env mc agent args ms ''session_create''" if g: "get args ''role'' = None"
    by (rule refused_by) (rule session_create_needs [OF _ g], simp)
  show "refused env mc agent args ms ''session_close''" if g: "get args ''session_id'' = None"
    by (rule refused_by) (rule session_close_needs [OF g])
  show "refused env mc agent args ms ''http_request''" if g: "get args ''url'' = None"
    by (simp add: refused_def handled_tool refused_tool http_request_needs [OF g])
  show "refused env mc agent args ms ''task_create''" if g: "get args ''description'' = None"
    by (rule refused_by) (rule task_create_needs [OF g])
  show "refused env mc agent args ms ''task_delegate''" if g: "get args ''parent_task_id'' = None"
    by (rule refused_by) (rule task_delegate_needs [OF _ g], simp)
  show "refused env mc agent args ms ''task_delegate''" if g: "get args ''description'' = None"
    by (rule refused_by) (rule task_delegate_needs [OF _ g], simp)
  show "refused env mc agent args ms ''task_revoke''" if g: "get args ''task_id'' = None"
    by (rule refused_by) (rule task_revoke_needs [OF g])
  show "refused env mc agent args ms ''task_bind''" if g: "get args ''task_id'' = None"
    by (rule refused_by) (rule task_bind_needs [OF _ g], simp)
  show "refused env mc agent args ms ''task_bind''" if g: "get args ''holder_pub_key'' = None"
    by (rule refused_by) (rule task_bind_needs [OF _ g], simp)
qed

text \<open>
  Claim C20. The broker answers exactly the tools it lists, and a call that leaves out an argument that
  the listed schema requires is answered with an error and changes nothing.
\<close>

theorem tools_as_listed:
  assumes "td \<in> set tool_definitions" and "key \<in> set (required_args td)" and "get args key = None"
  shows "(fst (handle_tool_call env mc agent tool args' ms) = None \<longleftrightarrow> tool \<notin> set (map td_name tool_definitions)) \<and>
    (\<exists>a. handle_tool_call env mc agent (td_name td) args ms = (Some a, ms) \<and> is_error a)"
proof
  show "fst (handle_tool_call env mc agent tool args' ms) = None \<longleftrightarrow> tool \<notin> set (map td_name tool_definitions)"
    using listed_tool [of tool env mc agent args' ms] unlisted_tool [of tool env mc agent args' ms] by auto
  have "(td_name td, key) \<in> set requirements" by (rule required_in [OF assms(1,2)])
  then have "refused env mc agent args ms (td_name td)"
    unfolding requirements_listed list.set insert_iff empty_iff prod.inject
    by (elim disjE conjE FalseE) (use assms(3) in \<open>simp_all only: missing_refused\<close>)
  then show "\<exists>a. handle_tool_call env mc agent (td_name td) args ms = (Some a, ms) \<and> is_error a"
    by (simp add: refused_def)
qed

theorem tools_as_listed_witness:
  "\<forall>(env :: (unit, unit) mcp_env) mc agent ms.
     fst (handle_tool_call env mc agent ''exec_stream'' [] ms) = None \<and>
     (\<exists>a. handle_tool_call env mc agent ''exec'' [(''target'', JStr ''web''), (''role'', JStr ''read'')] ms = (Some a, ms) \<and>
       is_error a)"
proof (intro allI)
  fix env :: "(unit, unit) mcp_env" and mc agent ms
  have exec: "exec_tool \<in> set tool_definitions" by (simp add: tool_definitions_def)
  have key: "''command'' \<in> set (required_args exec_tool)" by (simp add: required_args_def exec_tool_def required_def object_schema_def)
  have missing: "get [(''target'', JStr ''web''), (''role'', JStr ''read'')] ''command'' = None" by simp
  have name: "td_name exec_tool = ''exec''" by (simp add: exec_tool_def)
  show "fst (handle_tool_call env mc agent ''exec_stream'' [] ms) = None \<and>
     (\<exists>a. handle_tool_call env mc agent ''exec'' [(''target'', JStr ''web''), (''role'', JStr ''read'')] ms = (Some a, ms) \<and>
       is_error a)"
    using tools_as_listed [OF exec key missing, of env mc agent "''exec_stream''" "[]" ms] by (simp add: name tool_names)
qed

end
