(* ===== verification/Activity.thy ===== *)
theory Activity
  imports GoTime Encoding Prelude "HOL-Library.Word"
begin

text \<open>
  The activity store, \<open>internal/broker/activity.go\<close>: a ring of the latest actions of the agents with
  counters over all of them. The random identifier and the clock are arguments. The slots of the ring
  that were never written are \<open>None\<close>; the counters are 64 bits wide.
\<close>

section \<open>State\<close>

record activity_entry =
  ac_id :: string
  ac_timestamp :: time
  ac_agent :: string
  ac_type :: string
  ac_target :: string
  ac_role :: string
  ac_command :: string
  ac_url :: string
  ac_method :: string
  ac_service :: string
  ac_status_code :: int
  ac_duration_ms :: int
  ac_success :: bool
  ac_error :: string
  ac_details :: "(string, string) gomap"

record agent_stats =
  at_total_actions :: "64 word"
  at_total_exec :: "64 word"
  at_total_proxy :: "64 word"
  at_total_mcp :: "64 word"
  at_total_errors :: "64 word"
  at_last_active :: time
  at_last_target :: string
  at_last_action :: string

record activity_store =
  as_entries :: "activity_entry option list"
  as_capacity :: nat
  as_head :: nat
  as_count :: nat
  as_total_exec :: "64 word"
  as_total_proxy :: "64 word"
  as_total_mcp :: "64 word"
  as_total_errors :: "64 word"
  as_agent_stats :: "(string, agent_stats) gomap"

definition new_activity_store :: "int \<Rightarrow> activity_store" where
  "new_activity_store capacity =
     (let cap = (if capacity \<le> 0 then 10000 else nat capacity)
      in \<lparr>as_entries = replicate cap None, as_capacity = cap, as_head = 0, as_count = 0, as_total_exec = 0,
          as_total_proxy = 0, as_total_mcp = 0, as_total_errors = 0, as_agent_stats = []\<rparr>)"

section \<open>Recording\<close>

definition complete_entry :: "bytes \<Rightarrow> time \<Rightarrow> activity_entry \<Rightarrow> activity_entry" where
  "complete_entry rnd now e =
     e\<lparr>ac_id := (if ac_id e = [] then hex_encode rnd else ac_id e),
       ac_timestamp := (if ac_timestamp e = 0 then now else ac_timestamp e),
       ac_command := take 200 (ac_command e)\<rparr>"

definition no_stats :: agent_stats where
  "no_stats = \<lparr>at_total_actions = 0, at_total_exec = 0, at_total_proxy = 0, at_total_mcp = 0, at_total_errors = 0,
     at_last_active = 0, at_last_target = [], at_last_action = []\<rparr>"

definition one_if :: "bool \<Rightarrow> 64 word" where
  "one_if b = (if b then 1 else 0)"

definition count_entry :: "activity_entry \<Rightarrow> agent_stats \<Rightarrow> agent_stats" where
  "count_entry e st =
     st\<lparr>at_total_actions := at_total_actions st + 1,
        at_last_active := ac_timestamp e, at_last_target := ac_target e, at_last_action := ac_type e,
        at_total_exec := at_total_exec st + one_if (ac_type e = ''exec''),
        at_total_proxy := at_total_proxy st + one_if (ac_type e = ''http_proxy''),
        at_total_mcp := at_total_mcp st + one_if (ac_type e = ''mcp_call''),
        at_total_errors := at_total_errors st + one_if (\<not> ac_success e)\<rparr>"

definition record_entry :: "bytes \<Rightarrow> time \<Rightarrow> activity_entry \<Rightarrow> activity_store \<Rightarrow> activity_store" where
  "record_entry rnd now entry s =
     (let e = complete_entry rnd now entry;
          st = (case get (as_agent_stats s) (ac_agent e) of None \<Rightarrow> no_stats | Some st \<Rightarrow> st)
      in s\<lparr>as_entries := (as_entries s)[as_head s := Some e],
           as_head := (as_head s + 1) mod as_capacity s,
           as_count := (if as_count s < as_capacity s then as_count s + 1 else as_count s),
           as_total_exec := as_total_exec s + one_if (ac_type e = ''exec''),
           as_total_proxy := as_total_proxy s + one_if (ac_type e = ''http_proxy''),
           as_total_mcp := as_total_mcp s + one_if (ac_type e = ''mcp_call''),
           as_total_errors := as_total_errors s + one_if (\<not> ac_success e),
           as_agent_stats := put (ac_agent e) (count_entry e st) (as_agent_stats s)\<rparr>)"

section \<open>Queries\<close>

record activity_query =
  qy_agent :: string
  qy_type :: string
  qy_target :: string
  qy_service :: string
  qy_since :: time
  qy_until :: time
  qy_limit :: int
  qy_only_errors :: bool

definition query_limit :: "activity_query \<Rightarrow> nat" where
  "query_limit q = nat (let limit = (if qy_limit q \<le> 0 then 100 else qy_limit q) in if limit > 1000 then 1000 else limit)"

definition matches_query :: "activity_query \<Rightarrow> activity_entry \<Rightarrow> bool" where
  "matches_query q e \<longleftrightarrow>
     \<not> (qy_agent q \<noteq> [] \<and> ac_agent e \<noteq> qy_agent q) \<and>
     \<not> (qy_type q \<noteq> [] \<and> ac_type e \<noteq> qy_type q) \<and>
     \<not> (qy_target q \<noteq> [] \<and> ac_target e \<noteq> qy_target q \<and> ac_service e \<noteq> qy_target q) \<and>
     \<not> (qy_service q \<noteq> [] \<and> ac_service e \<noteq> qy_service q) \<and>
     \<not> (qy_since q \<noteq> 0 \<and> ac_timestamp e < qy_since q) \<and>
     \<not> (qy_until q \<noteq> 0 \<and> ac_timestamp e > qy_until q) \<and>
     \<not> (qy_only_errors q \<and> ac_success e)"

text \<open>
  The index of the i-th newest entry, and the loop over the ring from the newest: the first number
  counts the entries still to be looked at.
\<close>

definition ring_index :: "activity_store \<Rightarrow> nat \<Rightarrow> nat" where
  "ring_index s i = (as_head s + as_capacity s - 1 - i) mod as_capacity s"

fun scan_ring :: "(activity_entry \<Rightarrow> bool) \<Rightarrow> nat \<Rightarrow> activity_store \<Rightarrow> nat \<Rightarrow> activity_entry list \<Rightarrow> activity_entry list" where
  "scan_ring keep limit s 0 results = results"
| "scan_ring keep limit s (Suc n) results =
     (if length results \<ge> limit then results
      else (case as_entries s ! ring_index s (as_count s - Suc n) of
              None \<Rightarrow> scan_ring keep limit s n results
            | Some e \<Rightarrow> scan_ring keep limit s n (if keep e then results @ [e] else results)))"

definition query :: "activity_query \<Rightarrow> activity_store \<Rightarrow> activity_entry list" where
  "query q s = scan_ring (matches_query q) (query_limit q) s (as_count s) []"

definition no_query :: activity_query where
  "no_query = \<lparr>qy_agent = [], qy_type = [], qy_target = [], qy_service = [], qy_since = 0, qy_until = 0,
     qy_limit = 0, qy_only_errors = False\<rparr>"

definition recent :: "int \<Rightarrow> activity_store \<Rightarrow> activity_entry list" where
  "recent n s = query (no_query\<lparr>qy_limit := n\<rparr>) s"

definition agent_summary :: "string \<Rightarrow> activity_store \<Rightarrow> agent_stats option" where
  "agent_summary agent s = get (as_agent_stats s) agent"

section \<open>The summary\<close>

definition bump :: "string \<Rightarrow> (string, 64 word) gomap \<Rightarrow> (string, 64 word) gomap" where
  "bump k m = (if k = [] then m else put k ((case get m k of None \<Rightarrow> 0 | Some n \<Rightarrow> n) + 1) m)"

text \<open>Names that are used equally often come in the order of the map, which Go leaves open.\<close>

definition sorted_usage :: "(string, 64 word) gomap \<Rightarrow> nat \<Rightarrow> (string \<times> 64 word) list" where
  "sorted_usage counts n = take n (sort_key (\<lambda>(_, c). - sint c) counts)"

record activity_summary =
  sm_total_actions :: "64 word"
  sm_total_exec :: "64 word"
  sm_total_proxy :: "64 word"
  sm_total_mcp :: "64 word"
  sm_total_errors :: "64 word"
  sm_active_agents :: nat
  sm_agent_stats :: "(string, agent_stats) gomap"
  sm_recent_entries :: "activity_entry list"
  sm_top_targets :: "(string \<times> 64 word) list"
  sm_top_services :: "(string \<times> 64 word) list"

definition summary :: "activity_store \<Rightarrow> activity_summary" where
  "summary s =
     (let ring = scan_ring (\<lambda>_. True) (as_count s) s (as_count s) [];
          targets = fold (\<lambda>e. bump (ac_target e)) ring [];
          services = fold (\<lambda>e. bump (ac_service e)) ring []
      in \<lparr>sm_total_actions = sum_list (map (\<lambda>(_, st). at_total_actions st) (as_agent_stats s)),
          sm_total_exec = as_total_exec s, sm_total_proxy = as_total_proxy s, sm_total_mcp = as_total_mcp s,
          sm_total_errors = as_total_errors s, sm_active_agents = length (as_agent_stats s),
          sm_agent_stats = as_agent_stats s,
          sm_recent_entries = scan_ring (\<lambda>_. True) 20 s (as_count s) [],
          sm_top_targets = sorted_usage targets 10, sm_top_services = sorted_usage services 10\<rparr>)"

section \<open>The ring holds the latest entries\<close>

text \<open>The entries as recorded, oldest first.\<close>

definition newest :: "nat \<Rightarrow> activity_entry list \<Rightarrow> activity_entry list" where
  "newest cap h = take cap (rev h)"

definition ring_holds :: "activity_entry list \<Rightarrow> activity_store \<Rightarrow> bool" where
  "ring_holds h s \<longleftrightarrow>
     as_capacity s > 0 \<and> length (as_entries s) = as_capacity s \<and> as_head s = length h mod as_capacity s \<and>
     as_count s = min (length h) (as_capacity s) \<and>
     (\<forall>i < as_count s. as_entries s ! ring_index s i = Some (rev h ! i))"

lemma ring_index_alt:
  assumes "as_capacity s > 0" "i < as_capacity s" "as_head s < as_capacity s"
  shows "ring_index s i = (if i < as_head s then as_head s - 1 - i else as_head s + as_capacity s - 1 - i)"
proof (cases "i < as_head s")
  case True
  then have sum: "as_head s + as_capacity s - 1 - i = (as_head s - 1 - i) + as_capacity s" by simp
  have "as_head s - 1 - i < as_capacity s" using assms(3) by simp
  then have "ring_index s i = as_head s - 1 - i" by (simp only: ring_index_def sum mod_add_self2 mod_less)
  then show ?thesis using True by simp
next
  case False
  then show ?thesis using assms by (simp add: ring_index_def)
qed

lemma holds_record:
  assumes "ring_holds h s"
  shows "ring_holds (h @ [complete_entry rnd now e]) (record_entry rnd now e s)"
proof -
  define s' where "s' = record_entry rnd now e s"
  define x where "x = complete_entry rnd now e"
  define c where "c = as_capacity s"
  have c: "c > 0" "length (as_entries s) = c" and head: "as_head s = length h mod c" and count: "as_count s = min (length h) c"
    and old: "\<And>i. i < as_count s \<Longrightarrow> as_entries s ! ring_index s i = Some (rev h ! i)"
    using assms by (auto simp: ring_holds_def c_def)
  have hd: "as_head s < c" using c head by simp
  have s': "as_capacity s' = c" "as_entries s' = (as_entries s)[as_head s := Some x]" "as_head s' = (as_head s + 1) mod c"
    "as_count s' = (if as_count s < c then as_count s + 1 else as_count s)"
    by (simp_all add: s'_def record_entry_def x_def c_def Let_def)
  have hd': "as_head s' = length (h @ [x]) mod c" by (simp add: s' head mod_Suc_eq)
  have count': "as_count s' = min (length (h @ [x])) c" using count by (auto simp: s')
  have "as_entries s' ! ring_index s' i = Some (rev (h @ [x]) ! i)" if i: "i < as_count s'" for i
  proof (cases i)
    case 0
    have "ring_index s' 0 = as_head s"
      using hd c by (cases "as_head s + 1 = c") (simp_all add: ring_index_def s')
    then show ?thesis using 0 hd c by (simp add: s')
  next
    case (Suc j)
    have j: "j < as_count s" "j + 1 < c" using i count count' Suc by auto
    have "ring_index s' i = ring_index s j"
    proof (cases "as_head s + 1 = c")
      case True
      then have "as_head s' = 0" by (simp add: s')
      moreover have "j < as_head s" using True j by simp
      ultimately show ?thesis
        using ring_index_alt [of s j] ring_index_alt [of s' i] True j Suc hd c by (simp add: s' c_def [symmetric])
    next
      case False
      then have "as_head s' = as_head s + 1" using hd by (simp add: s')
      then show ?thesis using Suc by (simp add: ring_index_def s' c_def [symmetric])
    qed
    moreover have "ring_index s j \<noteq> as_head s"
      using ring_index_alt [of s j] j hd c by (auto simp: c_def)
    moreover have "rev (h @ [x]) ! i = rev h ! j" using Suc by simp
    ultimately show ?thesis using old [OF j(1)] by (simp add: s')
  qed
  then show ?thesis using c hd' count' s' unfolding ring_holds_def s'_def x_def by simp
qed

lemma holds_new: "ring_holds [] (new_activity_store cap)"
  by (simp add: ring_holds_def new_activity_store_def Let_def)

lemma scan_holds:
  assumes "ring_holds h s" "n \<le> as_count s"
  shows "scan_ring keep limit s n results =
    (if length results \<ge> limit then results
     else take limit (results @ filter keep (drop (as_count s - n) (newest (as_capacity s) h))))"
  using assms(2)
proof (induction n arbitrary: results)
  case 0
  have "length (newest (as_capacity s) h) = as_count s" using assms(1) by (auto simp: newest_def ring_holds_def)
  then show ?case by simp
next
  case (Suc n)
  have len: "length (newest (as_capacity s) h) = as_count s" using assms(1) by (auto simp: newest_def ring_holds_def)
  let ?i = "as_count s - Suc n"
  have i: "?i < as_count s" "Suc ?i = as_count s - n" using Suc.prems by auto
  then have e: "as_entries s ! ring_index s ?i = Some (newest (as_capacity s) h ! ?i)"
    using assms(1) len unfolding ring_holds_def newest_def by simp
  have d: "drop ?i (newest (as_capacity s) h) = newest (as_capacity s) h ! ?i # drop (as_count s - n) (newest (as_capacity s) h)"
    using i len Cons_nth_drop_Suc [of ?i "newest (as_capacity s) h"] by simp
  show ?case using Suc.IH [of results] Suc.IH [of "results @ [newest (as_capacity s) h ! ?i]"] Suc.prems
    by (auto simp: e d not_le take_Cons')
qed

section \<open>Runs\<close>

type_synonym recording = "bytes \<times> time \<times> activity_entry"

definition record_all :: "recording list \<Rightarrow> activity_store \<Rightarrow> activity_store" where
  "record_all rs s = fold (\<lambda>(rnd, now, e). record_entry rnd now e) rs s"

definition history :: "recording list \<Rightarrow> activity_entry list" where
  "history rs = map (\<lambda>(rnd, now, e). complete_entry rnd now e) rs"

lemma record_all_snoc:
  "record_all (rs @ [(rnd, now, e)]) s = record_entry rnd now e (record_all rs s)"
  "history (rs @ [(rnd, now, e)]) = history rs @ [complete_entry rnd now e]"
  by (simp_all add: record_all_def history_def)

definition tally :: "(activity_entry \<Rightarrow> bool) \<Rightarrow> activity_entry list \<Rightarrow> 64 word" where
  "tally p h = of_nat (length (filter p h))"

lemma tally_snoc [simp]: "tally p (h @ [e]) = tally p h + one_if (p e)" "tally p [] = 0"
  by (simp_all add: tally_def one_if_def)

definition stats_of :: "string \<Rightarrow> activity_entry list \<Rightarrow> agent_stats option" where
  "stats_of agent h =
     (let mine = filter (\<lambda>e. ac_agent e = agent) h
      in if mine = [] then None
         else Some \<lparr>at_total_actions = tally (\<lambda>_. True) mine, at_total_exec = tally (\<lambda>e. ac_type e = ''exec'') mine,
                    at_total_proxy = tally (\<lambda>e. ac_type e = ''http_proxy'') mine,
                    at_total_mcp = tally (\<lambda>e. ac_type e = ''mcp_call'') mine,
                    at_total_errors = tally (\<lambda>e. \<not> ac_success e) mine,
                    at_last_active = ac_timestamp (last mine), at_last_target = ac_target (last mine),
                    at_last_action = ac_type (last mine)\<rparr>)"

lemma stats_snoc:
  "stats_of agent (h @ [e]) =
     (if ac_agent e = agent
      then Some (count_entry e (case stats_of agent h of None \<Rightarrow> no_stats | Some st \<Rightarrow> st))
      else stats_of agent h)"
proof (cases "filter (\<lambda>e. ac_agent e = agent) h = []")
  case True
  then show ?thesis by (simp add: stats_of_def count_entry_def no_stats_def one_if_def tally_def)
next
  case False
  then show ?thesis by (simp add: stats_of_def count_entry_def Let_def one_if_def)
qed

lemma run_holds:
  "ring_holds (history rs) (record_all rs (new_activity_store cap)) \<and>
   as_capacity (record_all rs (new_activity_store cap)) = (if cap \<le> 0 then 10000 else nat cap) \<and>
   (\<forall>agent. agent_summary agent (record_all rs (new_activity_store cap)) = stats_of agent (history rs))"
proof (induction rs rule: rev_induct)
  case Nil
  show ?case using holds_new [of cap]
    by (simp add: record_all_def history_def agent_summary_def stats_of_def new_activity_store_def Let_def)
next
  case (snoc r rs)
  obtain rnd now e where r: "r = (rnd, now, e)" by (cases r)
  have kept: "as_capacity (record_entry rnd now e s) = as_capacity s" for s by (simp add: record_entry_def Let_def)
  have "agent_summary agent (record_entry rnd now e s) =
      (if ac_agent (complete_entry rnd now e) = agent
       then Some (count_entry (complete_entry rnd now e) (case agent_summary agent s of None \<Rightarrow> no_stats | Some st \<Rightarrow> st))
       else agent_summary agent s)" for agent s
    by (auto simp: agent_summary_def record_entry_def Let_def)
  then show ?case using snoc holds_record [of "history rs" _ rnd now e] by (simp add: r record_all_snoc kept stats_snoc)
qed

text \<open>
  Claim C25. Whatever has been recorded, a query answers as if the store kept the whole history and
  looked at the latest entries of it, as many as its capacity: the newest matching ones first, up to
  the limit. The statistics of an agent count all it ever did, modulo 2 to the 64, also what the
  ring has overwritten.
\<close>

theorem ring_refines_history:
  "let s = record_all rs (new_activity_store cap); h = history rs;
       capacity = (if cap \<le> 0 then 10000 else nat cap)
   in query q s = take (query_limit q) (filter (matches_query q) (take capacity (rev h))) \<and>
      sm_recent_entries (summary s) = take 20 (take capacity (rev h)) \<and>
      agent_summary agent s = stats_of agent h"
proof -
  let ?s = "record_all rs (new_activity_store cap)"
  note run = run_holds [of rs cap]
  have holds: "ring_holds (history rs) ?s" using run by simp
  have "query_limit q > 0" by (simp add: query_limit_def Let_def)
  then have "query q ?s = take (query_limit q) (filter (matches_query q) (newest (as_capacity ?s) (history rs)))"
    by (simp add: query_def scan_holds [OF holds order_refl])
  moreover have "sm_recent_entries (summary ?s) = take 20 (newest (as_capacity ?s) (history rs))"
    by (simp add: summary_def Let_def scan_holds [OF holds order_refl])
  ultimately show ?thesis using run by (simp add: Let_def newest_def)
qed

end
