(* ===== verification/HostConfigs.thy ===== *)
theory HostConfigs
  imports GoTime PolicyTypes
begin

text \<open>
  The host configurations of the dashboard, \<open>ConfigManager\<close> of \<open>internal/broker/config.go\<close>, with the
  file they are kept in. The JSON library is an argument, as is whether the file could be written. A map
  read from a file that says \<open>null\<close> is nil, which the state keeps as \<open>None\<close>; a write to it panics.
\<close>

section \<open>State\<close>

record host_config =
  hc_name :: string
  hc_host :: string
  hc_port :: int
  hc_vlan :: int
  hc_ssh_user :: string
  hc_ssh_key_path :: string
  hc_ssh_password :: string
  hc_allowed_roles :: "string list"
  hc_max_ttl :: string
  hc_default_ttl :: string
  hc_auto_approve :: bool
  hc_description :: string
  hc_os :: string

type_synonym host_configs = "(string, host_config) gomap"

text \<open>\<open>cm_file\<close> is \<open>None\<close> while there is no file.\<close>

record config_manager =
  cm_configs :: "host_configs option"
  cm_file :: "bytes option"

text \<open>What \<open>json.Unmarshal\<close> makes of the file: an error, or a map that may be nil.\<close>

record config_json =
  cj_marshal :: "host_configs option \<Rightarrow> bytes"
  cj_unmarshal :: "bytes \<Rightarrow> host_configs option option"

datatype host_config_error =
    HostHasWhitespace string
  | PortOutOfRange int
  | VlanOutOfRange int
  | BadMaxTtl string
  | BadDefaultTtl string
  | ConfigNotSaved
  | HostConfigUnknown string
  | NilMapPanic

definition configs_of :: "config_manager \<Rightarrow> host_configs" where
  "configs_of cm = (case cm_configs cm of None \<Rightarrow> [] | Some m \<Rightarrow> m)"

section \<open>Reading and writing the file\<close>

definition load_configs :: "config_json \<Rightarrow> config_manager \<Rightarrow> bool \<times> config_manager" where
  "load_configs cj cm =
     (case cm_file cm of
        None \<Rightarrow> (True, cm)
      | Some data \<Rightarrow>
          (case cj_unmarshal cj data of
             None \<Rightarrow> (False, cm)
           | Some m \<Rightarrow> (True, cm\<lparr>cm_configs := m\<rparr>)))"

definition new_config_manager :: "config_json \<Rightarrow> bytes option \<Rightarrow> config_manager" where
  "new_config_manager cj file = snd (load_configs cj \<lparr>cm_configs = Some [], cm_file = file\<rparr>)"

definition save_configs :: "config_json \<Rightarrow> bool \<Rightarrow> config_manager \<Rightarrow> host_config_error option \<times> config_manager" where
  "save_configs cj written cm =
     (if written then (None, cm\<lparr>cm_file := Some (cj_marshal cj (cm_configs cm))\<rparr>) else (Some ConfigNotSaved, cm))"

section \<open>Operations\<close>

definition redact_host_config :: "host_config \<Rightarrow> host_config" where
  "redact_host_config c = (if hc_ssh_password c \<noteq> [] then c\<lparr>hc_ssh_password := ''***''\<rparr> else c)"

definition get_config :: "string \<Rightarrow> config_manager \<Rightarrow> host_config option" where
  "get_config name cm = map_option redact_host_config (get (configs_of cm) name)"

definition get_all_configs :: "config_manager \<Rightarrow> host_config list" where
  "get_all_configs cm = map (\<lambda>(_, c). redact_host_config c) (configs_of cm)"

text \<open>An address has no whitespace, so whether the host is one makes no difference to this check.\<close>

definition validate_host_config :: "host_config \<Rightarrow> host_config_error option" where
  "validate_host_config c =
     (if hc_host c \<noteq> [] \<and> list_ex (\<lambda>x. x \<in> {CHR '' '', CHR 0x09, CHR 0x0A}) (hc_host c)
      then Some (HostHasWhitespace (hc_host c))
      else if hc_port c \<noteq> 0 \<and> (hc_port c < 1 \<or> hc_port c > 65535) then Some (PortOutOfRange (hc_port c))
      else if hc_vlan c \<noteq> 0 \<and> (hc_vlan c < 1 \<or> hc_vlan c > 4094) then Some (VlanOutOfRange (hc_vlan c))
      else if hc_max_ttl c \<noteq> [] \<and> parse_duration (hc_max_ttl c) = None then Some (BadMaxTtl (hc_max_ttl c))
      else if hc_default_ttl c \<noteq> [] \<and> parse_duration (hc_default_ttl c) = None then
        Some (BadDefaultTtl (hc_default_ttl c))
      else None)"

definition merge_config :: "host_config \<Rightarrow> host_config \<Rightarrow> host_config" where
  "merge_config dst update =
     dst\<lparr>hc_host := (if hc_host update \<noteq> [] then hc_host update else hc_host dst),
         hc_port := (if hc_port update > 0 then hc_port update else hc_port dst),
         hc_vlan := (if hc_vlan update > 0 then hc_vlan update else hc_vlan dst),
         hc_ssh_user := (if hc_ssh_user update \<noteq> [] then hc_ssh_user update else hc_ssh_user dst),
         hc_ssh_key_path := (if hc_ssh_key_path update \<noteq> [] then hc_ssh_key_path update else hc_ssh_key_path dst),
         hc_ssh_password := (if hc_ssh_password update \<noteq> [] then hc_ssh_password update else hc_ssh_password dst),
         hc_allowed_roles := (if hc_allowed_roles update \<noteq> [] then hc_allowed_roles update else hc_allowed_roles dst),
         hc_max_ttl := (if hc_max_ttl update \<noteq> [] then hc_max_ttl update else hc_max_ttl dst),
         hc_default_ttl := (if hc_default_ttl update \<noteq> [] then hc_default_ttl update else hc_default_ttl dst),
         hc_auto_approve := hc_auto_approve update,
         hc_description := (if hc_description update \<noteq> [] then hc_description update else hc_description dst),
         hc_os := (if hc_os update \<noteq> [] then hc_os update else hc_os dst)\<rparr>"

definition update_config ::
    "config_json \<Rightarrow> bool \<Rightarrow> string \<Rightarrow> host_config \<Rightarrow> config_manager \<Rightarrow> host_config_error option \<times> config_manager" where
  "update_config cj written name update cm =
     (case validate_host_config update of
        Some e \<Rightarrow> (Some e, cm)
      | None \<Rightarrow>
          (case cm_configs cm of
             None \<Rightarrow> (Some NilMapPanic, cm)
           | Some m \<Rightarrow>
               let c = (case get m name of None \<Rightarrow> update\<lparr>hc_name := name\<rparr> | Some old \<Rightarrow> merge_config old update)
               in save_configs cj written (cm\<lparr>cm_configs := Some (put name c m)\<rparr>)))"

definition delete_config ::
    "config_json \<Rightarrow> bool \<Rightarrow> string \<Rightarrow> config_manager \<Rightarrow> host_config_error option \<times> config_manager" where
  "delete_config cj written name cm =
     (if get (configs_of cm) name = None then (Some (HostConfigUnknown name), cm)
      else save_configs cj written (cm\<lparr>cm_configs := Some (del name (configs_of cm))\<rparr>))"

section \<open>Reconciliation with the policy\<close>

definition policy_port :: "target_policy \<Rightarrow> int" where
  "policy_port t = (if tg_port t = 0 then 22 else tg_port t)"

text \<open>The fields for which the policy is authoritative.\<close>

definition reconcile :: "target_policy \<Rightarrow> host_config \<Rightarrow> host_config" where
  "reconcile t c =
     c\<lparr>hc_host := tg_host t, hc_port := policy_port t, hc_vlan := tg_vlan t, hc_allowed_roles := tg_allowed_roles t,
       hc_max_ttl := tg_max_ttl t, hc_auto_approve := tg_auto_approve t, hc_description := tg_description t\<rparr>"

definition config_of_target :: "string \<Rightarrow> target_policy \<Rightarrow> host_config" where
  "config_of_target name t =
     \<lparr>hc_name = name, hc_host = tg_host t, hc_port = policy_port t, hc_vlan = tg_vlan t, hc_ssh_user = [],
      hc_ssh_key_path = [], hc_ssh_password = [], hc_allowed_roles = tg_allowed_roles t, hc_max_ttl = tg_max_ttl t,
      hc_default_ttl = [], hc_auto_approve = tg_auto_approve t, hc_description = tg_description t, hc_os = []\<rparr>"

text \<open>One turn of the loop over the targets: the map so far, and whether anything changed.\<close>

definition reconcile_one :: "string \<times> target_policy \<Rightarrow> host_configs \<times> bool \<Rightarrow> host_configs \<times> bool" where
  "reconcile_one = (\<lambda>(name, t) (m, changed).
     case get m name of
       None \<Rightarrow> (put name (config_of_target name t) m, True)
     | Some c \<Rightarrow> (put name (reconcile t c) m, changed \<or> reconcile t c \<noteq> c))"

definition init_from_policy ::
    "config_json \<Rightarrow> bool \<Rightarrow> (string, target_policy) gomap \<Rightarrow> config_manager \<Rightarrow> host_config_error option \<times> config_manager" where
  "init_from_policy cj written targets cm =
     (case cm_configs cm of
        None \<Rightarrow> if targets = [] then (None, cm) else (Some NilMapPanic, cm)
      | Some m \<Rightarrow>
          (case fold reconcile_one targets (m, False) of
             (m, changed) \<Rightarrow>
               let cm = cm\<lparr>cm_configs := Some m\<rparr>
               in (None, if changed then snd (save_configs cj written cm) else cm)))"

section \<open>What the policy fixes and what it leaves\<close>

lemma reconcile_fold:
  assumes "distinct (map fst targets)"
  shows "get (fst (fold reconcile_one targets (m, ch))) name =
    (case map_of targets name of
       None \<Rightarrow> get m name
     | Some t \<Rightarrow> Some (case get m name of None \<Rightarrow> config_of_target name t | Some c \<Rightarrow> reconcile t c))"
  using assms
proof (induction targets arbitrary: m ch)
  case Nil
  then show ?case by simp
next
  case (Cons x targets)
  obtain k t where x: "x = (k, t)" by (cases x)
  obtain m' ch' where one: "reconcile_one x (m, ch) = (m', ch')" by fastforce
  have m': "get m' name = (if name = k then Some (case get m k of None \<Rightarrow> config_of_target k t | Some c \<Rightarrow> reconcile t c) else get m name)"
    using one by (auto simp: x reconcile_one_def split: option.splits)
  have k: "map_of targets k = None" using Cons.prems by (simp add: x map_of_eq_None_iff)
  have "fold reconcile_one (x # targets) (m, ch) = fold reconcile_one targets (m', ch')" by (simp add: one)
  then show ?case using Cons.IH [of m' ch'] Cons.prems k m' by (auto simp: x split: option.split)
qed

lemma unchanged_fold: "snd (fold reconcile_one targets (m, ch)) = False \<Longrightarrow> ch = False"
  by (induction targets arbitrary: m ch) (fastforce simp: reconcile_one_def split: option.splits prod.splits)+

text \<open>
  After start the configuration of every target of the policy has the address, port, roles,
  lifetime, approval and description of the policy; what the dashboard added to it, the login data
  among it, stays, and so do all hosts that the policy does not name. No password leaves the manager:
  what it hands out is the same for any two nonempty passwords.
\<close>

theorem policy_wins_and_secrets_stay:
  assumes "distinct (map fst targets)"
  shows "(let cm' = snd (init_from_policy cj written targets (cm\<lparr>cm_configs := Some m\<rparr>)) in
      get (configs_of cm') name =
        (case map_of targets name of
           None \<Rightarrow> get m name
         | Some t \<Rightarrow> Some (case get m name of None \<Rightarrow> config_of_target name t | Some c \<Rightarrow> reconcile t c))) \<and>
    (p \<noteq> [] \<and> q \<noteq> [] \<and> get m host = Some c \<longrightarrow>
       get_config host (cm\<lparr>cm_configs := Some (put host (c\<lparr>hc_ssh_password := p\<rparr>) m)\<rparr>) =
       get_config host (cm\<lparr>cm_configs := Some (put host (c\<lparr>hc_ssh_password := q\<rparr>) m)\<rparr>))"
proof -
  obtain m' ch where f: "fold reconcile_one targets (m, False) = (m', ch)" by fastforce
  have "configs_of (snd (init_from_policy cj written targets (cm\<lparr>cm_configs := Some m\<rparr>))) = m'"
    by (simp add: init_from_policy_def f Let_def configs_of_def save_configs_def)
  then show ?thesis
    using reconcile_fold [OF assms, of m False name] f
    by (simp add: Let_def get_config_def configs_of_def redact_host_config_def)
qed

end
