(* ===== verification/DashboardViews.thy ===== *)
theory DashboardViews
  imports McpServer HostConfigs
begin

text \<open>
  What the dashboard shows of the broker's state: the reading half of \<open>internal/broker/dashboard.go\<close>.
  Durations that the code reports as seconds in floating point stay durations.
\<close>

section \<open>Hosts\<close>

record dash_host =
  dh_name :: string
  dh_host :: string
  dh_vlan :: int
  dh_access_enabled :: bool
  dh_active_sessions :: nat
  dh_description :: string
  dh_allowed_roles :: "string list"
  dh_port :: int
  dh_auto_approve :: bool
  dh_pinned :: bool
  dh_command_filter :: bool
  dh_command_deny :: "string list"
  dh_command_allow :: "string list"
  dh_auto_revoke :: bool

definition certs_of :: "('k, 'c) mcp_server \<Rightarrow> active_cert list" where
  "certs_of ms = list_all_certs (cb_state (xb_broker (ms_exec ms)))"

definition hosts_of :: "('k, 'c) mcp_server \<Rightarrow> host_states" where
  "hosts_of ms = cb_hosts (xb_broker (ms_exec ms))"

definition session_count :: "string \<Rightarrow> ('k, 'c) mcp_server \<Rightarrow> nat" where
  "session_count target ms = length (filter (\<lambda>c. av_target c = target) (certs_of ms))"

definition policy_host :: "('k, 'c) mcp_server \<Rightarrow> string \<times> target_policy \<Rightarrow> dash_host" where
  "policy_host ms = (\<lambda>(name, t).
     let filtered = tg_command_filter t
     in \<lparr>dh_name = name, dh_host = tg_host t, dh_vlan = tg_vlan t, dh_access_enabled = host_is_enabled (hosts_of ms) name,
         dh_active_sessions = session_count name ms, dh_description = tg_description t,
         dh_allowed_roles = tg_allowed_roles t, dh_port = policy_port t, dh_auto_approve = tg_auto_approve t,
         dh_pinned = (get (rc_target_host_keys (the_policy ms)) name \<noteq> None), dh_command_filter = filtered,
         dh_command_deny = (if filtered then tg_command_deny t else []),
         dh_command_allow = (if filtered then tg_command_allow t else []),
         dh_auto_revoke = (filtered \<and> tg_auto_revoke_on_deny t)\<rparr>)"

text \<open>A host that only the dashboard knows is shown as enabled.\<close>

definition dynamic_host :: "('k, 'c) mcp_server \<Rightarrow> host_config \<Rightarrow> dash_host" where
  "dynamic_host ms c =
     \<lparr>dh_name = hc_name c, dh_host = hc_host c, dh_vlan = hc_vlan c, dh_access_enabled = True,
      dh_active_sessions = session_count (hc_name c) ms, dh_description = hc_description c,
      dh_allowed_roles = hc_allowed_roles c, dh_port = (if hc_port c = 0 then 22 else hc_port c),
      dh_auto_approve = hc_auto_approve c, dh_pinned = False, dh_command_filter = False, dh_command_deny = [],
      dh_command_allow = [], dh_auto_revoke = False\<rparr>"

definition dash_hosts :: "config_manager option \<Rightarrow> ('k, 'c) mcp_server \<Rightarrow> dash_host list" where
  "dash_hosts cm ms =
     (let targets = cfg_targets (rc_raw (the_policy ms))
      in map (policy_host ms) targets @
         (case cm of
            None \<Rightarrow> []
          | Some cm \<Rightarrow>
              map (dynamic_host ms) (filter (\<lambda>c. get targets (hc_name c) = None) (get_all_configs cm))))"

section \<open>Sessions\<close>

datatype session_status = SessionActive | SessionExpired | SessionRevoked | SessionSuspended

record dash_session =
  ds_serial :: string
  ds_agent :: string
  ds_target :: string
  ds_type :: grant_type
  ds_role :: string
  ds_principal :: string
  ds_cert_ttl :: int
  ds_max_ttl :: int
  ds_issued_at :: string
  ds_expires_at :: string
  ds_status :: session_status

definition remaining_seconds :: "time \<Rightarrow> time \<Rightarrow> int" where
  "remaining_seconds now expires = (let d = expires - now in if d < 0 then 0 else d div second)"

definition cert_session :: "time \<Rightarrow> int \<Rightarrow> ('k, 'c) mcp_server \<Rightarrow> active_cert \<Rightarrow> dash_session" where
  "cert_session now tz ms c =
     (let rc = the_policy ms;
          max_ttl = (case get (rc_target_max_ttls rc) (av_target c) of None \<Rightarrow> rc_global_max_ttl rc | Some t \<Rightarrow> t)
      in \<lparr>ds_serial = av_serial c, ds_agent = av_agent_name c, ds_target = av_target c, ds_type = SSHCert,
          ds_role = av_role c, ds_principal = av_principal c, ds_cert_ttl = remaining_seconds now (av_expires_at c),
          ds_max_ttl = max_ttl div second, ds_issued_at = format_rfc3339 tz (av_issued_at c),
          ds_expires_at = format_rfc3339 tz (av_expires_at c),
          ds_status = (if now > av_expires_at c then SessionExpired
                       else if \<not> host_is_enabled (hosts_of ms) (av_target c) then SessionSuspended
                       else SessionActive)\<rparr>)"

definition backing_disabled :: "('k, 'c) mcp_server \<Rightarrow> access_grant \<Rightarrow> bool" where
  "backing_disabled ms g =
     (case ag_type g of
        Service \<Rightarrow>
          (case ms_proxy ms of
             None \<Rightarrow> False
           | Some px \<Rightarrow> (case get_service (ag_target g) px of None \<Rightarrow> False | Some s \<Rightarrow> sv_enabled s = Some False))
      | MCP \<Rightarrow>
          (case ms_federator ms of
             None \<Rightarrow> False
           | Some (fed, _) \<Rightarrow>
               (case get fed (ag_target g) of None \<Rightarrow> False | Some st \<Rightarrow> \<not> rm_enabled (rt_config st)))
      | SSHCert \<Rightarrow> False)"

definition grant_session :: "time \<Rightarrow> int \<Rightarrow> ('k, 'c) mcp_server \<Rightarrow> grant_store \<Rightarrow> access_grant \<Rightarrow> dash_session" where
  "grant_session now tz ms gs g =
     (let detail = (\<lambda>k. case get (ag_details g) k of None \<Rightarrow> [] | Some v \<Rightarrow> v)
      in \<lparr>ds_serial = ag_id g, ds_agent = ag_agent g, ds_target = ag_target g, ds_type = ag_type g,
          ds_role = detail ''role'', ds_principal = detail ''auth_type'',
          ds_cert_ttl = remaining_seconds now (ag_expires_at g),
          ds_max_ttl = (case ag_type g of Service \<Rightarrow> gs_service_ttl gs div second | MCP \<Rightarrow> gs_mcp_ttl gs div second | SSHCert \<Rightarrow> 300),
          ds_issued_at = format_rfc3339 tz (ag_issued_at g), ds_expires_at = format_rfc3339 tz (ag_expires_at g),
          ds_status = (if ag_status g = Revoked then SessionRevoked
                       else if now > ag_expires_at g then SessionExpired
                       else if backing_disabled ms g then SessionSuspended
                       else SessionActive)\<rparr>)"

definition dash_sessions :: "time \<Rightarrow> int \<Rightarrow> ('k, 'c) mcp_server \<Rightarrow> dash_session list" where
  "dash_sessions now tz ms =
     map (cert_session now tz ms) (certs_of ms) @
     (case the_grants ms of None \<Rightarrow> [] | Some gs \<Rightarrow> map (grant_session now tz ms gs) (list_all_grants gs))"

section \<open>Summary\<close>

record dash_summary =
  dy_uptime :: string
  dy_signer_ok :: bool
  dy_active_certs :: nat
  dy_pending :: nat
  dy_total_granted :: "64 word"
  dy_total_denied :: "64 word"
  dy_agents_active :: nat
  dy_hosts_online :: nat
  dy_hosts_enabled :: nat
  dy_active_grants :: nat
  dy_grant_mode :: "grant_mode option"
  dy_tasks_active :: nat
  dy_tasks_delegated :: nat

definition format_uptime :: "duration \<Rightarrow> string" where
  "format_uptime d =
     (let h = d div hour; days = h div 24; hours = h mod 24; minutes = d div (60 * second) mod 60
      in if days > 0 then itoa days @ ''d '' @ itoa hours @ ''h''
         else if hours > 0 then itoa hours @ ''h '' @ itoa minutes @ ''m''
         else itoa minutes @ ''m'')"

definition dash_summary_of ::
    "(sign_request \<Rightarrow> sign_response option) \<Rightarrow> time \<Rightarrow> time \<Rightarrow> ('k, 'c) mcp_server \<Rightarrow> dash_summary" where
  "dash_summary_of do_ipc now start ms =
     (let bs = xb_broker (ms_exec ms);
          certs = certs_of ms;
          grants = (case the_grants ms of None \<Rightarrow> [] | Some gs \<Rightarrow> list_active_grants now gs);
          targets = cfg_targets (rc_raw (the_policy ms));
          tm = bk_tasks (ms_tasks ms)
      in \<lparr>dy_uptime = format_uptime (now - start), dy_signer_ok = (client_ping do_ipc = None),
          dy_active_certs = length certs + length grants, dy_pending = length (list_pending (cb_state bs)),
          dy_total_granted = cb_grant_count bs, dy_total_denied = cb_deny_count bs,
          dy_agents_active = length (remdups (map av_agent_name certs @ map ag_agent grants)),
          dy_hosts_online = length targets,
          dy_hosts_enabled = length (filter (\<lambda>(name, _). host_is_enabled (cb_hosts bs) name) targets),
          dy_active_grants = length grants, dy_grant_mode = map_option gs_mode (the_grants ms),
          dy_tasks_active = task_count now tm, dy_tasks_delegated = count_delegations now tm\<rparr>)"

section \<open>The end of the audit log\<close>

text \<open>
  The scan stops at the first line that does not fit into its buffer. With a filter, lines that are no
  object are left out and an event type that is not a string lets its line pass.
\<close>

definition type_passes :: "(string \<Rightarrow> bool) \<Rightarrow> string \<Rightarrow> bytes \<Rightarrow> bool" where
  "type_passes fits wanted line =
     (wanted = [] \<or>
      (case json_parse line of
         Some (JObj fs) \<Rightarrow>
           numbers_fit fits (JObj fs) \<and>
           (case map_of (rev fs) ''event_type'' of Some (JStr t) \<Rightarrow> str_contains t wanted | _ \<Rightarrow> True)
       | Some JNull \<Rightarrow> True
       | _ \<Rightarrow> False))"

fun newest_events :: "(bytes \<Rightarrow> bool) \<Rightarrow> nat \<Rightarrow> bytes list \<Rightarrow> bytes list \<Rightarrow> bytes list" where
  "newest_events passes limit [] events = events"
| "newest_events passes limit (line # lines) events =
     (if length events \<ge> limit then events
      else newest_events passes limit lines (if passes line then events @ [line] else events))"

definition audit_tail :: "(string \<Rightarrow> bool) \<Rightarrow> nat \<Rightarrow> string \<Rightarrow> bytes \<Rightarrow> bytes list" where
  "audit_tail fits limit wanted file =
     (let lines = filter (\<lambda>l. l \<noteq> [])
                    (map drop_cr (takeWhile (\<lambda>l. int (length l) < 1048576) (scan_lines file)))
      in rev (newest_events (type_passes fits wanted) limit (rev lines) []))"

lemma newest_events_take:
  "newest_events passes limit lines events =
     (if length events \<ge> limit then events else take limit (events @ filter passes lines))"
  by (induction lines arbitrary: events) (auto simp: not_le take_Cons')

section \<open>Tasks\<close>

record dash_task =
  dt_task :: task
  dt_remaining :: duration
  dt_max_ttl :: duration
  dt_revoked :: bool
  dt_child_count :: nat
  dt_bind_deadline :: "time option"
  dt_macaroon :: bool

definition task_to_dashboard :: "time \<Rightarrow> 'k broker \<Rightarrow> task \<Rightarrow> dash_task" where
  "task_to_dashboard now bk t =
     \<lparr>dt_task = t, dt_remaining = max 0 (tk_expires_at t - now), dt_max_ttl = tk_expires_at t - tk_created_at t,
      dt_revoked = is_revoked (bk_revocation bk) (tk_id t),
      dt_child_count = length (get_children now (bk_tasks bk) (tk_id t)),
      dt_bind_deadline = (if tk_bind_deadline t \<noteq> 0 then Some (tk_bind_deadline t) else None),
      dt_macaroon = (tk_sig_digest t \<noteq> [])\<rparr>"

definition dash_tasks :: "time \<Rightarrow> string \<Rightarrow> 'k broker \<Rightarrow> dash_task list" where
  "dash_tasks now agent bk =
     map (task_to_dashboard now bk)
       (if agent \<noteq> [] then list_tasks now (bk_tasks bk) agent else list_all_tasks now (bk_tasks bk))"

datatype ancestor_status = AncestorActive | AncestorRevoked | AncestorExpired

definition lineage_entry :: "time \<Rightarrow> 'k broker \<Rightarrow> string \<Rightarrow> string \<times> string \<times> int \<times> ancestor_status" where
  "lineage_entry now bk tid =
     (case get_task now (bk_tasks bk) tid of
        None \<Rightarrow> (tid, [], 0, AncestorExpired)
      | Some t \<Rightarrow> (tid, tk_description t, tk_depth t,
                    if is_revoked (bk_revocation bk) tid then AncestorRevoked else AncestorActive))"

record dash_task_detail =
  dx_task :: dash_task
  dx_children :: "dash_task list"
  dx_tree :: "dash_task list"
  dx_lineage :: "(string \<times> string \<times> int \<times> ancestor_status) list"

definition dash_task_detail_of :: "time \<Rightarrow> string \<Rightarrow> 'k broker \<Rightarrow> dash_task_detail option" where
  "dash_task_detail_of now tid bk =
     map_option (\<lambda>t.
       \<lparr>dx_task = task_to_dashboard now bk t,
        dx_children = map (task_to_dashboard now bk) (get_children now (bk_tasks bk) tid),
        dx_tree = map (task_to_dashboard now bk) (get_task_tree now (bk_tasks bk) (tk_root_id t)),
        dx_lineage = map (lineage_entry now bk) (tk_lineage t)\<rparr>)
       (get_task now (bk_tasks bk) tid)"

section \<open>Permissions and roles\<close>

record perm_view =
  pv_legacy_mode :: bool
  pv_dashboard :: string
  pv_perms :: resolved_agent_perms
  pv_inherits :: "string list"

definition level_name :: "dashboard_level \<Rightarrow> string" where
  "level_name l =
     (case l of DashboardViewer \<Rightarrow> ''viewer'' | DashboardOperator \<Rightarrow> ''operator'' | DashboardAdmin \<Rightarrow> ''admin''
      | DashboardNone \<Rightarrow> ''none'')"

definition dash_permissions :: "'k resolved_config \<Rightarrow> (string, perm_view) gomap" where
  "dash_permissions rc =
     map (\<lambda>(name, p). (name,
       \<lparr>pv_legacy_mode = rp_legacy_mode p, pv_dashboard = level_name (rp_dashboard p), pv_perms = p,
        pv_inherits = (case get (cfg_agents (rc_raw rc)) name of None \<Rightarrow> [] | Some a \<Rightarrow> ap_inherits a)\<rparr>)) (rc_agent_perms rc)"

definition dash_roles :: "'k resolved_config \<Rightarrow> (string \<times> string \<times> string) list" where
  "dash_roles rc = map (\<lambda>(name, r). (name, rd_principal r, rd_description r)) (cfg_roles (rc_raw rc))"

end
