(* ===== verification/Dashboard.thy ===== *)
theory Dashboard
  imports DashboardViews Activity
begin

text \<open>
  The dashboard's API: authentication, routes and the handlers that change state, of
  \<open>internal/broker/dashboard.go\<close>, \<open>config.go\<close> and \<open>activity.go\<close>. How a request body is decoded into a
  struct is the JSON library's part and an argument. Audit events and broadcasts are left out, as are the
  metrics, the event stream, the terminal and the files that the dashboard itself consists of.
\<close>

section \<open>State\<close>

record ('k, 'c) dashboard =
  db_server :: "('k, 'c) mcp_server"
  db_configs :: "config_manager option"
  db_activity :: activity_store
  db_audit_file :: "bytes option"
  db_start :: time

record grant_settings =
  st_mode :: string
  st_service_ttl :: string
  st_mcp_ttl :: string

record dash_env =
  de_json :: config_json
  de_saved :: bool
  de_host_config :: "bytes \<Rightarrow> host_config option"
  de_service :: "bytes \<Rightarrow> service_config option"
  de_remote :: "bytes \<Rightarrow> remote_config option"
  de_settings :: "bytes \<Rightarrow> grant_settings option"
  de_parse_time :: "string \<Rightarrow> time option"

section \<open>Authentication\<close>

text \<open>
  A token may come in the header, with or without \<open>Bearer\<close>, or else in the query. The root page and
  the static files are open.
\<close>

definition open_path :: "string \<Rightarrow> bool" where
  "open_path path \<longleftrightarrow> path = ''/'' \<or> has_prefix ''/static/'' path"

definition presented_token :: "string \<Rightarrow> (string, string) gomap \<Rightarrow> string" where
  "presented_token header params =
     (let t = (if has_prefix ''Bearer '' header then drop 7 header else header)
      in if t = [] then (case get params ''token'' of None \<Rightarrow> [] | Some s \<Rightarrow> s) else t)"

section \<open>Routes\<close>

datatype dash_route =
    HealthRoute | CertsRoute | TargetsRoute | SummaryRoute | HostsRoute | SessionsRoute | AuditRoute
  | ToggleHost string | RevokeSession string | EventStream
  | HostConfigsRoute | HostConfigRoute string | PutHostConfig string | DeleteHostConfig string | RolesRoute
  | TerminalRoute
  | ActivityRoute | ActivitySummaryRoute | AgentActivityRoute string
  | ServicesRoute | ServiceRoute string | PutService string | DeleteService string
  | RemotesRoute | RemoteRoute string | PutRemote string | DeleteRemote string | RefreshRemote string
  | ToggleService string | ToggleRemote string
  | PermissionsRoute
  | RevokeGrantRoute string | GrantSettingsRoute | PutGrantSettings
  | TasksRoute | TaskRoute string | RevokeTaskRoute string
  | MetricsRoute | DashboardMetricsRoute

text \<open>The table of \<open>dashboardRoutes\<close>, with the path below \<open>/v1\<close> cut into its segments.\<close>

definition dash_get :: "string list \<Rightarrow> dash_route option" where
  "dash_get segs =
     (case segs of
        [a] \<Rightarrow>
          if a = ''health'' then Some HealthRoute else if a = ''certs'' then Some CertsRoute
          else if a = ''targets'' then Some TargetsRoute else if a = ''events'' then Some EventStream
          else if a = ''metrics'' then Some MetricsRoute else None
      | [a, b] \<Rightarrow>
          if a \<noteq> ''dashboard'' then None
          else if b = ''summary'' then Some SummaryRoute else if b = ''hosts'' then Some HostsRoute
          else if b = ''sessions'' then Some SessionsRoute else if b = ''audit'' then Some AuditRoute
          else if b = ''terminal'' then Some TerminalRoute else if b = ''activity'' then Some ActivityRoute
          else if b = ''services'' then Some ServicesRoute else if b = ''remotes'' then Some RemotesRoute
          else if b = ''permissions'' then Some PermissionsRoute else if b = ''tasks'' then Some TasksRoute
          else if b = ''metrics'' then Some DashboardMetricsRoute else None
      | [a, b, c] \<Rightarrow>
          if a \<noteq> ''dashboard'' then None
          else if b = ''config'' then
            (if c = ''hosts'' then Some HostConfigsRoute else if c = ''roles'' then Some RolesRoute else None)
          else if b = ''activity'' \<and> c = ''summary'' then Some ActivitySummaryRoute
          else if b = ''services'' then Some (ServiceRoute c) else if b = ''remotes'' then Some (RemoteRoute c)
          else if b = ''settings'' \<and> c = ''grants'' then Some GrantSettingsRoute
          else if b = ''tasks'' then Some (TaskRoute c) else None
      | [a, b, c, d] \<Rightarrow>
          if a \<noteq> ''dashboard'' then None
          else if b = ''config'' \<and> c = ''hosts'' then Some (HostConfigRoute d)
          else if b = ''activity'' \<and> c = ''agent'' then Some (AgentActivityRoute d) else None
      | _ \<Rightarrow> None)"

definition dash_post :: "string list \<Rightarrow> dash_route option" where
  "dash_post segs =
     (case segs of
        [a, b, c, d] \<Rightarrow>
          if a \<noteq> ''dashboard'' then None
          else if b = ''hosts'' \<and> d = ''toggle'' then Some (ToggleHost c)
          else if b = ''sessions'' \<and> d = ''revoke'' then Some (RevokeSession c)
          else if b = ''remotes'' \<and> d = ''refresh'' then Some (RefreshRemote c)
          else if b = ''services'' \<and> d = ''toggle'' then Some (ToggleService c)
          else if b = ''remotes'' \<and> d = ''toggle'' then Some (ToggleRemote c)
          else if b = ''grants'' \<and> d = ''revoke'' then Some (RevokeGrantRoute c)
          else if b = ''tasks'' \<and> d = ''revoke'' then Some (RevokeTaskRoute c) else None
      | _ \<Rightarrow> None)"

definition dash_put :: "string list \<Rightarrow> dash_route option" where
  "dash_put segs =
     (case segs of
        [a, b, c] \<Rightarrow>
          if a \<noteq> ''dashboard'' then None
          else if b = ''services'' then Some (PutService c) else if b = ''remotes'' then Some (PutRemote c)
          else if b = ''settings'' \<and> c = ''grants'' then Some PutGrantSettings else None
      | [a, b, c, d] \<Rightarrow>
          if a = ''dashboard'' \<and> b = ''config'' \<and> c = ''hosts'' then Some (PutHostConfig d) else None
      | _ \<Rightarrow> None)"

definition dash_delete :: "string list \<Rightarrow> dash_route option" where
  "dash_delete segs =
     (case segs of
        [a, b, c] \<Rightarrow>
          if a \<noteq> ''dashboard'' then None
          else if b = ''services'' then Some (DeleteService c) else if b = ''remotes'' then Some (DeleteRemote c) else None
      | [a, b, c, d] \<Rightarrow>
          if a = ''dashboard'' \<and> b = ''config'' \<and> c = ''hosts'' then Some (DeleteHostConfig d) else None
      | _ \<Rightarrow> None)"

definition dash_routes :: "string \<Rightarrow> string \<Rightarrow> dash_route option" where
  "dash_routes method path =
     (case split_on (CHR ''/'') path of
        a # b # segs \<Rightarrow>
          if a \<noteq> [] \<or> b \<noteq> ''v1'' \<or> [] \<in> set segs then None
          else if method = ''GET'' \<or> method = ''HEAD'' then dash_get segs
          else if method = ''POST'' then dash_post segs
          else if method = ''PUT'' then dash_put segs
          else if method = ''DELETE'' then dash_delete segs else None
      | _ \<Rightarrow> None)"

section \<open>Answers\<close>

datatype dash_error =
    DashUnavailable
  | DashBadBody
  | DashNotFound string
  | GrantConflict
  | ConfigRefused host_config_error
  | ServiceRefused service_error
  | RemoteRefused remote_error

datatype dash_answer =
    Health "string \<times> nat \<times> nat \<times> bool"
  | CertsShown "active_cert list"
  | TargetsShown "http_error + (string \<times> string \<times> int \<times> string list \<times> bool \<times> string) list"
  | SummaryShown dash_summary
  | HostsShown "dash_host list"
  | SessionsShown "dash_session list"
  | AuditShown "bytes list"
  | Toggled string bool
  | RevokedShown string
  | ConfigsShown "host_config list"
  | ConfigShown "host_config option"
  | DoneFor string
  | RolesShown "(string \<times> string \<times> string) list"
  | ActivityShown "activity_entry list"
  | ActivitySummaryShown activity_summary
  | AgentActivityShown string agent_stats "activity_entry list"
  | ServicesShown "service_config list"
  | ServiceShown service_config
  | RemotesShown "remote_info list"
  | RemoteShown remote_info
  | PermissionsShown "(string, perm_view) gomap"
  | SettingsShown grant_mode string string nat
  | TasksShown "dash_task list"
  | TaskShown dash_task_detail
  | Cascade string nat
  | Elsewhere

section \<open>Handlers\<close>

definition set_certs :: "'k cert_broker \<Rightarrow> ('k, 'c) mcp_server \<Rightarrow> ('k, 'c) mcp_server" where
  "set_certs bs ms = ms\<lparr>ms_exec := (ms_exec ms)\<lparr>xb_broker := bs\<rparr>\<rparr>"

definition drop_cert :: "string \<Rightarrow> 'k cert_broker \<Rightarrow> 'k cert_broker" where
  "drop_cert serial bs =
     bs\<lparr>cb_state := snd (state_remove_cert serial (cb_state bs)), cb_engine := remove_cert (parse_serial serial) (cb_engine bs)\<rparr>"

definition dash_toggle_host :: "string \<Rightarrow> 'k cert_broker \<Rightarrow> (dash_error + bool) \<times> 'k cert_broker" where
  "dash_toggle_host name bs =
     (if get (cfg_targets (rc_raw (cb_policy bs))) name = None then (Inl (DashNotFound name), bs)
      else
        (case host_toggle name (cb_hosts bs) of
           (enabled, hosts) \<Rightarrow>
             let bs = bs\<lparr>cb_hosts := hosts\<rparr>
             in (Inr enabled,
                 if enabled then bs
                 else fold (\<lambda>c. if av_target c = name then drop_cert (av_serial c) else id) (list_all_certs (cb_state bs)) bs)))"

definition dash_revoke_session :: "string \<Rightarrow> 'k cert_broker \<Rightarrow> dash_error option \<times> 'k cert_broker" where
  "dash_revoke_session serial bs =
     (case get_cert serial (cb_state bs) of
        None \<Rightarrow> (Some (DashNotFound serial), bs)
      | Some _ \<Rightarrow> (None, drop_cert serial bs))"

definition dash_put_service ::
    "fed_env \<Rightarrow> string \<Rightarrow> service_config option \<Rightarrow> proxy_engine \<Rightarrow> dash_error option \<times> proxy_engine" where
  "dash_put_service env name body px =
     (case body of
        None \<Rightarrow> (Some DashBadBody, px)
      | Some svc \<Rightarrow>
          (case add_service (fe_read_file env) (fe_has_certs env) (svc\<lparr>sv_name := name\<rparr>) px of
             (e, px) \<Rightarrow> (map_option ServiceRefused e, px)))"

definition dash_toggle_service :: "string \<Rightarrow> proxy_engine \<Rightarrow> (dash_error + bool) \<times> proxy_engine" where
  "dash_toggle_service name px =
     (case get (px_services px) name of
        None \<Rightarrow> (Inl (DashNotFound name), px)
      | Some svc \<Rightarrow>
          let enabled = (case sv_enabled svc of None \<Rightarrow> False | Some b \<Rightarrow> \<not> b)
          in (Inr enabled, px\<lparr>px_services := put name (svc\<lparr>sv_enabled := Some enabled\<rparr>) (px_services px)\<rparr>))"

text \<open>A remote of the same name is removed before the new configuration is looked at.\<close>

definition dash_put_remote ::
    "fed_env \<Rightarrow> bool \<Rightarrow> string \<Rightarrow> remote_config option \<Rightarrow> federator \<Rightarrow> dash_error option \<times> federator" where
  "dash_put_remote env saved name body fed =
     (case body of
        None \<Rightarrow> (Some DashBadBody, fed)
      | Some cfg \<Rightarrow>
          (case add_remote env saved (cfg\<lparr>rm_name := name\<rparr>) (snd (remove_remote saved name fed)) of
             (e, fed) \<Rightarrow> (map_option RemoteRefused e, fed)))"

definition dash_toggle_remote :: "string \<Rightarrow> federator \<Rightarrow> (dash_error + bool) \<times> federator" where
  "dash_toggle_remote name fed =
     (case get fed name of
        None \<Rightarrow> (Inl (DashNotFound name), fed)
      | Some st \<Rightarrow>
          let enabled = \<not> rm_enabled (rt_config st);
              st = st\<lparr>rt_config := (rt_config st)\<lparr>rm_enabled := enabled\<rparr>\<rparr>;
              st = (if enabled then st else st\<lparr>rt_status := Disconnected, rt_message := DisabledByDashboard\<rparr>)
          in (Inr enabled, put name st fed))"

definition dash_refresh_remote ::
    "fed_env \<Rightarrow> time \<Rightarrow> string \<Rightarrow> federator \<times> int \<Rightarrow> dash_error option \<times> federator \<times> int" where
  "dash_refresh_remote env now name = (\<lambda>(fed, ids).
     case get fed name of
       None \<Rightarrow> (Some (DashNotFound name), fed, ids)
     | Some st \<Rightarrow> (case discover_remote env now ids st of (_, st, ids) \<Rightarrow> (None, put name st fed, ids)))"

definition dash_revoke_grant :: "string \<Rightarrow> grant_store \<Rightarrow> dash_error option \<times> grant_store" where
  "dash_revoke_grant gid gs =
     (case revoke_grant gid gs of
        (Some AlreadyRevoked, gs) \<Rightarrow> (Some GrantConflict, gs)
      | (Some GrantNotFound, gs) \<Rightarrow> (Some (DashNotFound gid), gs)
      | (None, gs) \<Rightarrow> (None, gs))"

definition positive_duration :: "string \<Rightarrow> duration \<Rightarrow> duration" where
  "positive_duration text old =
     (if text = [] then old else case parse_duration text of None \<Rightarrow> old | Some d \<Rightarrow> if d > 0 then d else old)"

definition dash_put_settings :: "grant_settings \<Rightarrow> grant_store \<Rightarrow> grant_store" where
  "dash_put_settings st gs =
     gs\<lparr>gs_mode := (if st_mode st = ''ttl'' then ModeTTL
                    else if st_mode st = ''passthrough'' then ModePassthrough else gs_mode gs),
        gs_service_ttl := positive_duration (st_service_ttl st) (gs_service_ttl gs),
        gs_mcp_ttl := positive_duration (st_mcp_ttl st) (gs_mcp_ttl gs)\<rparr>"

definition show_settings :: "time \<Rightarrow> grant_store \<Rightarrow> dash_answer" where
  "show_settings now gs =
     SettingsShown (gs_mode gs) (format_duration (gs_service_ttl gs)) (format_duration (gs_mcp_ttl gs))
       (length (list_active_grants now gs))"

text \<open>Revocation from the dashboard: the tasks below, the preview, and the cascade.\<close>

definition descendants :: "time \<Rightarrow> string \<Rightarrow> task \<Rightarrow> 'k broker \<Rightarrow> task list" where
  "descendants now tid t bk =
     filter (\<lambda>d. tk_id d \<noteq> tid \<and> list_ex (\<lambda>a. a = tid) (tk_lineage d)) (get_task_tree now (bk_tasks bk) (tk_root_id t))"

definition revoke_one :: "time \<Rightarrow> string \<Rightarrow> 'k broker \<Rightarrow> 'k broker" where
  "revoke_one now tid bk = drop_task tid (bk\<lparr>bk_revocation := revoke now tid (bk_revocation bk)\<rparr>)"

definition dash_revoke_task :: "time \<Rightarrow> string \<Rightarrow> bool \<Rightarrow> 'k broker \<Rightarrow> (dash_error + nat) \<times> 'k broker" where
  "dash_revoke_task now tid preview bk =
     (case get_task now (bk_tasks bk) tid of
        None \<Rightarrow> (Inl (DashNotFound tid), bk)
      | Some t \<Rightarrow>
          let ds = descendants now tid t bk
          in (Inr (length ds),
              if preview then bk else fold (\<lambda>d. revoke_one now (tk_id d)) ds (revoke_one now tid bk)))"

definition activity_query_of :: "dash_env \<Rightarrow> (string, string) gomap \<Rightarrow> activity_query" where
  "activity_query_of de params =
     (let p = (\<lambda>k. case get params k of None \<Rightarrow> [] | Some v \<Rightarrow> v);
          t = (\<lambda>k. if p k = [] then 0 else case de_parse_time de (p k) of None \<Rightarrow> 0 | Some t \<Rightarrow> t)
      in \<lparr>qy_agent = p ''agent'', qy_type = p ''type'', qy_target = p ''target'', qy_service = p ''service'',
          qy_since = t ''since'', qy_until = t ''until'',
          qy_limit = (case atoi (p ''limit'') of None \<Rightarrow> 0 | Some v \<Rightarrow> if v > 0 then v else 0),
          qy_only_errors = (p ''only_errors'' = ''1'' \<or> p ''only_errors'' = ''true'')\<rparr>)"

section \<open>Dispatch\<close>

text \<open>The routes that only read.\<close>

definition or_missing :: "string \<Rightarrow> ('a \<Rightarrow> dash_answer) \<Rightarrow> 'a option \<Rightarrow> dash_error + dash_answer" where
  "or_missing name f x = (case x of None \<Rightarrow> Inl (DashNotFound name) | Some v \<Rightarrow> Inr (f v))"

definition if_up :: "('a \<Rightarrow> dash_error + dash_answer) \<Rightarrow> 'a option \<Rightarrow> dash_error + dash_answer" where
  "if_up f x = (case x of None \<Rightarrow> Inl DashUnavailable | Some v \<Rightarrow> f v)"

definition dash_read ::
    "('k, 'c) mcp_env \<Rightarrow> dash_env \<Rightarrow> time \<Rightarrow> int \<Rightarrow> (string, string) gomap \<Rightarrow> dash_route \<Rightarrow> ('k, 'c) dashboard \<Rightarrow>
     dash_error + dash_answer" where
  "dash_read env de now tz params r ds =
     (let ms = db_server ds;
          bs = xb_broker (ms_exec ms);
          do_ipc = sx_do_ipc (me_ssh env);
          p = (\<lambda>k. case get params k of None \<Rightarrow> [] | Some v \<Rightarrow> v)
      in case r of
           HealthRoute \<Rightarrow> Inr (Health (handle_health do_ipc now (db_start ds) bs))
         | CertsRoute \<Rightarrow> Inr (CertsShown (handle_list_certs None bs))
         | TargetsRoute \<Rightarrow> Inr (TargetsShown (fst (handle_list_targets now None [] [] bs)))
         | SummaryRoute \<Rightarrow> Inr (SummaryShown (dash_summary_of do_ipc now (db_start ds) ms))
         | HostsRoute \<Rightarrow> Inr (HostsShown (dash_hosts (db_configs ds) ms))
         | SessionsRoute \<Rightarrow> Inr (SessionsShown (dash_sessions now tz ms))
         | AuditRoute \<Rightarrow>
             Inr (AuditShown (case db_audit_file ds of
               None \<Rightarrow> []
             | Some f \<Rightarrow>
                 audit_tail (me_float_fits env)
                   (case atoi (p ''limit'') of None \<Rightarrow> 50 | Some v \<Rightarrow> if v > 0 then nat v else 50) (p ''type'') f))
         | HostConfigsRoute \<Rightarrow> if_up (\<lambda>cm. Inr (ConfigsShown (get_all_configs cm))) (db_configs ds)
         | HostConfigRoute name \<Rightarrow>
             if_up (\<lambda>cm. or_missing name (\<lambda>c. ConfigShown (Some c)) (get_config name cm)) (db_configs ds)
         | RolesRoute \<Rightarrow> Inr (RolesShown (dash_roles (the_policy ms)))
         | ActivityRoute \<Rightarrow> Inr (ActivityShown (query (activity_query_of de params) (db_activity ds)))
         | ActivitySummaryRoute \<Rightarrow> Inr (ActivitySummaryShown (summary (db_activity ds)))
         | AgentActivityRoute name \<Rightarrow>
             Inr (AgentActivityShown name
               (case agent_summary name (db_activity ds) of None \<Rightarrow> no_stats | Some st \<Rightarrow> st)
               (query (no_query\<lparr>qy_agent := name, qy_limit := 200\<rparr>) (db_activity ds)))
         | ServicesRoute \<Rightarrow> if_up (\<lambda>px. Inr (ServicesShown (list_services px))) (ms_proxy ms)
         | ServiceRoute name \<Rightarrow> if_up (\<lambda>px. or_missing name ServiceShown (get_service name px)) (ms_proxy ms)
         | RemotesRoute \<Rightarrow>
             Inr (RemotesShown (case ms_federator ms of None \<Rightarrow> [] | Some (fed, _) \<Rightarrow> list_remote_states fed))
         | RemoteRoute name \<Rightarrow>
             or_missing name RemoteShown (case ms_federator ms of None \<Rightarrow> None | Some (fed, _) \<Rightarrow> get_remote_state fed name)
         | PermissionsRoute \<Rightarrow> Inr (PermissionsShown (dash_permissions (the_policy ms)))
         | GrantSettingsRoute \<Rightarrow> if_up (\<lambda>gs. Inr (show_settings now gs)) (the_grants ms)
         | TasksRoute \<Rightarrow> Inr (TasksShown (dash_tasks now (p ''agent'') (ms_tasks ms)))
         | TaskRoute tid \<Rightarrow> or_missing tid TaskShown (dash_task_detail_of now tid (ms_tasks ms))
         | _ \<Rightarrow> Inr Elsewhere)"

text \<open>
  The routes that change something. Each works on its component, \<open>None\<close> when the broker runs without
  it, and the result is put back.
\<close>

definition on_certs ::
    "('k cert_broker \<Rightarrow> 'r \<times> 'k cert_broker) \<Rightarrow> ('k, 'c) dashboard \<Rightarrow> 'r \<times> ('k, 'c) dashboard" where
  "on_certs f ds =
     (case f (xb_broker (ms_exec (db_server ds))) of
        (r, bs) \<Rightarrow> (r, ds\<lparr>db_server := set_certs bs (db_server ds)\<rparr>))"

definition on_proxy ::
    "(proxy_engine \<Rightarrow> (dash_error + 'r) \<times> proxy_engine) \<Rightarrow> ('k, 'c) dashboard \<Rightarrow>
     (dash_error + 'r) \<times> ('k, 'c) dashboard" where
  "on_proxy f ds =
     (case ms_proxy (db_server ds) of
        None \<Rightarrow> (Inl DashUnavailable, ds)
      | Some px \<Rightarrow> (case f px of (r, px) \<Rightarrow> (r, ds\<lparr>db_server := (db_server ds)\<lparr>ms_proxy := Some px\<rparr>\<rparr>)))"

definition on_federator ::
    "(federator \<times> int \<Rightarrow> (dash_error + 'r) \<times> federator \<times> int) \<Rightarrow> ('k, 'c) dashboard \<Rightarrow>
     (dash_error + 'r) \<times> ('k, 'c) dashboard" where
  "on_federator f ds =
     (case ms_federator (db_server ds) of
        None \<Rightarrow> (Inl DashUnavailable, ds)
      | Some fed \<Rightarrow> (case f fed of (r, fed) \<Rightarrow> (r, ds\<lparr>db_server := (db_server ds)\<lparr>ms_federator := Some fed\<rparr>\<rparr>)))"

definition on_configs ::
    "(config_manager \<Rightarrow> (dash_error + 'r) \<times> config_manager) \<Rightarrow> ('k, 'c) dashboard \<Rightarrow>
     (dash_error + 'r) \<times> ('k, 'c) dashboard" where
  "on_configs f ds =
     (case db_configs ds of
        None \<Rightarrow> (Inl DashUnavailable, ds)
      | Some cm \<Rightarrow> (case f cm of (r, cm) \<Rightarrow> (r, ds\<lparr>db_configs := Some cm\<rparr>)))"

definition on_grants ::
    "(grant_store \<Rightarrow> (dash_error + 'r) \<times> grant_store) \<Rightarrow> ('k, 'c) dashboard \<Rightarrow>
     (dash_error + 'r) \<times> ('k, 'c) dashboard" where
  "on_grants f ds =
     (case the_grants (db_server ds) of
        None \<Rightarrow> (Inl DashUnavailable, ds)
      | Some gs \<Rightarrow> (case f gs of (r, gs) \<Rightarrow> (r, ds\<lparr>db_server := set_grants (Some gs) (db_server ds)\<rparr>)))"

definition done_for :: "string \<Rightarrow> dash_error option \<Rightarrow> dash_error + dash_answer" where
  "done_for name e = (case e of None \<Rightarrow> Inr (DoneFor name) | Some e \<Rightarrow> Inl e)"

definition toggled :: "string \<Rightarrow> dash_error + bool \<Rightarrow> dash_error + dash_answer" where
  "toggled name r = map_sum id (Toggled name) r"

definition dash_write ::
    "('k, 'c) mcp_env \<Rightarrow> dash_env \<Rightarrow> time \<Rightarrow> (string, string) gomap \<Rightarrow> bytes \<Rightarrow> dash_route \<Rightarrow> ('k, 'c) dashboard \<Rightarrow>
     (dash_error + dash_answer) \<times> ('k, 'c) dashboard" where
  "dash_write env de now params body r ds =
     (let fe = me_fed env; saved = de_saved de in
      case r of
        ToggleHost name \<Rightarrow> on_certs (\<lambda>bs. apfst (toggled name) (dash_toggle_host name bs)) ds
      | RevokeSession serial \<Rightarrow> on_certs (\<lambda>bs. apfst (done_for serial) (dash_revoke_session serial bs)) ds
      | PutHostConfig name \<Rightarrow>
          on_configs (\<lambda>cm.
            case de_host_config de body of
              None \<Rightarrow> (Inl DashBadBody, cm)
            | Some u \<Rightarrow>
                (case update_config (de_json de) saved name u cm of
                   (Some e, cm) \<Rightarrow> (Inl (ConfigRefused e), cm)
                 | (None, cm) \<Rightarrow> (Inr (ConfigShown (get_config name cm)), cm))) ds
      | DeleteHostConfig name \<Rightarrow>
          on_configs (\<lambda>cm. apfst (\<lambda>e. done_for name (map_option ConfigRefused e)) (delete_config (de_json de) saved name cm)) ds
      | PutService name \<Rightarrow> on_proxy (\<lambda>px. apfst (done_for name) (dash_put_service fe name (de_service de body) px)) ds
      | DeleteService name \<Rightarrow>
          on_proxy (\<lambda>px. apfst (\<lambda>e. done_for name (map_option ServiceRefused e)) (remove_service name px)) ds
      | ToggleService name \<Rightarrow> on_proxy (\<lambda>px. apfst (toggled name) (dash_toggle_service name px)) ds
      | PutRemote name \<Rightarrow>
          on_federator (\<lambda>(fed, ids).
            case dash_put_remote fe saved name (de_remote de body) fed of (e, fed) \<Rightarrow> (done_for name e, fed, ids)) ds
      | DeleteRemote name \<Rightarrow>
          on_federator (\<lambda>(fed, ids).
            case remove_remote saved name fed of (e, fed) \<Rightarrow> (done_for name (map_option RemoteRefused e), fed, ids)) ds
      | RefreshRemote name \<Rightarrow> on_federator (\<lambda>f. apfst (done_for name) (dash_refresh_remote fe now name f)) ds
      | ToggleRemote name \<Rightarrow>
          on_federator (\<lambda>(fed, ids). case dash_toggle_remote name fed of (r, fed) \<Rightarrow> (toggled name r, fed, ids)) ds
      | RevokeGrantRoute gid \<Rightarrow> on_grants (\<lambda>gs. apfst (done_for gid) (dash_revoke_grant gid gs)) ds
      | PutGrantSettings \<Rightarrow>
          on_grants (\<lambda>gs.
            case de_settings de body of
              None \<Rightarrow> (Inl DashBadBody, gs)
            | Some st \<Rightarrow> (let gs = dash_put_settings st gs in (Inr (show_settings now gs), gs))) ds
      | RevokeTaskRoute tid \<Rightarrow>
          (case dash_revoke_task now tid (get params ''preview'' = Some ''true'') (ms_tasks (db_server ds)) of
             (r, bk) \<Rightarrow> (map_sum id (Cascade tid) r, ds\<lparr>db_server := (db_server ds)\<lparr>ms_tasks := bk\<rparr>\<rparr>))
      | _ \<Rightarrow> (Inr Elsewhere, ds))"

definition writes :: "dash_route \<Rightarrow> bool" where
  "writes r =
     (case r of
        ToggleHost _ \<Rightarrow> True | RevokeSession _ \<Rightarrow> True | PutHostConfig _ \<Rightarrow> True | DeleteHostConfig _ \<Rightarrow> True
      | PutService _ \<Rightarrow> True | DeleteService _ \<Rightarrow> True | PutRemote _ \<Rightarrow> True | DeleteRemote _ \<Rightarrow> True
      | RefreshRemote _ \<Rightarrow> True | ToggleService _ \<Rightarrow> True | ToggleRemote _ \<Rightarrow> True | RevokeGrantRoute _ \<Rightarrow> True
      | PutGrantSettings \<Rightarrow> True | RevokeTaskRoute _ \<Rightarrow> True | _ \<Rightarrow> False)"

datatype dash_reply =
    Preflight
  | PageOrFile
  | DashUnauthorized
  | NoRoute
  | Replied "dash_error + dash_answer"

definition dash_serve ::
    "('k, 'c) mcp_env \<Rightarrow> dash_env \<Rightarrow> string \<Rightarrow> time \<Rightarrow> int \<Rightarrow> string \<Rightarrow> string \<Rightarrow> string \<Rightarrow> (string, string) gomap \<Rightarrow> bytes \<Rightarrow>
     ('k, 'c) dashboard \<Rightarrow> dash_reply \<times> ('k, 'c) dashboard" where
  "dash_serve env de tok now tz method path header params body ds =
     (if method = ''OPTIONS'' then (Preflight, ds)
      else if open_path path then (PageOrFile, ds)
      else if presented_token header params \<noteq> tok then (DashUnauthorized, ds)
      else
        (case dash_routes method path of
           None \<Rightarrow> (NoRoute, ds)
         | Some r \<Rightarrow>
             if writes r then (case dash_write env de now params body r ds of (a, ds) \<Rightarrow> (Replied a, ds))
             else (Replied (dash_read env de now tz params r ds), ds)))"

end
