(* ===== verification/DashboardSafety.thy ===== *)
theory DashboardSafety
  imports Dashboard
begin

text \<open>
  What the dashboard's API guarantees: who can change something through it, and what turning a host off
  and replacing a remote do.
\<close>

section \<open>Reading changes nothing\<close>

lemma get_reads: "dash_get segs = Some r \<Longrightarrow> \<not> writes r"
  by (auto simp: dash_get_def writes_def split: list.splits if_splits)

lemma written_routes:
  assumes "dash_routes method path = Some r" "writes r"
  shows "method \<in> {''POST'', ''PUT'', ''DELETE''}"
proof -
  obtain a b segs where split: "split_on (CHR ''/'') path = a # b # segs"
    using assms(1) by (auto simp: dash_routes_def split: list.splits)
  show ?thesis
  proof (cases "method = ''GET'' \<or> method = ''HEAD''")
    case True
    then have "dash_get segs = Some r" using assms(1) split by (simp add: dash_routes_def split: if_splits)
    then show ?thesis using get_reads assms(2) by blast
  next
    case False
    then show ?thesis using assms(1) split by (auto simp: dash_routes_def split: if_splits)
  qed
qed

section \<open>Only its own component\<close>

lemma spares_tasks:
  "ms_tasks (db_server (snd (on_certs f ds))) = ms_tasks (db_server ds)"
  "ms_tasks (db_server (snd (on_proxy g ds))) = ms_tasks (db_server ds)"
  "ms_tasks (db_server (snd (on_federator h ds))) = ms_tasks (db_server ds)"
  "ms_tasks (db_server (snd (on_configs k ds))) = ms_tasks (db_server ds)"
  "ms_tasks (db_server (snd (on_grants l ds))) = ms_tasks (db_server ds)"
  by (simp_all add: on_certs_def on_proxy_def on_federator_def on_configs_def on_grants_def set_certs_def set_grants_def
      split: option.split prod.split)

lemma writes_spare_tasks:
  assumes "\<And>tid. r \<noteq> RevokeTaskRoute tid"
  shows "ms_tasks (db_server (snd (dash_write env de now params body r ds))) = ms_tasks (db_server ds)"
  using assms by (cases r) (auto simp: dash_write_def Let_def spares_tasks)

definition same_access :: "('k, 'c) dashboard \<Rightarrow> ('k, 'c) dashboard \<Rightarrow> bool" where
  "same_access ds ds' \<longleftrightarrow>
     ms_tasks (db_server ds') = ms_tasks (db_server ds) \<and>
     xb_sessions (ms_exec (db_server ds')) = xb_sessions (ms_exec (db_server ds)) \<and>
     the_policy (db_server ds') = the_policy (db_server ds)"

lemma remove_spares: "cb_policy (drop_cert s bs) = cb_policy bs"
  by (simp add: drop_cert_def)

lemma drops_spare: "cb_policy (fold (\<lambda>c. if av_target c = name then drop_cert (av_serial c) else id) cs bs) = cb_policy bs"
  by (induction cs arbitrary: bs) (simp_all add: remove_spares)

lemma toggle_spares: "cb_policy (snd (dash_toggle_host name bs)) = cb_policy bs"
  by (simp add: dash_toggle_host_def drops_spare Let_def split: prod.split)

lemma revoke_spares: "cb_policy (snd (dash_revoke_session serial bs)) = cb_policy bs"
  by (simp add: dash_revoke_session_def remove_spares split: option.split)

lemma spares_access:
  "cb_policy (snd (f (xb_broker (ms_exec (db_server ds))))) = the_policy (db_server ds) \<Longrightarrow> same_access ds (snd (on_certs f ds))"
  "same_access ds (snd (on_proxy g ds))" "same_access ds (snd (on_federator h ds))"
  "same_access ds (snd (on_configs k ds))" "same_access ds (snd (on_grants l ds))"
  by (auto simp: same_access_def on_certs_def on_proxy_def on_federator_def on_configs_def on_grants_def
      set_certs_def set_grants_def the_policy_def split: option.split prod.split)

lemma snd_apfst [simp]: "snd (apfst f p) = snd p"
  by (cases p) simp

lemma writes_spare_access:
  assumes "\<And>tid. r \<noteq> RevokeTaskRoute tid"
  shows "same_access ds (snd (dash_write env de now params body r ds))"
  using assms
  by (cases r)
     (auto simp: dash_write_def Let_def toggle_spares revoke_spares the_policy_def same_access_def [of ds ds] intro!: spares_access)

lemma revocation_spares:
  "xb_sessions (ms_exec (db_server (snd (dash_write env de now params body (RevokeTaskRoute tid) ds)))) =
     xb_sessions (ms_exec (db_server ds))"
  "the_policy (db_server (snd (dash_write env de now params body (RevokeTaskRoute tid) ds))) = the_policy (db_server ds)"
  by (simp_all add: dash_write_def Let_def the_policy_def split: prod.split)


section \<open>Hosts\<close>

lemma get_dropped: "get_cert j (cb_state (drop_cert serial bs)) = (if j = serial then None else get_cert j (cb_state bs))"
  by (auto simp: drop_cert_def state_remove_cert_def get_cert_def split: option.split)

lemma get_dropped_all:
  "get_cert j (cb_state (fold (\<lambda>c. if av_target c = name then drop_cert (av_serial c) else id) cs bs)) =
     (if list_ex (\<lambda>c. av_target c = name \<and> av_serial c = j) cs then None else get_cert j (cb_state bs))"
  by (induction cs arbitrary: bs) (auto simp: get_dropped)

text \<open>Turning a host off ends its certificates, all of them and no others.\<close>

theorem host_off_ends_certificates:
  assumes off: "dash_toggle_host name bs = (Inr False, bs')"
    and listed: "map_wf (cs_certs (cb_state bs))" "list_all (\<lambda>(k, c). av_serial c = k) (cs_certs (cb_state bs))"
  shows "get_cert serial (cb_state bs') =
    (case get_cert serial (cb_state bs) of
       None \<Rightarrow> None | Some c \<Rightarrow> if av_target c = name then None else Some c)"
proof -
  obtain hosts where bs': "bs' = fold (\<lambda>c. if av_target c = name then drop_cert (av_serial c) else id)
      (list_all_certs (cb_state bs)) (bs\<lparr>cb_hosts := hosts\<rparr>)"
    using off by (auto simp: dash_toggle_host_def Let_def split: if_splits prod.splits)
  have "list_ex (\<lambda>c. av_target c = name \<and> av_serial c = serial) (list_all_certs (cb_state bs)) \<longleftrightarrow>
      (\<exists>c. get_cert serial (cb_state bs) = Some c \<and> av_target c = name)"
  proof
    assume "list_ex (\<lambda>c. av_target c = name \<and> av_serial c = serial) (list_all_certs (cb_state bs))"
    then obtain k c where c: "(k, c) \<in> set (cs_certs (cb_state bs))" "av_target c = name" "av_serial c = serial"
      by (auto simp: list_ex_iff list_all_certs_def)
    then have "k = serial" using listed(2) by (auto simp: list_all_iff)
    then show "\<exists>c. get_cert serial (cb_state bs) = Some c \<and> av_target c = name"
      using c listed(1) by (auto simp: get_cert_def get_in_set)
  next
    assume "\<exists>c. get_cert serial (cb_state bs) = Some c \<and> av_target c = name"
    then obtain c where "(serial, c) \<in> set (cs_certs (cb_state bs))" "av_target c = name"
      using listed(1) by (auto simp: get_cert_def get_in_set)
    moreover from this have "av_serial c = serial" using listed(2) by (auto simp: list_all_iff)
    ultimately show "list_ex (\<lambda>c. av_target c = name \<and> av_serial c = serial) (list_all_certs (cb_state bs))"
      by (force simp: list_ex_iff list_all_certs_def)
  qed
  then show ?thesis by (auto simp: bs' get_dropped_all split: option.split)
qed

section \<open>Remotes\<close>

text \<open>
  A PUT that is refused removes the remote that had the name: the old one is taken out before the new
  configuration is looked at.
\<close>

lemma get_removed_remote: "get (snd (remove_remote saved name fed)) name = None"
  by (simp add: remove_remote_def split: option.split)

theorem refused_put_removes_remote:
  "fst (dash_put_remote env saved name (Some cfg) fed) \<noteq> None \<Longrightarrow>
     get (snd (dash_put_remote env saved name (Some cfg) fed)) name = None"
proof -
  have "get (snd (add_remote env saved (cfg\<lparr>rm_name := name\<rparr>) f)) name = None"
    if "fst (add_remote env saved (cfg\<lparr>rm_name := name\<rparr>) f) \<noteq> None" "get f name = None" for f
  proof (cases "validate_remote (cfg\<lparr>rm_name := name\<rparr>)")
    case (Inl e)
    then show ?thesis using that(2) by (simp add: add_remote_def)
  next
    case (Inr c)
    show ?thesis
      using that Inr by (auto simp: add_remote_def Let_def split: if_splits)
  qed
  then show "fst (dash_put_remote env saved name (Some cfg) fed) \<noteq> None \<Longrightarrow>
      get (snd (dash_put_remote env saved name (Some cfg) fed)) name = None"
    using get_removed_remote [of saved name fed] by (simp add: dash_put_remote_def case_prod_unfold)
qed

end
