(* ===== verification/Spec2Isabelle.thy ===== *)
theory Spec2Isabelle
  imports Prelude GoTime Encoding Macaroon Reducer RootKeys Minter Verifier TokenEnvelope Tasks
    Revocation RateLimit Pop HostControl CommandFilter Grants PolicyTypes PolicyResolve PolicyEngine
    Ulid Json TaskToken SignerService Delegation McpAuth PolicyLoader PolicyReport
    TaskPolicy BrokerAuth TaskTools TaskSafety TaskGate TaskDelegate TaskCreate
    Sessions CertState Durations CertBroker CertSafety CertRuns
    ExecPool ExecTools ExecSafety ExecRuns
    Urls NetPolicy Proxy ProxyDo ReadLoop ProxySafety ProxyRuns Credentials
    Federation FedTools FedSafety FedRuns
    JsonFuel Stamps AuditLog AuditSafety AuditTamper Anomalies
    ToolDefs McpServer McpSafety McpListing
    Activity HostConfigs DashboardViews Dashboard DashboardSafety
begin

text \<open>
  Verification of the Ephyr access broker.
\<close>

end
